(* ===== verification/Prelude.thy ===== *)
theory Prelude
  imports Main "HOL-Library.Word" "HOL-Library.AList"
begin

text \<open>
  Shared vocabulary of the RSTunnel development.

  \<^item> Type synonyms for the Rust machine integers, for byte strings and for the 128-bit
    identifiers (\<open>Uuid\<close>) used by every crate.
  \<^item> \<open>result\<close>: Rust's \<open>Result<T, E>\<close> as a sum whose left side is the error, with the
    combinators that model the \<open>?\<close> operator and \<open>ok_or\<close>.
  \<^item> Big-endian encoding of integers (\<open>to_be_bytes\<close>, \<open>from_be_bytes\<close>) with both round trips.
  \<^item> The \<open>str\<close> methods used by the sources (\<open>trim\<close>, \<open>split_once\<close>, \<open>rsplit_once\<close>,
    \<open>to_ascii_lowercase\<close>, \<open>eq_ignore_ascii_case\<close>, decimal \<open>parse\<close>).  A Rust \<open>str\<close> is a
    UTF-8 byte sequence, and a HOL \<open>string\<close> is read here as that byte sequence.
  \<^item> Association lists standing for \<open>HashMap\<close>, where the code iterates over the entries.
\<close>

section \<open>Machine integers and results\<close>

type_synonym u8 = "8 word"
type_synonym u16 = "16 word"
type_synonym u32 = "32 word"
type_synonym u64 = "64 word"
type_synonym i64 = "64 word"
type_synonym u128 = "128 word"
type_synonym Uuid = "128 word"
type_synonym bytes = "8 word list"
type_synonym ('e, 'a) result = "'e + 'a"

named_theorems wire_simps \<open>unfolding rules of the byte-level codecs\<close>
named_theorems policy_simps \<open>unfolding rules of the admission policies\<close>
named_theorems table_simps \<open>lookup rules of the keyed tables\<close>

abbreviation Ok :: "'a \<Rightarrow> ('e, 'a) result" where
  "Ok x \<equiv> Inr x"

abbreviation Err :: "'e \<Rightarrow> ('e, 'a) result" where
  "Err e \<equiv> Inl e"

fun and_then :: "('e, 'a) result \<Rightarrow> ('a \<Rightarrow> ('e, 'b) result) \<Rightarrow> ('e, 'b) result" where
  "and_then (Inl e) f = Inl e"
| "and_then (Inr x) f = f x"

fun ok_or :: "'a option \<Rightarrow> 'e \<Rightarrow> ('e, 'a) result" where
  "ok_or None e = Inl e"
| "ok_or (Some x) e = Inr x"

fun map_err :: "('e \<Rightarrow> 'f) \<Rightarrow> ('e, 'a) result \<Rightarrow> ('f, 'a) result" where
  "map_err f (Inl e) = Inl (f e)"
| "map_err f (Inr x) = Inr x"

fun is_ok :: "('e, 'a) result \<Rightarrow> bool" where
  "is_ok (Inl e) = False"
| "is_ok (Inr x) = True"

lemma and_then_Inr_iff [simp]:
  "and_then r f = Inr y \<longleftrightarrow> (\<exists>x. r = Inr x \<and> f x = Inr y)"
  by (cases r) auto

lemma and_then_Inl_iff:
  "and_then r f = Inl e \<longleftrightarrow> r = Inl e \<or> (\<exists>x. r = Inr x \<and> f x = Inl e)"
  by (cases r) auto

lemma ok_or_Inr_iff [simp]: "ok_or x e = Inr y \<longleftrightarrow> x = Some y"
  by (cases x) auto

lemma ok_or_Inl_iff [simp]: "ok_or x e = Inl e' \<longleftrightarrow> x = None \<and> e' = e"
  by (cases x) auto

lemma map_err_Inr_iff [simp]: "map_err f r = Inr y \<longleftrightarrow> r = Inr y"
  by (cases r) auto

lemma is_ok_iff: "is_ok r \<longleftrightarrow> (\<exists>x. r = Inr x)"
  by (cases r) auto

section \<open>Big-endian integers\<close>

text \<open>\<open>be_val\<close> is the number a big-endian byte sequence denotes, \<open>be_digits n x\<close> the \<open>n\<close>
  low-order base-256 digits of \<open>x\<close>, most significant first.\<close>

definition be_val :: "bytes \<Rightarrow> nat" where
  "be_val bs = foldl (\<lambda>a b. a * 256 + unat b) 0 bs"

fun be_digits :: "nat \<Rightarrow> nat \<Rightarrow> bytes" where
  "be_digits 0 x = []"
| "be_digits (Suc n) x = be_digits n (x div 256) @ [of_nat (x mod 256)]"

definition to_be_bytes :: "nat \<Rightarrow> 'w::len word \<Rightarrow> bytes" where
  "to_be_bytes n w = be_digits n (unat w)"

definition from_be_bytes :: "bytes \<Rightarrow> 'w::len word" where
  "from_be_bytes bs = of_nat (be_val bs)"

lemma unat_u8_less [simp]: "unat (b :: u8) < 256"
  using unsigned_less [of b] by simp

lemma be_val_Nil [simp]: "be_val [] = 0"
  by (simp add: be_val_def)

lemma be_val_snoc [simp]: "be_val (bs @ [b]) = be_val bs * 256 + unat b"
  by (simp add: be_val_def)

lemma length_be_digits [simp]: "length (be_digits n x) = n"
  by (induction n arbitrary: x) simp_all

lemma length_to_be_bytes [simp]: "length (to_be_bytes n w) = n"
  by (simp add: to_be_bytes_def)

lemma unat_of_nat_u8: "unat (of_nat x :: u8) = x mod 256"
  by (simp add: unat_of_nat take_bit_eq_mod)

lemma be_val_be_digits: "be_val (be_digits n x) = x mod 256 ^ n"
proof (induction n arbitrary: x)
  case (Suc n)
  have "x mod (256 * 256 ^ n) = 256 * (x div 256 mod 256 ^ n) + x mod 256"
    by (rule mod_mult2_eq)
  with Suc show ?case by (simp add: unat_of_nat_u8)
qed simp

lemma be_val_less: "be_val bs < 256 ^ length bs"
proof (induction bs rule: rev_induct)
  case (snoc b bs)
  have "be_val bs * 256 + unat b < (be_val bs + 1) * 256" by simp
  also have "\<dots> \<le> 256 ^ length bs * 256"
    using snoc by (intro mult_right_mono) simp_all
  finally show ?case by simp
qed simp

lemma be_digits_be_val: "be_digits (length bs) (be_val bs) = bs"
proof (induction bs rule: rev_induct)
  case (snoc b bs)
  have "(be_val bs * 256 + unat b) div 256 = be_val bs"
    by (simp add: div_add1_eq)
  moreover have "(be_val bs * 256 + unat b) mod 256 = unat b"
    by (simp add: mod_add_eq [symmetric])
  ultimately show ?case using snoc by simp
qed simp

lemma from_to_be_bytes:
  assumes "LENGTH('w::len) = 8 * n"
  shows "from_be_bytes (to_be_bytes n (w :: 'w word)) = w"
proof -
  have "(256 :: nat) ^ n = 2 ^ LENGTH('w)"
    by (simp add: assms power_mult)
  then have "be_val (to_be_bytes n w) = unat w"
    using unsigned_less [of w] by (simp add: to_be_bytes_def be_val_be_digits)
  then show ?thesis by (simp add: from_be_bytes_def)
qed

lemma unat_from_be_bytes:
  assumes "8 * length bs \<le> LENGTH('w::len)"
  shows "unat (from_be_bytes bs :: 'w word) = be_val bs"
proof -
  have "be_val bs < 2 ^ (8 * length bs)"
    using be_val_less [of bs] by (simp add: power_mult)
  also have "\<dots> \<le> 2 ^ LENGTH('w)" using assms by (intro power_increasing) simp_all
  finally show ?thesis
    by (simp add: from_be_bytes_def unat_of_nat take_bit_eq_mod)
qed

lemma to_from_be_bytes:
  assumes "length bs = n" "8 * n \<le> LENGTH('w::len)"
  shows "to_be_bytes n (from_be_bytes bs :: 'w word) = bs"
  using assms be_digits_be_val [of bs] by (simp add: to_be_bytes_def unat_from_be_bytes)

lemma from_to_be_bytes_widths [simp]:
  "from_be_bytes (to_be_bytes 2 (a :: u16)) = a"
  "from_be_bytes (to_be_bytes 4 (b :: u32)) = b"
  "from_be_bytes (to_be_bytes 8 (c :: u64)) = c"
  by (simp_all add: from_to_be_bytes)

lemma to_from_be_bytes_widths [simp]:
  "length bs = 2 \<Longrightarrow> to_be_bytes 2 (from_be_bytes bs :: u16) = bs"
  "length bs = 4 \<Longrightarrow> to_be_bytes 4 (from_be_bytes bs :: u32) = bs"
  "length bs = 8 \<Longrightarrow> to_be_bytes 8 (from_be_bytes bs :: u64) = bs"
  by (simp_all add: to_from_be_bytes)

text \<open>The slice \<open>&b[i..j]\<close>; every use is behind the length guard that makes it in range.\<close>

definition slice_of :: "nat \<Rightarrow> nat \<Rightarrow> 'a list \<Rightarrow> 'a list" where
  "slice_of i j xs = take (j - i) (drop i xs)"

lemma length_slice_of [simp]: "j \<le> length xs \<Longrightarrow> length (slice_of i j xs) = j - i"
  by (simp add: slice_of_def)

lemma slice_append_slice: "i \<le> j \<Longrightarrow> j \<le> k \<Longrightarrow> slice_of i j xs @ slice_of j k xs = slice_of i k xs"
proof -
  assume "i \<le> j" "j \<le> k"
  then have "drop j xs = drop (j - i) (drop i xs)" "k - i = (j - i) + (k - j)" by simp_all
  then show ?thesis by (simp add: slice_of_def take_add)
qed

lemma slice_of_0 [simp]: "slice_of 0 n xs = take n xs"
  by (simp add: slice_of_def)

section \<open>Strings\<close>

definition code :: "char \<Rightarrow> nat" where
  "code c = of_char c"

definition chr :: "nat \<Rightarrow> char" where
  "chr n = char_of n"

definition to_ascii_lowercase_char :: "char \<Rightarrow> char" where
  "to_ascii_lowercase_char c = (if 65 \<le> code c \<and> code c \<le> 90 then chr (code c + 32) else c)"

definition to_ascii_lowercase :: "string \<Rightarrow> string" where
  "to_ascii_lowercase s = map to_ascii_lowercase_char s"

definition eq_ignore_ascii_case :: "string \<Rightarrow> string \<Rightarrow> bool" where
  "eq_ignore_ascii_case a b \<longleftrightarrow> to_ascii_lowercase a = to_ascii_lowercase b"

definition split_once :: "char \<Rightarrow> string \<Rightarrow> (string \<times> string) option" where
  "split_once c s =
     (if c \<in> set s then Some (takeWhile (\<lambda>x. x \<noteq> c) s, tl (dropWhile (\<lambda>x. x \<noteq> c) s)) else None)"

definition rsplit_once :: "char \<Rightarrow> string \<Rightarrow> (string \<times> string) option" where
  "rsplit_once c s = map_option (\<lambda>(b, a). (rev a, rev b)) (split_once c (rev s))"

text \<open>The UTF-8 encodings of the Unicode \<open>White_Space\<close> characters, which \<open>str::trim\<close> removes.\<close>

definition white_space :: "string list" where
  "white_space = map (map chr)
     ([[9], [10], [11], [12], [13], [32], [194, 133], [194, 160], [225, 154, 128],
       [226, 128, 168], [226, 128, 169], [226, 128, 175], [226, 129, 159], [227, 128, 128]]
      @ map (\<lambda>k. [226, 128, 128 + k]) [0..<11])"

definition strip_one :: "string list \<Rightarrow> string \<Rightarrow> string option" where
  "strip_one ws s = map_option (\<lambda>w. drop (length w) s)
     (find (\<lambda>w. w \<noteq> [] \<and> take (length w) s = w) ws)"

lemma strip_one_shorter: "strip_one ws s = Some t \<Longrightarrow> length t < length s"
  by (cases s) (auto simp: strip_one_def find_Some_iff)

function strip_start :: "string list \<Rightarrow> string \<Rightarrow> string" where
  "strip_start ws s = (case strip_one ws s of None \<Rightarrow> s | Some t \<Rightarrow> strip_start ws t)"
  by auto
termination
  by (relation "measure (\<lambda>(ws, s). length s)") (simp_all add: strip_one_shorter)

declare strip_start.simps [simp del]

definition trim :: "string \<Rightarrow> string" where
  "trim s = rev (strip_start (map rev white_space) (rev (strip_start white_space s)))"

definition is_digit :: "char \<Rightarrow> bool" where
  "is_digit c \<longleftrightarrow> 48 \<le> code c \<and> code c \<le> 57"

fun digits_val :: "nat \<Rightarrow> string \<Rightarrow> nat option" where
  "digits_val acc [] = Some acc"
| "digits_val acc (c # cs) =
     (if is_digit c then digits_val (acc * 10 + (code c - 48)) cs else None)"

text \<open>\<open>str::parse\<close> at an unsigned type with values below \<open>bound\<close>: a leading \<open>+\<close> is
  accepted, the empty string and a lone sign are not.\<close>

definition parse_unsigned :: "nat \<Rightarrow> string \<Rightarrow> nat option" where
  "parse_unsigned bound s =
     (let t = (case s of [] \<Rightarrow> [] | c # cs \<Rightarrow> if c = CHR ''+'' then cs else s) in
      if t = [] then None
      else case digits_val 0 t of
             None \<Rightarrow> None
           | Some n \<Rightarrow> if n < bound then Some n else None)"

lemma strip_one_eq_drop: "strip_one ws s = Some t \<Longrightarrow> \<exists>n. t = drop n s"
  by (auto simp: strip_one_def)

lemma strip_start_suffix: "\<exists>n. strip_start ws s = drop n s"
proof (induction ws s rule: strip_start.induct)
  case (1 ws s)
  show ?case
  proof (cases "strip_one ws s")
    case None
    then show ?thesis by (auto simp: strip_start.simps [of ws s] intro: exI [of _ 0])
  next
    case (Some t)
    then obtain n m where "t = drop n s" "strip_start ws t = drop m t"
      using 1 strip_one_eq_drop by blast
    with Some show ?thesis by (auto simp: strip_start.simps [of ws s])
  qed
qed

lemma to_ascii_lowercase_idem [simp]:
  "to_ascii_lowercase (to_ascii_lowercase s) = to_ascii_lowercase s"
proof -
  have "to_ascii_lowercase_char (to_ascii_lowercase_char c) = to_ascii_lowercase_char c" for c
    by (simp add: to_ascii_lowercase_char_def code_def chr_def)
  then show ?thesis by (simp add: to_ascii_lowercase_def)
qed

lemma length_to_ascii_lowercase [simp]: "length (to_ascii_lowercase s) = length s"
  by (simp add: to_ascii_lowercase_def)

lemma split_once_Some:
  assumes "split_once c s = Some (a, b)"
  shows "s = a @ c # b" and "c \<notin> set a"
proof -
  from assms have ab: "c \<in> set s" "a = takeWhile (\<lambda>x. x \<noteq> c) s" "b = tl (dropWhile (\<lambda>x. x \<noteq> c) s)"
    by (auto simp: split_once_def split: if_splits)
  have "dropWhile (\<lambda>x. x \<noteq> c) s \<noteq> []" using ab(1) by (simp add: dropWhile_eq_Nil_conv)
  moreover from this have "hd (dropWhile (\<lambda>x. x \<noteq> c) s) = c"
    using hd_dropWhile [of "\<lambda>x. x \<noteq> c" s] by simp
  ultimately have "dropWhile (\<lambda>x. x \<noteq> c) s = c # b" using ab(3) by (metis list.collapse)
  then show "s = a @ c # b" using ab(2) takeWhile_dropWhile_id by metis
  show "c \<notin> set a" using ab(2) by (auto dest: set_takeWhileD)
qed

lemma split_once_append [simp]: "c \<notin> set a \<Longrightarrow> split_once c (a @ c # b) = Some (a, b)"
  by (simp add: split_once_def takeWhile_append dropWhile_append)

lemma parse_unsigned_less: "parse_unsigned bound s = Some n \<Longrightarrow> n < bound"
  by (auto simp: parse_unsigned_def Let_def split: option.splits if_splits)

section \<open>Association lists as hash maps\<close>

text \<open>A \<open>HashMap\<close> whose entries the code iterates over is an association list with
  distinct keys; \<open>AList.update\<close> is \<open>insert\<close> and \<open>AList.delete\<close> is \<open>remove\<close>.\<close>

abbreviation keys_of :: "('k \<times> 'v) list \<Rightarrow> 'k set" where
  "keys_of al \<equiv> fst ` set al"

definition distinct_keys :: "('k \<times> 'v) list \<Rightarrow> bool" where
  "distinct_keys al \<longleftrightarrow> distinct (map fst al)"

lemma distinct_keys_Nil [simp, intro]: "distinct_keys []"
  by (simp add: distinct_keys_def)

lemma distinct_keys_update [simp, intro]:
  "distinct_keys al \<Longrightarrow> distinct_keys (AList.update k v al)"
  by (simp add: distinct_keys_def distinct_update)

lemma distinct_keys_delete [simp, intro]:
  "distinct_keys al \<Longrightarrow> distinct_keys (AList.delete k al)"
  by (simp add: distinct_keys_def distinct_delete)

lemma distinct_keys_filter [simp, intro]:
  "distinct_keys al \<Longrightarrow> distinct_keys (filter P al)"
  by (simp add: distinct_keys_def distinct_map_filter)

lemma alist_lookup_update [simp, table_simps]: "map_of (AList.update k v al) = (map_of al)(k \<mapsto> v)"
  by (simp add: update_conv')

lemma alist_lookup_delete [simp, table_simps]: "map_of (AList.delete k al) = (map_of al)(k := None)"
  by (simp add: delete_conv')

lemma map_of_eq_SomeI: "distinct_keys al \<Longrightarrow> (k, v) \<in> set al \<Longrightarrow> map_of al k = Some v"
  by (simp add: distinct_keys_def)

lemma map_of_filter_distinct:
  "distinct_keys al \<Longrightarrow>
   map_of (filter P al) k = (case map_of al k of None \<Rightarrow> None | Some v \<Rightarrow> if P (k, v) then Some v else None)"
  by (induction al) (auto simp: distinct_keys_def map_of_eq_None_iff split: option.splits)

lemma length_delete_Suc:
  "distinct_keys al \<Longrightarrow> map_of al k = Some v \<Longrightarrow> length al = Suc (length (AList.delete k al))"
proof (induction al)
  case (Cons kv al)
  then show ?case
    by (cases kv) (auto simp: distinct_keys_def delete_id split: if_splits)
qed simp

lemma length_update:
  "length (AList.update k v al) = (if map_of al k = None then Suc (length al) else length al)"
  by (induction al) auto

end
