(* ===== verification/Wire.thy ===== *)
theory Wire
  imports Prelude
begin

text \<open>
  The wire format: \<open>crates/tunnel-protocol\<close> (message types, frames, UDP datagrams, typed
  messages) and \<open>crates/tunnel-core/src/frame_io.rs\<close> (reading and writing frames on a stream).

  Byte buffers are lists of 8-bit words.  \<open>Frame::encode\<close> keeps the \<open>as u32\<close> truncation of the
  length field.  A stream being read is the bytes the peer will deliver together with how the
  stream ends (a clean end of file or an I/O error); a stream being written is the bytes accepted
  so far together with how many more the transport takes before it fails.  \<open>serde_json\<close> is a
  parameter: one codec per payload type, collected in the record \<open>serde_json\<close>, and the only law
  used is that a serialised value deserialises to itself.
\<close>

section \<open>Message types\<close>

datatype MessageType =
    Hello | Auth | AuthOk | AuthFail
  | Ping | Pong
  | ConfigSnapshot | ConfigUpdate | ConfigAck | ConfigResync
  | OpenTcp | OpenOk | OpenFail | Close
  | UdpOpen | UdpClose
  | Stats | Health
  | Error

definition from_u16 :: "u16 \<Rightarrow> MessageType option" where
  "from_u16 v =
     (if v = 0x0001 then Some Hello
      else if v = 0x0002 then Some Auth
      else if v = 0x0003 then Some AuthOk
      else if v = 0x0004 then Some AuthFail
      else if v = 0x0010 then Some Ping
      else if v = 0x0011 then Some Pong
      else if v = 0x0020 then Some ConfigSnapshot
      else if v = 0x0021 then Some ConfigUpdate
      else if v = 0x0022 then Some ConfigAck
      else if v = 0x0023 then Some ConfigResync
      else if v = 0x0030 then Some OpenTcp
      else if v = 0x0031 then Some OpenOk
      else if v = 0x0032 then Some OpenFail
      else if v = 0x0033 then Some Close
      else if v = 0x0040 then Some UdpOpen
      else if v = 0x0041 then Some UdpClose
      else if v = 0x0050 then Some Stats
      else if v = 0x0051 then Some Health
      else if v = 0x0060 then Some Error
      else None)"

fun as_u16 :: "MessageType \<Rightarrow> u16" where
  "as_u16 Hello = 0x0001"
| "as_u16 Auth = 0x0002"
| "as_u16 AuthOk = 0x0003"
| "as_u16 AuthFail = 0x0004"
| "as_u16 Ping = 0x0010"
| "as_u16 Pong = 0x0011"
| "as_u16 ConfigSnapshot = 0x0020"
| "as_u16 ConfigUpdate = 0x0021"
| "as_u16 ConfigAck = 0x0022"
| "as_u16 ConfigResync = 0x0023"
| "as_u16 OpenTcp = 0x0030"
| "as_u16 OpenOk = 0x0031"
| "as_u16 OpenFail = 0x0032"
| "as_u16 Close = 0x0033"
| "as_u16 UdpOpen = 0x0040"
| "as_u16 UdpClose = 0x0041"
| "as_u16 Stats = 0x0050"
| "as_u16 Health = 0x0051"
| "as_u16 Error = 0x0060"

lemma from_u16_as_u16 [simp]: "from_u16 (as_u16 t) = Some t"
  by (cases t) (simp_all add: from_u16_def)

lemma from_u16_Some: "from_u16 v = Some t \<Longrightarrow> as_u16 t = v"
  by (auto simp: from_u16_def split: if_splits)

section \<open>Frames\<close>

definition HEADER_LEN :: nat where "HEADER_LEN = 16"
definition MIN_FRAME_LEN :: nat where "MIN_FRAME_LEN = HEADER_LEN - 4"
definition MAX_FRAME_LEN :: nat where "MAX_FRAME_LEN = 4 * 1024 * 1024"

lemmas frame_consts = HEADER_LEN_def MIN_FRAME_LEN_def MAX_FRAME_LEN_def

record Frame =
  message_type :: MessageType
  flags :: u16
  request_id :: u64
  payload :: bytes

datatype DecodeError =
    LengthTooSmall nat nat
  | FrameTooLarge nat nat
  | UnknownMessage u16

definition new_frame :: "MessageType \<Rightarrow> bytes \<Rightarrow> Frame" where
  "new_frame ty p = \<lparr>message_type = ty, flags = 0, request_id = 0, payload = p\<rparr>"

definition encode :: "Frame \<Rightarrow> bytes" where
  "encode f =
     (let len = MIN_FRAME_LEN + length (payload f) in
      to_be_bytes 4 (of_nat len :: u32)
      @ to_be_bytes 2 (as_u16 (message_type f))
      @ to_be_bytes 2 (flags f)
      @ to_be_bytes 8 (request_id f)
      @ payload f)"

definition read_u16 :: "bytes \<Rightarrow> u16" where
  "read_u16 b = from_be_bytes (slice_of 0 2 b)"

definition read_u32 :: "bytes \<Rightarrow> u32" where
  "read_u32 b = from_be_bytes (slice_of 0 4 b)"

definition read_u64 :: "bytes \<Rightarrow> u64" where
  "read_u64 b = from_be_bytes (slice_of 0 8 b)"

definition try_decode :: "bytes \<Rightarrow> (DecodeError, (Frame \<times> nat) option) result" where
  "try_decode buf =
     (if length buf < 4 then Ok None
      else
        let len = unat (read_u32 (slice_of 0 4 buf)) in
        if len < MIN_FRAME_LEN then Err (LengthTooSmall len MIN_FRAME_LEN)
        else if len > MAX_FRAME_LEN then Err (FrameTooLarge len MAX_FRAME_LEN)
        else
          let total = 4 + len in
          if length buf < total then Ok None
          else
            let ty = read_u16 (slice_of 4 6 buf) in
            and_then (ok_or (from_u16 ty) (UnknownMessage ty)) (\<lambda>mt.
              Ok (Some (\<lparr>message_type = mt,
                         flags = read_u16 (slice_of 6 8 buf),
                         request_id = read_u64 (slice_of 8 16 buf),
                         payload = slice_of 16 total buf\<rparr>, total))))"

text \<open>The frames a peer can decode: the payload fits under the length limit.\<close>

definition frame_ok :: "Frame \<Rightarrow> bool" where
  "frame_ok f \<longleftrightarrow> MIN_FRAME_LEN + length (payload f) \<le> MAX_FRAME_LEN"

lemma length_encode [simp]: "length (encode f) = HEADER_LEN + length (payload f)"
  by (simp add: encode_def Let_def frame_consts)

lemma unat_frame_len:
  assumes "frame_ok f"
  shows "unat (of_nat (MIN_FRAME_LEN + length (payload f)) :: u32) = MIN_FRAME_LEN + length (payload f)"
proof -
  have "MIN_FRAME_LEN + length (payload f) < 2 ^ 32"
    using assms by (simp add: frame_ok_def frame_consts)
  then show ?thesis by (simp add: unat_of_nat take_bit_eq_mod del: of_nat_add)
qed

lemma take4_encode: "4 \<le> k \<Longrightarrow> take 4 (take k (encode f)) =
    to_be_bytes 4 (of_nat (MIN_FRAME_LEN + length (payload f)) :: u32)"
  by (simp add: encode_def Let_def min_def)

lemma read_u32_encode:
  assumes "frame_ok f" "take 4 buf = take 4 (encode f)"
  shows "unat (read_u32 (slice_of 0 4 buf)) = MIN_FRAME_LEN + length (payload f)"
  using assms take4_encode [of 4 f] unat_frame_len [OF assms(1)]
  by (simp add: read_u32_def)

lemma try_decode_encode:
  assumes "frame_ok f"
  shows "try_decode (encode f @ rest) = Ok (Some (f, length (encode f)))"
proof -
  let ?b = "encode f @ rest"
  have len: "unat (read_u32 (slice_of 0 4 ?b)) = MIN_FRAME_LEN + length (payload f)"
    using assms by (intro read_u32_encode) (simp_all add: frame_consts)
  have ty: "read_u16 (slice_of 4 6 ?b) = as_u16 (message_type f)"
    and fl: "read_u16 (slice_of 6 8 ?b) = flags f"
    and rid: "read_u64 (slice_of 8 16 ?b) = request_id f"
    and pl: "slice_of 16 (4 + (MIN_FRAME_LEN + length (payload f))) ?b = payload f"
    by (simp_all add: read_u16_def read_u64_def slice_of_def encode_def Let_def frame_consts)
  have "frame_ok f = (MIN_FRAME_LEN + length (payload f) \<le> MAX_FRAME_LEN)"
    by (simp add: frame_ok_def)
  then show ?thesis
    using assms len ty fl rid pl
    by (simp add: try_decode_def Let_def frame_consts)
qed

lemma try_decode_partial:
  assumes "frame_ok f" "k < length (encode f)"
  shows "try_decode (take k (encode f)) = Ok None"
proof (cases "k < 4")
  case False
  then have "unat (read_u32 (slice_of 0 4 (take k (encode f)))) = MIN_FRAME_LEN + length (payload f)"
    using assms(1) by (intro read_u32_encode) (simp_all add: min_def)
  with assms False show ?thesis
    by (simp add: try_decode_def Let_def frame_ok_def frame_consts)
qed (simp add: try_decode_def frame_consts)

lemma try_decode_Some:
  assumes "try_decode buf = Ok (Some (f, n))"
  shows "n \<le> length buf" and "encode f = take n buf" and "frame_ok f"
proof -
  define len where "len = unat (read_u32 (slice_of 0 4 buf))"
  from assms have g: "\<not> length buf < 4" "\<not> len < MIN_FRAME_LEN" "\<not> len > MAX_FRAME_LEN"
      "\<not> length buf < 4 + len"
    and n: "n = 4 + len"
    and ty: "from_u16 (read_u16 (slice_of 4 6 buf)) = Some (message_type f)"
    and fl: "flags f = read_u16 (slice_of 6 8 buf)"
    and rid: "request_id f = read_u64 (slice_of 8 16 buf)"
    and pl: "payload f = slice_of 16 n buf"
    by (auto simp: try_decode_def Let_def len_def split: if_splits)
  have le: "16 \<le> n" "n \<le> length buf" using g n by (simp_all add: frame_consts)
  have plen: "length (payload f) = n - 16" using pl le by simp
  have "(of_nat len :: u32) = from_be_bytes (take 4 buf)"
    by (simp add: len_def read_u32_def)
  moreover have "MIN_FRAME_LEN + length (payload f) = len"
    using plen n le by (simp add: frame_consts)
  ultimately have "encode f = slice_of 0 4 buf @ slice_of 4 6 buf @ slice_of 6 8 buf
      @ slice_of 8 16 buf @ slice_of 16 n buf"
    using le g by (simp add: encode_def from_u16_Some [OF ty] fl rid pl read_u16_def read_u64_def)
  also have "\<dots> = slice_of 0 n buf" using le by (simp only: slice_append_slice)
  finally show "encode f = take n buf" by simp
  show "n \<le> length buf" by (rule le)
  show "frame_ok f" using plen n g by (simp add: frame_ok_def frame_consts)
qed

lemma try_decode_Err_cases:
  "try_decode buf = Err e \<longleftrightarrow>
     4 \<le> length buf \<and>
     (let len = unat (read_u32 buf) in
      (len < MIN_FRAME_LEN \<and> e = LengthTooSmall len MIN_FRAME_LEN)
      \<or> (len > MAX_FRAME_LEN \<and> e = FrameTooLarge len MAX_FRAME_LEN)
      \<or> (MIN_FRAME_LEN \<le> len \<and> len \<le> MAX_FRAME_LEN \<and> 4 + len \<le> length buf
         \<and> from_u16 (read_u16 (drop 4 buf)) = None \<and> e = UnknownMessage (read_u16 (drop 4 buf))))"
proof -
  have "read_u16 (slice_of 4 6 buf) = read_u16 (drop 4 buf)" "read_u32 (slice_of 0 4 buf) = read_u32 buf"
    by (simp_all add: read_u16_def read_u32_def slice_of_def)
  then show ?thesis
    by (auto simp: try_decode_def Let_def and_then_Inl_iff frame_consts)
qed

section \<open>UDP datagrams\<close>

definition UDP_DATAGRAM_HEADER_LEN :: nat where "UDP_DATAGRAM_HEADER_LEN = 10"

record UdpDatagram =
  dg_flags :: u16
  dg_session_id :: u64
  dg_payload :: bytes

definition encode_udp_datagram :: "u64 \<Rightarrow> bytes \<Rightarrow> bytes" where
  "encode_udp_datagram sid p = to_be_bytes 2 (0 :: u16) @ to_be_bytes 8 sid @ p"

definition decode_udp_datagram :: "bytes \<Rightarrow> UdpDatagram option" where
  "decode_udp_datagram data =
     (if length data < UDP_DATAGRAM_HEADER_LEN then None
      else Some \<lparr>dg_flags = from_be_bytes (slice_of 0 2 data),
                 dg_session_id = from_be_bytes (slice_of 2 10 data),
                 dg_payload = drop UDP_DATAGRAM_HEADER_LEN data\<rparr>)"

lemma length_encode_udp_datagram [simp]:
  "length (encode_udp_datagram sid p) = UDP_DATAGRAM_HEADER_LEN + length p"
  by (simp add: encode_udp_datagram_def UDP_DATAGRAM_HEADER_LEN_def)

lemma decode_encode_udp_datagram [simp]:
  "decode_udp_datagram (encode_udp_datagram sid p) =
     Some \<lparr>dg_flags = 0, dg_session_id = sid, dg_payload = p\<rparr>"
  by (simp add: decode_udp_datagram_def)
    (simp add: encode_udp_datagram_def slice_of_def UDP_DATAGRAM_HEADER_LEN_def)

lemma encode_decode_udp_datagram:
  assumes "decode_udp_datagram data = Some d" "dg_flags d = 0"
  shows "encode_udp_datagram (dg_session_id d) (dg_payload d) = data"
proof -
  have len: "10 \<le> length data"
    and d: "d = \<lparr>dg_flags = from_be_bytes (slice_of 0 2 data),
        dg_session_id = from_be_bytes (slice_of 2 10 data), dg_payload = drop 10 data\<rparr>"
    using assms(1) by (auto simp: decode_udp_datagram_def UDP_DATAGRAM_HEADER_LEN_def split: if_splits)
  have "to_be_bytes 2 (0 :: u16) = to_be_bytes 2 (from_be_bytes (slice_of 0 2 data) :: u16)"
    using assms(2) d by simp
  also have "\<dots> = slice_of 0 2 data" using len by simp
  finally have "encode_udp_datagram (dg_session_id d) (dg_payload d)
      = slice_of 0 2 data @ slice_of 2 10 data @ drop 10 data"
    using len d by (simp add: encode_udp_datagram_def)
  also have "\<dots> = data"
    using slice_append_slice [of 0 2 10 data] by (simp flip: append_assoc)
  finally show ?thesis .
qed

section \<open>Reading and writing frames on a stream\<close>

datatype io_error = UnexpectedEof | OtherIo
datatype stream_end = Eof | IoFailure

record rstream =
  pending :: bytes
  ending :: stream_end

record wstream =
  written :: bytes
  room :: "nat option"

datatype ReadError =
    ReadFrameLength io_error
  | InvalidFrameLength nat
  | ReadFrameBody io_error
  | ReadDecode DecodeError
  | FrameTruncated

definition read_exact :: "nat \<Rightarrow> rstream \<Rightarrow> (io_error, bytes) result \<times> rstream" where
  "read_exact n s =
     (if n \<le> length (pending s)
      then (Ok (take n (pending s)), s\<lparr>pending := drop n (pending s)\<rparr>)
      else (Err (case ending s of Eof \<Rightarrow> UnexpectedEof | IoFailure \<Rightarrow> OtherIo), s\<lparr>pending := []\<rparr>))"

definition write_all :: "bytes \<Rightarrow> wstream \<Rightarrow> (io_error, unit) result \<times> wstream" where
  "write_all bs w =
     (case room w of
        None \<Rightarrow> (Ok (), w\<lparr>written := written w @ bs\<rparr>)
      | Some n \<Rightarrow>
          if length bs \<le> n
          then (Ok (), w\<lparr>written := written w @ bs, room := Some (n - length bs)\<rparr>)
          else (Err OtherIo, w\<lparr>written := written w @ take n bs, room := Some 0\<rparr>))"

definition read_frame :: "rstream \<Rightarrow> (ReadError, Frame option) result \<times> rstream" where
  "read_frame s =
     (case read_exact 4 s of
        (Inl UnexpectedEof, s1) \<Rightarrow> (Ok None, s1)
      | (Inl e, s1) \<Rightarrow> (Err (ReadFrameLength e), s1)
      | (Inr len_buf, s1) \<Rightarrow>
          let len = unat (from_be_bytes len_buf :: u32) in
          if \<not> (MIN_FRAME_LEN \<le> len \<and> len \<le> MAX_FRAME_LEN) then (Err (InvalidFrameLength len), s1)
          else
            (case read_exact len s1 of
               (Inl e, s2) \<Rightarrow> (Err (ReadFrameBody e), s2)
             | (Inr body, s2) \<Rightarrow>
                 (case try_decode (len_buf @ body) of
                    Inl e \<Rightarrow> (Err (ReadDecode e), s2)
                  | Inr (Some (frame, _)) \<Rightarrow> (Ok (Some frame), s2)
                  | Inr None \<Rightarrow> (Err FrameTruncated, s2))))"

definition write_frame :: "Frame \<Rightarrow> wstream \<Rightarrow> (io_error, unit) result \<times> wstream" where
  "write_frame f w = write_all (encode f) w"

text \<open>The receive loop shared by the control streams: read until the stream closes or a read
  fails; \<open>fuel\<close> bounds the number of reads.\<close>

fun read_until_close :: "nat \<Rightarrow> (rstream \<Rightarrow> ('e, 'f option) result \<times> rstream) \<Rightarrow> rstream
    \<Rightarrow> ('f list \<times> 'e option) option" where
  "read_until_close 0 get s = None"
| "read_until_close (Suc fuel) get s =
     (case get s of
        (Inl e, _) \<Rightarrow> Some ([], Some e)
      | (Inr None, _) \<Rightarrow> Some ([], None)
      | (Inr (Some f), s') \<Rightarrow>
          map_option (\<lambda>(fs, e). (f # fs, e)) (read_until_close fuel get s'))"

locale framing =
  fixes put :: "'f \<Rightarrow> bytes"
    and get :: "rstream \<Rightarrow> ('e, 'f option) result \<times> rstream"
    and fits :: "'f \<Rightarrow> bool"
  assumes get_put: "fits f \<Longrightarrow> get \<lparr>pending = put f @ rest, ending = z\<rparr>
      = (Ok (Some f), \<lparr>pending = rest, ending = z\<rparr>)"
    and get_closed: "get \<lparr>pending = [], ending = Eof\<rparr> = (Ok None, \<lparr>pending = [], ending = Eof\<rparr>)"
    and get_progress: "get s = (Ok (Some f), s') \<Longrightarrow> length (pending s') < length (pending s)"
begin

lemma stream_roundtrip:
  assumes "\<forall>f\<in>set fs. fits f" "length fs < fuel"
  shows "read_until_close fuel get \<lparr>pending = concat (map put fs), ending = Eof\<rparr> = Some (fs, None)"
  using assms
proof (induction fs arbitrary: fuel)
  case Nil
  then show ?case by (cases fuel) (simp_all add: get_closed)
next
  case (Cons f fs)
  then show ?case by (cases fuel) (simp_all add: get_put)
qed

lemma read_loop_terminates:
  "length (pending s) < fuel \<Longrightarrow> \<exists>r. read_until_close fuel get s = Some r"
proof (induction fuel arbitrary: s)
  case (Suc fuel)
  show ?case
  proof (cases "get s")
    case (Pair r s')
    show ?thesis
    proof (cases "\<exists>f. r = Ok (Some f)")
      case True
      then obtain f where "r = Ok (Some f)" by blast
      with Pair have "length (pending s') < fuel" using get_progress [of s f s'] Suc.prems by simp
      with Suc.IH Pair \<open>r = Ok (Some f)\<close> show ?thesis by fastforce
    qed (use Pair in \<open>auto split: sum.splits option.splits\<close>)
  qed
qed simp

end

lemma read_frame_put:
  assumes "frame_ok f"
  shows "read_frame \<lparr>pending = encode f @ rest, ending = z\<rparr>
      = (Ok (Some f), \<lparr>pending = rest, ending = z\<rparr>)"
proof -
  let ?n = "MIN_FRAME_LEN + length (payload f)"
  let ?h = "take 4 (encode f)" and ?t = "drop 4 (encode f)"
  have len: "unat (from_be_bytes ?h :: u32) = ?n"
    using read_u32_encode [OF assms, of "encode f"] by (simp add: read_u32_def)
  have sizes: "length (encode f) = 4 + ?n" "length ?t = ?n" "length ?h = 4"
    by (simp_all add: frame_consts)
  have enc: "encode f @ rest = ?h @ ?t @ rest" by simp
  have r1: "read_exact 4 \<lparr>pending = encode f @ rest, ending = z\<rparr>
      = (Ok ?h, \<lparr>pending = ?t @ rest, ending = z\<rparr>)"
    using sizes by (simp add: read_exact_def)
  have r2: "read_exact ?n \<lparr>pending = ?t @ rest, ending = z\<rparr> = (Ok ?t, \<lparr>pending = rest, ending = z\<rparr>)"
    using sizes(2) by (simp add: read_exact_def)
  have "try_decode (?h @ ?t) = Ok (Some (f, length (encode f)))"
    using try_decode_encode [OF assms, of "[]"] by simp
  moreover have "MIN_FRAME_LEN \<le> ?n" "?n \<le> MAX_FRAME_LEN" using assms by (simp_all add: frame_ok_def)
  ultimately show ?thesis
    unfolding read_frame_def r1 using len r2 by (simp add: Let_def)
qed

lemma read_exact_Ok: "read_exact n s = (Ok b, s') \<Longrightarrow> length (pending s) = n + length (pending s') \<and> length b = n"
  by (auto simp: read_exact_def split: if_splits)

lemma read_frame_progress:
  "read_frame s = (Ok (Some f), s') \<Longrightarrow> length (pending s') < length (pending s)"
  unfolding read_frame_def
  by (auto simp: Let_def frame_consts split: prod.splits sum.splits option.splits if_splits io_error.splits
      dest!: read_exact_Ok)

interpretation frames: framing encode read_frame frame_ok
proof (standard, goal_cases)
  case (1 f rest z)
  then show ?case by (rule read_frame_put)
next
  case 2
  show ?case by (simp add: read_frame_def read_exact_def)
next
  case (3 s f s')
  then show ?case by (rule read_frame_progress)
qed

section \<open>Properties\<close>

text \<open>C1. The frame decoder inverts the encoder exactly: \<open>try_decode\<close> returns a frame and a byte
  count if and only if the buffer starts with the encoding of that frame, the count is the length
  of that encoding, and the frame respects the length limit.\<close>

theorem try_decode_exact:
  "try_decode buf = Ok (Some (f, n)) \<longleftrightarrow>
     frame_ok f \<and> n = length (encode f) \<and> (\<exists>rest. buf = encode f @ rest)"
proof
  assume "try_decode buf = Ok (Some (f, n))"
  from try_decode_Some [OF this] show "frame_ok f \<and> n = length (encode f) \<and> (\<exists>rest. buf = encode f @ rest)"
    by (metis append_take_drop_id length_take min.absorb2)
qed (auto simp: try_decode_encode)

text \<open>Decoding is incremental: on every strict prefix of the encoding of a frame within the
  limit the decoder asks for more data, and it never reports an error or a shorter frame.\<close>

theorem try_decode_incremental:
  assumes "frame_ok f" "k < length (encode f)"
  shows "try_decode (take k (encode f)) = Ok None"
  using assms by (rule try_decode_partial)

theorem try_decode_incremental_witness:
  "try_decode (take 15 (encode (new_frame Ping [1, 2]))) = Ok None"
  by (rule try_decode_incremental) (simp_all add: frame_ok_def new_frame_def frame_consts)

text \<open>A stream carrying the encodings of a list of frames, each within the limit, is read back
  by the receive loop as exactly that list, ending with a clean close.\<close>

theorem frame_stream_roundtrip:
  assumes "\<forall>f\<in>set fs. frame_ok f" "length fs < fuel"
  shows "read_until_close fuel read_frame \<lparr>pending = concat (map encode fs), ending = Eof\<rparr>
    = Some (fs, None)"
  using assms by (rule frames.stream_roundtrip)

theorem frame_stream_roundtrip_witness:
  "read_until_close 3 read_frame
     \<lparr>pending = concat (map encode [new_frame Ping [7], new_frame Close []]), ending = Eof\<rparr>
   = Some ([new_frame Ping [7], new_frame Close []], None)"
  by (rule frame_stream_roundtrip) (simp_all add: frame_ok_def new_frame_def frame_consts)

end
