(* ===== verification/Relay.thy ===== *)
theory Relay
  imports Wire
begin

text \<open>
  The relay of an open tunnel: \<open>copy_duplex\<close> of the server (\<open>server/src/tcp_proxy.rs\<close>, used by the TCP, HTTP, TLS
  and pass-through entry points) and of the agent (\<open>agent/src/data_plane.rs\<close>).

  A direction of a connection is the stream its reader will see: the bytes before its end and how it ends.
  \<open>tokio::io::copy\<close> and the QUIC transport belong to third-party libraries and are parameters, with their
  documented behaviour as predicates \<open>copy_ok\<close> and \<open>transport_ok\<close>.
\<close>

section \<open>Copying in both directions\<close>

text \<open>A copy reads a stream and writes to a sink \<open>'w\<close>: the bytes it wrote and its result, the number of bytes.\<close>

type_synonym 'w copy = "rstream \<Rightarrow> 'w \<Rightarrow> bytes \<times> (io_error, nat) result"

text \<open>The documented behaviour: success means that the end of the input was reached and all of it was written; after
  an error, from either side, a first part was written.\<close>

definition copy_ok :: "'w copy \<Rightarrow> bool" where
  "copy_ok cp \<longleftrightarrow> (\<forall>i w. case cp i w of
      (out, Inr n) \<Rightarrow> out = pending i \<and> n = length out \<and> ending i = Eof
    | (out, Inl _) \<Rightarrow> \<exists>rest. pending i = out @ rest)"

text \<open>One half of the function: copy, then close the sink, whatever the result of the copy.  The flag says whether
  closing worked; if not, the reader of the sink finds a broken stream.\<close>

definition copy_and_close :: "'w copy \<Rightarrow> rstream \<Rightarrow> 'w \<Rightarrow> bool \<Rightarrow> rstream \<times> (io_error, nat) result" where
  "copy_and_close cp i w closes =
     (let (out, n) = cp i w in (\<lparr>pending = out, ending = (if closes then Eof else IoFailure)\<rparr>, n))"

text \<open>The traffic counters of the server.\<close>

record traffic =
  bytes_received_total :: nat
  bytes_sent_total :: nat

definition count_bytes :: "(io_error, nat) result \<Rightarrow> nat \<Rightarrow> nat" where
  "count_bytes r c = (case r of Inr n \<Rightarrow> c + n | Inl _ \<Rightarrow> c)"

record 'w side =
  sd_in :: rstream
  sd_sink :: 'w
  sd_closes :: bool

text \<open>The server: \<open>stream\<close> is the client connection, \<open>quic\<close> the data stream; each has an input and a sink.  The two halves
  are joined and do not depend on each other.\<close>

definition server_copy_duplex :: "'w copy \<Rightarrow> 'w side \<Rightarrow> 'w side \<Rightarrow> traffic \<Rightarrow> rstream \<times> rstream \<times> traffic" where
  "server_copy_duplex cp stream quic t =
     (let (to_quic, a) = copy_and_close cp (sd_in stream) (sd_sink quic) (sd_closes quic);
          (from_quic, b) = copy_and_close cp (sd_in quic) (sd_sink stream) (sd_closes stream)
      in (to_quic, from_quic,
          \<lparr>bytes_received_total = count_bytes a (bytes_received_total t), bytes_sent_total = count_bytes b (bytes_sent_total t)\<rparr>))"

text \<open>The agent: \<open>tcp\<close> is the connection to the target.\<close>

definition agent_copy_duplex :: "'w copy \<Rightarrow> 'w side \<Rightarrow> 'w side \<Rightarrow> rstream \<times> rstream" where
  "agent_copy_duplex cp tcp quic =
     (let (quic_to_tcp, a) = copy_and_close cp (sd_in quic) (sd_sink tcp) (sd_closes tcp);
          (tcp_to_quic, b) = copy_and_close cp (sd_in tcp) (sd_sink quic) (sd_closes quic)
      in (quic_to_tcp, tcp_to_quic))"

section \<open>The tunnel\<close>

text \<open>The QUIC stream between the two: reliable and ordered.  What is received is a first part of what was sent, and an end
  of stream is received only after everything that was sent before it.\<close>

definition transport_ok :: "(rstream \<Rightarrow> rstream) \<Rightarrow> bool" where
  "transport_ok q \<longleftrightarrow> (\<forall>i. (\<exists>rest. pending i = pending (q i) @ rest) \<and> (ending (q i) = Eof \<longrightarrow> q i = i))"

record 'w tunnel =
  tn_copy :: "'w copy"
  tn_up :: "rstream \<Rightarrow> rstream"
  tn_down :: "rstream \<Rightarrow> rstream"
  tn_server_quic :: "'w \<times> bool"
  tn_server_stream :: "'w \<times> bool"
  tn_agent_quic :: "'w \<times> bool"
  tn_agent_tcp :: "'w \<times> bool"

definition mk_side :: "rstream \<Rightarrow> 'w \<times> bool \<Rightarrow> 'w side" where
  "mk_side i s = \<lparr>sd_in = i, sd_sink = fst s, sd_closes = snd s\<rparr>"

text \<open>Both ends together: what the target finds of what the client sends, and the other way round.  The two halves of
  an end do not depend on each other, so the input of one half can come from the other end.\<close>

definition tunnel_up :: "'w tunnel \<Rightarrow> rstream \<Rightarrow> rstream" where
  "tunnel_up T client =
     (let sent = fst (server_copy_duplex (tn_copy T) (mk_side client (tn_server_stream T))
                   (mk_side \<lparr>pending = [], ending = IoFailure\<rparr> (tn_server_quic T)) \<lparr>bytes_received_total = 0, bytes_sent_total = 0\<rparr>)
      in fst (agent_copy_duplex (tn_copy T) (mk_side \<lparr>pending = [], ending = IoFailure\<rparr> (tn_agent_tcp T))
           (mk_side (tn_up T sent) (tn_agent_quic T))))"

definition tunnel_down :: "'w tunnel \<Rightarrow> rstream \<Rightarrow> rstream" where
  "tunnel_down T target =
     (let sent = snd (agent_copy_duplex (tn_copy T) (mk_side target (tn_agent_tcp T))
                   (mk_side \<lparr>pending = [], ending = IoFailure\<rparr> (tn_agent_quic T)))
      in fst (snd (server_copy_duplex (tn_copy T) (mk_side \<lparr>pending = [], ending = IoFailure\<rparr> (tn_server_stream T))
           (mk_side (tn_down T sent) (tn_server_quic T)) \<lparr>bytes_received_total = 0, bytes_sent_total = 0\<rparr>)))"

section \<open>Stages of a direction\<close>

text \<open>A stage hands on a first part of its input; a stage that \<open>passes\<close> an input hands on all of it, with its end.\<close>

definition is_stage :: "(rstream \<Rightarrow> rstream) \<Rightarrow> (rstream \<Rightarrow> bool) \<Rightarrow> bool" where
  "is_stage run passes \<longleftrightarrow> (\<forall>i. (\<exists>rest. pending i = pending (run i) @ rest) \<and> (passes i \<longrightarrow> run i = i))"

lemma stages_compose:
  assumes "is_stage f p" "is_stage g q"
  shows "is_stage (\<lambda>i. g (f i)) (\<lambda>i. p i \<and> q (f i))"
proof -
  have "\<exists>rest. pending i = pending (g (f i)) @ rest" for i
    using assms unfolding is_stage_def by (metis append.assoc)
  moreover have "g (f i) = i" if "p i" "q (f i)" for i using assms that unfolding is_stage_def by metis
  ultimately show ?thesis unfolding is_stage_def by blast
qed

text \<open>A half of an end passes an input that ends properly if the copy reports success and the sink could be closed.\<close>

lemma half_stage:
  assumes "copy_ok cp"
  shows "is_stage (\<lambda>i. fst (copy_and_close cp i w closes)) (\<lambda>i. is_ok (snd (cp i w)) \<and> closes)"
proof -
  have "(\<exists>rest. pending i = pending (fst (copy_and_close cp i w closes)) @ rest)
      \<and> (is_ok (snd (cp i w)) \<and> closes \<longrightarrow> fst (copy_and_close cp i w closes) = i)" for i
    using assms [unfolded copy_ok_def, rule_format, of i w]
    by (cases "snd (cp i w)") (auto simp: copy_and_close_def split: prod.splits)
  then show ?thesis by (simp add: is_stage_def)
qed

lemma transport_stage: "transport_ok q \<Longrightarrow> is_stage q (\<lambda>i. ending (q i) = Eof)"
  by (auto simp: transport_ok_def is_stage_def)

lemmas direction_stage = stages_compose [OF stages_compose [OF half_stage transport_stage] half_stage]

lemma tunnel_up_eq: "tunnel_up T client =
    fst (copy_and_close (tn_copy T) (tn_up T (fst (copy_and_close (tn_copy T) client (fst (tn_server_quic T)) (snd (tn_server_quic T)))))
      (fst (tn_agent_tcp T)) (snd (tn_agent_tcp T)))"
  by (simp add: tunnel_up_def server_copy_duplex_def agent_copy_duplex_def mk_side_def Let_def split_def)

lemma tunnel_down_eq: "tunnel_down T target =
    fst (copy_and_close (tn_copy T) (tn_down T (fst (copy_and_close (tn_copy T) target (fst (tn_agent_quic T)) (snd (tn_agent_quic T)))))
      (fst (tn_server_stream T)) (snd (tn_server_stream T)))"
  by (simp add: tunnel_down_def server_copy_duplex_def agent_copy_duplex_def mk_side_def Let_def split_def)

section \<open>Properties\<close>

text \<open>The streams of the two ends of a working direction: every copy on the way reports success, closing works, and the transport
  delivers the end of the stream.\<close>

definition up_works :: "'w tunnel \<Rightarrow> rstream \<Rightarrow> bool" where
  "up_works T client \<longleftrightarrow>
     (let at_quic = fst (copy_and_close (tn_copy T) client (fst (tn_server_quic T)) (snd (tn_server_quic T))) in
      is_ok (snd (tn_copy T client (fst (tn_server_quic T)))) \<and> snd (tn_server_quic T) \<and> ending (tn_up T at_quic) = Eof
      \<and> is_ok (snd (tn_copy T (tn_up T at_quic) (fst (tn_agent_tcp T)))) \<and> snd (tn_agent_tcp T))"

definition down_works :: "'w tunnel \<Rightarrow> rstream \<Rightarrow> bool" where
  "down_works T target \<longleftrightarrow>
     (let at_quic = fst (copy_and_close (tn_copy T) target (fst (tn_agent_quic T)) (snd (tn_agent_quic T))) in
      is_ok (snd (tn_copy T target (fst (tn_agent_quic T)))) \<and> snd (tn_agent_quic T) \<and> ending (tn_down T at_quic) = Eof
      \<and> is_ok (snd (tn_copy T (tn_down T at_quic) (fst (tn_server_stream T)))) \<and> snd (tn_server_stream T))"

text \<open>C36. The tunnel is transparent.  Given the documented behaviour of the copy routine and of the transport, in each
  direction the reader at the far end never finds anything but a first part of what was sent, in order and
  unaltered, whatever fails on the way; and if nothing fails it finds all of it and then the end of the
  stream.  The directions are independent: one may end, or fail, long before the other.\<close>

theorem tunnel_transparent:
  assumes "copy_ok (tn_copy T)" "transport_ok (tn_up T)" "transport_ok (tn_down T)"
  shows "(\<exists>rest. pending client = pending (tunnel_up T client) @ rest)
    \<and> (up_works T client \<longrightarrow> tunnel_up T client = client \<and> ending client = Eof)
    \<and> (\<exists>rest. pending target = pending (tunnel_down T target) @ rest)
    \<and> (down_works T target \<longrightarrow> tunnel_down T target = target \<and> ending target = Eof)"
proof -
  have up: "is_stage (tunnel_up T) (up_works T)"
    unfolding tunnel_up_eq [abs_def] up_works_def [abs_def] Let_def
    using direction_stage [OF assms(1,2,1), of "fst (tn_server_quic T)" "snd (tn_server_quic T)" "fst (tn_agent_tcp T)" "snd (tn_agent_tcp T)"]
    by (simp add: conj_assoc)
  have down: "is_stage (tunnel_down T) (down_works T)"
    unfolding tunnel_down_eq [abs_def] down_works_def [abs_def] Let_def
    using direction_stage [OF assms(1,3,1), of "fst (tn_agent_quic T)" "snd (tn_agent_quic T)" "fst (tn_server_stream T)" "snd (tn_server_stream T)"]
    by (simp add: conj_assoc)
  have ended: "ending i = Eof" if "is_ok (snd (tn_copy T i w))" for i w
    using assms(1) [unfolded copy_ok_def, rule_format, of i w] that by (cases "snd (tn_copy T i w)") (auto split: prod.splits)
  then have "up_works T client \<longrightarrow> ending client = Eof" "down_works T target \<longrightarrow> ending target = Eof"
    by (auto simp: up_works_def down_works_def Let_def)
  with up down show ?thesis unfolding is_stage_def by blast
qed

text \<open>A failure is not passed on.  When reading from the client fails, the data stream is finished all the same, and the
  target finds a proper end after the part that was copied: it cannot tell a truncated transfer from a complete one.\<close>

theorem truncation_looks_complete:
  assumes "copy_ok cp" "cp i w = (out, Inl e)"
  shows "fst (copy_and_close cp i w True) = \<lparr>pending = out, ending = Eof\<rparr> \<and> (\<exists>rest. pending i = out @ rest)"
  using assms(1) [unfolded copy_ok_def, rule_format, of i w] assms(2) by (simp add: copy_and_close_def)

text \<open>A copy that fails after a number of bytes, and without limit when there is none.\<close>

definition copy_until :: "nat option copy" where
  "copy_until i w =
     (case w of
        Some n \<Rightarrow> if n < length (pending i) then (take n (pending i), Inl OtherIo)
                  else if ending i = Eof then (pending i, Inr (length (pending i))) else (pending i, Inl OtherIo)
      | None \<Rightarrow> if ending i = Eof then (pending i, Inr (length (pending i))) else (pending i, Inl OtherIo))"

lemma copy_until_ok: "copy_ok copy_until"
proof -
  have "\<exists>rest. pending i = take n (pending i) @ rest" for i :: rstream and n
    by (rule exI [of _ "drop n (pending i)"]) simp
  then show ?thesis by (auto simp: copy_ok_def copy_until_def split: option.splits)
qed

definition sample_tunnel :: "nat option \<Rightarrow> nat option tunnel" where
  "sample_tunnel limit = \<lparr>tn_copy = copy_until, tn_up = (\<lambda>i. i), tn_down = (\<lambda>i. i), tn_server_quic = (None, True),
     tn_server_stream = (None, True), tn_agent_quic = (limit, True), tn_agent_tcp = (None, True)\<rparr>"

theorem tunnel_transparent_witness:
  "tunnel_up (sample_tunnel (Some 1)) \<lparr>pending = [1, 2], ending = Eof\<rparr> = \<lparr>pending = [1, 2], ending = Eof\<rparr>
   \<and> (\<exists>rest. [7, 8] = pending (tunnel_down (sample_tunnel (Some 1)) \<lparr>pending = [7, 8], ending = Eof\<rparr>) @ rest)
   \<and> tunnel_down (sample_tunnel (Some 1)) \<lparr>pending = [7, 8], ending = Eof\<rparr> = \<lparr>pending = [7], ending = Eof\<rparr>"
proof -
  have T: "copy_ok (tn_copy (sample_tunnel (Some 1)))" "transport_ok (tn_up (sample_tunnel (Some 1)))"
    "transport_ok (tn_down (sample_tunnel (Some 1)))"
    by (simp_all add: sample_tunnel_def copy_until_ok transport_ok_def)
  have "up_works (sample_tunnel (Some 1)) \<lparr>pending = [1, 2], ending = Eof\<rparr>"
    by (simp add: up_works_def sample_tunnel_def copy_until_def copy_and_close_def)
  with tunnel_transparent [OF T, of "\<lparr>pending = [1, 2], ending = Eof\<rparr>" "\<lparr>pending = [7, 8], ending = Eof\<rparr>"]
  show ?thesis by (simp add: tunnel_down_eq sample_tunnel_def copy_until_def copy_and_close_def)
qed

end
