(* ===== verification/Messages.thy ===== *)
theory Messages
  imports Wire
begin

text \<open>
  Typed messages: the payload structures of \<open>crates/tunnel-protocol/src/payload.rs\<close> as records
  and \<open>Message\<close> of \<open>lib.rs\<close>.  The configuration structures \<open>RouteConfig\<close>, \<open>RouteDelta\<close>,
  \<open>AclRule\<close> and \<open>Limits\<close> are shared with the policy and configuration theories.  Record fields
  carry a short prefix because several structures of the source use the same field names.
\<close>

section \<open>Payload structures\<close>

record ProtocolVersion =
  major :: u16
  minor :: u16

record Capabilities =
  cap_tcp :: bool
  cap_udp :: bool
  cap_http :: bool
  cap_websocket :: bool
  cap_quic :: bool

definition default_capabilities :: Capabilities where
  "default_capabilities =
     \<lparr>cap_tcp = True, cap_udp = True, cap_http = True, cap_websocket = True, cap_quic = True\<rparr>"

record HelloPayload =
  hello_protocol_version :: ProtocolVersion
  hello_agent_version :: string
  hello_capabilities :: Capabilities

record AuthPayload =
  auth_node_id :: "Uuid option"
  auth_credential :: "string option"

record AuthOkPayload =
  aok_node_id :: Uuid
  aok_config_version :: u64
  aok_server_version :: string
  aok_server_time :: string

record AuthFailPayload =
  afail_code :: string
  afail_message :: string

record PingPayload =
  ping_ts :: i64

record ErrorDetail =
  ed_code :: string
  ed_message :: string

datatype RouteType = Tcp | Udp | Http | Https

datatype AclAction = Allow | Deny

record AclRule =
  acl_action :: AclAction
  acl_source_cidr :: "string option"
  acl_source_port :: "u16 option"
  acl_target_host :: "string option"
  acl_target_port :: "u16 option"

record Limits =
  max_connections :: "u64 option"
  max_connection_rate :: "u64 option"
  max_bandwidth :: "u64 option"

record RouteConfig =
  rc_id :: Uuid
  rc_name :: string
  rc_route_type :: RouteType
  rc_enabled :: bool
  rc_target_host :: string
  rc_target_port :: u16
  rc_hostname :: "string option"
  rc_limits :: "Limits option"

record ConfigSnapshotPayload =
  snap_config_version :: u64
  snap_routes :: "RouteConfig list"
  snap_acl :: "AclRule list"
  snap_limits :: Limits

record RouteDelta =
  added :: "RouteConfig list"
  updated :: "RouteConfig list"
  removed :: "Uuid list"

record ConfigUpdatePayload =
  upd_config_version :: u64
  upd_routes :: RouteDelta
  upd_limits :: "Limits option"

record ConfigAckPayload =
  ack_config_version :: u64
  ack_applied :: bool
  ack_error :: "ErrorDetail option"

record ConfigResyncPayload =
  last_applied_version :: u64

record UdpOpenPayload =
  uo_route_id :: Uuid
  uo_udp_session_id :: u64
  uo_client_addr :: string

record UdpClosePayload =
  uc_udp_session_id :: u64

record StatsPayload =
  rx_bytes :: u64
  tx_bytes :: u64
  active_streams :: u64
  st_errors :: u64

record HealthPayload =
  h_applied_config_version :: u64
  h_status :: string
  h_uptime_seconds :: u64

record ProtocolErrorPayload =
  pe_code :: string
  pe_message :: string
  pe_request_id :: "u64 option"

record OpenTcpPayload =
  ot_route_id :: Uuid
  ot_target_host :: string
  ot_target_port :: u16
  ot_client_addr :: "string option"

record OpenOkPayload =
  remote_addr :: "string option"

record OpenFailPayload =
  of_code :: string
  of_message :: string

record ClosePayload =
  close_code :: "string option"

section \<open>Messages\<close>

datatype Message =
    MHello HelloPayload
  | MAuth AuthPayload
  | MAuthOk AuthOkPayload
  | MAuthFail AuthFailPayload
  | MPing PingPayload
  | MPong PingPayload
  | MConfigSnapshot ConfigSnapshotPayload
  | MConfigUpdate ConfigUpdatePayload
  | MConfigAck ConfigAckPayload
  | MConfigResync ConfigResyncPayload
  | MOpenTcp OpenTcpPayload
  | MOpenOk OpenOkPayload
  | MOpenFail OpenFailPayload
  | MClose ClosePayload
  | MUdpOpen UdpOpenPayload
  | MUdpClose UdpClosePayload
  | MStats StatsPayload
  | MHealth HealthPayload
  | MError ProtocolErrorPayload

fun message_type_of :: "Message \<Rightarrow> MessageType" where
  "message_type_of (MHello p) = Hello"
| "message_type_of (MAuth p) = Auth"
| "message_type_of (MAuthOk p) = AuthOk"
| "message_type_of (MAuthFail p) = AuthFail"
| "message_type_of (MPing p) = Ping"
| "message_type_of (MPong p) = Pong"
| "message_type_of (MConfigSnapshot p) = ConfigSnapshot"
| "message_type_of (MConfigUpdate p) = ConfigUpdate"
| "message_type_of (MConfigAck p) = ConfigAck"
| "message_type_of (MConfigResync p) = ConfigResync"
| "message_type_of (MOpenTcp p) = OpenTcp"
| "message_type_of (MOpenOk p) = OpenOk"
| "message_type_of (MOpenFail p) = OpenFail"
| "message_type_of (MClose p) = Close"
| "message_type_of (MUdpOpen p) = UdpOpen"
| "message_type_of (MUdpClose p) = UdpClose"
| "message_type_of (MStats p) = Stats"
| "message_type_of (MHealth p) = Health"
| "message_type_of (MError p) = Error"

text \<open>\<open>serde_json\<close>: for each payload type, the serialiser and the deserialiser (both may fail).\<close>

record 'a json_codec =
  to_vec :: "'a \<Rightarrow> bytes option"
  from_slice :: "bytes \<Rightarrow> 'a option"

record serde_json =
  js_Hello :: "HelloPayload json_codec"
  js_Auth :: "AuthPayload json_codec"
  js_AuthOk :: "AuthOkPayload json_codec"
  js_AuthFail :: "AuthFailPayload json_codec"
  js_Ping :: "PingPayload json_codec"
  js_ConfigSnapshot :: "ConfigSnapshotPayload json_codec"
  js_ConfigUpdate :: "ConfigUpdatePayload json_codec"
  js_ConfigAck :: "ConfigAckPayload json_codec"
  js_ConfigResync :: "ConfigResyncPayload json_codec"
  js_OpenTcp :: "OpenTcpPayload json_codec"
  js_OpenOk :: "OpenOkPayload json_codec"
  js_OpenFail :: "OpenFailPayload json_codec"
  js_Close :: "ClosePayload json_codec"
  js_UdpOpen :: "UdpOpenPayload json_codec"
  js_UdpClose :: "UdpClosePayload json_codec"
  js_Stats :: "StatsPayload json_codec"
  js_Health :: "HealthPayload json_codec"
  js_Error :: "ProtocolErrorPayload json_codec"

datatype ProtocolError = Json | UnexpectedType MessageType

fun payload_bytes :: "serde_json \<Rightarrow> Message \<Rightarrow> bytes option" where
  "payload_bytes J (MHello p) = to_vec (js_Hello J) p"
| "payload_bytes J (MAuth p) = to_vec (js_Auth J) p"
| "payload_bytes J (MAuthOk p) = to_vec (js_AuthOk J) p"
| "payload_bytes J (MAuthFail p) = to_vec (js_AuthFail J) p"
| "payload_bytes J (MPing p) = to_vec (js_Ping J) p"
| "payload_bytes J (MPong p) = to_vec (js_Ping J) p"
| "payload_bytes J (MConfigSnapshot p) = to_vec (js_ConfigSnapshot J) p"
| "payload_bytes J (MConfigUpdate p) = to_vec (js_ConfigUpdate J) p"
| "payload_bytes J (MConfigAck p) = to_vec (js_ConfigAck J) p"
| "payload_bytes J (MConfigResync p) = to_vec (js_ConfigResync J) p"
| "payload_bytes J (MOpenTcp p) = to_vec (js_OpenTcp J) p"
| "payload_bytes J (MOpenOk p) = to_vec (js_OpenOk J) p"
| "payload_bytes J (MOpenFail p) = to_vec (js_OpenFail J) p"
| "payload_bytes J (MClose p) = to_vec (js_Close J) p"
| "payload_bytes J (MUdpOpen p) = to_vec (js_UdpOpen J) p"
| "payload_bytes J (MUdpClose p) = to_vec (js_UdpClose J) p"
| "payload_bytes J (MStats p) = to_vec (js_Stats J) p"
| "payload_bytes J (MHealth p) = to_vec (js_Health J) p"
| "payload_bytes J (MError p) = to_vec (js_Error J) p"

definition into_frame :: "serde_json \<Rightarrow> Message \<Rightarrow> u64 \<Rightarrow> (ProtocolError, Frame) result" where
  "into_frame J m rid =
     (let mt = message_type_of m in
      and_then (ok_or (payload_bytes J m) Json) (\<lambda>p.
        Ok \<lparr>message_type = mt, flags = 0, request_id = rid, payload = p\<rparr>))"

definition from_frame :: "serde_json \<Rightarrow> Frame \<Rightarrow> (ProtocolError, Message) result" where
  "from_frame J f =
     (case message_type f of
       Hello \<Rightarrow> and_then (ok_or (from_slice (js_Hello J) (payload f)) Json) (\<lambda>p. Ok (MHello p))
      | Auth \<Rightarrow> and_then (ok_or (from_slice (js_Auth J) (payload f)) Json) (\<lambda>p. Ok (MAuth p))
      | AuthOk \<Rightarrow> and_then (ok_or (from_slice (js_AuthOk J) (payload f)) Json) (\<lambda>p. Ok (MAuthOk p))
      | AuthFail \<Rightarrow> and_then (ok_or (from_slice (js_AuthFail J) (payload f)) Json) (\<lambda>p. Ok (MAuthFail p))
      | Ping \<Rightarrow> and_then (ok_or (from_slice (js_Ping J) (payload f)) Json) (\<lambda>p. Ok (MPing p))
      | Pong \<Rightarrow> and_then (ok_or (from_slice (js_Ping J) (payload f)) Json) (\<lambda>p. Ok (MPong p))
      | ConfigSnapshot \<Rightarrow> and_then (ok_or (from_slice (js_ConfigSnapshot J) (payload f)) Json) (\<lambda>p. Ok (MConfigSnapshot p))
      | ConfigUpdate \<Rightarrow> and_then (ok_or (from_slice (js_ConfigUpdate J) (payload f)) Json) (\<lambda>p. Ok (MConfigUpdate p))
      | ConfigAck \<Rightarrow> and_then (ok_or (from_slice (js_ConfigAck J) (payload f)) Json) (\<lambda>p. Ok (MConfigAck p))
      | ConfigResync \<Rightarrow> and_then (ok_or (from_slice (js_ConfigResync J) (payload f)) Json) (\<lambda>p. Ok (MConfigResync p))
      | OpenTcp \<Rightarrow> and_then (ok_or (from_slice (js_OpenTcp J) (payload f)) Json) (\<lambda>p. Ok (MOpenTcp p))
      | OpenOk \<Rightarrow> and_then (ok_or (from_slice (js_OpenOk J) (payload f)) Json) (\<lambda>p. Ok (MOpenOk p))
      | OpenFail \<Rightarrow> and_then (ok_or (from_slice (js_OpenFail J) (payload f)) Json) (\<lambda>p. Ok (MOpenFail p))
      | Close \<Rightarrow> and_then (ok_or (from_slice (js_Close J) (payload f)) Json) (\<lambda>p. Ok (MClose p))
      | UdpOpen \<Rightarrow> and_then (ok_or (from_slice (js_UdpOpen J) (payload f)) Json) (\<lambda>p. Ok (MUdpOpen p))
      | UdpClose \<Rightarrow> and_then (ok_or (from_slice (js_UdpClose J) (payload f)) Json) (\<lambda>p. Ok (MUdpClose p))
      | Stats \<Rightarrow> and_then (ok_or (from_slice (js_Stats J) (payload f)) Json) (\<lambda>p. Ok (MStats p))
      | Health \<Rightarrow> and_then (ok_or (from_slice (js_Health J) (payload f)) Json) (\<lambda>p. Ok (MHealth p))
      | Error \<Rightarrow> and_then (ok_or (from_slice (js_Error J) (payload f)) Json) (\<lambda>p. Ok (MError p)))"

text \<open>The law of a codec: what was serialised deserialises to the same value.\<close>

definition codec_ok :: "'a json_codec \<Rightarrow> bool" where
  "codec_ok c \<longleftrightarrow> (\<forall>x b. to_vec c x = Some b \<longrightarrow> from_slice c b = Some x)"

definition serde_ok :: "serde_json \<Rightarrow> bool" where
  "serde_ok J \<longleftrightarrow>
     codec_ok (js_Hello J)
     \<and> codec_ok (js_Auth J)
     \<and> codec_ok (js_AuthOk J)
     \<and> codec_ok (js_AuthFail J)
     \<and> codec_ok (js_Ping J)
     \<and> codec_ok (js_ConfigSnapshot J)
     \<and> codec_ok (js_ConfigUpdate J)
     \<and> codec_ok (js_ConfigAck J)
     \<and> codec_ok (js_ConfigResync J)
     \<and> codec_ok (js_OpenTcp J)
     \<and> codec_ok (js_OpenOk J)
     \<and> codec_ok (js_OpenFail J)
     \<and> codec_ok (js_Close J)
     \<and> codec_ok (js_UdpOpen J)
     \<and> codec_ok (js_UdpClose J)
     \<and> codec_ok (js_Stats J)
     \<and> codec_ok (js_Health J)
     \<and> codec_ok (js_Error J)"

text \<open>A codec that knows one value: it serialises \<open>x0\<close> to \<open>b0\<close> and refuses everything else.\<close>

definition single_codec :: "'a \<Rightarrow> bytes \<Rightarrow> 'a json_codec" where
  "single_codec x0 b0 =
     \<lparr>to_vec = (\<lambda>x. if x = x0 then Some b0 else None),
      from_slice = (\<lambda>b. if b = b0 then Some x0 else None)\<rparr>"

definition void_codec :: "'a json_codec" where
  "void_codec = \<lparr>to_vec = (\<lambda>x. None), from_slice = (\<lambda>b. None)\<rparr>"

lemma single_codec_ok [simp]: "codec_ok (single_codec x0 b0)"
  by (simp add: codec_ok_def single_codec_def)

lemma void_codec_ok [simp]: "codec_ok void_codec"
  by (simp add: codec_ok_def void_codec_def)

definition ping_only_json :: "PingPayload \<Rightarrow> bytes \<Rightarrow> serde_json" where
  "ping_only_json x b =
     \<lparr>js_Hello = void_codec,
      js_Auth = void_codec,
      js_AuthOk = void_codec,
      js_AuthFail = void_codec,
      js_Ping = single_codec x b,
      js_ConfigSnapshot = void_codec,
      js_ConfigUpdate = void_codec,
      js_ConfigAck = void_codec,
      js_ConfigResync = void_codec,
      js_OpenTcp = void_codec,
      js_OpenOk = void_codec,
      js_OpenFail = void_codec,
      js_Close = void_codec,
      js_UdpOpen = void_codec,
      js_UdpClose = void_codec,
      js_Stats = void_codec,
      js_Health = void_codec,
      js_Error = void_codec\<rparr>"

lemma ping_only_json_ok [simp]: "serde_ok (ping_only_json x b)"
  by (simp add: ping_only_json_def serde_ok_def)

lemma into_frame_fields:
  assumes "into_frame J m rid = Ok f"
  shows "message_type f = message_type_of m" "flags f = 0" "request_id f = rid"
    and "payload_bytes J m = Some (payload f)"
  using assms by (auto simp: into_frame_def Let_def)

lemma from_frame_into_frame:
  assumes "serde_ok J" "into_frame J m rid = Ok f"
  shows "from_frame J f = Ok m"
  using assms into_frame_fields [OF assms(2)]
  by (cases m) (simp_all add: serde_ok_def codec_ok_def from_frame_def)

lemma from_frame_type:
  "from_frame J f = Ok m \<Longrightarrow> message_type_of m = message_type f"
  by (cases "message_type f") (auto simp: from_frame_def)

section \<open>Properties\<close>

text \<open>C28. Typed messages survive the wire: a sequence of messages that the sender turned into frames within
  the length limit is read back by the receive loop as the same messages with the same request
  identifiers, in order, given that the JSON codecs are inverse on what they serialise.\<close>

theorem message_stream_roundtrip:
  assumes "serde_ok J" "list_all2 (\<lambda>(m, rid) f. into_frame J m rid = Ok f) msgs fs"
    and "\<forall>f\<in>set fs. frame_ok f" "length fs < fuel"
  shows "map_option (\<lambda>(gs, e). (map (\<lambda>g. (from_frame J g, request_id g)) gs, e))
      (read_until_close fuel read_frame \<lparr>pending = concat (map encode fs), ending = Eof\<rparr>)
    = Some (map (\<lambda>(m, rid). (Ok m, rid)) msgs, None)"
proof -
  have "map (\<lambda>g. (from_frame J g, request_id g)) fs = map (\<lambda>(m, rid). (Ok m, rid)) msgs"
    using assms(2)
    by induction (auto simp: from_frame_into_frame [OF assms(1)] into_frame_fields)
  with frames.stream_roundtrip [OF assms(3,4)] show ?thesis by simp
qed

theorem message_stream_roundtrip_witness:
  "let J = ping_only_json \<lparr>ping_ts = 5\<rparr> [1, 2]; f = \<lparr>message_type = Ping, flags = 0, request_id = 9, payload = [1, 2]\<rparr>
   in map_option (\<lambda>(gs, e). (map (\<lambda>g. (from_frame J g, request_id g)) gs, e))
      (read_until_close 2 read_frame \<lparr>pending = concat (map encode [f]), ending = Eof\<rparr>)
    = Some (map (\<lambda>(m, rid). (Ok m, rid)) [(MPing \<lparr>ping_ts = 5\<rparr>, 9)], None)"
  unfolding Let_def
  by (rule message_stream_roundtrip [OF ping_only_json_ok])
    (simp_all add: into_frame_def ping_only_json_def single_codec_def frame_ok_def frame_consts Let_def)

end
