(* ===== verification/Net.thy ===== *)
theory Net
  imports Messages
begin

text \<open>
  IP addresses and CIDR matching: \<open>crates/tunnel-common/src/cidr.rs\<close> and \<open>target.rs\<close>.

  An address is its integer value at its width.  \<open>parse_ip\<close> is \<open>IpAddr::from_str\<close> of the Rust
  standard library (dotted IPv4 without leading zeros; IPv6 with \<open>::\<close> and a trailing embedded
  IPv4 part), written with the same reader functions as the library's parser.
\<close>

section \<open>Addresses\<close>

datatype IpAddr = V4 u32 | V6 u128

record SocketAddr =
  sa_ip :: IpAddr
  sa_port :: u16

text \<open>\<open>Ipv6Addr::to_ipv4_mapped\<close>: the embedded address of \<open>::ffff:a.b.c.d\<close>.\<close>

definition to_ipv4_mapped :: "u128 \<Rightarrow> u32 option" where
  "to_ipv4_mapped a = (if drop_bit 32 a = 0xFFFF then Some (ucast a) else None)"

definition ipv4_mapped :: "u32 \<Rightarrow> u128" where
  "ipv4_mapped a = push_bit 32 0xFFFF + ucast a"

section \<open>The address parser\<close>

definition digit_of :: "nat \<Rightarrow> char \<Rightarrow> nat option" where
  "digit_of radix c =
     (let n = code c;
          d = (if 48 \<le> n \<and> n \<le> 57 then Some (n - 48)
               else if 97 \<le> n \<and> n \<le> 122 then Some (n - 87)
               else if 65 \<le> n \<and> n \<le> 90 then Some (n - 55)
               else None)
      in case d of None \<Rightarrow> None | Some k \<Rightarrow> if k < radix then Some k else None)"

definition radix_val :: "nat \<Rightarrow> string \<Rightarrow> nat" where
  "radix_val radix s = foldl (\<lambda>a c. a * radix + the (digit_of radix c)) 0 s"

definition read_number :: "nat \<Rightarrow> nat \<Rightarrow> bool \<Rightarrow> nat \<Rightarrow> string \<Rightarrow> (nat \<times> string) option" where
  "read_number radix max_digits allow_zero_prefix bound s =
     (let ds = takeWhile (\<lambda>c. digit_of radix c \<noteq> None) s in
      if length ds > max_digits then None
      else if ds = [] then None
      else if \<not> allow_zero_prefix \<and> hd ds = CHR ''0'' \<and> length ds > 1 then None
      else if radix_val radix ds < bound then Some (radix_val radix ds, drop (length ds) s)
      else None)"

definition read_given_char :: "char \<Rightarrow> string \<Rightarrow> string option" where
  "read_given_char c s = (case s of [] \<Rightarrow> None | d # t \<Rightarrow> if d = c then Some t else None)"

definition read_separator :: "char \<Rightarrow> nat \<Rightarrow> (string \<Rightarrow> ('a \<times> string) option) \<Rightarrow> string
    \<Rightarrow> ('a \<times> string) option" where
  "read_separator sep i inner s =
     (if i > 0 then Option.bind (read_given_char sep s) inner else inner s)"

fun read_octets :: "nat \<Rightarrow> nat \<Rightarrow> string \<Rightarrow> (nat list \<times> string) option" where
  "read_octets 0 i s = Some ([], s)"
| "read_octets (Suc k) i s =
     (case read_separator CHR ''.'' i (read_number 10 3 False 256) s of
        None \<Rightarrow> None
      | Some (g, t) \<Rightarrow> map_option (\<lambda>(gs, u). (g # gs, u)) (read_octets k (Suc i) t))"

definition read_ipv4_addr :: "string \<Rightarrow> (nat list \<times> string) option" where
  "read_ipv4_addr s = read_octets 4 0 s"

definition octets_val :: "nat \<Rightarrow> nat list \<Rightarrow> nat" where
  "octets_val base gs = foldl (\<lambda>a g. a * base + g) 0 gs"

text \<open>\<open>read_groups\<close> returns the groups read, whether the last two came from an embedded IPv4
  address, and the remaining input; \<open>left\<close> counts the groups still allowed.\<close>

fun read_groups :: "nat \<Rightarrow> nat \<Rightarrow> string \<Rightarrow> nat list \<times> bool \<times> string" where
  "read_groups 0 i s = ([], False, s)"
| "read_groups (Suc left) i s =
     (case (if left \<ge> 1 then read_separator CHR '':'' i read_ipv4_addr s else None) of
        Some (gs, t) \<Rightarrow> ([gs ! 0 * 256 + gs ! 1, gs ! 2 * 256 + gs ! 3], True, t)
      | None \<Rightarrow>
          (case read_separator CHR '':'' i (read_number 16 4 True 65536) s of
             None \<Rightarrow> ([], False, s)
           | Some (g, t) \<Rightarrow>
               (let (gs, v4, u) = read_groups left (Suc i) t in (g # gs, v4, u))))"

definition read_ipv6_addr :: "string \<Rightarrow> (nat list \<times> string) option" where
  "read_ipv6_addr s =
     (let (hds, head_ipv4, t) = read_groups 8 0 s in
      if length hds = 8 then Some (hds, t)
      else if head_ipv4 then None
      else case Option.bind (read_given_char CHR '':'' t) (read_given_char CHR '':'') of
             None \<Rightarrow> None
           | Some u \<Rightarrow>
               (let (tls, _, v) = read_groups (8 - (length hds + 1)) 0 u in
                Some (hds @ replicate (8 - length hds - length tls) 0 @ tls, v)))"

definition read_ip_addr :: "string \<Rightarrow> (IpAddr \<times> string) option" where
  "read_ip_addr s =
     (case read_ipv4_addr s of
        Some (gs, t) \<Rightarrow> Some (V4 (of_nat (octets_val 256 gs)), t)
      | None \<Rightarrow>
          (case read_ipv6_addr s of
             Some (gs, t) \<Rightarrow> Some (V6 (of_nat (octets_val 65536 gs)), t)
           | None \<Rightarrow> None))"

definition parse_ip :: "string \<Rightarrow> IpAddr option" where
  "parse_ip s = (case read_ip_addr s of Some (ip, []) \<Rightarrow> Some ip | _ \<Rightarrow> None)"

section \<open>CIDR\<close>

definition full_prefix :: "IpAddr \<Rightarrow> nat" where
  "full_prefix ip = (case ip of V4 _ \<Rightarrow> 32 | V6 _ \<Rightarrow> 128)"

definition parse_cidr :: "string \<Rightarrow> (IpAddr \<times> nat) option" where
  "parse_cidr s0 =
     (let s = trim s0 in
      if s = [] then None
      else case split_once CHR ''/'' s of
        Some (h, p) \<Rightarrow>
          if p = [] \<or> CHR ''/'' \<in> set p then None
          else (case parse_unsigned 256 p of
              None \<Rightarrow> None
            | Some prefix \<Rightarrow>
                (case parse_ip h of
                   None \<Rightarrow> None
                 | Some ip \<Rightarrow> if prefix > full_prefix ip then None else Some (ip, prefix)))
      | None \<Rightarrow>
          (case parse_ip s of None \<Rightarrow> None | Some ip \<Rightarrow> Some (ip, full_prefix ip)))"

definition cidr_mask :: "nat \<Rightarrow> 'w::len word" where
  "cidr_mask prefix = (if prefix = 0 then 0 else push_bit (LENGTH('w) - prefix) (- 1))"

definition net_matches :: "IpAddr \<times> nat \<Rightarrow> IpAddr \<Rightarrow> bool" where
  "net_matches np ip =
     (case np of (net, prefix) \<Rightarrow>
       (case (net, ip) of
          (V4 n, V4 a) \<Rightarrow> and n (cidr_mask prefix) = and a (cidr_mask prefix)
        | (V6 n, V6 a) \<Rightarrow> and n (cidr_mask prefix) = and a (cidr_mask prefix)
        | _ \<Rightarrow> False))"

definition cidr_matches :: "string \<Rightarrow> IpAddr \<Rightarrow> bool" where
  "cidr_matches cidr ip = (case parse_cidr cidr of None \<Rightarrow> False | Some np \<Rightarrow> net_matches np ip)"

section \<open>Forbidden target addresses\<close>

definition forbidden_v4 :: "u32 \<Rightarrow> string option" where
  "forbidden_v4 ip =
     (if ip = of_nat (octets_val 256 [169, 254, 169, 254]) then Some ''metadata''
      else if cidr_matches ''127.0.0.0/8'' (V4 ip) then Some ''loopback''
      else if cidr_matches ''169.254.0.0/16'' (V4 ip) then Some ''link-local''
      else if cidr_matches ''224.0.0.0/4'' (V4 ip) then Some ''multicast''
      else None)"

definition forbidden_v6 :: "u128 \<Rightarrow> string option" where
  "forbidden_v6 ip =
     (if cidr_matches ''::1'' (V6 ip) then Some ''loopback''
      else if cidr_matches ''fe80::/10'' (V6 ip) then Some ''link-local''
      else if cidr_matches ''ff00::/8'' (V6 ip) then Some ''multicast''
      else None)"

definition forbidden_target_category :: "IpAddr \<Rightarrow> string option" where
  "forbidden_target_category ip0 =
     (let ip = (case ip0 of
                  V6 v6 \<Rightarrow> (case to_ipv4_mapped v6 of Some v4 \<Rightarrow> V4 v4 | None \<Rightarrow> V6 v6)
                | V4 v4 \<Rightarrow> V4 v4)
      in case ip of V4 a \<Rightarrow> forbidden_v4 a | V6 a \<Rightarrow> forbidden_v6 a)"

text \<open>Evaluation of the string operations on literals.\<close>

lemma code_numeral_simps: "code (Char b0 b1 b2 b3 b4 b5 b6 b7) =
    of_bool b0 + 2 * (of_bool b1 + 2 * (of_bool b2 + 2 * (of_bool b3 + 2 * (of_bool b4
      + 2 * (of_bool b5 + 2 * (of_bool b6 + 2 * of_bool b7))))))"
  by (simp add: code_def)

lemmas lowercase_eval = to_ascii_lowercase_def to_ascii_lowercase_char_def code_numeral_simps
  chr_def char_of_def bit_simps

definition graphic :: "char \<Rightarrow> bool" where
  "graphic c \<longleftrightarrow> 33 \<le> code c \<and> code c \<le> 126"

lemma code_chr [simp]: "n < 256 \<Longrightarrow> code (chr n) = n"
  by (simp add: code_def chr_def)

lemma white_space_ends_not_graphic:
  "\<forall>w\<in>set white_space. w \<noteq> [] \<and> \<not> graphic (hd w) \<and> \<not> graphic (last w)"
  by (simp add: white_space_def graphic_def upt_rec)

lemma strip_start_graphic:
  assumes "\<forall>w\<in>set ws. w \<noteq> [] \<and> \<not> graphic (hd w)" "s = [] \<or> graphic (hd s)"
  shows "strip_start ws s = s"
proof -
  have "strip_one ws s = None"
    using assms by (auto simp: strip_one_def find_None_iff) (metis hd_take length_greater_0_conv)
  then show ?thesis by (simp add: strip_start.simps)
qed

lemma trim_graphic:
  assumes "s \<noteq> []" "graphic (hd s)" "graphic (last s)"
  shows "trim s = s"
proof -
  have "strip_start white_space s = s"
    using white_space_ends_not_graphic assms(2) by (intro strip_start_graphic) auto
  moreover have "strip_start (map rev white_space) (rev s) = rev s"
    using white_space_ends_not_graphic assms
    by (intro strip_start_graphic) (auto simp: hd_rev)
  ultimately show ?thesis by (simp add: trim_def)
qed

lemma read_octets_numeral: "read_octets (numeral k) i s =
    (case read_separator CHR ''.'' i (read_number 10 3 False 256) s of
        None \<Rightarrow> None
      | Some (g, t) \<Rightarrow> map_option (\<lambda>(gs, u). (g # gs, u)) (read_octets (pred_numeral k) (Suc i) t))"
  by (simp add: numeral_eq_Suc)

lemma read_groups_numeral: "read_groups (numeral k) i s =
     (case (if (pred_numeral k) \<ge> 1 then read_separator CHR '':'' i read_ipv4_addr s else None) of
        Some (gs, t) \<Rightarrow> ([gs ! 0 * 256 + gs ! 1, gs ! 2 * 256 + gs ! 3], True, t)
      | None \<Rightarrow>
          (case read_separator CHR '':'' i (read_number 16 4 True 65536) s of
             None \<Rightarrow> ([], False, s)
           | Some (g, t) \<Rightarrow>
               (let (gs, v4, u) = read_groups (pred_numeral k) (Suc i) t in (g # gs, v4, u))))"
  by (simp add: numeral_eq_Suc)

lemma replicate_numeral_unfold: "replicate (numeral k) x = x # replicate (pred_numeral k) x"
  by (simp add: numeral_eq_Suc)

lemmas parse_eval = parse_cidr_def trim_graphic graphic_def code_numeral_simps split_once_def
  parse_unsigned_def is_digit_def parse_ip_def read_ip_addr_def read_ipv4_addr_def
  read_ipv6_addr_def read_octets_numeral read_groups_numeral read_separator_def
  read_given_char_def read_number_def digit_of_def radix_val_def octets_val_def full_prefix_def
  Let_def replicate_numeral_unfold

lemma parse_cidr_literals [simp]:
  "parse_cidr ''127.0.0.0/8'' = Some (V4 0x7F000000, 8)"
  "parse_cidr ''169.254.0.0/16'' = Some (V4 0xA9FE0000, 16)"
  "parse_cidr ''224.0.0.0/4'' = Some (V4 0xE0000000, 4)"
  "parse_cidr ''::1'' = Some (V6 1, 128)"
  "parse_cidr ''fe80::/10'' = Some (V6 0xFE800000000000000000000000000000, 10)"
  "parse_cidr ''ff00::/8'' = Some (V6 0xFF000000000000000000000000000000, 8)"
  by (simp_all add: parse_eval)

section \<open>Prefix matching\<close>

lemma bit_cidr_mask:
  "bit (cidr_mask p :: 'w::len word) k \<longleftrightarrow> 0 < p \<and> LENGTH('w) - p \<le> k \<and> k < LENGTH('w)"
  by (auto simp: cidr_mask_def bit_simps)

text \<open>Masked equality is equality of the leading \<open>prefix\<close> bits.\<close>

lemma masked_eq_iff:
  assumes "p \<le> LENGTH('w::len)"
  shows "and (n :: 'w word) (cidr_mask p) = and a (cidr_mask p)
      \<longleftrightarrow> drop_bit (LENGTH('w) - p) n = drop_bit (LENGTH('w) - p) a"
proof
  assume h: "and n (cidr_mask p) = and a (cidr_mask p)"
  show "drop_bit (LENGTH('w) - p) n = drop_bit (LENGTH('w) - p) a"
  proof (rule bit_word_eqI)
    fix k assume "k < LENGTH('w)"
    have "bit (and n (cidr_mask p)) (LENGTH('w) - p + k) = bit (and a (cidr_mask p)) (LENGTH('w) - p + k)"
      using h by simp
    then show "bit (drop_bit (LENGTH('w) - p) n) k = bit (drop_bit (LENGTH('w) - p) a) k"
      using assms by (auto simp: bit_simps bit_cidr_mask dest: bit_imp_le_length)
  qed
next
  assume h: "drop_bit (LENGTH('w) - p) n = drop_bit (LENGTH('w) - p) a"
  show "and n (cidr_mask p) = and a (cidr_mask p)"
  proof (rule bit_word_eqI)
    fix k assume "k < LENGTH('w)"
    have "LENGTH('w) - p \<le> k \<Longrightarrow> bit n k = bit a k"
      using arg_cong [OF h, of "\<lambda>w. bit w (k - (LENGTH('w) - p))"] by (simp add: bit_simps)
    then show "bit (and n (cidr_mask p)) k = bit (and a (cidr_mask p)) k"
      by (auto simp: bit_simps bit_cidr_mask)
  qed
qed

lemma parse_cidr_prefix_le: "parse_cidr s = Some (ip, p) \<Longrightarrow> p \<le> full_prefix ip"
  by (auto simp: parse_cidr_def Let_def full_prefix_def split: option.splits if_splits IpAddr.splits)

lemma cidr_matches_V4 [policy_simps]:
  assumes "parse_cidr c = Some (V4 n, p)"
  shows "cidr_matches c (V4 a) \<longleftrightarrow> drop_bit (32 - p) n = drop_bit (32 - p) a"
    and "\<not> cidr_matches c (V6 b)"
  using assms parse_cidr_prefix_le [OF assms] masked_eq_iff [of p n a]
  by (simp_all add: cidr_matches_def net_matches_def full_prefix_def)

lemma cidr_matches_V6 [policy_simps]:
  assumes "parse_cidr c = Some (V6 n, p)"
  shows "cidr_matches c (V6 a) \<longleftrightarrow> drop_bit (128 - p) n = drop_bit (128 - p) a"
    and "\<not> cidr_matches c (V4 b)"
  using assms parse_cidr_prefix_le [OF assms] masked_eq_iff [of p n a]
  by (simp_all add: cidr_matches_def net_matches_def full_prefix_def)

lemma cidr_matches_None [policy_simps]: "parse_cidr c = None \<Longrightarrow> \<not> cidr_matches c ip"
  by (simp add: cidr_matches_def)

lemma high_low_parts:
  fixes h :: u128 and a :: u32
  shows "drop_bit 32 (push_bit 32 h + ucast a) = take_bit 96 h"
    and "ucast (push_bit 32 h + ucast a) = a"
proof -
  have "push_bit 32 h + ucast a = or (push_bit 32 h) (ucast a)"
    by (rule disjunctive_add) (auto simp: bit_simps dest: bit_imp_le_length)
  moreover have "\<not> bit a (32 + k)" for k
    using bit_imp_le_length [of a "32 + k"] by auto
  ultimately show "drop_bit 32 (push_bit 32 h + ucast a) = take_bit 96 h"
    "ucast (push_bit 32 h + ucast a) = a"
    by (auto intro!: bit_word_eqI simp: bit_simps dest: bit_imp_le_length)
qed

lemma to_ipv4_mapped_inverse [simp]: "to_ipv4_mapped (ipv4_mapped a) = Some a"
  using high_low_parts [of "0xFFFF" a]
  by (simp add: to_ipv4_mapped_def ipv4_mapped_def)

lemma forbidden_v4_eq:
  "forbidden_v4 a =
     (if a = 0xA9FEA9FE then Some ''metadata''
      else if drop_bit 24 a = 127 then Some ''loopback''
      else if drop_bit 16 a = 0xA9FE then Some ''link-local''
      else if drop_bit 28 a = 0xE then Some ''multicast''
      else None)"
  by (auto simp: forbidden_v4_def octets_val_def cidr_matches_V4(1))

lemma forbidden_v6_eq:
  "forbidden_v6 a =
     (if a = 1 then Some ''loopback''
      else if drop_bit 118 a = 0x3FA then Some ''link-local''
      else if drop_bit 120 a = 0xFF then Some ''multicast''
      else None)"
  by (auto simp: forbidden_v6_def cidr_matches_V6(1))

section \<open>Dotted-decimal CIDR strings\<close>

text \<open>The printed form of an address and of a prefix length, and that \<open>parse_cidr\<close> reads it back.\<close>

definition digit_char :: "nat \<Rightarrow> char" where
  "digit_char d = chr (48 + d)"

definition show_u8 :: "nat \<Rightarrow> string" where
  "show_u8 n =
     (if n < 10 then [digit_char n]
      else if n < 100 then [digit_char (n div 10), digit_char (n mod 10)]
      else [digit_char (n div 100), digit_char (n div 10 mod 10), digit_char (n mod 10)])"

definition show_v4 :: "nat \<Rightarrow> nat \<Rightarrow> nat \<Rightarrow> nat \<Rightarrow> string" where
  "show_v4 a b c d = show_u8 a @ CHR ''.'' # show_u8 b @ CHR ''.'' # show_u8 c @ CHR ''.'' # show_u8 d"

lemma code_digit_char [simp]: "d < 10 \<Longrightarrow> code (digit_char d) = 48 + d"
  by (simp add: digit_char_def)

lemma digit_of_digit_char [simp]: "d < 10 \<Longrightarrow> digit_of 10 (digit_char d) = Some d"
  by (simp add: digit_of_def)

lemma digit_char_eq_0 [simp]: "d < 10 \<Longrightarrow> digit_char d = CHR ''0'' \<longleftrightarrow> d = 0"
proof -
  assume "d < 10"
  have "digit_char 0 = CHR ''0''" by (simp add: digit_char_def chr_def char_of_def bit_simps)
  moreover have "digit_char d = digit_char 0 \<Longrightarrow> d = 0"
    using \<open>d < 10\<close> code_digit_char [of d] code_digit_char [of 0] by simp
  ultimately show ?thesis by auto
qed

lemma show_u8_cases:
  assumes "n < 256"
  obtains (1) z where "z < 10" "n = z" "show_u8 n = [digit_char z]"
  | (2) y z where "0 < y" "y < 10" "z < 10" "n = y * 10 + z" "show_u8 n = [digit_char y, digit_char z]"
  | (3) x y z where "0 < x" "x < 10" "y < 10" "z < 10" "n = (x * 10 + y) * 10 + z"
      "show_u8 n = [digit_char x, digit_char y, digit_char z]"
proof -
  consider "n < 10" | "10 \<le> n" "n < 100" | "100 \<le> n" by linarith
  then show thesis
  proof cases
    case 1
    then show ?thesis using that(1) [of n] by (simp add: show_u8_def)
  next
    case 2
    then show ?thesis using that(2) [of "n div 10" "n mod 10"] by (simp add: show_u8_def div_greater_zero_iff)
  next
    case 3
    have "n div 100 = n div 10 div 10" by (simp add: div_mult2_eq [symmetric])
    then have n: "n = (n div 100 * 10 + n div 10 mod 10) * 10 + n mod 10" by simp
    have d: "n div 100 < 10" "0 < n div 100" using assms 3 by (simp_all add: div_greater_zero_iff)
    have "show_u8 n = [digit_char (n div 100), digit_char (n div 10 mod 10), digit_char (n mod 10)]"
      using 3 by (simp add: show_u8_def)
    from that(3) [OF d(2) d(1) _ _ n this] show ?thesis by simp
  qed
qed

lemma show_u8_chars:
  assumes "n < 256" "x \<in> set (show_u8 n)"
  shows "48 \<le> code x \<and> code x \<le> 57"
  using assms(1) by (cases rule: show_u8_cases) (use assms(2) in auto)

lemma show_u8_not_Nil [simp]: "show_u8 n \<noteq> []"
  by (simp add: show_u8_def)

lemma read_number_show_u8:
  assumes "n < 256" "rest = [] \<or> digit_of 10 (hd rest) = None"
  shows "read_number 10 3 False 256 (show_u8 n @ rest) = Some (n, rest)"
proof -
  have tw: "takeWhile (\<lambda>c. \<exists>y. digit_of 10 c = Some y) rest = []"
    using assms(2) by (cases rest) auto
  show ?thesis
    using assms(1)
    by (cases rule: show_u8_cases) (use assms(1) tw in \<open>simp_all add: read_number_def radix_val_def Let_def\<close>)
qed

lemma digit_of_dot [simp]: "digit_of 10 CHR ''.'' = None" "digit_of 10 CHR ''/'' = None"
  by (simp_all add: digit_of_def code_numeral_simps)

lemma parse_ip_show_v4:
  assumes "a < 256" "b < 256" "c < 256" "d < 256"
  shows "parse_ip (show_v4 a b c d) = Some (V4 (of_nat (((a * 256 + b) * 256 + c) * 256 + d)))"
proof -
  have "read_ipv4_addr (show_v4 a b c d) = Some ([a, b, c, d], [])"
    using assms read_number_show_u8 [of d "[]"]
    by (simp add: read_ipv4_addr_def read_octets_numeral show_v4_def read_separator_def
        read_given_char_def read_number_show_u8)
  then show ?thesis by (simp add: parse_ip_def read_ip_addr_def octets_val_def del: of_nat_add of_nat_mult)
qed

lemma digits_val_show_u8: "n < 256 \<Longrightarrow> digits_val 0 (show_u8 n) = Some n"
  by (cases n rule: show_u8_cases) (simp_all add: is_digit_def)

lemma parse_unsigned_show_u8:
  assumes "n < 256"
  shows "parse_unsigned 256 (show_u8 n) = Some n"
proof -
  obtain x xs where x: "show_u8 n = x # xs" by (cases "show_u8 n") auto
  then have "x \<noteq> CHR ''+''" using show_u8_chars [OF assms, of x] by (auto simp: code_numeral_simps)
  with x show ?thesis
    using digits_val_show_u8 [OF assms] assms by (simp add: parse_unsigned_def)
qed

lemma parse_cidr_show:
  assumes "a < 256" "b < 256" "c < 256" "d < 256" "p \<le> 32"
  shows "parse_cidr (show_v4 a b c d @ ''/'' @ show_u8 p)
    = Some (V4 (of_nat (((a * 256 + b) * 256 + c) * 256 + d)), p)"
proof -
  let ?s = "show_v4 a b c d @ ''/'' @ show_u8 p"
  have p: "p < 256" using assms(5) by simp
  have "hd ?s \<in> set (show_u8 a)" "last ?s \<in> set (show_u8 p)" "?s \<noteq> []"
    by (simp_all add: show_v4_def)
  then have "trim ?s = ?s"
    using show_u8_chars [OF assms(1)] show_u8_chars [OF p]
    by (intro trim_graphic) (fastforce simp: graphic_def)+
  moreover have sl: "CHR ''/'' \<notin> set (show_u8 n)" if "n < 256" for n
    using show_u8_chars [OF that, of "CHR ''/''"] by (auto simp: code_numeral_simps)
  then have "CHR ''/'' \<notin> set (show_v4 a b c d)" using assms by (simp add: show_v4_def)
  then have "split_once CHR ''/'' ?s = Some (show_v4 a b c d, show_u8 p)"
    by simp
  ultimately show ?thesis
    using sl [OF p] parse_unsigned_show_u8 [OF p] parse_ip_show_v4 [OF assms(1-4)] assms(5)
    by (simp add: parse_cidr_def Let_def full_prefix_def)
qed

section \<open>Properties\<close>

text \<open>A CIDR in dotted-decimal notation means what it says: \<open>a.b.c.d/p\<close> matches exactly the IPv4
  addresses whose leading \<open>p\<close> bits are those of \<open>a.b.c.d\<close>, for every prefix length from 0 to 32, and no
  IPv6 address.\<close>

theorem cidr_string_semantics:
  assumes "a < 256" "b < 256" "c < 256" "d < 256" "p \<le> 32"
  shows "cidr_matches (show_v4 a b c d @ ''/'' @ show_u8 p) (V4 x)
        = (drop_bit (32 - p) (of_nat (((a * 256 + b) * 256 + c) * 256 + d)) = drop_bit (32 - p) x)
     \<and> \<not> cidr_matches (show_v4 a b c d @ ''/'' @ show_u8 p) (V6 y)"
  using cidr_matches_V4 [OF parse_cidr_show [OF assms]] by blast

theorem cidr_string_semantics_witness:
  "cidr_matches (show_v4 10 0 0 0 @ ''/'' @ show_u8 8) (V4 0x0A010203)
   \<and> \<not> cidr_matches (show_v4 10 0 0 0 @ ''/'' @ show_u8 8) (V4 0x0B010203)"
  using cidr_string_semantics [of 10 0 0 0 8 "0x0A010203"] cidr_string_semantics [of 10 0 0 0 8 "0x0B010203"] by simp

text \<open>The SSRF filter names exactly the intended ranges, and an IPv4 address cannot slip through in
  IPv6 form: an IPv4-mapped address is judged as the IPv4 address it stands for.\<close>

theorem forbidden_target_ranges:
  "(forbidden_target_category (V4 a) \<noteq> None) =
     (drop_bit 24 a = 127 \<or> drop_bit 16 a = 0xA9FE \<or> drop_bit 28 a = 0xE)
   \<and> forbidden_target_category (V6 (ipv4_mapped a)) = forbidden_target_category (V4 a)
   \<and> (forbidden_target_category (V6 b) \<noteq> None) =
     (case to_ipv4_mapped b of
        Some v4 \<Rightarrow> forbidden_target_category (V4 v4) \<noteq> None
      | None \<Rightarrow> b = 1 \<or> drop_bit 118 b = 0x3FA \<or> drop_bit 120 b = 0xFF)"
  by (auto simp: forbidden_target_category_def forbidden_v4_eq forbidden_v6_eq split: option.splits if_splits)

end
