(* ===== verification/Rows.thy ===== *)
theory Rows
  imports Net
begin

text \<open>
  The table rows of \<open>crates/tunnel-db/src/lib.rs\<close>.  A SQLite \<open>INTEGER\<close> column read as \<open>i64\<close> is
  an \<open>int\<close>; \<open>u16_try_from\<close> and \<open>u64_try_from\<close> are the checked conversions the sources apply to
  such columns.  Timestamps are the text the sources store.
\<close>

definition u16_try_from :: "int \<Rightarrow> u16 option" where
  "u16_try_from n = (if 0 \<le> n \<and> n < 2 ^ 16 then Some (of_int n) else None)"

definition u64_try_from :: "int \<Rightarrow> u64 option" where
  "u64_try_from n = (if 0 \<le> n then Some (of_int n) else None)"

lemma u16_try_from_uint [simp]: "u16_try_from (uint (p :: u16)) = Some p"
  using uint_bounded [of p] by (simp add: u16_try_from_def)

lemma u16_try_from_Some: "u16_try_from n = Some p \<Longrightarrow> uint p = n"
  by (auto simp: u16_try_from_def unsigned_of_int take_bit_int_eq_self_iff split: if_splits)

record NodeCredentialRow =
  ncr_node_id :: string
  ncr_node_status :: string
  ncr_config_version :: int
  ncr_revoked_at :: "string option"
  ncr_expires_at :: "string option"

record UserRow =
  user_id :: string
  user_username :: string
  user_email :: "string option"
  user_password_hash :: string
  user_disabled :: bool

record RouteDetailRow =
  route_id :: string
  route_name :: string
  route_node_id :: string
  route_route_type :: string
  route_enabled :: bool
  route_listen_host :: "string option"
  route_listen_port :: "int option"
  route_hostname :: "string option"
  route_target_host :: string
  route_target_port :: int
  route_tls_mode :: "string option"
  route_status :: string
  route_limits :: "string option"
  route_created_at :: string
  route_updated_at :: string

record NodeRow =
  node_id :: string
  node_name :: string
  node_description :: "string option"
  node_status :: string
  node_hostname :: "string option"
  node_platform :: "string option"
  node_architecture :: "string option"
  node_agent_version :: "string option"
  node_remote_addr :: "string option"
  node_last_seen_at :: "string option"
  node_connected_at :: "string option"
  node_config_version :: int
  node_applied_config_version :: int
  node_config_status :: string
  node_created_at :: string
  node_updated_at :: string

record CredentialRow =
  cred_id :: string
  cred_node_id :: string
  cred_credential_type :: string
  cred_secret_hash :: string
  cred_expires_at :: "string option"
  cred_revoked_at :: "string option"
  cred_last_used_at :: "string option"
  cred_created_at :: string

record CertificateRow =
  cert_id :: string
  cert_name :: string
  cert_hostnames :: string
  cert_certificate :: string
  cert_private_key_encrypted :: "string option"
  cert_expires_at :: "string option"

text \<open>The columns of \<open>certificates\<close> (the row type above leaves the timestamps out) and of \<open>domains\<close>.\<close>

record CertificateTableRow = CertificateRow +
  cert_created_at :: string
  cert_updated_at :: string

record DomainRow =
  dom_id :: string
  dom_hostname :: string
  dom_route_id :: "string option"
  dom_tls_mode :: "string option"
  dom_certificate_id :: "string option"
  dom_enabled :: bool
  dom_created_at :: string
  dom_updated_at :: string

record AclRuleRow =
  aclr_id :: string
  aclr_tenant_id :: string
  aclr_route_id :: "string option"
  aclr_action :: string
  aclr_source_cidr :: "string option"
  aclr_source_port :: "int option"
  aclr_target_host :: "string option"
  aclr_target_port :: "int option"
  aclr_created_at :: string

record AuditRow =
  audit_id :: string
  audit_user_id :: "string option"
  audit_action :: string
  audit_resource_type :: "string option"
  audit_resource_id :: "string option"
  audit_ip :: "string option"
  audit_user_agent :: "string option"
  audit_metadata :: "string option"
  audit_created_at :: string

text \<open>\<open>RouteRow\<close>: the columns of a route the data plane loads (no status, no timestamps).\<close>

record RouteRow =
  rr_id :: string
  rr_name :: string
  rr_node_id :: string
  rr_route_type :: string
  rr_enabled :: bool
  rr_listen_host :: "string option"
  rr_listen_port :: "int option"
  rr_hostname :: "string option"
  rr_target_host :: string
  rr_target_port :: int
  rr_tls_mode :: "string option"
  rr_limits :: "string option"

definition route_row :: "RouteDetailRow \<Rightarrow> RouteRow" where
  "route_row r =
     \<lparr>rr_id = route_id r, rr_name = route_name r, rr_node_id = route_node_id r,
      rr_route_type = route_route_type r, rr_enabled = route_enabled r,
      rr_listen_host = route_listen_host r, rr_listen_port = route_listen_port r,
      rr_hostname = route_hostname r, rr_target_host = route_target_host r,
      rr_target_port = route_target_port r, rr_tls_mode = route_tls_mode r,
      rr_limits = route_limits r\<rparr>"

end
