(* ===== verification/Policy.thy ===== *)
theory Policy
  imports Rows
begin

text \<open>
  Admission policies: the ACL evaluation of \<open>crates/tunnel-core/src/acl.rs\<close>, the ACL store of
  \<open>server/src/acl_store.rs\<close>, the agent's target policy (\<open>crates/tunnel-core/src/target_policy.rs\<close>,
  \<open>SecurityConfig\<close> of \<open>crates/tunnel-config\<close>) and the agent's data-stream handler
  (\<open>agent/src/data_plane.rs\<close>).

  The decision procedures are shown to be deny-overrides policies through the locale
  \<open>deny_overrides\<close>, so that order independence and monotonicity are proved once.  DNS, the TCP
  connection attempt and the \<open>uuid\<close> parser are parameters.
\<close>

section \<open>ACL rules\<close>

definition rule_matches :: "AclRule \<Rightarrow> IpAddr \<Rightarrow> u16 \<Rightarrow> string \<Rightarrow> u16 \<Rightarrow> bool" where
  "rule_matches rule source_ip source_port target_host target_port =
     (if (case acl_source_cidr rule of Some cidr \<Rightarrow> \<not> cidr_matches cidr source_ip | None \<Rightarrow> False)
      then False
      else if (case acl_source_port rule of Some p \<Rightarrow> p \<noteq> source_port | None \<Rightarrow> False) then False
      else if (case acl_target_host rule of
                 Some h \<Rightarrow> \<not> eq_ignore_ascii_case h target_host | None \<Rightarrow> False) then False
      else if (case acl_target_port rule of Some p \<Rightarrow> p \<noteq> target_port | None \<Rightarrow> False) then False
      else True)"

fun evaluate_acl_loop :: "bool \<Rightarrow> AclRule list \<Rightarrow> SocketAddr \<Rightarrow> string \<Rightarrow> u16 \<Rightarrow> bool" where
  "evaluate_acl_loop allowed [] source th tp = allowed"
| "evaluate_acl_loop allowed (rule # rules) source th tp =
     (if rule_matches rule (sa_ip source) (sa_port source) th tp
      then (case acl_action rule of
              Deny \<Rightarrow> False
            | Allow \<Rightarrow> evaluate_acl_loop True rules source th tp)
      else evaluate_acl_loop allowed rules source th tp)"

definition evaluate_acl :: "AclRule list \<Rightarrow> SocketAddr \<Rightarrow> string \<Rightarrow> u16 \<Rightarrow> bool" where
  "evaluate_acl rules source th tp = evaluate_acl_loop False rules source th tp"

section \<open>The ACL store\<close>

record AclSnapshot =
  acl_global :: "AclRule list"
  acl_by_route :: "Uuid \<Rightarrow> AclRule list option"

definition empty_snapshot :: AclSnapshot where
  "empty_snapshot = \<lparr>acl_global = [], acl_by_route = (\<lambda>_. None)\<rparr>"

definition row_to_rule :: "AclRuleRow \<Rightarrow> AclRule option" where
  "row_to_rule row =
     (case (if aclr_action row = ''allow'' then Some Allow
            else if aclr_action row = ''deny'' then Some Deny
            else None) of
        None \<Rightarrow> None
      | Some action \<Rightarrow>
          Some \<lparr>acl_action = action,
                acl_source_cidr = aclr_source_cidr row,
                acl_source_port = Option.bind (aclr_source_port row) u16_try_from,
                acl_target_host = aclr_target_host row,
                acl_target_port = Option.bind (aclr_target_port row) u16_try_from\<rparr>)"

definition push_route_rule :: "Uuid \<Rightarrow> AclRule \<Rightarrow> AclSnapshot \<Rightarrow> AclSnapshot" where
  "push_route_rule rid rule snap =
     snap\<lparr>acl_by_route := (acl_by_route snap)
       (rid \<mapsto> (case acl_by_route snap rid of None \<Rightarrow> [] | Some rs \<Rightarrow> rs) @ [rule])\<rparr>"

definition load_row :: "(string \<Rightarrow> Uuid option) \<Rightarrow> AclSnapshot \<Rightarrow> AclRuleRow \<Rightarrow> AclSnapshot" where
  "load_row parse_uuid snap row =
     (case row_to_rule row of
        None \<Rightarrow> snap
      | Some rule \<Rightarrow>
          (case aclr_route_id row of
             Some rid \<Rightarrow>
               (case parse_uuid rid of
                  Some r \<Rightarrow> push_route_rule r rule snap
                | None \<Rightarrow> snap)
           | None \<Rightarrow> snap\<lparr>acl_global := acl_global snap @ [rule]\<rparr>))"

definition acl_reload :: "(string \<Rightarrow> Uuid option) \<Rightarrow> (unit, AclRuleRow list) result
    \<Rightarrow> AclSnapshot \<Rightarrow> AclSnapshot" where
  "acl_reload parse_uuid rows snap =
     (case rows of
        Inl _ \<Rightarrow> snap
      | Inr rs \<Rightarrow> foldl (load_row parse_uuid) empty_snapshot rs)"

definition acl_allows :: "AclSnapshot \<Rightarrow> Uuid \<Rightarrow> SocketAddr \<Rightarrow> string \<Rightarrow> u16 \<Rightarrow> bool" where
  "acl_allows snap rid source th tp =
     (let route_rules = acl_by_route snap rid in
      if acl_global snap = [] \<and> (case route_rules of None \<Rightarrow> True | Some r \<Rightarrow> r = []) then True
      else
        let merged = acl_global snap @ (case route_rules of Some r \<Rightarrow> r | None \<Rightarrow> [])
        in evaluate_acl merged source th tp)"

section \<open>Deny-overrides policies\<close>

locale deny_overrides =
  fixes hit :: "'r \<Rightarrow> bool" and denies :: "'r \<Rightarrow> bool" and decide :: "'r list \<Rightarrow> bool"
  assumes decide_iff: "decide rs \<longleftrightarrow> (\<exists>r\<in>set rs. hit r) \<and> (\<forall>r\<in>set rs. hit r \<longrightarrow> \<not> denies r)"
begin

lemma decide_set_cong: "set rs = set rs' \<Longrightarrow> decide rs = decide rs'"
  by (simp add: decide_iff)

lemma deny_wins: "r \<in> set rs \<Longrightarrow> hit r \<Longrightarrow> denies r \<Longrightarrow> \<not> decide rs"
  by (auto simp: decide_iff)

lemma default_deny: "(\<And>r. r \<in> set rs \<Longrightarrow> \<not> hit r) \<Longrightarrow> \<not> decide rs"
  by (auto simp: decide_iff)

lemma append_deny_antimono: "decide (rs @ ds) \<Longrightarrow> (\<And>d. d \<in> set ds \<Longrightarrow> denies d) \<Longrightarrow> decide rs"
  by (auto simp: decide_iff)

end

lemma evaluate_acl_loop_iff:
  "evaluate_acl_loop allowed rules source th tp \<longleftrightarrow>
     (allowed \<or> (\<exists>r\<in>set rules. rule_matches r (sa_ip source) (sa_port source) th tp))
     \<and> (\<forall>r\<in>set rules. rule_matches r (sa_ip source) (sa_port source) th tp \<longrightarrow> acl_action r \<noteq> Deny)"
proof (induction rules arbitrary: allowed)
  case (Cons r rules)
  then show ?case by (cases "acl_action r") auto
qed simp

interpretation acl: deny_overrides
  "\<lambda>r. rule_matches r (sa_ip source) (sa_port source) th tp"
  "\<lambda>r. acl_action r = Deny"
  "\<lambda>rs. evaluate_acl rs source th tp"
  for source th tp
  by standard (simp add: evaluate_acl_def evaluate_acl_loop_iff)

lemma rule_matches_iff [policy_simps]:
  "rule_matches r ip p th tp \<longleftrightarrow>
     (\<forall>c. acl_source_cidr r = Some c \<longrightarrow> cidr_matches c ip)
     \<and> (\<forall>q. acl_source_port r = Some q \<longrightarrow> q = p)
     \<and> (\<forall>h. acl_target_host r = Some h \<longrightarrow> eq_ignore_ascii_case h th)
     \<and> (\<forall>q. acl_target_port r = Some q \<longrightarrow> q = tp)"
  by (auto simp: rule_matches_def split: option.splits)

text \<open>The rules in force for a route.\<close>

definition rules_for :: "AclSnapshot \<Rightarrow> Uuid \<Rightarrow> AclRule list" where
  "rules_for snap rid = acl_global snap @ (case acl_by_route snap rid of Some r \<Rightarrow> r | None \<Rightarrow> [])"

lemma acl_allows_eq:
  "acl_allows snap rid source th tp \<longleftrightarrow>
     rules_for snap rid = [] \<or> evaluate_acl (rules_for snap rid) source th tp"
  by (auto simp: acl_allows_def rules_for_def Let_def split: option.splits)

text \<open>What a reload installs: exactly the rules of the convertible rows that are global or name
  the route.\<close>

definition row_applies :: "(string \<Rightarrow> Uuid option) \<Rightarrow> Uuid \<Rightarrow> AclRuleRow \<Rightarrow> bool" where
  "row_applies parse_uuid rid row \<longleftrightarrow>
     (case aclr_route_id row of None \<Rightarrow> True | Some s \<Rightarrow> parse_uuid s = Some rid)"

lemma set_rules_for_load_row:
  "set (rules_for (load_row pu snap row) rid) =
     set (rules_for snap rid)
     \<union> (if row_applies pu rid row then set_option (row_to_rule row) else {})"
  by (auto simp: load_row_def push_route_rule_def rules_for_def row_applies_def split: option.splits)

lemma set_rules_for_reload:
  "set (rules_for (acl_reload pu (Ok rows) snap) rid) =
     {r. \<exists>row\<in>set rows. row_applies pu rid row \<and> row_to_rule row = Some r}"
proof -
  have "set (rules_for (foldl (load_row pu) s rows) rid) =
      set (rules_for s rid) \<union> {r. \<exists>row\<in>set rows. row_applies pu rid row \<and> row_to_rule row = Some r}" for s
    by (induction rows arbitrary: s) (auto simp: set_rules_for_load_row split: if_splits)
  then show ?thesis by (simp add: acl_reload_def rules_for_def empty_snapshot_def)
qed

section \<open>The agent's target policy\<close>

record SecurityConfig =
  allow_targets :: "string list"
  deny_targets :: "string list"

definition default_deny_targets :: "string list" where
  "default_deny_targets = [''127.0.0.0/8'', ''169.254.0.0/16'']"

definition default_security :: SecurityConfig where
  "default_security = \<lparr>allow_targets = [], deny_targets = default_deny_targets\<rparr>"

definition allow_all :: SecurityConfig where
  "allow_all = \<lparr>allow_targets = [], deny_targets = []\<rparr>"

definition target_allowed :: "string list \<Rightarrow> string list \<Rightarrow> IpAddr \<Rightarrow> bool" where
  "target_allowed allow deny ip =
     (if list_ex (\<lambda>c. cidr_matches c ip) allow then True
      else if list_ex (\<lambda>c. cidr_matches c ip) deny then False
      else allow = [])"

definition resolve_target :: "(string \<Rightarrow> u16 \<Rightarrow> SocketAddr list option) \<Rightarrow> SecurityConfig \<Rightarrow> string
    \<Rightarrow> u16 \<Rightarrow> SocketAddr option" where
  "resolve_target lookup_host sec host port =
     (case parse_ip host of
        Some ip \<Rightarrow>
          if target_allowed (allow_targets sec) (deny_targets sec) ip
          then Some \<lparr>sa_ip = ip, sa_port = port\<rparr> else None
      | None \<Rightarrow>
          (case lookup_host host port of
             None \<Rightarrow> None
           | Some addrs \<Rightarrow>
               find (\<lambda>a. target_allowed (allow_targets sec) (deny_targets sec) (sa_ip a)) addrs))"

lemma target_allowed_iff [policy_simps]:
  "target_allowed allow deny ip \<longleftrightarrow>
     (\<exists>c\<in>set allow. cidr_matches c ip) \<or> (allow = [] \<and> \<not> (\<exists>c\<in>set deny. cidr_matches c ip))"
  by (auto simp: target_allowed_def list_ex_iff)

lemma resolve_target_allowed:
  "resolve_target lk sec host port = Some a \<Longrightarrow>
     target_allowed (allow_targets sec) (deny_targets sec) (sa_ip a)"
  by (auto simp: resolve_target_def find_Some_iff split: option.splits if_splits)

section \<open>The agent's data streams\<close>

datatype connect_outcome = Connected "string option" | Refused string | TimedOut

datatype stream_action =
    TcpConnect SocketAddr
  | SendMessage Message u64
  | FinishSend
  | CopyDuplex

definition open_fail :: "string \<Rightarrow> string \<Rightarrow> Message" where
  "open_fail c m = MOpenFail \<lparr>of_code = c, of_message = m\<rparr>"

definition open_target :: "(string \<Rightarrow> u16 \<Rightarrow> SocketAddr list option) \<Rightarrow> (SocketAddr \<Rightarrow> connect_outcome)
    \<Rightarrow> (Message \<Rightarrow> bool) \<Rightarrow> SecurityConfig \<Rightarrow> u64 \<Rightarrow> OpenTcpPayload \<Rightarrow> stream_action list" where
  "open_target lookup_host connect send_ok sec rid p =
     (case resolve_target lookup_host sec (ot_target_host p) (ot_target_port p) of
        None \<Rightarrow>
          [SendMessage (open_fail ''TARGET_DENIED'' ''target denied by agent security policy'') rid,
           FinishSend]
      | Some addr \<Rightarrow>
          TcpConnect addr #
          (case connect addr of
             Refused e \<Rightarrow> [SendMessage (open_fail ''TARGET_UNREACHABLE'' e) rid, FinishSend]
           | TimedOut \<Rightarrow>
               [SendMessage (open_fail ''TARGET_UNREACHABLE'' ''connect timed out after 10s'') rid,
                FinishSend]
           | Connected remote \<Rightarrow>
               (let msg = MOpenOk \<lparr>remote_addr = remote\<rparr> in
                SendMessage msg rid # (if send_ok msg then [CopyDuplex] else []))))"

definition handle_data_stream :: "serde_json \<Rightarrow> (string \<Rightarrow> u16 \<Rightarrow> SocketAddr list option)
    \<Rightarrow> (SocketAddr \<Rightarrow> connect_outcome) \<Rightarrow> (Message \<Rightarrow> bool) \<Rightarrow> SecurityConfig \<Rightarrow> rstream
    \<Rightarrow> stream_action list" where
  "handle_data_stream J lookup_host connect send_ok sec recv =
     (case fst (read_frame recv) of
        Inr (Some frame) \<Rightarrow>
          (case from_frame J frame of
             Inr (MOpenTcp p) \<Rightarrow> open_target lookup_host connect send_ok sec (request_id frame) p
           | Inr _ \<Rightarrow> []
           | Inl _ \<Rightarrow> [])
      | Inr None \<Rightarrow> []
      | Inl _ \<Rightarrow> [])"

definition replies :: "stream_action list \<Rightarrow> (Message \<times> u64) list" where
  "replies acts = concat (map (\<lambda>a. case a of SendMessage m r \<Rightarrow> [(m, r)] | _ \<Rightarrow> []) acts)"

lemma open_target_connects:
  "TcpConnect a \<in> set (open_target lk cn so sec rid p) \<Longrightarrow>
     target_allowed (allow_targets sec) (deny_targets sec) (sa_ip a)"
  by (auto simp: open_target_def Let_def dest: resolve_target_allowed
      split: option.splits connect_outcome.splits if_splits)

lemma open_target_replies:
  "\<exists>m. replies (open_target lk cn so sec rid p) = [(m, rid)] \<and>
     (message_type_of m = OpenOk \<or> message_type_of m = OpenFail) \<and>
     (CopyDuplex \<in> set (open_target lk cn so sec rid p) \<longrightarrow> message_type_of m = OpenOk)"
  by (auto simp: open_target_def replies_def open_fail_def Let_def
      split: option.splits connect_outcome.splits)

section \<open>Properties\<close>

text \<open>The rules in force for a route, read off the rows.\<close>

definition rule_in_force :: "(string \<Rightarrow> Uuid option) \<Rightarrow> AclRuleRow list \<Rightarrow> Uuid \<Rightarrow> AclRule \<Rightarrow> bool" where
  "rule_in_force pu rows rid r \<longleftrightarrow> list_ex (\<lambda>row. row_applies pu rid row \<and> row_to_rule row = Some r) rows"

lemma acl_allows_reloaded:
  "acl_allows (acl_reload pu (Ok rows) snap) rid source th tp \<longleftrightarrow>
     (\<forall>r. \<not> rule_in_force pu rows rid r)
     \<or> (\<exists>r. rule_in_force pu rows rid r \<and> rule_matches r (sa_ip source) (sa_port source) th tp)
       \<and> \<not> (\<exists>r. rule_in_force pu rows rid r \<and> rule_matches r (sa_ip source) (sa_port source) th tp
               \<and> acl_action r = Deny)"
proof -
  have "rule_in_force pu rows rid r \<longleftrightarrow> r \<in> set (rules_for (acl_reload pu (Ok rows) snap) rid)" for r
    by (simp add: set_rules_for_reload rule_in_force_def list_ex_iff)
  then show ?thesis
    unfolding acl_allows_eq acl.decide_iff by (auto simp: ex_in_conv [symmetric] neq_Nil_conv)
qed

text \<open>The documented policy, stated on the rows themselves.  A row is a rule for a route when its action is one of
  the two known ones and it names no route or this one; it concerns a connection when each of its conditions holds: the
  source lies in the network (the leading bits agree), the ports are equal as numbers, the host names are equal
  letter by letter up to ASCII case.\<close>

definition same_letter :: "char \<Rightarrow> char \<Rightarrow> bool" where
  "same_letter c d \<longleftrightarrow>
     c = d \<or> (\<exists>k<26. code c = 65 + k \<and> code d = 97 + k \<or> code c = 97 + k \<and> code d = 65 + k)"

definition in_network :: "string \<Rightarrow> IpAddr \<Rightarrow> bool" where
  "in_network c ip \<longleftrightarrow>
     (\<exists>n a p. parse_cidr c = Some (V4 n, p) \<and> ip = V4 a \<and> drop_bit (32 - p) n = drop_bit (32 - p) a)
     \<or> (\<exists>n a p. parse_cidr c = Some (V6 n, p) \<and> ip = V6 a \<and> drop_bit (128 - p) n = drop_bit (128 - p) a)"

definition row_is_rule :: "(string \<Rightarrow> Uuid option) \<Rightarrow> Uuid \<Rightarrow> AclRuleRow \<Rightarrow> bool" where
  "row_is_rule pu rid row \<longleftrightarrow>
     aclr_action row \<in> {''allow'', ''deny''} \<and> (\<forall>s. aclr_route_id row = Some s \<longrightarrow> pu s = Some rid)"

definition row_concerns :: "AclRuleRow \<Rightarrow> SocketAddr \<Rightarrow> string \<Rightarrow> u16 \<Rightarrow> bool" where
  "row_concerns row source th tp \<longleftrightarrow>
     (\<forall>c. aclr_source_cidr row = Some c \<longrightarrow> in_network c (sa_ip source))
     \<and> (\<forall>q. aclr_source_port row = Some q \<longrightarrow> q = uint (sa_port source))
     \<and> (\<forall>h. aclr_target_host row = Some h \<longrightarrow> list_all2 same_letter h th)
     \<and> (\<forall>q. aclr_target_port row = Some q \<longrightarrow> q = uint tp)"

definition ports_in_range :: "AclRuleRow \<Rightarrow> bool" where
  "ports_in_range row \<longleftrightarrow>
     (\<forall>q. aclr_source_port row = Some q \<or> aclr_target_port row = Some q \<longrightarrow> 0 \<le> q \<and> q < 65536)"

lemma code_eq: "code c = code d \<longleftrightarrow> c = d"
  by (simp add: code_def)

lemma lowercase_code: "code (to_ascii_lowercase_char c) = (if 65 \<le> code c \<and> code c \<le> 90 then code c + 32 else code c)"
  by (simp add: to_ascii_lowercase_char_def code_chr)

lemma same_letter_iff: "to_ascii_lowercase_char c = to_ascii_lowercase_char d \<longleftrightarrow> same_letter c d"
proof -
  have pair: "(\<exists>k<26. x = 65 + k \<and> y = 97 + k) \<longleftrightarrow> 65 \<le> x \<and> x \<le> 90 \<and> y = x + 32" for x y :: nat
    by (auto intro: exI [of _ "x - 65"])
  have "to_ascii_lowercase_char c = to_ascii_lowercase_char d \<longleftrightarrow>
      code (to_ascii_lowercase_char c) = code (to_ascii_lowercase_char d)" by (simp add: code_eq)
  also have "\<dots> \<longleftrightarrow> code c = code d \<or> (65 \<le> code c \<and> code c \<le> 90 \<and> code d = code c + 32)
      \<or> (65 \<le> code d \<and> code d \<le> 90 \<and> code c = code d + 32)"
    unfolding lowercase_code by auto
  also have "\<dots> \<longleftrightarrow> same_letter c d"
    unfolding same_letter_def pair [symmetric] code_eq by blast
  finally show ?thesis .
qed

lemma eq_ignore_ascii_case_iff: "eq_ignore_ascii_case a b \<longleftrightarrow> list_all2 same_letter a b"
  by (simp add: eq_ignore_ascii_case_def to_ascii_lowercase_def list_eq_iff_nth_eq list_all2_conv_all_nth same_letter_iff cong: conj_cong)

lemma in_network_iff: "cidr_matches c ip \<longleftrightarrow> in_network c ip"
proof (cases "parse_cidr c")
  case None
  then show ?thesis by (simp add: cidr_matches_None in_network_def)
next
  case (Some np)
  then obtain n p where c: "parse_cidr c = Some (n, p)" by (cases np) auto
  then show ?thesis
    by (cases n; cases ip) (simp_all add: cidr_matches_V4 cidr_matches_V6 in_network_def c)
qed

lemma port_read: "0 \<le> q \<Longrightarrow> q < 65536 \<Longrightarrow> u16_try_from q = Some w \<longleftrightarrow> uint w = q" for w :: u16
  by (auto simp: u16_try_from_def unsigned_of_int take_bit_int_eq_self)

lemma row_to_rule_concerns:
  assumes "ports_in_range row" "row_to_rule row = Some r"
  shows "rule_matches r (sa_ip source) (sa_port source) th tp \<longleftrightarrow> row_concerns row source th tp"
    and "acl_action r = Deny \<longleftrightarrow> aclr_action row = ''deny''"
proof -
  have r: "acl_source_cidr r = aclr_source_cidr row" "acl_target_host r = aclr_target_host row"
    "acl_source_port r = Option.bind (aclr_source_port row) u16_try_from"
    "acl_target_port r = Option.bind (aclr_target_port row) u16_try_from"
    "acl_action r = Deny \<longleftrightarrow> aclr_action row = ''deny''"
    using assms(2) by (auto simp: row_to_rule_def split: option.splits if_splits)
  then show "acl_action r = Deny \<longleftrightarrow> aclr_action row = ''deny''" by simp
  have port: "(\<forall>q. Option.bind o1 u16_try_from = Some q \<longrightarrow> q = p) \<longleftrightarrow> (\<forall>q. o1 = Some q \<longrightarrow> q = uint p)"
    if "\<forall>q. o1 = Some q \<longrightarrow> 0 \<le> q \<and> q < 65536" for o1 and p :: u16
    using that by (cases o1) (auto simp: u16_try_from_def unsigned_of_int take_bit_int_eq_self)
  show "rule_matches r (sa_ip source) (sa_port source) th tp \<longleftrightarrow> row_concerns row source th tp"
    using assms(1) unfolding rule_matches_iff row_concerns_def r(1-4) ports_in_range_def
    by (simp add: port in_network_iff eq_ignore_ascii_case_iff)
qed

lemma row_is_rule_iff: "row_applies pu rid row \<and> (\<exists>r. row_to_rule row = Some r) \<longleftrightarrow> row_is_rule pu rid row"
  by (auto simp: row_applies_def row_to_rule_def row_is_rule_def split: option.splits)

text \<open>C6. The decision of the ACL store after a reload is the documented policy on the rows of the
  database, whatever their order and whatever was loaded before.  When the ports stored in the rows are port
  numbers, a connection to a route is admitted iff no row is a rule for the route, or some rule for it
  concerns the connection and no rule for it that concerns the connection denies.\<close>

theorem acl_decision:
  assumes "\<forall>row\<in>set rows. ports_in_range row"
  shows "acl_allows (acl_reload pu (Ok rows) snap) rid source th tp \<longleftrightarrow>
     (\<forall>row\<in>set rows. \<not> row_is_rule pu rid row)
     \<or> (\<exists>row\<in>set rows. row_is_rule pu rid row \<and> row_concerns row source th tp)
       \<and> \<not> (\<exists>row\<in>set rows. row_is_rule pu rid row \<and> row_concerns row source th tp \<and> aclr_action row = ''deny'')"
proof -
  have any: "(\<exists>r. rule_in_force pu rows rid r) \<longleftrightarrow> (\<exists>row\<in>set rows. row_is_rule pu rid row)"
    unfolding rule_in_force_def list_ex_iff row_is_rule_iff [symmetric] by blast
  have hit: "(\<exists>r. rule_in_force pu rows rid r \<and> rule_matches r (sa_ip source) (sa_port source) th tp \<and> (acl_action r = Deny \<or> Q))
      \<longleftrightarrow> (\<exists>row\<in>set rows. row_is_rule pu rid row \<and> row_concerns row source th tp \<and> (aclr_action row = ''deny'' \<or> Q))" for Q
    unfolding rule_in_force_def list_ex_iff row_is_rule_iff [symmetric]
    using assms row_to_rule_concerns by blast
  show ?thesis unfolding acl_allows_reloaded using any hit [of True] hit [of False] by auto
qed

text \<open>A stored port that is no port number does not take the row out of force, as the comment on the conversion
  says, but takes the condition out of the row: an \<open>allow\<close> row for port 70000 admits every port.\<close>

lemma port_out_of_range_admits:
  "acl_allows (acl_reload pu (Ok [\<lparr>aclr_id = i, aclr_tenant_id = t, aclr_route_id = None, aclr_action = ''allow'',
      aclr_source_cidr = None, aclr_source_port = Some 70000, aclr_target_host = None, aclr_target_port = None,
      aclr_created_at = ts\<rparr>]) snap) rid source th tp"
  by (simp add: acl_reload_def load_row_def row_to_rule_def u16_try_from_def empty_snapshot_def acl_allows_def
      evaluate_acl_def rule_matches_def)

definition sample_acl_row :: "string \<Rightarrow> string option \<Rightarrow> AclRuleRow" where
  "sample_acl_row act cidr = \<lparr>aclr_id = act, aclr_tenant_id = ''t'', aclr_route_id = None, aclr_action = act, aclr_source_cidr = cidr,
     aclr_source_port = None, aclr_target_host = None, aclr_target_port = None, aclr_created_at = ''ts''\<rparr>"

definition sample_db_rule :: "string \<Rightarrow> string option \<Rightarrow> AclRuleRow" where
  "sample_db_rule act cidr = (sample_acl_row act cidr)\<lparr>aclr_target_host := Some ''DB'', aclr_target_port := Some 80\<rparr>"

theorem acl_decision_witness:
  "\<not> acl_allows (acl_reload (\<lambda>_. None) (Ok [sample_db_rule ''allow'' None, sample_db_rule ''deny'' (Some ''169.254.0.0/16'')])
        empty_snapshot) 1 \<lparr>sa_ip = V4 0xA9FE0101, sa_port = 5\<rparr> ''db'' 80
   \<and> acl_allows (acl_reload (\<lambda>_. None) (Ok [sample_db_rule ''allow'' None, sample_db_rule ''deny'' (Some ''169.254.0.0/16'')])
        empty_snapshot) 1 \<lparr>sa_ip = V4 0x0A000001, sa_port = 5\<rparr> ''db'' 80"
proof -
  let ?rows = "[sample_db_rule ''allow'' None, sample_db_rule ''deny'' (Some ''169.254.0.0/16'')]"
  have range: "\<forall>row\<in>set ?rows. ports_in_range row" by (simp add: ports_in_range_def sample_db_rule_def sample_acl_row_def)
  have "list_all2 same_letter ''DB'' ''db''"
    unfolding eq_ignore_ascii_case_iff [symmetric] by code_simp
  moreover have "in_network ''169.254.0.0/16'' (V4 0xA9FE0101)" "\<not> in_network ''169.254.0.0/16'' (V4 0x0A000001)"
    unfolding in_network_iff [symmetric] by (simp_all add: cidr_matches_V4(1))
  ultimately show ?thesis
    unfolding acl_decision [OF range]
    by (simp add: row_is_rule_def row_concerns_def sample_db_rule_def sample_acl_row_def)
qed

text \<open>C7. The agent never connects to an address its security policy forbids, whatever bytes arrive on
  the stream and whatever the resolver answers: an address it connects to matches an entry of the
  allow list or, when that list is empty, no entry of the deny list.\<close>

theorem agent_connects_only_allowed:
  assumes "TcpConnect a \<in> set (handle_data_stream J lk cn so sec recv)"
  shows "(\<exists>c\<in>set (allow_targets sec). cidr_matches c (sa_ip a))
     \<or> allow_targets sec = [] \<and> (\<forall>c\<in>set (deny_targets sec). \<not> cidr_matches c (sa_ip a))"
proof -
  obtain rid p where "TcpConnect a \<in> set (open_target lk cn so sec rid p)"
    using assms by (auto simp: handle_data_stream_def split: sum.splits option.splits Message.splits)
  from open_target_connects [OF this] show ?thesis by (auto simp: target_allowed_iff)
qed

definition open_json :: "OpenTcpPayload \<Rightarrow> serde_json" where
  "open_json p = (ping_only_json \<lparr>ping_ts = 0\<rparr> [0])\<lparr>js_OpenTcp := single_codec p [1]\<rparr>"

definition sample_open :: OpenTcpPayload where
  "sample_open = \<lparr>ot_route_id = 7, ot_target_host = ''db'', ot_target_port = 5432, ot_client_addr = None\<rparr>"

theorem agent_connects_only_allowed_witness:
  "\<exists>a. TcpConnect a \<in> set (handle_data_stream (open_json sample_open)
          (\<lambda>_ p. Some [\<lparr>sa_ip = V4 0x7F000001, sa_port = p\<rparr>, \<lparr>sa_ip = V4 0x0A000001, sa_port = p\<rparr>])
          (\<lambda>_. Connected None) (\<lambda>_. True) default_security
          \<lparr>pending = encode (new_frame OpenTcp [1]), ending = Eof\<rparr>)
      \<and> (\<forall>c\<in>set (deny_targets default_security). \<not> cidr_matches c (sa_ip a))"
proof -
  let ?acts = "handle_data_stream (open_json sample_open)
          (\<lambda>_ p. Some [\<lparr>sa_ip = V4 0x7F000001, sa_port = p\<rparr>, \<lparr>sa_ip = V4 0x0A000001, sa_port = p\<rparr>])
          (\<lambda>_. Connected None) (\<lambda>_. True) default_security
          \<lparr>pending = encode (new_frame OpenTcp [1]), ending = Eof\<rparr>"
  have "frame_ok (new_frame OpenTcp [1])" by (simp add: frame_ok_def new_frame_def frame_consts)
  from read_frame_put [OF this, of "[]" Eof] obtain
    "fst (read_frame \<lparr>pending = encode (new_frame OpenTcp [1]), ending = Eof\<rparr>) = Ok (Some (new_frame OpenTcp [1]))"
    by simp
  moreover have "parse_ip ''db'' = None" by (simp add: parse_eval)
  ultimately have t: "TcpConnect \<lparr>sa_ip = V4 0x0A000001, sa_port = 5432\<rparr> \<in> set ?acts"
    by (simp add: handle_data_stream_def from_frame_def new_frame_def open_json_def single_codec_def sample_open_def
        open_target_def resolve_target_def target_allowed_def default_security_def default_deny_targets_def
        cidr_matches_V4(1) Let_def)
  from agent_connects_only_allowed [OF t] have "\<forall>c\<in>set (deny_targets default_security). \<not> cidr_matches c (V4 0x0A000001)"
    by (simp add: default_security_def)
  with t show ?thesis by force
qed

text \<open>A data stream is answered exactly once: for every OPEN_TCP frame the agent sends one OPEN_OK
  or one OPEN_FAIL with the request id of that frame, and payload bytes are copied only after
  OPEN_OK; a stream that starts with anything else is dropped without an answer.\<close>

theorem data_stream_reply:
  "case fst (read_frame recv) of
     Inr (Some f) \<Rightarrow>
       (case from_frame J f of
          Inr (MOpenTcp p) \<Rightarrow>
            (\<exists>m. replies (handle_data_stream J lk cn so sec recv) = [(m, request_id f)]
               \<and> message_type_of m = (if CopyDuplex \<in> set (handle_data_stream J lk cn so sec recv)
                   \<or> (\<exists>a r. cn a = Connected r \<and> TcpConnect a \<in> set (handle_data_stream J lk cn so sec recv))
                   then OpenOk else OpenFail))
        | _ \<Rightarrow> handle_data_stream J lk cn so sec recv = [])
   | _ \<Rightarrow> handle_data_stream J lk cn so sec recv = []"
proof -
  have reply: "\<exists>m. replies (open_target lk cn so sec rid p) = [(m, rid)]
      \<and> message_type_of m = (if CopyDuplex \<in> set (open_target lk cn so sec rid p)
          \<or> (\<exists>a r. cn a = Connected r \<and> TcpConnect a \<in> set (open_target lk cn so sec rid p)) then OpenOk else OpenFail)"
    for rid p
    by (auto simp: open_target_def replies_def open_fail_def Let_def split: option.splits connect_outcome.splits)
  show ?thesis
  proof (cases "\<exists>f p. fst (read_frame recv) = Ok (Some f) \<and> from_frame J f = Ok (MOpenTcp p)")
    case True
    then obtain f p where f: "fst (read_frame recv) = Ok (Some f)" "from_frame J f = Ok (MOpenTcp p)" by blast
    have "handle_data_stream J lk cn so sec recv = open_target lk cn so sec (request_id f) p"
      using f by (simp add: handle_data_stream_def)
    then show ?thesis using f reply [of "request_id f" p] by simp
  next
    case False
    then have "handle_data_stream J lk cn so sec recv = []"
      by (auto simp: handle_data_stream_def split: sum.splits option.splits Message.splits)
    with False show ?thesis by (auto split: sum.splits option.splits Message.splits)
  qed
qed

end
