(* ===== verification/Routes.thy ===== *)
theory Routes
  imports Policy
begin

text \<open>
  Server routes and their lookup tables: \<open>server/src/route.rs\<close> (\<open>ServerRoute\<close>, \<open>RouteTable\<close>,
  \<open>HostTable\<close>), the configuration manager \<open>server/src/config.rs\<close> and the table construction at
  start-up in \<open>server/src/main.rs\<close>.

  Both tables are instances of the locale \<open>keyed_table\<close>: a partial key function, an insertion
  that refuses an occupied key, a lookup and a removal.  The \<open>uuid\<close> parser and the JSON parser of
  the \<open>limits\<close> column are parameters.
\<close>

section \<open>Server routes\<close>

record ServerRoute =
  sr_id :: Uuid
  sr_name :: string
  sr_route_type :: RouteType
  sr_enabled :: bool
  sr_node_id :: Uuid
  sr_listen_host :: string
  sr_listen_port :: u16
  sr_target_host :: string
  sr_target_port :: u16
  sr_hostname :: "string option"
  sr_tls_mode :: "string option"
  sr_limits :: "Limits option"

definition listen_addr :: "ServerRoute \<Rightarrow> (string, SocketAddr) result" where
  "listen_addr r =
     (case parse_ip (sr_listen_host r) of
        None \<Rightarrow> Err (sr_listen_host r)
      | Some ip \<Rightarrow> Ok \<lparr>sa_ip = ip, sa_port = sr_listen_port r\<rparr>)"

definition to_route_config :: "ServerRoute \<Rightarrow> RouteConfig" where
  "to_route_config r =
     \<lparr>rc_id = sr_id r, rc_name = sr_name r, rc_route_type = sr_route_type r,
      rc_enabled = sr_enabled r, rc_target_host = sr_target_host r,
      rc_target_port = sr_target_port r, rc_hostname = sr_hostname r, rc_limits = sr_limits r\<rparr>"

definition is_http :: "ServerRoute \<Rightarrow> bool" where
  "is_http r \<longleftrightarrow> sr_route_type r = Http \<or> sr_route_type r = Https"

definition host_key :: "ServerRoute \<Rightarrow> string option" where
  "host_key r =
     (if sr_route_type r = Http \<or> sr_route_type r = Https
      then map_option to_ascii_lowercase (sr_hostname r) else None)"

definition tls_passthrough :: "ServerRoute \<Rightarrow> bool" where
  "tls_passthrough r \<longleftrightarrow> sr_route_type r = Https \<and> sr_tls_mode r = Some ''passthrough''"

datatype RouteParseError =
    UnknownRouteType string
  | NoListenPort
  | ListenPortRange
  | TargetPortRange
  | BadLimits
  | BadRouteId
  | BadNodeId

definition route_type_from_str :: "string \<Rightarrow> RouteType option" where
  "route_type_from_str s =
     (if s = ''tcp'' then Some Tcp
      else if s = ''udp'' then Some Udp
      else if s = ''http'' then Some Http
      else if s = ''https'' then Some Https
      else None)"

definition try_from_row :: "(string \<Rightarrow> Uuid option) \<Rightarrow> (string \<Rightarrow> Limits option) \<Rightarrow> RouteRow
    \<Rightarrow> (RouteParseError, ServerRoute) result" where
  "try_from_row parse_uuid parse_limits r =
     and_then (ok_or (route_type_from_str (rr_route_type r)) (UnknownRouteType (rr_route_type r))) (\<lambda>rt.
     let lhost = (case rr_listen_host r of Some h \<Rightarrow> h | None \<Rightarrow> ''0.0.0.0'') in
     and_then (if rt = Http \<or> rt = Https then Ok 0
               else and_then (ok_or (rr_listen_port r) NoListenPort)
                      (\<lambda>p. ok_or (u16_try_from p) ListenPortRange)) (\<lambda>lport.
     and_then (ok_or (u16_try_from (rr_target_port r)) TargetPortRange) (\<lambda>tport.
     and_then (case rr_limits r of
                 Some s \<Rightarrow> if s \<noteq> [] then map_err (\<lambda>_. BadLimits) (and_then (ok_or (parse_limits s) BadLimits) (\<lambda>l. Ok (Some l)))
                           else Ok None
               | None \<Rightarrow> Ok None) (\<lambda>limits.
     and_then (ok_or (parse_uuid (rr_id r)) BadRouteId) (\<lambda>rid.
     and_then (ok_or (parse_uuid (rr_node_id r)) BadNodeId) (\<lambda>nid.
     Ok \<lparr>sr_id = rid, sr_name = rr_name r, sr_route_type = rt, sr_enabled = rr_enabled r,
         sr_node_id = nid, sr_listen_host = lhost, sr_listen_port = lport,
         sr_target_host = rr_target_host r, sr_target_port = tport, sr_hostname = rr_hostname r,
         sr_tls_mode = rr_tls_mode r, sr_limits = limits\<rparr>))))))"

section \<open>Lookup tables\<close>

type_synonym RouteTable = "(SocketAddr \<times> ServerRoute) list"
type_synonym HostTable = "(string \<times> ServerRoute) list"

datatype RouteTableError =
    InvalidListenAddr string
  | DuplicateListen SocketAddr Uuid Uuid

datatype HostTableError = DuplicateHostname string Uuid Uuid

definition rt_insert :: "ServerRoute \<Rightarrow> RouteTable \<Rightarrow> (RouteTableError, RouteTable) result" where
  "rt_insert r t =
     and_then (map_err InvalidListenAddr (listen_addr r)) (\<lambda>addr.
       case map_of t addr of
         Some existing \<Rightarrow> Err (DuplicateListen addr (sr_id existing) (sr_id r))
       | None \<Rightarrow> Ok (AList.update addr r t))"

definition rt_lookup :: "SocketAddr \<Rightarrow> RouteTable \<Rightarrow> ServerRoute option" where
  "rt_lookup addr t = map_of t addr"

definition rt_remove :: "SocketAddr \<Rightarrow> RouteTable \<Rightarrow> RouteTable" where
  "rt_remove addr t = AList.delete addr t"

definition rt_routes :: "RouteTable \<Rightarrow> ServerRoute list" where
  "rt_routes t = map snd t"

definition ht_insert :: "ServerRoute \<Rightarrow> HostTable \<Rightarrow> (HostTableError, HostTable) result" where
  "ht_insert r t =
     (case host_key r of
        None \<Rightarrow> Ok t
      | Some host \<Rightarrow>
          (case map_of t host of
             Some existing \<Rightarrow> Err (DuplicateHostname host (sr_id existing) (sr_id r))
           | None \<Rightarrow> Ok (AList.update host r t)))"

definition ht_lookup :: "string \<Rightarrow> HostTable \<Rightarrow> ServerRoute option" where
  "ht_lookup host t = map_of t (to_ascii_lowercase host)"

definition ht_remove :: "string \<Rightarrow> HostTable \<Rightarrow> HostTable" where
  "ht_remove host t = AList.delete (to_ascii_lowercase host) t"

definition ht_reconcile_step :: "HostTable \<Rightarrow> ServerRoute \<Rightarrow> HostTable" where
  "ht_reconcile_step t r =
     (case host_key r of Some host \<Rightarrow> AList.update host r t | None \<Rightarrow> t)"

definition ht_reconcile :: "ServerRoute list \<Rightarrow> HostTable \<Rightarrow> HostTable" where
  "ht_reconcile routes t = foldl ht_reconcile_step [] (filter sr_enabled routes)"

text \<open>The interface of both tables.  \<open>key r\<close> is the key a route occupies, if it has one;
  \<open>norm\<close> maps a key used in a lookup to the key under which entries are stored.\<close>

locale keyed_table =
  fixes key :: "'r \<Rightarrow> 'k option"
    and norm :: "'k \<Rightarrow> 'k"
    and look :: "'k \<Rightarrow> 't \<Rightarrow> 'r option"
    and ins :: "'r \<Rightarrow> 't \<Rightarrow> ('e, 't) result"
    and rem :: "'k \<Rightarrow> 't \<Rightarrow> 't"
    and empty :: 't
  assumes key_norm: "key r = Some k \<Longrightarrow> norm k = k"
    and look_empty: "look k empty = None"
    and ins_fresh: "key r = Some k \<Longrightarrow> look k t = None \<Longrightarrow>
        \<exists>t'. ins r t = Ok t' \<and> (\<forall>j. look j t' = (if norm j = k then Some r else look j t))"
    and ins_taken: "key r = Some k \<Longrightarrow> look k t \<noteq> None \<Longrightarrow> \<exists>e. ins r t = Err e"
    and look_rem: "look j (rem k t) = (if norm j = norm k then None else look j t)"
begin

fun ins_all :: "'r list \<Rightarrow> 't \<Rightarrow> ('e, 't) result" where
  "ins_all [] t = Ok t"
| "ins_all (r # rs) t = and_then (ins r t) (ins_all rs)"

lemma ins_Ok_look:
  assumes "key r = Some k" "ins r t = Ok t'"
  shows "look k t = None" and "look j t' = (if norm j = k then Some r else look j t)"
proof -
  show n: "look k t = None"
    using ins_taken [OF assms(1), of t] assms(2) by (cases "look k t") auto
  show "look j t' = (if norm j = k then Some r else look j t)"
    using ins_fresh [OF assms(1) n] assms(2) by auto
qed

text \<open>Loading a list of routes succeeds exactly when no key is used twice, and then every route
  is found under its key.\<close>

lemma ins_all_gen:
  assumes "\<forall>r\<in>set rs. key r \<noteq> None"
  shows "(\<exists>t'. ins_all rs t = Ok t') \<longleftrightarrow>
           distinct (map key rs) \<and> (\<forall>r\<in>set rs. look (the (key r)) t = None)"
  using assms
proof (induction rs arbitrary: t)
  case (Cons r rs)
  then obtain k where k: "key r = Some k" by auto
  show ?case
  proof (cases "look k t")
    case None
    with ins_fresh [OF k] obtain t1 where t1: "ins r t = Ok t1"
      "\<And>j. look j t1 = (if norm j = k then Some r else look j t)" by blast
    have at_key: "look (the (key q)) t1 = None \<longleftrightarrow> key q \<noteq> key r \<and> look (the (key q)) t = None"
      if "q \<in> set rs" for q
    proof -
      obtain kq where kq: "key q = Some kq" using Cons.prems \<open>q \<in> set rs\<close> by auto
      with t1(2) [of kq] key_norm [OF kq] k show ?thesis by auto
    qed
    have "(\<exists>t'. ins_all (r # rs) t = Ok t') \<longleftrightarrow>
        distinct (map key rs) \<and> (\<forall>q\<in>set rs. look (the (key q)) t1 = None)"
      using Cons t1(1) by simp
    also have "\<dots> \<longleftrightarrow> distinct (map key (r # rs)) \<and> (\<forall>q\<in>set (r # rs). look (the (key q)) t = None)"
      using at_key None k by force
    finally show ?thesis .
  next
    case (Some q)
    then show ?thesis using ins_taken [OF k, of t] k by fastforce
  qed
qed simp

lemma ins_all_look:
  assumes "\<forall>r\<in>set rs. key r \<noteq> None" "ins_all rs t = Ok t'"
  shows "look k t' = (case find (\<lambda>r. key r = Some (norm k)) rs of Some r \<Rightarrow> Some r | None \<Rightarrow> look k t)"
  using assms
proof (induction rs arbitrary: t)
  case (Cons r rs)
  then obtain kr t1 where kr: "key r = Some kr" and t1: "ins r t = Ok t1" "ins_all rs t1 = Ok t'"
    by auto
  have eq: "look j t1 = (if norm j = kr then Some r else look j t)" for j
    by (rule ins_Ok_look(2) [OF kr t1(1)])
  have free: "\<forall>q\<in>set rs. look (the (key q)) t1 = None"
    using ins_all_gen [of rs t1] t1(2) Cons.prems(1) by auto
  have "find (\<lambda>q. key q = Some kr) rs = None"
    using free eq [of kr] key_norm [OF kr] by (force simp: find_None_iff)
  moreover have "look k t' = (case find (\<lambda>q. key q = Some (norm k)) rs of Some q \<Rightarrow> Some q | None \<Rightarrow> look k t1)"
    using Cons.IH [of t1] Cons.prems(1) t1(2) by simp
  ultimately show ?case using kr eq [of k] by (cases "norm k = kr") (auto split: option.split)
qed simp

lemma load_distinct:
  assumes "\<forall>r\<in>set rs. key r \<noteq> None"
  shows "(\<exists>t'. ins_all rs empty = Ok t') \<longleftrightarrow> distinct (map key rs)"
  using ins_all_gen [OF assms, of empty] by (simp add: look_empty)

lemma load_look:
  assumes "\<forall>r\<in>set rs. key r \<noteq> None" "ins_all rs empty = Ok t"
  shows "look k t = find (\<lambda>r. key r = Some (norm k)) rs"
  using ins_all_look [OF assms, of k] by (simp add: look_empty split: option.splits)

end

definition listen_key :: "ServerRoute \<Rightarrow> SocketAddr option" where
  "listen_key r = (case listen_addr r of Inr a \<Rightarrow> Some a | Inl _ \<Rightarrow> None)"

interpretation route_table: keyed_table listen_key "\<lambda>a. a" rt_lookup rt_insert rt_remove "[]"
proof (standard, goal_cases)
  case (3 r k t)
  then show ?case by (auto simp: listen_key_def rt_insert_def rt_lookup_def split: sum.splits)
next
  case (4 r k t)
  then show ?case by (auto simp: listen_key_def rt_insert_def rt_lookup_def split: sum.splits option.splits)
qed (simp_all add: rt_lookup_def rt_remove_def)

lemma host_key_lower: "host_key r = Some k \<Longrightarrow> to_ascii_lowercase k = k"
  by (auto simp: host_key_def split: if_splits)

interpretation host_table: keyed_table host_key to_ascii_lowercase ht_lookup ht_insert ht_remove "[]"
proof (standard, goal_cases)
  case (1 r k)
  then show ?case by (rule host_key_lower)
next
  case (3 r k t)
  then show ?case using host_key_lower [of r k] by (auto simp: ht_insert_def ht_lookup_def)
next
  case (4 r k t)
  then show ?case using host_key_lower [of r k] by (auto simp: ht_insert_def ht_lookup_def)
qed (auto simp: ht_lookup_def ht_remove_def)

section \<open>The configuration manager\<close>

datatype ConfigError =
    ListRoutes
  | ParseRoutes RouteParseError
  | NoHostname string
  | DupHostname string string
  | InvalidListen string
  | DupListen SocketAddr string

fun validate_loop :: "SocketAddr set \<Rightarrow> string set \<Rightarrow> ServerRoute list \<Rightarrow> (ConfigError, unit) result" where
  "validate_loop seen_listen seen_host [] = Ok ()"
| "validate_loop seen_listen seen_host (r # rs) =
     (if sr_route_type r = Http \<or> sr_route_type r = Https
      then (case host_key r of
              None \<Rightarrow> Err (NoHostname (sr_name r))
            | Some host \<Rightarrow>
                if host \<in> seen_host then Err (DupHostname host (sr_name r))
                else validate_loop seen_listen (insert host seen_host) rs)
      else (case listen_addr r of
              Inl _ \<Rightarrow> Err (InvalidListen (sr_name r))
            | Inr addr \<Rightarrow>
                if addr \<in> seen_listen then Err (DupListen addr (sr_name r))
                else validate_loop (insert addr seen_listen) seen_host rs))"

definition validate_routes :: "ServerRoute list \<Rightarrow> (ConfigError, unit) result" where
  "validate_routes routes = validate_loop {} {} routes"

text \<open>The manager: the current snapshot and the number of change notifications broadcast so far.\<close>

record ConfigManager =
  cm_snapshot :: "ServerRoute list"
  cm_broadcasts :: nat

definition new_config_manager :: ConfigManager where
  "new_config_manager = \<lparr>cm_snapshot = [], cm_broadcasts = 0\<rparr>"

definition cm_replace :: "ServerRoute list \<Rightarrow> ConfigManager \<Rightarrow> ConfigManager" where
  "cm_replace routes m = m\<lparr>cm_snapshot := routes, cm_broadcasts := Suc (cm_broadcasts m)\<rparr>"

fun collect_rows :: "('r \<Rightarrow> ('e, 'a) result) \<Rightarrow> 'r list \<Rightarrow> ('e, 'a list) result" where
  "collect_rows f [] = Ok []"
| "collect_rows f (x # xs) = and_then (f x) (\<lambda>y. and_then (collect_rows f xs) (\<lambda>ys. Ok (y # ys)))"

definition cm_load :: "(string \<Rightarrow> Uuid option) \<Rightarrow> (string \<Rightarrow> Limits option)
    \<Rightarrow> (unit, RouteRow list) result \<Rightarrow> (ConfigError, ServerRoute list) result" where
  "cm_load pu pl rows =
     and_then (map_err (\<lambda>_. ListRoutes) rows) (\<lambda>rs.
       map_err ParseRoutes (collect_rows (try_from_row pu pl) rs))"

definition cm_reload :: "(string \<Rightarrow> Uuid option) \<Rightarrow> (string \<Rightarrow> Limits option)
    \<Rightarrow> (unit, RouteRow list) result \<Rightarrow> ConfigManager \<Rightarrow> (ConfigError, unit) result \<times> ConfigManager" where
  "cm_reload pu pl rows m =
     (case cm_load pu pl rows of
        Inl e \<Rightarrow> (Err e, m)
      | Inr routes \<Rightarrow>
          (case validate_routes routes of
             Inl e \<Rightarrow> (Err e, m)
           | Inr _ \<Rightarrow> (Ok (), cm_replace routes m)))"

text \<open>Table construction at start-up.\<close>

datatype StartupError = HostInsert HostTableError | RouteInsert RouteTableError

fun build_tables :: "ServerRoute list \<Rightarrow> RouteTable \<Rightarrow> HostTable
    \<Rightarrow> (StartupError, RouteTable \<times> HostTable) result" where
  "build_tables [] rt ht = Ok (rt, ht)"
| "build_tables (r # rs) rt ht =
     (if sr_route_type r = Http \<or> sr_route_type r = Https
      then and_then (map_err HostInsert (ht_insert r ht)) (\<lambda>ht'. build_tables rs rt ht')
      else and_then (map_err RouteInsert (rt_insert r rt)) (\<lambda>rt'. build_tables rs rt' ht))"

text \<open>The slot a route occupies in the data plane: its host name or its listen address.  A set of
  routes is valid when every route has a slot and no slot is shared.\<close>

datatype slot = HostSlot string | ListenSlot SocketAddr

definition slot :: "ServerRoute \<Rightarrow> slot option" where
  "slot r = (if is_http r then map_option HostSlot (host_key r) else map_option ListenSlot (listen_key r))"

definition routes_valid :: "ServerRoute list \<Rightarrow> bool" where
  "routes_valid rs \<longleftrightarrow> (\<forall>r\<in>set rs. slot r \<noteq> None) \<and> distinct (map slot rs)"

lemma slot_not_None: "slot r \<noteq> None \<longleftrightarrow> (if is_http r then host_key r \<noteq> None else listen_key r \<noteq> None)"
  by (simp add: slot_def)

lemma all_slots_iff:
  "(\<forall>r\<in>set rs. slot r \<noteq> None) \<longleftrightarrow>
     (\<forall>r\<in>set (filter is_http rs). host_key r \<noteq> None)
     \<and> (\<forall>r\<in>set (filter (\<lambda>r. \<not> is_http r) rs). listen_key r \<noteq> None)"
  unfolding slot_not_None by auto

lemma validate_loop_Cons:
  "validate_loop L H (r # rs) = Ok () \<longleftrightarrow>
     (case slot r of
        None \<Rightarrow> False
      | Some (HostSlot h) \<Rightarrow> h \<notin> H \<and> validate_loop L (insert h H) rs = Ok ()
      | Some (ListenSlot a) \<Rightarrow> a \<notin> L \<and> validate_loop (insert a L) H rs = Ok ())"
  by (auto simp: slot_def is_http_def listen_key_def split: option.splits sum.splits)

lemma validate_loop_iff:
  "validate_loop L H rs = Ok () \<longleftrightarrow>
     routes_valid rs \<and> (\<forall>r\<in>set rs. slot r \<notin> Some ` (ListenSlot ` L \<union> HostSlot ` H))"
proof (induction rs arbitrary: L H)
  case (Cons r rs)
  then show ?case
    unfolding validate_loop_Cons
    by (auto simp: routes_valid_def image_iff split: option.splits slot.splits)
qed (simp add: routes_valid_def)

lemma validate_routes_iff: "validate_routes rs = Ok () \<longleftrightarrow> routes_valid rs"
  by (simp add: validate_routes_def validate_loop_iff)

lemma distinct_map_filter_inj:
  assumes "distinct (map f xs)" "\<And>x. x \<in> set xs \<Longrightarrow> P x \<Longrightarrow> f x = g (h x)"
  shows "distinct (map h (filter P xs))"
  using assms by (induction xs) (auto, metis image_eqI)

lemma routes_valid_keys:
  assumes "routes_valid rs"
  shows "\<forall>r\<in>set (filter is_http rs). host_key r \<noteq> None" "distinct (map host_key (filter is_http rs))"
    and "\<forall>r\<in>set (filter (\<lambda>r. \<not> is_http r) rs). listen_key r \<noteq> None"
    and "distinct (map listen_key (filter (\<lambda>r. \<not> is_http r) rs))"
proof -
  show "\<forall>r\<in>set (filter is_http rs). host_key r \<noteq> None"
    "\<forall>r\<in>set (filter (\<lambda>r. \<not> is_http r) rs). listen_key r \<noteq> None"
    using assms unfolding routes_valid_def all_slots_iff by simp_all
  show "distinct (map host_key (filter is_http rs))"
    using assms
    by (intro distinct_map_filter_inj [where f = slot and g = "map_option HostSlot"])
      (auto simp: routes_valid_def slot_def)
  show "distinct (map listen_key (filter (\<lambda>r. \<not> is_http r) rs))"
    using assms
    by (intro distinct_map_filter_inj [where f = slot and g = "map_option ListenSlot"])
      (auto simp: routes_valid_def slot_def)
qed

lemma build_tables_split:
  "build_tables rs rt ht = Ok (rt', ht') \<longleftrightarrow>
     route_table.ins_all (filter (\<lambda>r. \<not> is_http r) rs) rt = Ok rt'
     \<and> host_table.ins_all (filter is_http rs) ht = Ok ht'"
  by (induction rs arbitrary: rt ht) (auto simp: is_http_def)

text \<open>Rebuilding the host table from the enabled routes.\<close>

lemma ht_reconcile_fold:
  "map_of (foldl ht_reconcile_step t rs) k =
     (case find (\<lambda>r. host_key r = Some k) (rev rs) of Some r \<Rightarrow> Some r | None \<Rightarrow> map_of t k)"
  by (induction rs rule: rev_induct) (auto simp: ht_reconcile_step_def split: option.splits)

lemma host_key_is_http: "host_key r = Some k \<Longrightarrow> is_http r"
  by (auto simp: host_key_def is_http_def split: if_splits)

lemma valid_host_key_inj:
  assumes "routes_valid rs" "r \<in> set rs" "q \<in> set rs" "host_key r = Some k" "host_key q = Some k"
  shows "r = q"
proof -
  have "inj_on slot (set rs)" using assms(1) by (simp add: routes_valid_def distinct_map)
  moreover have "slot r = slot q"
    using assms(4,5) host_key_is_http [of r k] host_key_is_http [of q k] by (simp add: slot_def)
  ultimately show ?thesis using assms(2,3) by (auto dest: inj_onD)
qed

lemma ht_lookup_reconcile:
  assumes "routes_valid rs"
  shows "ht_lookup h (ht_reconcile rs t) = Some r \<longleftrightarrow>
     r \<in> set rs \<and> sr_enabled r \<and> host_key r = Some (to_ascii_lowercase h)"
proof -
  let ?P = "\<lambda>r. host_key r = Some (to_ascii_lowercase h)"
  have eq: "ht_lookup h (ht_reconcile rs t) = find ?P (rev (filter sr_enabled rs))"
    by (auto simp: ht_lookup_def ht_reconcile_def ht_reconcile_fold split: option.split)
  show ?thesis
  proof
    assume "ht_lookup h (ht_reconcile rs t) = Some r"
    then show "r \<in> set rs \<and> sr_enabled r \<and> ?P r"
      unfolding eq by (auto simp: find_Some_iff) (metis nth_mem set_rev mem_Collect_eq set_filter length_rev)+
  next
    assume r: "r \<in> set rs \<and> sr_enabled r \<and> ?P r"
    then obtain q where q: "find ?P (rev (filter sr_enabled rs)) = Some q"
      by (cases "find ?P (rev (filter sr_enabled rs))") (auto simp: find_None_iff)
    then have "q \<in> set rs" "?P q"
      by (auto simp: find_Some_iff) (metis nth_mem set_rev mem_Collect_eq set_filter length_rev)
    with q r assms show "ht_lookup h (ht_reconcile rs t) = Some r"
      using valid_host_key_inj [of rs q r] by (simp add: eq)
  qed
qed

lemma rt_ins_all_keys:
  "route_table.ins_all rs t = Ok t' \<Longrightarrow> \<forall>r\<in>set rs. listen_key r \<noteq> None"
  by (induction rs arbitrary: t) (auto simp: rt_insert_def listen_key_def)

lemma distinct_slots:
  assumes "distinct (map host_key (filter is_http rs))"
    and "distinct (map listen_key (filter (\<lambda>r. \<not> is_http r) rs))"
    and "\<forall>r\<in>set rs. slot r \<noteq> None"
  shows "distinct (map slot rs)"
  using assms
proof (induction rs)
  case (Cons r rs)
  have "slot q \<noteq> slot r" if "q \<in> set rs" for q
  proof
    assume eq: "slot q = slot r"
    have "slot r \<noteq> None" using Cons.prems(3) by simp
    with eq have "is_http q = is_http r" "if is_http r then host_key q = host_key r else listen_key q = listen_key r"
      by (auto simp: slot_def split: if_splits)
    with Cons.prems(1,2) that show False
      by (cases "is_http r") (auto, (metis image_eqI mem_Collect_eq)+)
  qed
  with Cons show ?case by (auto split: if_splits)
qed simp

lemma build_tables_iff:
  assumes "\<forall>r\<in>set rs. is_http r \<longrightarrow> sr_hostname r \<noteq> None"
  shows "(\<exists>t. build_tables rs [] [] = Ok t) \<longleftrightarrow> routes_valid rs"
proof -
  let ?L = "filter (\<lambda>r. \<not> is_http r) rs" and ?H = "filter is_http rs"
  have hk: "\<forall>r\<in>set ?H. host_key r \<noteq> None" using assms by (auto simp: host_key_def is_http_def)
  have "(\<exists>t. build_tables rs [] [] = Ok t) \<longleftrightarrow>
      (\<exists>rt. route_table.ins_all ?L [] = Ok rt) \<and> (\<exists>ht. host_table.ins_all ?H [] = Ok ht)"
    using build_tables_split by auto
  also have "(\<exists>ht. host_table.ins_all ?H [] = Ok ht) \<longleftrightarrow> distinct (map host_key ?H)"
    by (rule host_table.load_distinct [OF hk])
  also have "(\<exists>rt. route_table.ins_all ?L [] = Ok rt) \<longleftrightarrow>
      (\<forall>r\<in>set ?L. listen_key r \<noteq> None) \<and> distinct (map listen_key ?L)"
    using route_table.load_distinct [of ?L] rt_ins_all_keys [of ?L "[]"] by auto
  also have "((\<forall>r\<in>set ?L. listen_key r \<noteq> None) \<and> distinct (map listen_key ?L)) \<and> distinct (map host_key ?H)
      \<longleftrightarrow> routes_valid rs"
    using hk routes_valid_keys [of rs] distinct_slots [of rs]
    unfolding routes_valid_def all_slots_iff by blast
  finally show ?thesis .
qed

section \<open>Properties\<close>

text \<open>The validation of a configuration snapshot accepts exactly the route lists for which
  every HTTP route has a host name and the construction of the listen table and the host table at
  start-up succeeds; in particular a snapshot that was accepted never makes start-up fail.\<close>

theorem validate_iff_tables_build:
  "validate_routes rs = Ok () \<longleftrightarrow>
     (\<forall>r\<in>set rs. is_http r \<longrightarrow> sr_hostname r \<noteq> None) \<and> (\<exists>t. build_tables rs [] [] = Ok t)"
proof -
  have "routes_valid rs \<Longrightarrow> \<forall>r\<in>set rs. is_http r \<longrightarrow> sr_hostname r \<noteq> None"
    unfolding routes_valid_def all_slots_iff by (auto simp: host_key_def is_http_def)
  then show ?thesis using build_tables_iff [of rs] validate_routes_iff [of rs] by blast
qed

definition sample_route :: ServerRoute where
  "sample_route =
     \<lparr>sr_id = 1, sr_name = ''web'', sr_route_type = Http, sr_enabled = True, sr_node_id = 9,
      sr_listen_host = ''0.0.0.0'', sr_listen_port = 0, sr_target_host = ''10.0.0.5'',
      sr_target_port = 80, sr_hostname = Some ''A.example'', sr_tls_mode = None, sr_limits = None\<rparr>"

lemma sample_route_simps [simp]:
  "is_http sample_route" "host_key sample_route = Some ''a.example''" "sr_enabled sample_route"
  "sr_id sample_route = 1"
  by (simp_all add: sample_route_def is_http_def host_key_def lowercase_eval)

theorem validate_iff_tables_build_witness:
  "validate_routes [sample_route] = Ok () \<and> (\<exists>t. build_tables [sample_route] [] [] = Ok t)
   \<and> validate_routes [sample_route, sample_route] \<noteq> Ok ()"
proof -
  have "validate_routes [sample_route] = Ok ()"
    by (simp add: validate_routes_iff routes_valid_def slot_def)
  moreover have "validate_routes [sample_route, sample_route] \<noteq> Ok ()"
    by (simp add: validate_routes_iff routes_valid_def slot_def)
  ultimately show ?thesis using validate_iff_tables_build [of "[sample_route]"] by blast
qed

text \<open>Host routing after a hot update: for a valid snapshot the rebuilt host table answers a
  host (in any letter case) with the unique enabled HTTP route of the snapshot that has this host
  name, and with nothing otherwise, whatever the table held before.\<close>

theorem host_routing_correct:
  assumes "validate_routes rs = Ok ()"
  shows "ht_lookup h (ht_reconcile rs t) = Some r \<longleftrightarrow>
     r \<in> set rs \<and> sr_enabled r \<and> host_key r = Some (to_ascii_lowercase h)"
  using assms by (intro ht_lookup_reconcile) (simp add: validate_routes_iff)

theorem host_routing_correct_witness:
  "ht_lookup ''a.example'' (ht_reconcile [sample_route] []) = Some sample_route"
proof -
  have "validate_routes [sample_route] = Ok ()"
    by (simp add: validate_routes_iff routes_valid_def slot_def)
  from host_routing_correct [OF this, of "''a.example''" "[]" sample_route] show ?thesis
    by (simp add: lowercase_eval)
qed

text \<open>A configuration reload is all or nothing: when it succeeds the new snapshot is valid and
  is exactly the parsed rows, and one change is broadcast; when loading, parsing or validation
  fails the manager is left untouched.\<close>

theorem reload_atomic:
  "(case cm_reload pu pl rows m of
      (Inr _, m') \<Rightarrow> validate_routes (cm_snapshot m') = Ok () \<and>
         (\<exists>rs. rows = Ok rs \<and> collect_rows (try_from_row pu pl) rs = Ok (cm_snapshot m')) \<and>
         cm_broadcasts m' = cm_broadcasts m + 1
    | (Inl _, m') \<Rightarrow> m' = m)"
  by (cases rows) (auto simp: cm_reload_def cm_load_def cm_replace_def split: sum.splits)

end
