(* ===== verification/ConfigSync.thy ===== *)
theory ConfigSync
  imports Routes
begin

text \<open>
  Configuration distribution: the route delta of \<open>crates/tunnel-core/src/config_sync.rs\<close>, its
  application on the agent (\<open>apply_config_update\<close>, \<open>apply_route_delta\<close> of
  \<open>agent/src/session.rs\<close>) and the server's push channels (\<open>server/src/config_sync.rs\<close>).

  \<open>compute_route_delta\<close> iterates over a \<open>HashMap\<close>, whose order is unspecified: the order of the
  keys is an argument, and the theorems hold for every enumeration of the key set.
\<close>

section \<open>Route deltas\<close>

definition by_id :: "RouteConfig list \<Rightarrow> Uuid \<Rightarrow> RouteConfig option" where
  "by_id rs = foldl (\<lambda>m r. m(rc_id r \<mapsto> r)) Map.empty rs"

definition delta_step :: "(Uuid \<Rightarrow> RouteConfig option) \<Rightarrow> (Uuid \<Rightarrow> RouteConfig option)
    \<Rightarrow> RouteConfig list \<times> RouteConfig list \<Rightarrow> Uuid \<Rightarrow> RouteConfig list \<times> RouteConfig list" where
  "delta_step old_by_id new_by_id au k =
     (case au of (ads, ups) \<Rightarrow>
       (case new_by_id k of
          None \<Rightarrow> (ads, ups)
        | Some new_route \<Rightarrow>
            (case old_by_id k of
               None \<Rightarrow> (ads @ [new_route], ups)
             | Some old_route \<Rightarrow>
                 if old_route \<noteq> new_route then (ads, ups @ [new_route]) else (ads, ups))))"

definition compute_route_delta :: "Uuid list \<Rightarrow> RouteConfig list \<Rightarrow> RouteConfig list \<Rightarrow> RouteDelta" where
  "compute_route_delta order old new =
     (let old_by_id = by_id old;
          new_by_id = by_id new;
          (ads, ups) = foldl (delta_step old_by_id new_by_id) ([], []) order
      in \<lparr>added = ads, updated = ups,
          removed = map rc_id (filter (\<lambda>r. new_by_id (rc_id r) = None) old)\<rparr>)"

definition apply_added :: "RouteConfig list \<Rightarrow> RouteConfig \<Rightarrow> RouteConfig list" where
  "apply_added rs r = (if \<not> list_ex (\<lambda>q. rc_id q = rc_id r) rs then rs @ [r] else rs)"

fun apply_updated :: "RouteConfig list \<Rightarrow> RouteConfig \<Rightarrow> RouteConfig list" where
  "apply_updated [] u = [u]"
| "apply_updated (r # rs) u = (if rc_id r = rc_id u then u # rs else r # apply_updated rs u)"

definition apply_route_delta :: "RouteConfig list \<Rightarrow> RouteDelta \<Rightarrow> RouteConfig list" where
  "apply_route_delta routes delta =
     filter (\<lambda>r. rc_id r \<notin> set (removed delta))
       (foldl apply_updated (foldl apply_added routes (added delta)) (updated delta))"

definition apply_config_update :: "RouteConfig list \<Rightarrow> u64 \<Rightarrow> ConfigUpdatePayload
    \<Rightarrow> (u64, u64 \<times> RouteConfig list) result" where
  "apply_config_update routes applied_version upd =
     (if upd_config_version upd \<noteq> applied_version + 1 then Err applied_version
      else Ok (upd_config_version upd, apply_route_delta routes (upd_routes upd)))"

section \<open>The agent's configuration state\<close>

record AgentConfigState =
  applied_version :: u64
  agent_routes :: "RouteConfig list"

definition config_ack :: "u64 \<Rightarrow> Message" where
  "config_ack v = MConfigAck \<lparr>ack_config_version = v, ack_applied = True, ack_error = None\<rparr>"

definition config_resync :: "u64 \<Rightarrow> Message" where
  "config_resync v = MConfigResync \<lparr>last_applied_version = v\<rparr>"

fun agent_config_step :: "Message \<Rightarrow> AgentConfigState \<Rightarrow> AgentConfigState \<times> Message option" where
  "agent_config_step (MConfigSnapshot s) st =
     (\<lparr>applied_version = snap_config_version s, agent_routes = snap_routes s\<rparr>,
      Some (config_ack (snap_config_version s)))"
| "agent_config_step (MConfigUpdate u) st =
     (case apply_config_update (agent_routes st) (applied_version st) u of
        Inr (v, rs) \<Rightarrow> (\<lparr>applied_version = v, agent_routes = rs\<rparr>, Some (config_ack v))
      | Inl last_applied \<Rightarrow> (st, Some (config_resync last_applied)))"
| "agent_config_step _ st = (st, None)"

fun agent_config_run :: "Message list \<Rightarrow> AgentConfigState \<Rightarrow> AgentConfigState" where
  "agent_config_run [] st = st"
| "agent_config_run (m # ms) st = agent_config_run ms (fst (agent_config_step m st))"

section \<open>The server's push channels\<close>

text \<open>A registered node has an unbounded queue; every registration creates a fresh channel, and
  messages are sent to the channel that is current for the node.\<close>

record ConfigSync =
  cs_push :: "(Uuid \<times> nat) list"
  cs_queues :: "nat \<Rightarrow> Message list"
  cs_next :: nat

definition cs_new :: ConfigSync where
  "cs_new = \<lparr>cs_push = [], cs_queues = (\<lambda>_. []), cs_next = 0\<rparr>"

definition cs_register :: "Uuid \<Rightarrow> ConfigSync \<Rightarrow> nat \<times> ConfigSync" where
  "cs_register nid cs =
     (let ch = cs_next cs in
      (ch, cs\<lparr>cs_push := AList.update nid ch (cs_push cs), cs_queues := (cs_queues cs)(ch := []),
              cs_next := Suc ch\<rparr>))"

definition cs_unregister :: "Uuid \<Rightarrow> ConfigSync \<Rightarrow> ConfigSync" where
  "cs_unregister nid cs = cs\<lparr>cs_push := AList.delete nid (cs_push cs)\<rparr>"

definition cs_push_message :: "Uuid \<Rightarrow> Message \<Rightarrow> ConfigSync \<Rightarrow> ConfigSync" where
  "cs_push_message nid msg cs =
     (case map_of (cs_push cs) nid of
        Some ch \<Rightarrow> cs\<lparr>cs_queues := (cs_queues cs)(ch := cs_queues cs ch @ [msg])\<rparr>
      | None \<Rightarrow> cs)"

definition default_limits :: Limits where
  "default_limits = \<lparr>max_connections = None, max_connection_rate = None, max_bandwidth = None\<rparr>"

definition snapshot_message :: "u64 \<Rightarrow> RouteConfig list \<Rightarrow> Message" where
  "snapshot_message v routes =
     MConfigSnapshot \<lparr>snap_config_version = v, snap_routes = routes, snap_acl = [],
                      snap_limits = default_limits\<rparr>"

definition notify_routes_changed :: "Uuid list \<Rightarrow> Uuid \<Rightarrow> (unit, u64) result \<Rightarrow> RouteConfig list
    \<Rightarrow> RouteConfig list \<Rightarrow> ConfigSync \<Rightarrow> (unit, u64) result \<times> ConfigSync" where
  "notify_routes_changed order nid bumped old_routes new_routes cs =
     (case bumped of
        Inl e \<Rightarrow> (Err e, cs)
      | Inr version \<Rightarrow>
          (Ok version,
           cs_push_message nid
             (MConfigUpdate \<lparr>upd_config_version = version,
                             upd_routes = compute_route_delta order old_routes new_routes,
                             upd_limits = None\<rparr>) cs))"

definition push_snapshot :: "(string \<Rightarrow> Uuid option) \<Rightarrow> (string \<Rightarrow> Limits option)
    \<Rightarrow> (unit, RouteRow list) result \<Rightarrow> Uuid \<Rightarrow> u64 \<Rightarrow> ConfigSync \<Rightarrow> (ConfigError, unit) result \<times> ConfigSync" where
  "push_snapshot pu pl rows nid version cs =
     (case cm_load pu pl rows of
        Inl e \<Rightarrow> (Err e, cs)
      | Inr routes \<Rightarrow>
          (Ok (), cs_push_message nid (snapshot_message version (map to_route_config routes)) cs))"

section \<open>Deltas as map updates\<close>

text \<open>The abstraction of a route list: the route each identifier denotes.\<close>

definition idx :: "RouteConfig list \<Rightarrow> Uuid \<Rightarrow> RouteConfig option" where
  "idx rs = map_of (map (\<lambda>r. (rc_id r, r)) rs)"

abbreviation ids :: "RouteConfig list \<Rightarrow> Uuid list" where
  "ids rs \<equiv> map rc_id rs"

lemma idx_simps [simp]:
  "idx [] k = None"
  "idx (r # rs) k = (if k = rc_id r then Some r else idx rs k)"
  by (auto simp: idx_def)

lemma idx_append: "idx (xs @ ys) k = (case idx xs k of Some r \<Rightarrow> Some r | None \<Rightarrow> idx ys k)"
  by (simp add: idx_def map_add_def split: option.splits)

lemma idx_None_iff: "idx rs k = None \<longleftrightarrow> k \<notin> set (ids rs)"
  by (induction rs) auto

lemma idx_Some: "idx rs k = Some r \<Longrightarrow> r \<in> set rs \<and> rc_id r = k"
  by (induction rs) (auto split: if_splits)

lemma idx_eqI: "distinct (ids rs) \<Longrightarrow> r \<in> set rs \<Longrightarrow> idx rs (rc_id r) = Some r"
  by (induction rs) (auto, metis image_eqI)

lemma set_eq_idx: "distinct (ids rs) \<Longrightarrow> r \<in> set rs \<longleftrightarrow> idx rs (rc_id r) = Some r"
  using idx_eqI idx_Some by blast

lemma idx_filter_id: "idx (filter (\<lambda>r. P (rc_id r)) rs) k = (if P k then idx rs k else None)"
  by (induction rs) auto

lemma by_id_last: "by_id (rs @ [r]) = (by_id rs)(rc_id r \<mapsto> r)"
  by (simp add: by_id_def)

lemma by_id_eq_idx: "distinct (ids rs) \<Longrightarrow> by_id rs = idx rs"
proof (induction rs rule: rev_induct)
  case (snoc r rs)
  then have "idx rs (rc_id r) = None" by (simp add: idx_None_iff)
  with snoc show ?case by (auto simp: by_id_last idx_append fun_eq_iff split: option.splits)
qed (simp add: by_id_def idx_def)

lemma idx_set_cong:
  assumes "distinct (ids rs)" "distinct (ids qs)" "set rs = set qs"
  shows "idx rs = idx qs"
proof
  fix k
  show "idx rs k = idx qs k"
  proof (cases "idx rs k")
    case None
    then show ?thesis using assms(3) by (metis idx_None_iff list.set_map)
  next
    case (Some r)
    then show ?thesis using assms idx_Some [OF Some] idx_eqI [of qs r] by auto
  qed
qed

lemma idx_foldl_added:
  "idx (foldl apply_added rs as) k = (case idx rs k of Some v \<Rightarrow> Some v | None \<Rightarrow> idx as k)"
proof (induction as arbitrary: rs)
  case (Cons a as)
  have "idx (apply_added rs a) k = (case idx rs k of Some v \<Rightarrow> Some v | None \<Rightarrow> idx [a] k)"
    by (cases "list_ex (\<lambda>q. rc_id q = rc_id a) rs")
      (auto simp: apply_added_def idx_append list_ex_iff idx_None_iff image_iff split: option.splits)
  then show ?case using Cons [of "apply_added rs a"] by (auto split: option.splits)
qed (simp split: option.splits)

lemma idx_apply_updated [simp]: "idx (apply_updated rs u) k = (if k = rc_id u then Some u else idx rs k)"
  by (induction rs) auto

lemma idx_foldl_updated:
  "idx (foldl apply_updated rs us) k = (case by_id us k of Some u \<Rightarrow> Some u | None \<Rightarrow> idx rs k)"
  by (induction us rule: rev_induct) (auto simp: by_id_last, auto simp: by_id_def)

lemma ids_apply_updated: "set (ids (apply_updated rs u)) = insert (rc_id u) (set (ids rs))"
  by (induction rs) auto

lemma distinct_apply:
  "distinct (ids rs) \<Longrightarrow> distinct (ids (apply_added rs r))"
  "distinct (ids rs) \<Longrightarrow> distinct (ids (apply_updated rs r))"
proof -
  show "distinct (ids rs) \<Longrightarrow> distinct (ids (apply_added rs r))"
    by (auto simp: apply_added_def list_ex_iff)
  show "distinct (ids rs) \<Longrightarrow> distinct (ids (apply_updated rs r))"
    using ids_apply_updated by (induction rs) auto
qed

lemma distinct_apply_route_delta:
  assumes "distinct (ids rs)"
  shows "distinct (ids (apply_route_delta rs d))"
proof -
  have "distinct (ids (foldl apply_added rs as))" for as
    using assms by (induction as rule: rev_induct) (simp_all add: distinct_apply)
  then have "distinct (ids (foldl apply_updated (foldl apply_added rs as) us))" for as us
    by (induction us rule: rev_induct) (simp_all add: distinct_apply)
  then show ?thesis by (simp add: apply_route_delta_def distinct_map_filter)
qed

lemma delta_lists:
  "foldl (delta_step old_by_id new_by_id) (as, us) order =
     (as @ map (\<lambda>k. the (new_by_id k)) (filter (\<lambda>k. new_by_id k \<noteq> None \<and> old_by_id k = None) order),
      us @ map (\<lambda>k. the (new_by_id k))
        (filter (\<lambda>k. new_by_id k \<noteq> None \<and> old_by_id k \<noteq> None \<and> old_by_id k \<noteq> new_by_id k) order))"
  by (induction order arbitrary: as us) (auto simp: delta_step_def split: option.splits)

lemma idx_map_the:
  assumes "\<And>k. k \<in> set ks \<Longrightarrow> \<exists>r. m k = Some r \<and> rc_id r = k"
  shows "idx (map (\<lambda>k. the (m k)) ks) k = (if k \<in> set ks then m k else None)"
    and "by_id (map (\<lambda>k. the (m k)) ks) k = (if k \<in> set ks then m k else None)"
proof -
  show "idx (map (\<lambda>k. the (m k)) ks) k = (if k \<in> set ks then m k else None)"
    using assms
  proof (induction ks)
    case (Cons a ks)
    then obtain r where "m a = Some r" "rc_id r = a" by auto
    with Cons show ?case by auto
  qed simp
  show "by_id (map (\<lambda>k. the (m k)) ks) k = (if k \<in> set ks then m k else None)"
    using assms
  proof (induction ks rule: rev_induct)
    case (snoc a ks)
    then obtain r where "m a = Some r" "rc_id r = a" by auto
    with snoc show ?case by (auto simp: by_id_last)
  qed (simp add: by_id_def)
qed

lemma compute_route_delta_spec:
  assumes old: "distinct (ids old)" and new: "distinct (ids new)"
    and order: "set order = set (ids new)"
  defines "d \<equiv> compute_route_delta order old new"
  shows "idx (added d) k = (if idx old k = None then idx new k else None)"
    and "by_id (updated d) k = (if idx old k \<noteq> None \<and> idx old k \<noteq> idx new k then idx new k else None)"
    and "k \<in> set (removed d) \<longleftrightarrow> idx old k \<noteq> None \<and> idx new k = None"
proof -
  have in_order: "j \<in> set order \<longleftrightarrow> idx new j \<noteq> None" for j by (simp add: order idx_None_iff)
  have d: "added d = map (\<lambda>k. the (idx new k)) (filter (\<lambda>k. idx new k \<noteq> None \<and> idx old k = None) order)"
    "updated d = map (\<lambda>k. the (idx new k))
      (filter (\<lambda>k. idx new k \<noteq> None \<and> idx old k \<noteq> None \<and> idx old k \<noteq> idx new k) order)"
    "removed d = map rc_id (filter (\<lambda>r. idx new (rc_id r) = None) old)"
    by (simp_all add: d_def compute_route_delta_def Let_def by_id_eq_idx old new delta_lists)
  show "idx (added d) k = (if idx old k = None then idx new k else None)"
    unfolding d(1) using in_order by (subst idx_map_the(1)) (auto dest: idx_Some)
  show "by_id (updated d) k = (if idx old k \<noteq> None \<and> idx old k \<noteq> idx new k then idx new k else None)"
    unfolding d(2) using in_order by (subst idx_map_the(2)) (auto dest: idx_Some)
  show "k \<in> set (removed d) \<longleftrightarrow> idx old k \<noteq> None \<and> idx new k = None"
    unfolding d(3) by (auto simp: idx_None_iff image_iff)
qed

lemma idx_apply_route_delta:
  "idx (apply_route_delta rs d) k =
     (if k \<in> set (removed d) then None
      else case by_id (updated d) k of
             Some u \<Rightarrow> Some u
           | None \<Rightarrow> (case idx rs k of Some v \<Rightarrow> Some v | None \<Rightarrow> idx (added d) k))"
  unfolding apply_route_delta_def
  using idx_filter_id [of "\<lambda>i. i \<notin> set (removed d)"]
  by (simp add: idx_foldl_updated idx_foldl_added split: option.split)

text \<open>Applying the delta computed from \<open>old\<close> to \<open>new\<close> on any list that represents \<open>old\<close>
  yields a list that represents \<open>new\<close>.\<close>

lemma apply_compute_route_delta:
  assumes "distinct (ids old)" "distinct (ids new)" "set order = set (ids new)" "idx rs = idx old"
  shows "idx (apply_route_delta rs (compute_route_delta order old new)) = idx new"
proof
  fix k
  show "idx (apply_route_delta rs (compute_route_delta order old new)) k = idx new k"
    unfolding idx_apply_route_delta compute_route_delta_spec [OF assms(1-3)] assms(4)
    by (cases "idx old k"; cases "idx new k") auto
qed

lemma set_from_idx: "distinct (ids rs) \<Longrightarrow> distinct (ids qs) \<Longrightarrow> idx rs = idx qs \<Longrightarrow> set rs = set qs"
  by (auto simp: set_eq_idx)

section \<open>Convergence of an agent with the server's history\<close>

text \<open>\<open>H v\<close> is the server's route list at version \<open>v\<close>.  A configuration message is authentic when
  it is a snapshot of some version or the delta that leads to some version from its predecessor.\<close>

definition authentic :: "(u64 \<Rightarrow> RouteConfig list) \<Rightarrow> Message \<Rightarrow> bool" where
  "authentic H m =
     (case m of
        MConfigSnapshot s \<Rightarrow> snap_routes s = H (snap_config_version s)
      | MConfigUpdate u \<Rightarrow>
          (\<exists>order. set order = set (ids (H (upd_config_version u))) \<and>
             upd_routes u = compute_route_delta order (H (upd_config_version u - 1)) (H (upd_config_version u)))
      | _ \<Rightarrow> True)"

definition in_sync :: "(u64 \<Rightarrow> RouteConfig list) \<Rightarrow> AgentConfigState \<Rightarrow> bool" where
  "in_sync H st \<longleftrightarrow> distinct (ids (agent_routes st)) \<and> set (agent_routes st) = set (H (applied_version st))"

lemma in_sync_step:
  assumes "\<forall>v. distinct (ids (H v))" "in_sync H st" "authentic H m"
  shows "in_sync H (fst (agent_config_step m st))"
proof (cases m)
  case (MConfigUpdate u)
  show ?thesis
  proof (cases "upd_config_version u = applied_version st + 1")
    case True
    let ?v = "upd_config_version u"
    obtain order where order: "set order = set (ids (H ?v))"
      "upd_routes u = compute_route_delta order (H (applied_version st)) (H ?v)"
      using assms(3) MConfigUpdate True by (auto simp: authentic_def)
    have d: "distinct (ids (agent_routes st))" and s: "set (agent_routes st) = set (H (applied_version st))"
      using assms(2) by (simp_all add: in_sync_def)
    have "idx (agent_routes st) = idx (H (applied_version st))"
      using idx_set_cong [OF d _ s] assms(1) by simp
    then have "idx (apply_route_delta (agent_routes st) (upd_routes u)) = idx (H ?v)"
      unfolding order(2) using assms(1) order(1) by (intro apply_compute_route_delta) auto
    then have "distinct (ids (apply_route_delta (agent_routes st) (upd_routes u)))"
      "set (apply_route_delta (agent_routes st) (upd_routes u)) = set (H ?v)"
      using d assms(1) by (simp_all add: distinct_apply_route_delta set_from_idx)
    moreover have "apply_config_update (agent_routes st) (applied_version st) u
        = Ok (?v, apply_route_delta (agent_routes st) (upd_routes u))"
      using True by (simp only: apply_config_update_def) simp
    ultimately show ?thesis using MConfigUpdate by (simp add: in_sync_def)
  next
    case False
    then have "apply_config_update (agent_routes st) (applied_version st) u = Err (applied_version st)"
      by (simp only: apply_config_update_def) simp
    then show ?thesis using MConfigUpdate assms(2) by simp
  qed
qed (use assms in \<open>auto simp: authentic_def in_sync_def\<close>)

lemma in_sync_run:
  assumes "\<forall>v. distinct (ids (H v))" "in_sync H st" "\<forall>m\<in>set ms. authentic H m"
  shows "in_sync H (agent_config_run ms st)"
  using assms(2,3)
proof (induction ms arbitrary: st)
  case (Cons m ms)
  then show ?case using in_sync_step [OF assms(1), of st m] by simp
qed simp

section \<open>Properties\<close>

text \<open>C8. The server's delta and the agent's application of it are inverse: for route lists with
  distinct identifiers, and whatever order the hash map is enumerated in, applying the delta
  computed from the old list to the new list turns the old list into a list with exactly the new
  routes, again with distinct identifiers.\<close>

theorem route_delta_roundtrip:
  assumes "distinct (ids old)" "distinct (ids new)" "set order = set (ids new)"
  shows "set (apply_route_delta old (compute_route_delta order old new)) = set new
    \<and> distinct (ids (apply_route_delta old (compute_route_delta order old new)))"
proof -
  have d: "distinct (ids (apply_route_delta old (compute_route_delta order old new)))"
    using assms(1) by (rule distinct_apply_route_delta)
  then show ?thesis
    using set_from_idx [OF d assms(2)] apply_compute_route_delta [OF assms refl] by simp
qed

definition sample_config :: "Uuid \<Rightarrow> string \<Rightarrow> RouteConfig" where
  "sample_config i name =
     \<lparr>rc_id = i, rc_name = name, rc_route_type = Tcp, rc_enabled = True,
      rc_target_host = ''10.0.0.5'', rc_target_port = 22, rc_hostname = None, rc_limits = None\<rparr>"

theorem route_delta_roundtrip_witness:
  "set (apply_route_delta [sample_config 1 ''a'', sample_config 2 ''b'']
      (compute_route_delta [3, 2] [sample_config 1 ''a'', sample_config 2 ''b'']
         [sample_config 2 ''c'', sample_config 3 ''d'']))
   = {sample_config 2 ''c'', sample_config 3 ''d''}"
  using route_delta_roundtrip
    [of "[sample_config 1 ''a'', sample_config 2 ''b'']" "[sample_config 2 ''c'', sample_config 3 ''d'']" "[3, 2]"]
  by (simp add: sample_config_def insert_commute)

text \<open>C2. Convergence of configuration distribution: if the agent starts from an authentic
  snapshot, then after any sequence of authentic configuration messages, delivered in any order,
  with losses, repetitions and interleaved snapshots, the agent's routes are exactly the server's
  routes at the version the agent reports as applied.\<close>

theorem agent_converges:
  assumes "\<forall>v. distinct (ids (H v))" "in_sync H st" "\<forall>m\<in>set ms. authentic H m"
  shows "in_sync H (agent_config_run ms st)"
  using assms by (rule in_sync_run)

definition sample_history :: "u64 \<Rightarrow> RouteConfig list" where
  "sample_history v = (if v = 0 then [] else if v = 1 then [sample_config 1 ''a''] else [sample_config 2 ''b''])"

definition sample_update :: "u64 \<Rightarrow> Message" where
  "sample_update v =
     MConfigUpdate \<lparr>upd_config_version = v,
       upd_routes = compute_route_delta (ids (sample_history v)) (sample_history (v - 1)) (sample_history v),
       upd_limits = None\<rparr>"

lemma sample_update_authentic: "authentic sample_history (sample_update v)"
  by (auto simp: authentic_def sample_update_def intro!: exI [of _ "ids (sample_history v)"])

theorem agent_converges_witness:
  "in_sync sample_history
     (agent_config_run [sample_update 2, sample_update 1, sample_update 2]
        \<lparr>applied_version = 0, agent_routes = []\<rparr>)"
  by (rule agent_converges)
    (auto simp: sample_update_authentic, auto simp: sample_history_def sample_config_def in_sync_def)

end
