(* ===== verification/Database.thy ===== *)
theory Database
  imports Rows "HOL-Library.List_Lexorder" "HOL-Library.Char_ord"
begin

text \<open>
  The database layer \<open>crates/tunnel-db/src/lib.rs\<close> over the schema of \<open>migrations/\<close>: one list of rows
  per table, and one definition per query method, with the primary-key, \<open>UNIQUE\<close> and foreign-key
  constraints of the schema (\<open>foreign_keys(true)\<close>, \<open>ON DELETE CASCADE\<close>).  A statement that violates a
  constraint fails and changes nothing.  \<open>ORDER BY\<close> is a stable sort in the binary collation.
  Failures of the storage itself are not modelled here; the callers that handle them take the
  result of the query as an argument.
\<close>

datatype DbError = RowNotFound | UniqueViolation | ForeignKeyViolation

record RoleRow =
  role_id :: string
  role_name :: string

record Db =
  t_users :: "UserRow list"
  t_roles :: "RoleRow list"
  t_user_roles :: "(string \<times> string) list"
  t_nodes :: "NodeRow list"
  t_credentials :: "CredentialRow list"
  t_routes :: "RouteDetailRow list"
  t_acl_rules :: "AclRuleRow list"
  t_domains :: "DomainRow list"
  t_certificates :: "CertificateTableRow list"
  t_audit_logs :: "AuditRow list"

definition update_where :: "('r \<Rightarrow> bool) \<Rightarrow> ('r \<Rightarrow> 'r) \<Rightarrow> 'r list \<Rightarrow> 'r list" where
  "update_where P f rows = map (\<lambda>r. if P r then f r else r) rows"

definition delete_where :: "('r \<Rightarrow> bool) \<Rightarrow> 'r list \<Rightarrow> 'r list" where
  "delete_where P rows = filter (\<lambda>r. \<not> P r) rows"

section \<open>Nodes and credentials\<close>

definition find_node_credential :: "string \<Rightarrow> Db \<Rightarrow> NodeCredentialRow option" where
  "find_node_credential hash db =
     (case concat (map (\<lambda>c.
         if cred_secret_hash c = hash \<and> cred_credential_type c = ''token''
         then map (\<lambda>n. \<lparr>ncr_node_id = node_id n, ncr_node_status = node_status n,
                        ncr_config_version = node_config_version n,
                        ncr_revoked_at = cred_revoked_at c, ncr_expires_at = cred_expires_at c\<rparr>)
                (filter (\<lambda>n. node_id n = cred_node_id c) (t_nodes db))
         else []) (t_credentials db)) of
        [] \<Rightarrow> None
      | r # _ \<Rightarrow> Some r)"

definition set_node_online :: "string \<Rightarrow> string \<Rightarrow> string \<Rightarrow> string \<Rightarrow> Db \<Rightarrow> Db" where
  "set_node_online nid addr version ts db =
     db\<lparr>t_nodes := update_where (\<lambda>n. node_id n = nid)
       (\<lambda>n. n\<lparr>node_status := ''online'', node_remote_addr := Some addr,
              node_agent_version := Some version, node_connected_at := Some ts,
              node_last_seen_at := Some ts, node_updated_at := ts\<rparr>) (t_nodes db)\<rparr>"

definition set_node_offline :: "string \<Rightarrow> string \<Rightarrow> Db \<Rightarrow> Db" where
  "set_node_offline nid ts db =
     db\<lparr>t_nodes := update_where (\<lambda>n. node_id n = nid \<and> node_status n = ''online'')
       (\<lambda>n. n\<lparr>node_status := ''offline'', node_last_seen_at := Some ts, node_updated_at := ts\<rparr>)
       (t_nodes db)\<rparr>"

definition get_config_version :: "string \<Rightarrow> Db \<Rightarrow> (DbError, int) result" where
  "get_config_version nid db =
     (case find (\<lambda>n. node_id n = nid) (t_nodes db) of
        Some n \<Rightarrow> Ok (node_config_version n)
      | None \<Rightarrow> Err RowNotFound)"

definition bump_config_version :: "string \<Rightarrow> string \<Rightarrow> Db \<Rightarrow> (DbError, int) result \<times> Db" where
  "bump_config_version nid ts db =
     (let db' = db\<lparr>t_nodes := update_where (\<lambda>n. node_id n = nid)
            (\<lambda>n. n\<lparr>node_config_version := node_config_version n + 1,
                   node_config_status := ''pending'', node_updated_at := ts\<rparr>) (t_nodes db)\<rparr>
      in (get_config_version nid db', db'))"

definition set_node_applied_config :: "string \<Rightarrow> int \<Rightarrow> string \<Rightarrow> Db \<Rightarrow> Db" where
  "set_node_applied_config nid version ts db =
     db\<lparr>t_nodes := update_where (\<lambda>n. node_id n = nid)
       (\<lambda>n. n\<lparr>node_applied_config_version := version, node_config_status := ''synced'',
              node_updated_at := ts\<rparr>) (t_nodes db)\<rparr>"

definition set_node_config_failed :: "string \<Rightarrow> string \<Rightarrow> Db \<Rightarrow> Db" where
  "set_node_config_failed nid ts db =
     db\<lparr>t_nodes := update_where (\<lambda>n. node_id n = nid)
       (\<lambda>n. n\<lparr>node_config_status := ''failed'', node_updated_at := ts\<rparr>) (t_nodes db)\<rparr>"

definition list_nodes :: "Db \<Rightarrow> NodeRow list" where
  "list_nodes db = sort_key node_name (t_nodes db)"

definition count_nodes :: "Db \<Rightarrow> nat" where
  "count_nodes db = length (t_nodes db)"

definition get_node :: "string \<Rightarrow> Db \<Rightarrow> NodeRow option" where
  "get_node nid db = find (\<lambda>n. node_id n = nid) (t_nodes db)"

definition node_exists :: "string \<Rightarrow> Db \<Rightarrow> bool" where
  "node_exists nid db \<longleftrightarrow> length (filter (\<lambda>n. node_id n = nid) (t_nodes db)) > 0"

definition node_name_exists :: "string \<Rightarrow> string option \<Rightarrow> Db \<Rightarrow> bool" where
  "node_name_exists name exclude db \<longleftrightarrow>
     length (filter (\<lambda>n. node_name n = name \<and> (case exclude of Some i \<Rightarrow> node_id n \<noteq> i | None \<Rightarrow> True))
       (t_nodes db)) > 0"

definition create_node :: "string \<Rightarrow> string \<Rightarrow> string option \<Rightarrow> string \<Rightarrow> Db \<Rightarrow> (DbError, Db) result" where
  "create_node nid name descr ts db =
     (if list_ex (\<lambda>n. node_id n = nid \<or> node_name n = name) (t_nodes db) then Err UniqueViolation
      else Ok (db\<lparr>t_nodes := t_nodes db @
        [\<lparr>node_id = nid, node_name = name, node_description = descr, node_status = ''pending'',
          node_hostname = None, node_platform = None, node_architecture = None,
          node_agent_version = None, node_remote_addr = None, node_last_seen_at = None,
          node_connected_at = None, node_config_version = 0, node_applied_config_version = 0,
          node_config_status = ''pending'', node_created_at = ts, node_updated_at = ts\<rparr>]\<rparr>))"

definition update_node :: "string \<Rightarrow> string \<Rightarrow> string option \<Rightarrow> string \<Rightarrow> Db \<Rightarrow> (DbError, Db) result" where
  "update_node nid name descr ts db =
     (if list_ex (\<lambda>n. node_id n = nid) (t_nodes db)
         \<and> list_ex (\<lambda>n. node_name n = name \<and> node_id n \<noteq> nid) (t_nodes db)
      then Err UniqueViolation
      else Ok (db\<lparr>t_nodes := update_where (\<lambda>n. node_id n = nid)
        (\<lambda>n. n\<lparr>node_name := name, node_description := descr, node_updated_at := ts\<rparr>) (t_nodes db)\<rparr>))"

text \<open>\<open>DELETE\<close> with the cascades of the schema: the routes and credentials of the node, and the ACL
  rules of those routes; a domain of a deleted route loses its route (\<open>ON DELETE SET NULL\<close>).\<close>

definition unlink_domains :: "string list \<Rightarrow> DomainRow list \<Rightarrow> DomainRow list" where
  "unlink_domains gone = update_where (\<lambda>d. case dom_route_id d of Some r \<Rightarrow> r \<in> set gone | None \<Rightarrow> False)
     (\<lambda>d. d\<lparr>dom_route_id := None\<rparr>)"

definition delete_node :: "string \<Rightarrow> Db \<Rightarrow> Db" where
  "delete_node nid db =
     (let gone = map route_id (filter (\<lambda>r. route_node_id r = nid) (t_routes db)) in
      db\<lparr>t_nodes := delete_where (\<lambda>n. node_id n = nid) (t_nodes db),
         t_credentials := delete_where (\<lambda>c. cred_node_id c = nid) (t_credentials db),
         t_routes := delete_where (\<lambda>r. route_node_id r = nid) (t_routes db),
         t_acl_rules := delete_where
           (\<lambda>a. case aclr_route_id a of Some r \<Rightarrow> r \<in> set gone | None \<Rightarrow> False) (t_acl_rules db),
         t_domains := unlink_domains gone (t_domains db)\<rparr>)"

definition set_node_agent_meta :: "string \<Rightarrow> string option \<Rightarrow> string option \<Rightarrow> string option
    \<Rightarrow> string option \<Rightarrow> string \<Rightarrow> Db \<Rightarrow> Db" where
  "set_node_agent_meta nid host plat arch version ts db =
     db\<lparr>t_nodes := update_where (\<lambda>n. node_id n = nid)
       (\<lambda>n. n\<lparr>node_hostname := host, node_platform := plat, node_architecture := arch,
              node_agent_version := version, node_updated_at := ts\<rparr>) (t_nodes db)\<rparr>"

definition create_credential :: "string \<Rightarrow> string \<Rightarrow> string \<Rightarrow> string \<Rightarrow> string option \<Rightarrow> string \<Rightarrow> Db
    \<Rightarrow> (DbError, Db) result" where
  "create_credential cid nid ty hash expires ts db =
     (if list_ex (\<lambda>c. cred_id c = cid) (t_credentials db) then Err UniqueViolation
      else if \<not> list_ex (\<lambda>n. node_id n = nid) (t_nodes db) then Err ForeignKeyViolation
      else Ok (db\<lparr>t_credentials := t_credentials db @
        [\<lparr>cred_id = cid, cred_node_id = nid, cred_credential_type = ty, cred_secret_hash = hash,
          cred_expires_at = expires, cred_revoked_at = None, cred_last_used_at = None,
          cred_created_at = ts\<rparr>]\<rparr>))"

definition find_credential_by_hash :: "string \<Rightarrow> string \<Rightarrow> Db \<Rightarrow> CredentialRow option" where
  "find_credential_by_hash hash ty db =
     find (\<lambda>c. cred_secret_hash c = hash \<and> cred_credential_type c = ty) (t_credentials db)"

definition get_credential :: "string \<Rightarrow> Db \<Rightarrow> CredentialRow option" where
  "get_credential cid db = find (\<lambda>c. cred_id c = cid) (t_credentials db)"

definition revoke_credential :: "string \<Rightarrow> string \<Rightarrow> Db \<Rightarrow> Db" where
  "revoke_credential cid ts db =
     db\<lparr>t_credentials := update_where (\<lambda>c. cred_id c = cid) (\<lambda>c. c\<lparr>cred_revoked_at := Some ts\<rparr>)
       (t_credentials db)\<rparr>"

section \<open>Users\<close>

definition find_user_by_username :: "string \<Rightarrow> Db \<Rightarrow> UserRow option" where
  "find_user_by_username name db = find (\<lambda>u. user_username u = name) (t_users db)"

definition list_role_names_for_user :: "string \<Rightarrow> Db \<Rightarrow> string list" where
  "list_role_names_for_user uid db =
     sort (map role_name (filter (\<lambda>r. (uid, role_id r) \<in> set (t_user_roles db)) (t_roles db)))"

definition count_users :: "Db \<Rightarrow> nat" where
  "count_users db = length (t_users db)"

definition create_user :: "string \<Rightarrow> string \<Rightarrow> string option \<Rightarrow> string \<Rightarrow> bool \<Rightarrow> Db \<Rightarrow> (DbError, Db) result" where
  "create_user uid name email pw disabled db =
     (if list_ex (\<lambda>u. user_id u = uid \<or> user_username u = name
                      \<or> (email \<noteq> None \<and> user_email u = email)) (t_users db)
      then Err UniqueViolation
      else Ok (db\<lparr>t_users := t_users db @
        [\<lparr>user_id = uid, user_username = name, user_email = email, user_password_hash = pw,
          user_disabled = disabled\<rparr>]\<rparr>))"

definition find_role_id_by_name :: "string \<Rightarrow> Db \<Rightarrow> string option" where
  "find_role_id_by_name name db = map_option role_id (find (\<lambda>r. role_name r = name) (t_roles db))"

definition assign_user_role :: "string \<Rightarrow> string \<Rightarrow> Db \<Rightarrow> (DbError, Db) result" where
  "assign_user_role uid rid db =
     (if (uid, rid) \<in> set (t_user_roles db) then Err UniqueViolation
      else if \<not> list_ex (\<lambda>u. user_id u = uid) (t_users db) \<or> \<not> list_ex (\<lambda>r. role_id r = rid) (t_roles db)
      then Err ForeignKeyViolation
      else Ok (db\<lparr>t_user_roles := t_user_roles db @ [(uid, rid)]\<rparr>))"

section \<open>Routes\<close>

definition list_routes :: "Db \<Rightarrow> RouteRow list" where
  "list_routes db = map route_row (sort_key route_name (t_routes db))"

definition list_routes_for_node :: "string \<Rightarrow> Db \<Rightarrow> RouteRow list" where
  "list_routes_for_node nid db =
     map route_row (sort_key route_name (filter (\<lambda>r. route_node_id r = nid) (t_routes db)))"

definition get_route :: "string \<Rightarrow> Db \<Rightarrow> RouteDetailRow option" where
  "get_route rid db = find (\<lambda>r. route_id r = rid) (t_routes db)"

definition list_routes_detail :: "Db \<Rightarrow> RouteDetailRow list" where
  "list_routes_detail db = sort_key route_name (t_routes db)"

definition not_excluded :: "string option \<Rightarrow> RouteDetailRow \<Rightarrow> bool" where
  "not_excluded exclude r = (case exclude of Some i \<Rightarrow> route_id r \<noteq> i | None \<Rightarrow> True)"

definition route_name_exists :: "string \<Rightarrow> string option \<Rightarrow> Db \<Rightarrow> bool" where
  "route_name_exists name exclude db \<longleftrightarrow>
     length (filter (\<lambda>r. route_name r = name \<and> not_excluded exclude r) (t_routes db)) > 0"

definition route_hostname_exists :: "string \<Rightarrow> string option \<Rightarrow> Db \<Rightarrow> bool" where
  "route_hostname_exists host exclude db \<longleftrightarrow>
     length (filter (\<lambda>r. route_hostname r = Some host \<and> not_excluded exclude r) (t_routes db)) > 0"

definition route_listen_exists :: "string \<Rightarrow> int \<Rightarrow> string option \<Rightarrow> Db \<Rightarrow> bool" where
  "route_listen_exists host port exclude db \<longleftrightarrow>
     length (filter (\<lambda>r. route_listen_host r = Some host \<and> route_listen_port r = Some port
                         \<and> not_excluded exclude r) (t_routes db)) > 0"

text \<open>The columns written by \<open>create_route\<close> and \<open>update_route\<close>.\<close>

record RouteColumns =
  col_name :: string
  col_node_id :: string
  col_route_type :: string
  col_enabled :: bool
  col_listen_host :: "string option"
  col_listen_port :: "int option"
  col_hostname :: "string option"
  col_target_host :: string
  col_target_port :: int
  col_tls_mode :: string
  col_limits :: "string option"

definition create_route :: "string \<Rightarrow> RouteColumns \<Rightarrow> string \<Rightarrow> Db \<Rightarrow> (DbError, Db) result" where
  "create_route rid c ts db =
     (if list_ex (\<lambda>r. route_id r = rid \<or> route_name r = col_name c) (t_routes db) then Err UniqueViolation
      else if \<not> list_ex (\<lambda>n. node_id n = col_node_id c) (t_nodes db) then Err ForeignKeyViolation
      else Ok (db\<lparr>t_routes := t_routes db @
        [\<lparr>route_id = rid, route_name = col_name c, route_node_id = col_node_id c,
          route_route_type = col_route_type c, route_enabled = col_enabled c,
          route_listen_host = col_listen_host c, route_listen_port = col_listen_port c,
          route_hostname = col_hostname c, route_target_host = col_target_host c,
          route_target_port = col_target_port c, route_tls_mode = Some (col_tls_mode c),
          route_status = ''draft'', route_limits = col_limits c,
          route_created_at = ts, route_updated_at = ts\<rparr>]\<rparr>))"

definition update_route :: "string \<Rightarrow> RouteColumns \<Rightarrow> string \<Rightarrow> Db \<Rightarrow> (DbError, Db) result" where
  "update_route rid c ts db =
     (if \<not> list_ex (\<lambda>r. route_id r = rid) (t_routes db) then Ok db
      else if list_ex (\<lambda>r. route_name r = col_name c \<and> route_id r \<noteq> rid) (t_routes db) then Err UniqueViolation
      else if \<not> list_ex (\<lambda>n. node_id n = col_node_id c) (t_nodes db) then Err ForeignKeyViolation
      else Ok (db\<lparr>t_routes := update_where (\<lambda>r. route_id r = rid)
        (\<lambda>r. r\<lparr>route_name := col_name c, route_node_id := col_node_id c,
               route_route_type := col_route_type c, route_enabled := col_enabled c,
               route_listen_host := col_listen_host c, route_listen_port := col_listen_port c,
               route_hostname := col_hostname c, route_target_host := col_target_host c,
               route_target_port := col_target_port c, route_tls_mode := Some (col_tls_mode c),
               route_limits := col_limits c, route_updated_at := ts\<rparr>) (t_routes db)\<rparr>))"

definition set_route_enabled :: "string \<Rightarrow> bool \<Rightarrow> string \<Rightarrow> Db \<Rightarrow> Db" where
  "set_route_enabled rid enabled ts db =
     db\<lparr>t_routes := update_where (\<lambda>r. route_id r = rid)
       (\<lambda>r. r\<lparr>route_enabled := enabled, route_updated_at := ts\<rparr>) (t_routes db)\<rparr>"

definition delete_route :: "string \<Rightarrow> Db \<Rightarrow> Db" where
  "delete_route rid db =
     db\<lparr>t_routes := delete_where (\<lambda>r. route_id r = rid) (t_routes db),
        t_acl_rules := delete_where (\<lambda>a. aclr_route_id a = Some rid) (t_acl_rules db),
        t_domains := unlink_domains [rid] (t_domains db)\<rparr>"

section \<open>Audit log, certificates and ACL rules\<close>

definition insert_audit_log :: "AuditRow \<Rightarrow> Db \<Rightarrow> (DbError, Db) result" where
  "insert_audit_log a db =
     (if list_ex (\<lambda>b. audit_id b = audit_id a) (t_audit_logs db) then Err UniqueViolation
      else Ok (db\<lparr>t_audit_logs := t_audit_logs db @ [a]\<rparr>))"

text \<open>\<open>LIMIT\<close>/\<open>OFFSET\<close> of SQLite: a negative limit means no limit, a negative offset none.\<close>

definition list_audit_logs :: "string option \<Rightarrow> string option \<Rightarrow> int \<Rightarrow> int \<Rightarrow> Db \<Rightarrow> AuditRow list" where
  "list_audit_logs uid action lim off db =
     (let hits = filter (\<lambda>a. (uid = None \<or> audit_user_id a = uid) \<and> (action = None \<or> Some (audit_action a) = action))
            (t_audit_logs db);
          sorted_rows = rev (sort_key audit_created_at (sort_key audit_id hits));
          rest = drop (nat off) sorted_rows
      in if lim < 0 then rest else take (nat lim) rest)"

definition list_certificates :: "Db \<Rightarrow> CertificateRow list" where
  "list_certificates db = map CertificateRow.truncate (sort_key cert_name (t_certificates db))"

definition create_certificate :: "string \<Rightarrow> string \<Rightarrow> string \<Rightarrow> string \<Rightarrow> string \<Rightarrow> string option \<Rightarrow> string \<Rightarrow> Db
    \<Rightarrow> (DbError, Db) result" where
  "create_certificate cid name hostnames pem key expires ts db =
     (if list_ex (\<lambda>d. cert_id d = cid) (t_certificates db) then Err UniqueViolation
      else Ok (db\<lparr>t_certificates := t_certificates db @
        [\<lparr>cert_id = cid, cert_name = name, cert_hostnames = hostnames, cert_certificate = pem,
          cert_private_key_encrypted = Some key, cert_expires_at = expires, cert_created_at = ts,
          cert_updated_at = ts\<rparr>]\<rparr>))"

definition delete_certificate :: "string \<Rightarrow> Db \<Rightarrow> Db" where
  "delete_certificate cid db =
     db\<lparr>t_certificates := delete_where (\<lambda>c. cert_id c = cid) (t_certificates db)\<rparr>"

definition list_acl_rules :: "Db \<Rightarrow> AclRuleRow list" where
  "list_acl_rules db = sort_key aclr_created_at (t_acl_rules db)"

definition list_acl_rules_for_route :: "string \<Rightarrow> Db \<Rightarrow> AclRuleRow list" where
  "list_acl_rules_for_route rid db =
     sort_key aclr_created_at (filter (\<lambda>a. aclr_route_id a = Some rid) (t_acl_rules db))"

definition get_acl_rule :: "string \<Rightarrow> Db \<Rightarrow> AclRuleRow option" where
  "get_acl_rule aid db = find (\<lambda>a. aclr_id a = aid) (t_acl_rules db)"

definition create_acl_rule :: "string \<Rightarrow> string option \<Rightarrow> string \<Rightarrow> string option \<Rightarrow> int option
    \<Rightarrow> string option \<Rightarrow> int option \<Rightarrow> string \<Rightarrow> Db \<Rightarrow> (DbError, Db) result" where
  "create_acl_rule aid rid action cidr sport thost tport ts db =
     (if list_ex (\<lambda>a. aclr_id a = aid) (t_acl_rules db) then Err UniqueViolation
      else if (case rid of Some r \<Rightarrow> \<not> list_ex (\<lambda>x. route_id x = r) (t_routes db) | None \<Rightarrow> False)
      then Err ForeignKeyViolation
      else Ok (db\<lparr>t_acl_rules := t_acl_rules db @
        [\<lparr>aclr_id = aid, aclr_tenant_id = ''default'', aclr_route_id = rid, aclr_action = action,
          aclr_source_cidr = cidr, aclr_source_port = sport, aclr_target_host = thost,
          aclr_target_port = tport, aclr_created_at = ts\<rparr>]\<rparr>))"

definition delete_acl_rule :: "string \<Rightarrow> Db \<Rightarrow> Db" where
  "delete_acl_rule aid db = db\<lparr>t_acl_rules := delete_where (\<lambda>a. aclr_id a = aid) (t_acl_rules db)\<rparr>"

section \<open>Referential integrity\<close>

definition users_ok :: "Db \<Rightarrow> bool" where
  "users_ok db \<longleftrightarrow>
     distinct (map user_id (t_users db)) \<and> distinct (map user_username (t_users db))
     \<and> distinct (map user_email (filter (\<lambda>u. user_email u \<noteq> None) (t_users db)))
     \<and> distinct (map role_id (t_roles db)) \<and> distinct (t_user_roles db)
     \<and> (\<forall>(u, r)\<in>set (t_user_roles db). u \<in> user_id ` set (t_users db) \<and> r \<in> role_id ` set (t_roles db))"

definition nodes_ok :: "Db \<Rightarrow> bool" where
  "nodes_ok db \<longleftrightarrow>
     distinct (map node_id (t_nodes db)) \<and> distinct (map node_name (t_nodes db))
     \<and> distinct (map cred_id (t_credentials db))
     \<and> (\<forall>c\<in>set (t_credentials db). cred_node_id c \<in> node_id ` set (t_nodes db))"

definition routes_ok :: "Db \<Rightarrow> bool" where
  "routes_ok db \<longleftrightarrow>
     distinct (map route_id (t_routes db)) \<and> distinct (map route_name (t_routes db))
     \<and> (\<forall>r\<in>set (t_routes db). route_node_id r \<in> node_id ` set (t_nodes db))
     \<and> distinct (map aclr_id (t_acl_rules db))
     \<and> (\<forall>a\<in>set (t_acl_rules db). \<forall>r. aclr_route_id a = Some r \<longrightarrow> r \<in> route_id ` set (t_routes db))"

definition domains_ok :: "Db \<Rightarrow> bool" where
  "domains_ok db \<longleftrightarrow>
     distinct (map dom_id (t_domains db)) \<and> distinct (map dom_hostname (t_domains db))
     \<and> (\<forall>d\<in>set (t_domains db). \<forall>r. dom_route_id d = Some r \<longrightarrow> r \<in> route_id ` set (t_routes db))"

definition db_ok :: "Db \<Rightarrow> bool" where
  "db_ok db \<longleftrightarrow> users_ok db \<and> nodes_ok db \<and> routes_ok db
     \<and> domains_ok db
     \<and> distinct (map cert_id (t_certificates db)) \<and> distinct (map audit_id (t_audit_logs db))"

lemmas db_ok_defs = db_ok_def users_ok_def nodes_ok_def routes_ok_def domains_ok_def

text \<open>Generic facts on updated and filtered tables.\<close>

lemma map_update_where [simp]: "(\<And>r. k (f r) = k r) \<Longrightarrow> map k (update_where P f rows) = map k rows"
  by (simp add: update_where_def)

lemma image_update_where [simp]: "(\<And>r. k (f r) = k r) \<Longrightarrow> k ` set (update_where P f rows) = k ` set rows"
  by (metis list.set_map map_update_where)

lemma distinct_delete_where [simp]: "distinct (map k rows) \<Longrightarrow> distinct (map k (delete_where P rows))"
  by (simp add: delete_where_def distinct_map_filter)

lemma set_delete_where [simp]: "set (delete_where P rows) = {r \<in> set rows. \<not> P r}"
  by (auto simp: delete_where_def)

lemma ball_update_where:
  "(\<And>r. r \<in> set rows \<Longrightarrow> \<not> P r \<Longrightarrow> Q r) \<Longrightarrow> (\<And>r. r \<in> set rows \<Longrightarrow> P r \<Longrightarrow> Q (f r)) \<Longrightarrow>
   \<forall>r\<in>set (update_where P f rows). Q r"
  by (auto simp: update_where_def)

lemma list_ex_key: "list_ex (\<lambda>r. k r = v) rows \<longleftrightarrow> v \<in> k ` set rows"
  by (auto simp: list_ex_iff)

lemma list_ex_disj: "list_ex (\<lambda>r. P r \<or> Q r) rows \<longleftrightarrow> list_ex P rows \<or> list_ex Q rows"
  by (auto simp: list_ex_iff)

text \<open>Renaming one row to a name no other row uses keeps the names distinct.\<close>

lemma distinct_rename:
  assumes "distinct (map i rows)" "distinct (map k rows)"
    and "\<forall>r\<in>set rows. i r \<noteq> x \<longrightarrow> k r \<noteq> v" "\<And>r. k (f r) = v"
  shows "distinct (map k (update_where (\<lambda>r. i r = x) f rows))"
  using assms
proof (induction rows)
  case (Cons r rows)
  show ?case
  proof (cases "i r = x")
    case True
    then have other: "i q \<noteq> x" if "q \<in> set rows" for q using Cons.prems(1) that by (auto simp: image_iff)
    then have "update_where (\<lambda>r. i r = x) f rows = rows"
      unfolding update_where_def by (intro map_idI) auto
    with True Cons.prems other show ?thesis by (auto simp: update_where_def)
  next
    case False
    then have "k r \<noteq> v" using Cons.prems(3) by simp
    with False Cons show ?thesis by (auto simp: update_where_def image_iff split: if_splits)
  qed
qed (simp add: update_where_def)

lemma unlinked [simp]:
  "map dom_id (unlink_domains gone ds) = map dom_id ds" "map dom_hostname (unlink_domains gone ds) = map dom_hostname ds"
  "(\<forall>d\<in>set (unlink_domains gone ds). \<forall>r. dom_route_id d = Some r \<longrightarrow> P r)
     \<longleftrightarrow> (\<forall>d\<in>set ds. \<forall>r. dom_route_id d = Some r \<longrightarrow> r \<in> set gone \<or> P r)"
  by (auto simp: unlink_domains_def update_where_def split: option.splits)

lemma db_ok_node_update:
  assumes "db_ok db" "\<And>n. node_id (f n) = node_id n" "\<And>n. node_name (f n) = node_name n"
  shows "db_ok (db\<lparr>t_nodes := update_where P f (t_nodes db)\<rparr>)"
  using assms by (simp add: db_ok_defs)

lemma db_ok_route_update:
  assumes "db_ok db" "\<And>r. route_id (f r) = route_id r" "\<And>r. route_name (f r) = route_name r"
    "\<And>r. route_node_id (f r) = route_node_id r"
  shows "db_ok (db\<lparr>t_routes := update_where P f (t_routes db)\<rparr>)"
proof -
  have "\<forall>r\<in>set (update_where P f (t_routes db)). route_node_id r \<in> node_id ` set (t_nodes db)"
    using assms by (intro ball_update_where) (auto simp: db_ok_defs)
  with assms show ?thesis by (simp add: db_ok_defs)
qed

lemma db_ok_create_node: "db_ok db \<Longrightarrow> create_node i n d ts db = Ok db' \<Longrightarrow> db_ok db'"
  by (auto simp: create_node_def list_ex_key list_ex_disj db_ok_defs split: if_splits)

lemma db_ok_update_node:
  assumes "db_ok db" "update_node i n d ts db = Ok db'"
  shows "db_ok db'"
proof -
  let ?f = "\<lambda>x. x\<lparr>node_name := n, node_description := d, node_updated_at := ts\<rparr>"
  have db': "db' = db\<lparr>t_nodes := update_where (\<lambda>x. node_id x = i) ?f (t_nodes db)\<rparr>"
    and free: "(\<forall>x\<in>set (t_nodes db). node_id x \<noteq> i) \<or> (\<forall>x\<in>set (t_nodes db). node_id x \<noteq> i \<longrightarrow> node_name x \<noteq> n)"
    using assms(2) by (auto simp: update_node_def list_ex_iff split: if_splits)
  have "distinct (map node_name (update_where (\<lambda>x. node_id x = i) ?f (t_nodes db)))"
  proof (cases "\<forall>x\<in>set (t_nodes db). node_id x \<noteq> i")
    case True
    then have "update_where (\<lambda>x. node_id x = i) ?f (t_nodes db) = t_nodes db"
      unfolding update_where_def by (intro map_idI) auto
    then show ?thesis using assms(1) by (simp add: db_ok_defs)
  next
    case False
    with free assms(1) show ?thesis by (intro distinct_rename [where v = n]) (auto simp: db_ok_defs)
  qed
  then show ?thesis using assms(1) db' by (simp add: db_ok_defs)
qed

lemma db_ok_delete_node:
  assumes "db_ok db"
  shows "db_ok (delete_node i db)"
proof -
  have "r \<in> route_id ` {q \<in> set (t_routes db). route_node_id q \<noteq> i}"
    if "r \<in> route_id ` set (t_routes db)" "r \<notin> route_id ` {q \<in> set (t_routes db). route_node_id q = i}" for r
    using that by auto
  then have "routes_ok (delete_node i db)"
    using assms by (auto simp: delete_node_def Let_def db_ok_def routes_ok_def)
  moreover have "domains_ok (delete_node i db)"
    using assms by (simp add: delete_node_def Let_def db_ok_def domains_ok_def) blast
  moreover have "users_ok (delete_node i db) \<and> nodes_ok (delete_node i db)"
    using assms by (auto simp: delete_node_def Let_def db_ok_defs)
  ultimately show ?thesis using assms by (simp add: db_ok_def delete_node_def Let_def)
qed

lemma db_ok_create_credential: "db_ok db \<Longrightarrow> create_credential c n ty h e ts db = Ok db' \<Longrightarrow> db_ok db'"
  by (auto simp: create_credential_def list_ex_key db_ok_defs split: if_splits)

lemma db_ok_revoke_credential: "db_ok db \<Longrightarrow> db_ok (revoke_credential c ts db)"
proof -
  assume ok: "db_ok db"
  have "\<forall>c'\<in>set (update_where (\<lambda>c'. cred_id c' = c) (cred_revoked_at_update (\<lambda>_. Some ts)) (t_credentials db)).
      cred_node_id c' \<in> node_id ` set (t_nodes db)"
    using ok by (intro ball_update_where) (auto simp: db_ok_defs)
  with ok show ?thesis by (simp add: revoke_credential_def db_ok_defs)
qed

lemma db_ok_create_user:
  assumes "db_ok db" "create_user i n e p d db = Ok db'"
  shows "db_ok db'"
proof -
  have "i \<notin> user_id ` set (t_users db)" "n \<notin> user_username ` set (t_users db)"
    "e \<noteq> None \<Longrightarrow> e \<notin> user_email ` set (t_users db)"
    using assms(2) by (auto simp: create_user_def list_ex_iff split: if_splits)
  moreover have "db' = db\<lparr>t_users := t_users db @
        [\<lparr>user_id = i, user_username = n, user_email = e, user_password_hash = p, user_disabled = d\<rparr>]\<rparr>"
    using assms(2) by (auto simp: create_user_def split: if_splits)
  ultimately show ?thesis using assms(1) by (auto simp: db_ok_defs)
qed

lemma db_ok_assign_user_role: "db_ok db \<Longrightarrow> assign_user_role u r db = Ok db' \<Longrightarrow> db_ok db'"
  by (auto simp: assign_user_role_def list_ex_key db_ok_defs split: if_splits)

lemma db_ok_create_route: "db_ok db \<Longrightarrow> create_route i c ts db = Ok db' \<Longrightarrow> db_ok db'"
  by (auto simp: create_route_def list_ex_key list_ex_disj db_ok_defs split: if_splits)

lemma db_ok_update_route:
  assumes "db_ok db" "update_route i c ts db = Ok db'"
  shows "db_ok db'"
proof (cases "list_ex (\<lambda>r. route_id r = i) (t_routes db)")
  case True
  define f :: "RouteDetailRow \<Rightarrow> RouteDetailRow"
    where "f = (\<lambda>r. r\<lparr>route_name := col_name c, route_node_id := col_node_id c,
      route_route_type := col_route_type c, route_enabled := col_enabled c,
      route_listen_host := col_listen_host c, route_listen_port := col_listen_port c,
      route_hostname := col_hostname c, route_target_host := col_target_host c,
      route_target_port := col_target_port c, route_tls_mode := Some (col_tls_mode c),
      route_limits := col_limits c, route_updated_at := ts\<rparr>)"
  have f: "\<And>r. route_id (f r) = route_id r" "\<And>r. route_name (f r) = col_name c"
    "\<And>r. route_node_id (f r) = col_node_id c" by (simp_all add: f_def)
  from assms(2) True have db': "db' = db\<lparr>t_routes := update_where (\<lambda>r. route_id r = i) f (t_routes db)\<rparr>"
    and free: "\<forall>r\<in>set (t_routes db). route_id r \<noteq> i \<longrightarrow> route_name r \<noteq> col_name c"
    by (auto simp: update_route_def f_def list_ex_iff split: if_splits)
  have fk: "col_node_id c \<in> node_id ` set (t_nodes db)"
    using assms(2) True by (simp add: update_route_def list_ex_key split: if_splits)
  have "distinct (map route_name (update_where (\<lambda>r. route_id r = i) f (t_routes db)))"
    using assms(1) free f(2) by (intro distinct_rename [where v = "col_name c"]) (auto simp: db_ok_defs)
  moreover have "\<forall>r\<in>set (update_where (\<lambda>r. route_id r = i) f (t_routes db)).
      route_node_id r \<in> node_id ` set (t_nodes db)"
    using assms(1) fk f(3) by (intro ball_update_where) (auto simp: db_ok_defs)
  ultimately show ?thesis using assms(1) f(1) db' by (simp add: db_ok_defs)
qed (use assms in \<open>simp add: update_route_def\<close>)

lemma db_ok_delete_route:
  assumes "db_ok db"
  shows "db_ok (delete_route i db)"
proof -
  have "r \<in> route_id ` {q \<in> set (t_routes db). route_id q \<noteq> i}"
    if "r \<in> route_id ` set (t_routes db)" "r \<noteq> i" for r
    using that by auto
  moreover have "domains_ok (delete_route i db)"
    using assms by (simp add: delete_route_def db_ok_def domains_ok_def) blast
  ultimately show ?thesis using assms by (auto simp: delete_route_def db_ok_def users_ok_def nodes_ok_def routes_ok_def domains_ok_def)
qed

lemma db_ok_insert_audit: "db_ok db \<Longrightarrow> insert_audit_log a db = Ok db' \<Longrightarrow> db_ok db'"
  by (cases "list_ex (\<lambda>b. audit_id b = audit_id a) (t_audit_logs db)")
    (auto simp: insert_audit_log_def list_ex_key db_ok_defs)

lemma db_ok_create_certificate: "db_ok db \<Longrightarrow> create_certificate c n h p k e ts db = Ok db' \<Longrightarrow> db_ok db'"
  by (cases "list_ex (\<lambda>d. cert_id d = c) (t_certificates db)")
    (auto simp: create_certificate_def list_ex_key db_ok_defs)

lemma db_ok_delete_certificate: "db_ok db \<Longrightarrow> db_ok (delete_certificate cid db)"
  by (simp add: delete_certificate_def db_ok_defs)

lemma db_ok_create_acl_rule:
  assumes "db_ok db" "create_acl_rule aid rid act ci sp th tp ts db = Ok db'"
  shows "db_ok db'"
proof -
  have "aid \<notin> aclr_id ` set (t_acl_rules db)" "\<And>r. rid = Some r \<Longrightarrow> r \<in> route_id ` set (t_routes db)"
    using assms(2) by (simp_all add: create_acl_rule_def list_ex_key split: if_splits)
  moreover have "db' = db\<lparr>t_acl_rules := t_acl_rules db @
        [\<lparr>aclr_id = aid, aclr_tenant_id = ''default'', aclr_route_id = rid, aclr_action = act,
          aclr_source_cidr = ci, aclr_source_port = sp, aclr_target_host = th,
          aclr_target_port = tp, aclr_created_at = ts\<rparr>]\<rparr>"
    using assms(2) by (simp add: create_acl_rule_def split: if_splits)
  ultimately show ?thesis using assms(1) by (simp add: db_ok_defs ball_Un)
qed

lemma db_ok_delete_acl_rule: "db_ok db \<Longrightarrow> db_ok (delete_acl_rule aid db)"
  by (simp add: delete_acl_rule_def db_ok_defs) blast

section \<open>Statement sequences\<close>

text \<open>One step of the database: the effect of one successful write statement.\<close>

inductive db_step :: "Db \<Rightarrow> Db \<Rightarrow> bool" where
  "db_step db (set_node_online nid addr ver ts db)"
| "db_step db (set_node_offline nid ts db)"
| "db_step db (snd (bump_config_version nid ts db))"
| "db_step db (set_node_applied_config nid v ts db)"
| "db_step db (set_node_config_failed nid ts db)"
| "db_step db (set_node_agent_meta nid h pl ar ver ts db)"
| "create_node nid name descr ts db = Ok db' \<Longrightarrow> db_step db db'"
| "update_node nid name descr ts db = Ok db' \<Longrightarrow> db_step db db'"
| "db_step db (delete_node nid db)"
| "create_credential cid nid ty hash ex ts db = Ok db' \<Longrightarrow> db_step db db'"
| "db_step db (revoke_credential cid ts db)"
| "create_user uid name email pw dis db = Ok db' \<Longrightarrow> db_step db db'"
| "assign_user_role uid rid db = Ok db' \<Longrightarrow> db_step db db'"
| "create_route rid cols ts db = Ok db' \<Longrightarrow> db_step db db'"
| "update_route rid cols ts db = Ok db' \<Longrightarrow> db_step db db'"
| "db_step db (set_route_enabled rid en ts db)"
| "db_step db (delete_route rid db)"
| "insert_audit_log a db = Ok db' \<Longrightarrow> db_step db db'"
| "create_certificate cid name hosts pem key ex ts db = Ok db' \<Longrightarrow> db_step db db'"
| "db_step db (delete_certificate cid db)"
| "create_acl_rule aid arid act ci sp th tp ts db = Ok db' \<Longrightarrow> db_step db db'"
| "db_step db (delete_acl_rule aid db)"

lemmas db_ok_ops = db_ok_create_node db_ok_update_node db_ok_delete_node db_ok_create_credential
  db_ok_revoke_credential db_ok_create_user db_ok_assign_user_role db_ok_create_route
  db_ok_update_route db_ok_delete_route db_ok_insert_audit db_ok_create_certificate
  db_ok_delete_certificate db_ok_create_acl_rule db_ok_delete_acl_rule

lemma db_ok_plain_updates:
  assumes "db_ok db"
  shows "db_ok (set_node_online nid addr ver ts db)" "db_ok (set_node_offline nid ts db)"
    "db_ok (snd (bump_config_version nid ts db))" "db_ok (set_node_applied_config nid v ts db)"
    "db_ok (set_node_config_failed nid ts db)" "db_ok (set_node_agent_meta nid h pl ar ver2 ts db)"
    "db_ok (set_route_enabled rid en ts db)"
  unfolding set_node_online_def set_node_offline_def bump_config_version_def set_node_applied_config_def
    set_node_config_failed_def set_node_agent_meta_def set_route_enabled_def Let_def snd_conv
  by (intro db_ok_node_update db_ok_route_update assms; simp)+

lemma db_ok_step: "db_step db db' \<Longrightarrow> db_ok db \<Longrightarrow> db_ok db'"
  by (induction rule: db_step.induct)
    ((rule db_ok_plain_updates, assumption)
      | (rule db_ok_ops, assumption, assumption) | (rule db_ok_ops, assumption))+

section \<open>Properties\<close>

text \<open>Referential integrity: starting from a database that satisfies the schema's primary-key,
  uniqueness and foreign-key constraints, every sequence of write operations of the database layer,
  cascading deletions included, ends in a database that satisfies them.\<close>

theorem db_integrity:
  assumes "db_ok db" "db_step\<^sup>*\<^sup>* db db'"
  shows "db_ok db'"
  using assms(2,1) by (induction rule: rtranclp_induct) (auto intro: db_ok_step)

definition empty_db :: Db where
  "empty_db = \<lparr>t_users = [], t_roles = [\<lparr>role_id = ''r1'', role_name = ''admin''\<rparr>], t_user_roles = [],
     t_nodes = [], t_credentials = [], t_routes = [], t_acl_rules = [], t_domains = [], t_certificates = [],
     t_audit_logs = []\<rparr>"

lemma empty_db_ok: "db_ok empty_db"
  by (simp add: empty_db_def db_ok_defs)

theorem db_integrity_witness:
  "db_ok (delete_node ''n1'' (case create_node ''n1'' ''edge'' None ''t0'' empty_db of Inr db \<Rightarrow> db | Inl _ \<Rightarrow> empty_db))"
proof (rule db_integrity [OF empty_db_ok])
  let ?db = "case create_node ''n1'' ''edge'' None ''t0'' empty_db of Inr db \<Rightarrow> db | Inl _ \<Rightarrow> empty_db"
  have "create_node ''n1'' ''edge'' None ''t0'' empty_db = Ok ?db"
    by (simp add: create_node_def empty_db_def)
  then have "db_step empty_db ?db" by (rule db_step.intros)
  moreover have "db_step ?db (delete_node ''n1'' ?db)" by (rule db_step.intros)
  ultimately show "db_step\<^sup>*\<^sup>* empty_db (delete_node ''n1'' ?db)" by simp
qed

end
