(* ===== verification/NodeAuth.thy ===== *)
theory NodeAuth
  imports ConfigSync Database
begin

text \<open>
  Agent authentication (\<open>crates/tunnel-core/src/auth.rs\<close>), the registry of node sessions
  (\<open>crates/tunnel-core/src/session.rs\<close>) and the handshake of the control stream
  (\<open>handshake\<close>, \<open>send_snapshot\<close>, \<open>reply_auth_fail\<close> of \<open>server/src/quic.rs\<close>).

  Parameters: the token hash (\<open>tunnel_auth::hash_token\<close>, SHA-256), the \<open>uuid\<close> parser and printer, the
  RFC 3339 parser (instants are integers) and \<open>serde_json\<close>.  They are collected in the record \<open>externals\<close>.
\<close>

section \<open>Authentication\<close>

definition SUPPORTED_PROTOCOL_MAJOR :: u16 where "SUPPORTED_PROTOCOL_MAJOR = 1"

record AuthSuccess =
  as_node_id :: Uuid
  as_config_version :: u64

datatype AuthDecision = Success AuthSuccess | Failure string string

record externals =
  x_json :: serde_json
  x_hash_token :: "string \<Rightarrow> string"
  x_parse_uuid :: "string \<Rightarrow> Uuid option"
  x_show_uuid :: "Uuid \<Rightarrow> string"
  x_parse_time :: "string \<Rightarrow> int option"
  x_show_time :: "int \<Rightarrow> string"
  x_parse_limits :: "string \<Rightarrow> Limits option"

definition max0_u64 :: "int \<Rightarrow> u64" where
  "max0_u64 v = of_int (max v 0)"

definition evaluate :: "externals \<Rightarrow> NodeCredentialRow \<Rightarrow> Uuid option \<Rightarrow> int \<Rightarrow> AuthDecision" where
  "evaluate X row claimed_node now =
     (case x_parse_uuid X (ncr_node_id row) of
        None \<Rightarrow> Failure ''INTERNAL_ERROR'' ''invalid node id in db''
      | Some nid \<Rightarrow>
          if (case claimed_node of Some claimed \<Rightarrow> claimed \<noteq> nid | None \<Rightarrow> False)
          then Failure ''AUTH_FAILED'' ''credential does not match node''
          else if ncr_revoked_at row \<noteq> None then Failure ''AUTH_FAILED'' ''credential revoked''
          else if (case ncr_expires_at row of
                     Some e \<Rightarrow> (case x_parse_time X e of Some t \<Rightarrow> t \<le> now | None \<Rightarrow> True)
                   | None \<Rightarrow> False)
          then Failure ''AUTH_FAILED'' ''credential expired''
          else if ncr_node_status row = ''disabled'' then Failure ''NODE_DISABLED'' ''node disabled''
          else Success \<lparr>as_node_id = nid, as_config_version = max0_u64 (ncr_config_version row)\<rparr>)"

definition authenticate :: "externals \<Rightarrow> (string \<Rightarrow> (unit, NodeCredentialRow option) result)
    \<Rightarrow> AuthPayload \<Rightarrow> int \<Rightarrow> AuthDecision" where
  "authenticate X query p now =
     (case (case auth_credential p of Some c \<Rightarrow> if c \<noteq> [] then Some c else None | None \<Rightarrow> None) of
        None \<Rightarrow> Failure ''AUTH_FAILED'' ''missing credential''
      | Some c \<Rightarrow>
          (case query (x_hash_token X c) of
             Inr (Some row) \<Rightarrow> evaluate X row (auth_node_id p) now
           | Inr None \<Rightarrow> Failure ''AUTH_FAILED'' ''invalid credential''
           | Inl _ \<Rightarrow> Failure ''INTERNAL_ERROR'' ''db error''))"

text \<open>The query against the modelled database.\<close>

definition db_query :: "Db \<Rightarrow> string \<Rightarrow> (unit, NodeCredentialRow option) result" where
  "db_query db h = Ok (find_node_credential h db)"

text \<open>What makes a credential usable for a node at an instant.\<close>

definition usable :: "externals \<Rightarrow> int \<Rightarrow> CredentialRow \<Rightarrow> NodeRow \<Rightarrow> bool" where
  "usable X now c n \<longleftrightarrow>
     cred_credential_type c = ''token'' \<and> cred_revoked_at c = None
     \<and> (\<forall>e. cred_expires_at c = Some e \<longrightarrow> (\<exists>t. x_parse_time X e = Some t \<and> now < t))
     \<and> node_id n = cred_node_id c \<and> node_status n \<noteq> ''disabled''"

lemma find_node_credential_Some:
  assumes "find_node_credential h db = Some row"
  obtains c n where "c \<in> set (t_credentials db)" "n \<in> set (t_nodes db)"
    "cred_secret_hash c = h" "cred_credential_type c = ''token''" "node_id n = cred_node_id c"
    "row = \<lparr>ncr_node_id = node_id n, ncr_node_status = node_status n,
       ncr_config_version = node_config_version n, ncr_revoked_at = cred_revoked_at c,
       ncr_expires_at = cred_expires_at c\<rparr>"
proof -
  let ?rows = "concat (map (\<lambda>c.
         if cred_secret_hash c = h \<and> cred_credential_type c = ''token''
         then map (\<lambda>n. \<lparr>ncr_node_id = node_id n, ncr_node_status = node_status n,
                        ncr_config_version = node_config_version n,
                        ncr_revoked_at = cred_revoked_at c, ncr_expires_at = cred_expires_at c\<rparr>)
                (filter (\<lambda>n. node_id n = cred_node_id c) (t_nodes db))
         else []) (t_credentials db))"
  from assms have "row \<in> set ?rows"
    unfolding find_node_credential_def by (cases ?rows) auto
  then show thesis using that by (auto split: if_splits)
qed

lemma evaluate_Success:
  "evaluate X row claimed now = Success s \<longleftrightarrow>
     x_parse_uuid X (ncr_node_id row) = Some (as_node_id s)
     \<and> (\<forall>c. claimed = Some c \<longrightarrow> c = as_node_id s)
     \<and> ncr_revoked_at row = None
     \<and> (\<forall>e. ncr_expires_at row = Some e \<longrightarrow> (\<exists>t. x_parse_time X e = Some t \<and> now < t))
     \<and> ncr_node_status row \<noteq> ''disabled''
     \<and> as_config_version s = max0_u64 (ncr_config_version row)"
  by (cases s) (auto simp: evaluate_def not_le split: option.splits)

lemma authenticate_Success:
  "authenticate X query p now = Success s \<longleftrightarrow>
     (\<exists>c row. auth_credential p = Some c \<and> c \<noteq> [] \<and> query (x_hash_token X c) = Ok (Some row)
        \<and> evaluate X row (auth_node_id p) now = Success s)"
  by (auto simp: authenticate_def split: option.splits sum.splits)

section \<open>Node sessions\<close>

record NodeSession =
  ns_node_id :: Uuid
  ns_remote_addr :: string
  ns_connected_at :: int
  ns_last_seen_at :: int
  ns_last_ping_at_secs :: int
  ns_last_pong_at_secs :: int
  ns_applied_config_version :: u64

type_synonym SessionManager = "(Uuid \<times> NodeSession) list"

definition new_session :: "Uuid \<Rightarrow> string \<Rightarrow> int \<Rightarrow> NodeSession" where
  "new_session nid remote now =
     \<lparr>ns_node_id = nid, ns_remote_addr = remote, ns_connected_at = now, ns_last_seen_at = now,
      ns_last_ping_at_secs = 0, ns_last_pong_at_secs = 0, ns_applied_config_version = 0\<rparr>"

definition record_ping :: "int \<Rightarrow> NodeSession \<Rightarrow> NodeSession" where
  "record_ping secs s = s\<lparr>ns_last_ping_at_secs := secs\<rparr>"

definition record_pong :: "int \<Rightarrow> NodeSession \<Rightarrow> NodeSession" where
  "record_pong secs s = s\<lparr>ns_last_pong_at_secs := secs\<rparr>"

definition record_config_ack :: "u64 \<Rightarrow> NodeSession \<Rightarrow> NodeSession" where
  "record_config_ack v s = s\<lparr>ns_applied_config_version := v\<rparr>"

definition secs_to_dt :: "int \<Rightarrow> int option" where
  "secs_to_dt secs = (if secs = 0 then None else Some secs)"

definition sm_register :: "NodeSession \<Rightarrow> SessionManager \<Rightarrow> NodeSession option \<times> SessionManager" where
  "sm_register s m = (map_of m (ns_node_id s), AList.update (ns_node_id s) s m)"

definition sm_unregister :: "Uuid \<Rightarrow> SessionManager \<Rightarrow> NodeSession option \<times> SessionManager" where
  "sm_unregister nid m = (map_of m nid, AList.delete nid m)"

definition sm_get :: "Uuid \<Rightarrow> SessionManager \<Rightarrow> NodeSession option" where
  "sm_get nid m = map_of m nid"

definition sm_is_online :: "Uuid \<Rightarrow> SessionManager \<Rightarrow> bool" where
  "sm_is_online nid m \<longleftrightarrow> nid \<in> keys_of m"

definition sm_online_count :: "SessionManager \<Rightarrow> nat" where
  "sm_online_count m = length m"

text \<open>A session is shared (\<open>Arc\<close>) and its counters are updated in place.\<close>

definition sm_modify :: "Uuid \<Rightarrow> (NodeSession \<Rightarrow> NodeSession) \<Rightarrow> SessionManager \<Rightarrow> SessionManager" where
  "sm_modify nid f m = (case map_of m nid of Some s \<Rightarrow> AList.update nid (f s) m | None \<Rightarrow> m)"

section \<open>The handshake\<close>

datatype event = NodeOnline string | NodeOffline string | NodeEvent string string | RouteEvent string string | ConfigChanged string

record server_state =
  sv_db :: Db
  sv_sessions :: SessionManager
  sv_events :: "event list"

datatype HandshakeError =
    HsRead ReadError
  | HsDecode ProtocolError
  | HsSend
  | HsRoutes RouteParseError

definition send_message :: "serde_json \<Rightarrow> Message \<Rightarrow> u64 \<Rightarrow> wstream \<Rightarrow> (HandshakeError, unit) result \<times> wstream" where
  "send_message J m rid w =
     (case into_frame J m rid of
        Inl e \<Rightarrow> (Err (HsDecode e), w)
      | Inr f \<Rightarrow> (case write_frame f w of (r, w') \<Rightarrow> (map_err (\<lambda>_. HsSend) r, w')))"

definition reply_auth_fail :: "serde_json \<Rightarrow> u64 \<Rightarrow> string \<Rightarrow> string \<Rightarrow> wstream
    \<Rightarrow> (HandshakeError, unit) result \<times> wstream" where
  "reply_auth_fail J rid c m w = send_message J (MAuthFail \<lparr>afail_code = c, afail_message = m\<rparr>) rid w"

definition node_routes :: "externals \<Rightarrow> Uuid \<Rightarrow> Db \<Rightarrow> (RouteParseError, RouteConfig list) result" where
  "node_routes X nid db =
     collect_rows (\<lambda>r. and_then (try_from_row (x_parse_uuid X) (x_parse_limits X) r) (\<lambda>s. Ok (to_route_config s)))
       (list_routes_for_node (x_show_uuid X nid) db)"

definition send_snapshot :: "externals \<Rightarrow> Db \<Rightarrow> Uuid \<Rightarrow> u64 \<Rightarrow> wstream \<Rightarrow> (HandshakeError, unit) result \<times> wstream" where
  "send_snapshot X db nid version w =
     (case node_routes X nid db of
        Inl e \<Rightarrow> (Err (HsRoutes e), w)
      | Inr routes \<Rightarrow> send_message (x_json X) (snapshot_message version routes) 0 w)"

definition go_online :: "externals \<Rightarrow> int \<Rightarrow> string \<Rightarrow> string \<Rightarrow> Uuid \<Rightarrow> server_state \<Rightarrow> server_state" where
  "go_online X now remote version nid sv =
     \<lparr>sv_db = set_node_online (x_show_uuid X nid) remote version (x_show_time X now) (sv_db sv),
      sv_sessions = snd (sm_register (new_session nid remote now) (sv_sessions sv)),
      sv_events = sv_events sv @ [NodeOnline (x_show_uuid X nid)]\<rparr>"

type_synonym handshake_result = "(HandshakeError, Uuid option) result \<times> server_state \<times> wstream \<times> rstream"

definition fail_handshake :: "externals \<Rightarrow> u64 \<Rightarrow> string \<Rightarrow> string \<Rightarrow> server_state \<Rightarrow> wstream \<Rightarrow> rstream
    \<Rightarrow> handshake_result" where
  "fail_handshake X rid c m sv w r =
     (case reply_auth_fail (x_json X) rid c m w of
        (Inl e, w') \<Rightarrow> (Err e, sv, w', r)
      | (Inr _, w') \<Rightarrow> (Ok None, sv, w', r))"

definition finish_handshake :: "externals \<Rightarrow> string \<Rightarrow> int \<Rightarrow> string \<Rightarrow> string \<Rightarrow> u64 \<Rightarrow> AuthSuccess
    \<Rightarrow> server_state \<Rightarrow> wstream \<Rightarrow> rstream \<Rightarrow> handshake_result" where
  "finish_handshake X server_version now remote agent_version rid s sv w r =
     (let msg = MAuthOk \<lparr>aok_node_id = as_node_id s, aok_config_version = as_config_version s,
                         aok_server_version = server_version, aok_server_time = x_show_time X now\<rparr>
      in case send_message (x_json X) msg rid w of
           (Inl e, w1) \<Rightarrow> (Err e, sv, w1, r)
         | (Inr _, w1) \<Rightarrow>
             (case send_snapshot X (sv_db sv) (as_node_id s) (as_config_version s) w1 of
                (Inl e, w2) \<Rightarrow> (Err e, sv, w2, r)
              | (Inr _, w2) \<Rightarrow>
                  (Ok (Some (as_node_id s)), go_online X now remote agent_version (as_node_id s) sv, w2, r)))"

definition handshake :: "externals \<Rightarrow> string \<Rightarrow> int \<Rightarrow> string \<Rightarrow> server_state \<Rightarrow> wstream \<Rightarrow> rstream
    \<Rightarrow> handshake_result" where
  "handshake X server_version now remote sv w r0 =
     (case read_frame r0 of
        (Inl e, r1) \<Rightarrow> (Err (HsRead e), sv, w, r1)
      | (Inr None, r1) \<Rightarrow> (Ok None, sv, w, r1)
      | (Inr (Some hello_frame), r1) \<Rightarrow>
          (case from_frame (x_json X) hello_frame of
             Inl e \<Rightarrow> (Err (HsDecode e), sv, w, r1)
           | Inr (MHello hello) \<Rightarrow>
               if major (hello_protocol_version hello) \<noteq> SUPPORTED_PROTOCOL_MAJOR
               then fail_handshake X (request_id hello_frame) ''PROTOCOL_ERROR''
                      ''unsupported protocol major version'' sv w r1
               else
                 (case read_frame r1 of
                    (Inl e, r2) \<Rightarrow> (Err (HsRead e), sv, w, r2)
                  | (Inr None, r2) \<Rightarrow> (Ok None, sv, w, r2)
                  | (Inr (Some auth_frame), r2) \<Rightarrow>
                      (case from_frame (x_json X) auth_frame of
                         Inl e \<Rightarrow> (Err (HsDecode e), sv, w, r2)
                       | Inr (MAuth auth) \<Rightarrow>
                           (case authenticate X (db_query (sv_db sv)) auth now of
                              Success s \<Rightarrow>
                                finish_handshake X server_version now remote (hello_agent_version hello)
                                  (request_id auth_frame) s sv w r2
                            | Failure c m \<Rightarrow> fail_handshake X (request_id auth_frame) c m sv w r2)
                       | Inr _ \<Rightarrow> fail_handshake X (request_id auth_frame) ''PROTOCOL_ERROR''
                                     ''second frame must be AUTH'' sv w r2))
           | Inr _ \<Rightarrow> fail_handshake X (request_id hello_frame) ''PROTOCOL_ERROR''
                        ''first frame must be HELLO'' sv w r1))"

section \<open>Soundness of the handshake\<close>

lemma fail_handshake_state:
  "fail_handshake X rid c m sv w r = (res, sv', w', r') \<Longrightarrow> sv' = sv \<and> (\<forall>nid. res \<noteq> Ok (Some nid))"
  by (auto simp: fail_handshake_def split: prod.splits sum.splits)

lemma finish_handshake_state:
  assumes "finish_handshake X ver now remote av rid s sv w r = (res, sv', w', r')"
  shows "if res = Ok (Some (as_node_id s)) then sv' = go_online X now remote av (as_node_id s) sv
         else sv' = sv \<and> (\<forall>nid. res \<noteq> Ok (Some nid))"
  using assms by (auto simp: finish_handshake_def Let_def split: prod.splits sum.splits)

text \<open>What the other end presented: the HELLO and the AUTH that the first two frames of its stream decode to.\<close>

definition presented :: "serde_json \<Rightarrow> rstream \<Rightarrow> HelloPayload \<Rightarrow> AuthPayload \<Rightarrow> bool" where
  "presented J r hello p \<longleftrightarrow>
     (\<exists>f1 r1 f2 r2. read_frame r = (Ok (Some f1), r1) \<and> from_frame J f1 = Ok (MHello hello)
        \<and> read_frame r1 = (Ok (Some f2), r2) \<and> from_frame J f2 = Ok (MAuth p))"

text \<open>An AUTH speaks for a node when the token in it, not empty, is the one whose hash a usable credential of that node
  stores, and the node it claims to be, if it claims one, is that node.\<close>

definition authenticated :: "externals \<Rightarrow> int \<Rightarrow> Db \<Rightarrow> AuthPayload \<Rightarrow> Uuid \<Rightarrow> bool" where
  "authenticated X now db p nid \<longleftrightarrow>
     (\<exists>tok c n. auth_credential p = Some tok \<and> tok \<noteq> []
        \<and> c \<in> set (t_credentials db) \<and> cred_secret_hash c = x_hash_token X tok
        \<and> n \<in> set (t_nodes db) \<and> usable X now c n \<and> x_parse_uuid X (node_id n) = Some nid
        \<and> (\<forall>claimed. auth_node_id p = Some claimed \<longrightarrow> claimed = nid))"

lemma authenticate_authenticated:
  assumes "authenticate X (db_query db) p now = Success s"
  shows "authenticated X now db p (as_node_id s)"
proof -
  obtain tok row where tok: "auth_credential p = Some tok" "tok \<noteq> []"
    and row: "find_node_credential (x_hash_token X tok) db = Some row"
    and ev: "evaluate X row (auth_node_id p) now = Success s"
    using assms by (auto simp: authenticate_Success db_query_def)
  from row obtain c n where "c \<in> set (t_credentials db)" "n \<in> set (t_nodes db)"
    "cred_secret_hash c = x_hash_token X tok" "cred_credential_type c = ''token''"
    "node_id n = cred_node_id c"
    "row = \<lparr>ncr_node_id = node_id n, ncr_node_status = node_status n,
       ncr_config_version = node_config_version n, ncr_revoked_at = cred_revoked_at c,
       ncr_expires_at = cred_expires_at c\<rparr>"
    by (rule find_node_credential_Some)
  with ev tok show ?thesis
    unfolding authenticated_def usable_def evaluate_Success
    by (intro exI [of _ tok] exI [of _ c] exI [of _ n]) simp
qed

text \<open>The version announced to a node is the one its row stores.\<close>

definition stored_version :: "externals \<Rightarrow> Db \<Rightarrow> Uuid \<Rightarrow> int \<Rightarrow> bool" where
  "stored_version X db nid v \<longleftrightarrow>
     (\<exists>n\<in>set (t_nodes db). x_parse_uuid X (node_id n) = Some nid \<and> node_config_version n = v)"

lemma authenticate_version:
  assumes "authenticate X (db_query db) p now = Success s"
  obtains v where "stored_version X db (as_node_id s) v" "as_config_version s = max0_u64 v"
proof -
  obtain tok row where row: "find_node_credential (x_hash_token X tok) db = Some row"
    and ev: "evaluate X row (auth_node_id p) now = Success s"
    using assms by (auto simp: authenticate_Success db_query_def)
  from row obtain n where "n \<in> set (t_nodes db)" "ncr_node_id row = node_id n" "ncr_config_version row = node_config_version n"
    by (elim find_node_credential_Some) simp
  with ev that [of "node_config_version n"] show thesis unfolding evaluate_Success stored_version_def by auto
qed

text \<open>A handshake that admits a node went through \<open>finish_handshake\<close> with the decision on the presented AUTH.\<close>

lemma handshake_admits:
  assumes "handshake X ver now remote sv w r = (Ok (Some nid), sv', w', r')"
  obtains hello p rid s r0 where "presented (x_json X) r hello p"
    "major (hello_protocol_version hello) = SUPPORTED_PROTOCOL_MAJOR"
    "authenticate X (db_query (sv_db sv)) p now = Success s"
    "finish_handshake X ver now remote (hello_agent_version hello) rid s sv w r0 = (Ok (Some nid), sv', w', r')"
  using assms unfolding handshake_def presented_def
  by (auto split: prod.splits sum.splits option.splits Message.splits if_splits AuthDecision.splits
      dest: fail_handshake_state)

lemma handshake_refuses:
  assumes "handshake X ver now remote sv w r = (res, sv', w', r')" "\<forall>nid. res \<noteq> Ok (Some nid)"
  shows "sv' = sv"
  using assms unfolding handshake_def
  by (auto split: prod.splits sum.splits option.splits Message.splits if_splits AuthDecision.splits
      dest: fail_handshake_state finish_handshake_state)

lemma handshake_state:
  assumes "handshake X ver now remote sv w r = (res, sv', w', r')"
  shows "(\<exists>nid hello p. res = Ok (Some nid) \<and> presented (x_json X) r hello p
            \<and> major (hello_protocol_version hello) = SUPPORTED_PROTOCOL_MAJOR
            \<and> authenticated X now (sv_db sv) p nid
            \<and> sv' = go_online X now remote (hello_agent_version hello) nid sv)
       \<or> (sv' = sv \<and> (\<forall>nid. res \<noteq> Ok (Some nid)))"
proof (cases "\<exists>nid. res = Ok (Some nid)")
  case True
  then obtain nid where nid: "res = Ok (Some nid)" by blast
  obtain hello p rid s r0 where f: "presented (x_json X) r hello p"
    "major (hello_protocol_version hello) = SUPPORTED_PROTOCOL_MAJOR"
    "authenticate X (db_query (sv_db sv)) p now = Success s"
    "finish_handshake X ver now remote (hello_agent_version hello) rid s sv w r0 = (Ok (Some nid), sv', w', r')"
    using handshake_admits [OF assms [unfolded nid]] .
  with finish_handshake_state [OF f(4)] authenticate_authenticated [OF f(3)] nid show ?thesis
    by (auto split: if_splits)
qed (use handshake_refuses [OF assms] in blast)

text \<open>What is written on the wire when the node comes online.\<close>

lemma send_message_Ok:
  assumes "send_message J m rid w = (Ok (), w')"
  obtains f where "into_frame J m rid = Ok f" "written w' = written w @ encode f"
  using assms
  by (auto simp: send_message_def write_frame_def write_all_def split: sum.splits prod.splits option.splits if_splits)

lemma finish_handshake_writes:
  assumes "finish_handshake X ver now remote av rid s sv w r = (Ok (Some nid), sv', w', r')"
  obtains f1 f2 routes where "written w' = written w @ encode f1 @ encode f2"
    "into_frame (x_json X) (MAuthOk \<lparr>aok_node_id = as_node_id s, aok_config_version = as_config_version s,
        aok_server_version = ver, aok_server_time = x_show_time X now\<rparr>) rid = Ok f1"
    "into_frame (x_json X) (snapshot_message (as_config_version s) routes) 0 = Ok f2"
    "node_routes X (as_node_id s) (sv_db sv) = Ok routes" "nid = as_node_id s"
proof -
  let ?ok = "MAuthOk \<lparr>aok_node_id = as_node_id s, aok_config_version = as_config_version s,
        aok_server_version = ver, aok_server_time = x_show_time X now\<rparr>"
  obtain w1 where w1: "send_message (x_json X) ?ok rid w = (Ok (), w1)"
    "send_snapshot X (sv_db sv) (as_node_id s) (as_config_version s) w1 = (Ok (), w')" "nid = as_node_id s"
    using assms by (auto simp: finish_handshake_def Let_def split: prod.splits sum.splits)
  obtain routes where r: "node_routes X (as_node_id s) (sv_db sv) = Ok routes"
    "send_message (x_json X) (snapshot_message (as_config_version s) routes) 0 w1 = (Ok (), w')"
    using w1(2) by (auto simp: send_snapshot_def split: sum.splits)
  from send_message_Ok [OF w1(1)] obtain f1 where f1: "into_frame (x_json X) ?ok rid = Ok f1"
    "written w1 = written w @ encode f1" by blast
  from send_message_Ok [OF r(2)] obtain f2 where
    "into_frame (x_json X) (snapshot_message (as_config_version s) routes) 0 = Ok f2"
    "written w' = written w1 @ encode f2" by blast
  with f1 r(1) w1(3) that show thesis by simp
qed

lemma revoke_credential_rows:
  "c \<in> set (t_credentials (revoke_credential cid ts db)) \<longleftrightarrow>
     (\<exists>x\<in>set (t_credentials db). c = (if cred_id x = cid then x\<lparr>cred_revoked_at := Some ts\<rparr> else x))"
  by (simp add: revoke_credential_def update_where_def image_iff del: if_image_distrib)

lemma revoke_unusable:
  assumes "c \<in> set (t_credentials (revoke_credential cid ts db))" "usable X now c n"
  shows "cred_id c \<noteq> cid" and "c \<in> set (t_credentials db)"
proof -
  obtain x where x: "x \<in> set (t_credentials db)"
    "c = (if cred_id x = cid then x\<lparr>cred_revoked_at := Some ts\<rparr> else x)"
    using assms(1) unfolding revoke_credential_rows by blast
  have "cred_revoked_at c = None" using assms(2) by (simp add: usable_def)
  with x(2) have "cred_id x \<noteq> cid" by (cases "cred_id x = cid") simp_all
  with x show "cred_id c \<noteq> cid" "c \<in> set (t_credentials db)" by simp_all
qed

lemma authenticate_credential:
  assumes "authenticate X (db_query db) p now = Success s" "auth_credential p = Some tok"
  shows "\<exists>c n. c \<in> set (t_credentials db) \<and> cred_secret_hash c = x_hash_token X tok \<and> usable X now c n"
proof -
  obtain row where row: "find_node_credential (x_hash_token X tok) db = Some row"
    and ev: "evaluate X row (auth_node_id p) now = Success s"
    using assms by (auto simp: authenticate_Success db_query_def)
  from row obtain c n where "c \<in> set (t_credentials db)" "n \<in> set (t_nodes db)"
    "cred_secret_hash c = x_hash_token X tok" "cred_credential_type c = ''token''"
    "node_id n = cred_node_id c"
    "row = \<lparr>ncr_node_id = node_id n, ncr_node_status = node_status n,
       ncr_config_version = node_config_version n, ncr_revoked_at = cred_revoked_at c,
       ncr_expires_at = cred_expires_at c\<rparr>"
    by (rule find_node_credential_Some)
  with ev show ?thesis unfolding usable_def evaluate_Success by (intro exI [of _ c] exI [of _ n]) simp
qed

section \<open>Properties\<close>

text \<open>C3. A node comes online only with the valid credential it presents.  Whenever the handshake reports a node
  online, the other end sent a HELLO of the supported major version and then an AUTH with a token that is not
  empty; the database holds a token credential with the hash of that very token, neither revoked nor expired,
  of an existing node that is not disabled and has the reported identifier; the node the AUTH claims to be, if it
  claims one, is that node; and the server state changes exactly by bringing this node online with the agent
  version of the HELLO.  In every other outcome (closed stream, protocol error, failed authentication, send
  error) the server state is unchanged.\<close>

theorem handshake_sound:
  "(case handshake X ver now remote sv w r of
      (res, sv', w', r') \<Rightarrow>
        (\<exists>nid hello p. res = Ok (Some nid) \<and> presented (x_json X) r hello p
           \<and> major (hello_protocol_version hello) = SUPPORTED_PROTOCOL_MAJOR
           \<and> authenticated X now (sv_db sv) p nid
           \<and> sv' = go_online X now remote (hello_agent_version hello) nid sv)
      \<or> (sv' = sv \<and> (\<forall>nid. res \<noteq> Ok (Some nid))))"
proof -
  obtain res sv' w' r' where h: "handshake X ver now remote sv w r = (res, sv', w', r')"
    by (cases "handshake X ver now remote sv w r") auto
  from handshake_state [OF h] show ?thesis unfolding h by simp
qed

text \<open>The reply to a successful handshake: on the wire an online node finds exactly an AUTH_OK for
  its request followed by a CONFIG_SNAPSHOT that carries all routes the database holds for this node
  at the announced version, and both decode to these messages.\<close>

theorem handshake_reply:
  assumes "serde_ok (x_json X)"
    and "finish_handshake X ver now remote av rid s sv w r = (Ok (Some nid), sv', w', r')"
  shows "\<exists>f1 f2 ok routes. written w' = written w @ encode f1 @ encode f2
     \<and> from_frame (x_json X) f1 = Ok (MAuthOk ok) \<and> aok_node_id ok = nid \<and> request_id f1 = rid
     \<and> from_frame (x_json X) f2 = Ok (snapshot_message (aok_config_version ok) routes)
     \<and> node_routes X nid (sv_db sv) = Ok routes"
proof -
  from finish_handshake_writes [OF assms(2)] obtain f1 f2 routes where f:
    "written w' = written w @ encode f1 @ encode f2"
    "into_frame (x_json X) (MAuthOk \<lparr>aok_node_id = as_node_id s, aok_config_version = as_config_version s,
        aok_server_version = ver, aok_server_time = x_show_time X now\<rparr>) rid = Ok f1"
    "into_frame (x_json X) (snapshot_message (as_config_version s) routes) 0 = Ok f2"
    "node_routes X (as_node_id s) (sv_db sv) = Ok routes" "nid = as_node_id s" .
  show ?thesis
    using f(1,4,5) from_frame_into_frame [OF assms(1) f(2)] from_frame_into_frame [OF assms(1) f(3)]
      into_frame_fields(3) [OF f(2)]
    by (intro exI [of _ f1] exI [of _ f2] exI exI [of _ routes]) auto
qed

definition sample_ext :: "AuthOkPayload \<Rightarrow> ConfigSnapshotPayload \<Rightarrow> externals" where
  "sample_ext ok snap =
     \<lparr>x_json = (ping_only_json \<lparr>ping_ts = 0\<rparr> [0])
        \<lparr>js_AuthOk := single_codec ok [1], js_ConfigSnapshot := single_codec snap [2]\<rparr>,
      x_hash_token = (\<lambda>s. CHR ''#'' # s), x_parse_uuid = (\<lambda>s. if s = ''n1'' then Some 1 else None),
      x_show_uuid = (\<lambda>_. ''n1''), x_parse_time = (\<lambda>_. None), x_show_time = (\<lambda>_. ''now''),
      x_parse_limits = (\<lambda>_. None)\<rparr>"

definition sample_db :: Db where
  "sample_db = (case create_node ''n1'' ''edge'' None ''t0'' empty_db of
      Inr db \<Rightarrow> (case create_credential ''c1'' ''n1'' ''token'' ''#secret'' None ''t0'' db of Inr db' \<Rightarrow> db' | Inl _ \<Rightarrow> db)
    | Inl _ \<Rightarrow> empty_db)"

lemmas sample_db_eval = sample_db_def create_node_def create_credential_def empty_db_def

definition sample_ok :: AuthOkPayload where
  "sample_ok = \<lparr>aok_node_id = 1, aok_config_version = 0, aok_server_version = ''1'', aok_server_time = ''now''\<rparr>"

definition sample_snap :: ConfigSnapshotPayload where
  "sample_snap = \<lparr>snap_config_version = 0, snap_routes = [], snap_acl = [], snap_limits = default_limits\<rparr>"

theorem handshake_reply_witness:
  "let sv = \<lparr>sv_db = sample_db, sv_sessions = [], sv_events = []\<rparr>;
       s = \<lparr>as_node_id = 1, as_config_version = 0\<rparr>;
       w = \<lparr>written = [], room = None\<rparr>; r = \<lparr>pending = [], ending = Eof\<rparr>;
       X = sample_ext sample_ok sample_snap;
       (res, sv', w', r') = finish_handshake X ''1'' 5 ''peer'' ''0.1'' 2 s sv w r
   in \<exists>f1 f2 ok routes. written w' = [] @ encode f1 @ encode f2
     \<and> from_frame (x_json X) f1 = Ok (MAuthOk ok) \<and> aok_node_id ok = 1 \<and> request_id f1 = 2
     \<and> from_frame (x_json X) f2 = Ok (snapshot_message (aok_config_version ok) routes)
     \<and> node_routes X 1 sample_db = Ok routes"
proof -
  let ?X = "sample_ext sample_ok sample_snap" and ?s = "\<lparr>as_node_id = 1, as_config_version = 0\<rparr>"
  let ?sv = "\<lparr>sv_db = sample_db, sv_sessions = [], sv_events = []\<rparr>"
  let ?w = "\<lparr>written = [], room = None\<rparr>" and ?r = "\<lparr>pending = [], ending = Eof\<rparr>"
  have serde: "serde_ok (x_json ?X)"
    by (simp add: sample_ext_def serde_ok_def ping_only_json_def)
  have "node_routes ?X 1 sample_db = Ok []"
    by (simp add: node_routes_def list_routes_for_node_def sample_db_eval)
  then obtain sv' w' r' where h:
    "finish_handshake ?X ''1'' 5 ''peer'' ''0.1'' 2 ?s ?sv ?w ?r = (Ok (Some 1), sv', w', r')"
    by (simp add: finish_handshake_def send_snapshot_def send_message_def into_frame_def sample_ext_def
        single_codec_def sample_ok_def sample_snap_def snapshot_message_def write_frame_def write_all_def)
  from handshake_reply [OF serde h] show ?thesis unfolding Let_def h by simp
qed

text \<open>Revocation is effective immediately: once the only credential that stores the hash of a
  token is revoked, every authentication attempt with that token fails, at any time and for any
  claimed node.\<close>

theorem revoked_credential_rejected:
  assumes "auth_credential p = Some tok"
    and "\<forall>c\<in>set (t_credentials db). cred_secret_hash c = x_hash_token X tok \<longrightarrow> cred_id c = cid"
  shows "\<exists>code msg. authenticate X (db_query (revoke_credential cid ts db)) p now = Failure code msg"
proof (cases "authenticate X (db_query (revoke_credential cid ts db)) p now")
  case (Success s)
  from authenticate_credential [OF Success assms(1)] obtain c n where
    "c \<in> set (t_credentials (revoke_credential cid ts db))" "cred_secret_hash c = x_hash_token X tok"
    "usable X now c n" by blast
  with revoke_unusable [of c cid ts db X now n] assms(2) show ?thesis by auto
qed simp

theorem revoked_credential_rejected_witness:
  "(\<exists>s. authenticate (sample_ext sample_ok sample_snap) (db_query sample_db)
      \<lparr>auth_node_id = None, auth_credential = Some ''secret''\<rparr> 5 = Success s)
   \<and> (\<exists>code msg. authenticate (sample_ext sample_ok sample_snap)
      (db_query (revoke_credential ''c1'' ''t9'' sample_db))
      \<lparr>auth_node_id = None, auth_credential = Some ''secret''\<rparr> 5 = Failure code msg)"
proof
  show "\<exists>s. authenticate (sample_ext sample_ok sample_snap) (db_query sample_db)
      \<lparr>auth_node_id = None, auth_credential = Some ''secret''\<rparr> 5 = Success s"
    by (simp add: authenticate_def db_query_def find_node_credential_def sample_db_eval sample_ext_def evaluate_def)
  show "\<exists>code msg. authenticate (sample_ext sample_ok sample_snap)
      (db_query (revoke_credential ''c1'' ''t9'' sample_db))
      \<lparr>auth_node_id = None, auth_credential = Some ''secret''\<rparr> 5 = Failure code msg"
    by (rule revoked_credential_rejected [where tok = "''secret''"]) (simp_all add: sample_db_eval)
qed

end
