(* ===== verification/Tokens.thy ===== *)
theory Tokens
  imports NodeAuth
begin

text \<open>
  Tokens: \<open>crates/tunnel-auth/src/lib.rs\<close>.  A token is 32 random bytes in hexadecimal; the database holds the
  hexadecimal SHA-256 digest.  The random bytes and the digest are parameters.  Password hashing is a library
  call and stays a parameter of the login.
\<close>

definition hex_digit :: "nat \<Rightarrow> char" where
  "hex_digit n = (if n < 10 then chr (48 + n) else chr (87 + n))"

definition hex_byte :: "u8 \<Rightarrow> string" where
  "hex_byte b = [hex_digit (unat b div 16), hex_digit (unat b mod 16)]"

definition hex :: "bytes \<Rightarrow> string" where
  "hex bs = concat (map hex_byte bs)"

definition generate_token :: "bytes \<Rightarrow> string" where
  "generate_token random = hex random"

definition hash_token :: "(bytes \<Rightarrow> bytes) \<Rightarrow> string \<Rightarrow> string" where
  "hash_token sha256 token = hex (sha256 (map (\<lambda>c. of_nat (code c)) token))"

lemma hex_digit_inj: "a < 16 \<Longrightarrow> b < 16 \<Longrightarrow> hex_digit a = hex_digit b \<Longrightarrow> a = b"
  by (auto simp: hex_digit_def dest!: arg_cong [where f = code] split: if_splits)

lemma u8_div: "unat (c :: u8) div 16 < 16"
proof -
  have "unat c < 256" using unsigned_less [of c, where 'a = nat] by simp
  then show ?thesis by (simp add: div_less_iff_less_mult)
qed

lemma hex_byte_inj: "hex_byte a = hex_byte b \<Longrightarrow> a = b"
proof -
  assume "hex_byte a = hex_byte b"
  moreover have "unat c div 16 < 16" for c :: u8 by (rule u8_div)
  ultimately have "unat a div 16 = unat b div 16" "unat a mod 16 = unat b mod 16"
    by (auto simp: hex_byte_def intro: hex_digit_inj)
  then have "unat a = unat b" by (metis div_mult_mod_eq)
  then show "a = b" by (simp add: word_unat_eq_iff)
qed

lemma hex_Cons: "hex (b # bs) = hex_byte b @ hex bs"
  by (simp add: hex_def)

lemma hex_inj: "hex a = hex b \<longleftrightarrow> a = b"
proof (induction a arbitrary: b)
  case Nil
  then show ?case by (cases b) (simp_all add: hex_def hex_byte_def)
next
  case (Cons x xs)
  show ?case
  proof (cases b)
    case Nil
    then show ?thesis by (simp add: hex_def hex_byte_def)
  next
    case (Cons y ys)
    have "length (hex_byte x) = length (hex_byte y)" by (simp add: hex_byte_def)
    then show ?thesis using Cons Cons.IH [of ys] hex_byte_inj [of x y] by (auto simp: hex_Cons)
  qed
qed

text \<open>A token consists of hexadecimal digits, two for each random byte, and determines the random bytes; two
  tokens have the same hash only if SHA-256 maps them to the same digest.  So a token other than the issued
  one is accepted only after a collision.\<close>

theorem token_encoding:
  "length (generate_token random) = 2 * length random"
  "set (generate_token random) \<subseteq> set ''0123456789abcdef''"
  "generate_token random = generate_token random' \<longleftrightarrow> random = random'"
  "hash_token sha256 t = hash_token sha256 u \<longleftrightarrow>
     sha256 (map (\<lambda>c. of_nat (code c)) t) = sha256 (map (\<lambda>c. of_nat (code c)) u)"
proof -
  show "length (generate_token random) = 2 * length random"
    by (induction random) (simp_all add: generate_token_def hex_def hex_byte_def)
  have "list_all (\<lambda>n. hex_digit n \<in> set ''0123456789abcdef'') [0..<16]" by code_simp
  then have digit: "hex_digit n \<in> set ''0123456789abcdef''" if "n < 16" for n
    unfolding list_all_iff set_upt using that by (metis atLeastLessThan_iff zero_le)
  have "set (hex_byte c) \<subseteq> set ''0123456789abcdef''" for c
    unfolding hex_byte_def using digit [OF u8_div [of c]] digit [of "unat c mod 16"] by (simp only: set_simps insert_subset) simp
  then show "set (generate_token random) \<subseteq> set ''0123456789abcdef''"
    unfolding generate_token_def hex_def set_concat set_map by blast
qed (simp_all add: generate_token_def hash_token_def hex_inj)

end
