(* ===== verification/TlsSni.thy ===== *)
theory TlsSni
  imports Routes "HOL-Library.Monad_Syntax"
begin

text \<open>
  TLS pass-through (\<open>server/src/tls_passthrough.rs\<close>): the extraction of the server name from a
  ClientHello, the peek loop that collects enough bytes, the replay of the peeked prefix, and the
  forwarding of a passed-through connection.

  Every index into the buffer is checked: \<open>None\<close> is a panic of the parser.  Reading from the client
  is a list of the results of the single \<open>read\<close> calls.
\<close>

section \<open>Standard library: lossy UTF-8 decoding\<close>

definition in_range :: "nat \<Rightarrow> nat \<Rightarrow> nat \<Rightarrow> bool" where
  "in_range lo hi b \<longleftrightarrow> lo \<le> b \<and> b \<le> hi"

text \<open>The range of the second byte of a multi-byte sequence and the number of bytes after it.\<close>

definition utf8_lead :: "nat \<Rightarrow> (nat \<times> nat \<times> nat) option" where
  "utf8_lead b =
     (if in_range 0xC2 0xDF b then Some (0x80, 0xBF, 0)
      else if b = 0xE0 then Some (0xA0, 0xBF, 1)
      else if b = 0xED then Some (0x80, 0x9F, 1)
      else if in_range 0xE1 0xEF b then Some (0x80, 0xBF, 1)
      else if b = 0xF0 then Some (0x90, 0xBF, 2)
      else if in_range 0xF1 0xF3 b then Some (0x80, 0xBF, 2)
      else if b = 0xF4 then Some (0x80, 0x8F, 2)
      else None)"

text \<open>The number of continuation bytes at the start of a list, at most \<open>n\<close>.\<close>

fun conts :: "nat \<Rightarrow> nat list \<Rightarrow> nat" where
  "conts (Suc n) (b # bs) = (if in_range 0x80 0xBF b then Suc (conts n bs) else 0)"
| "conts _ _ = 0"

text \<open>Length of the first sequence and whether it is well formed.\<close>

definition utf8_first :: "nat \<Rightarrow> nat list \<Rightarrow> bool \<times> nat" where
  "utf8_first b bs =
     (if b < 0x80 then (True, 0)
      else case utf8_lead b of
        None \<Rightarrow> (False, 0)
      | Some (lo, hi, extra) \<Rightarrow>
          (case bs of
             c # cs \<Rightarrow>
               if in_range lo hi c then (conts extra cs = extra, Suc (conts extra cs)) else (False, 0)
           | [] \<Rightarrow> (False, 0)))"

function utf8_lossy :: "nat list \<Rightarrow> nat list" where
  "utf8_lossy [] = []"
| "utf8_lossy (b # bs) =
     (case utf8_first b bs of
        (ok, n) \<Rightarrow> (if ok then b # take n bs else [0xEF, 0xBF, 0xBD]) @ utf8_lossy (drop n bs))"
  by pat_completeness auto
termination by (relation "measure length") auto

definition from_utf8_lossy :: "bytes \<Rightarrow> string" where
  "from_utf8_lossy bs = map chr (utf8_lossy (map unat bs))"

section \<open>Parsing a ClientHello\<close>

definition MAX_PEEK_BYTES :: nat where "MAX_PEEK_BYTES = 16 * 1024"

datatype Sni = Found string | Absent | NeedMore | NotTls

definition byte_at :: "bytes \<Rightarrow> nat \<Rightarrow> nat option" where
  "byte_at buf p = (if p < length buf then Some (unat (buf ! p)) else None)"

definition u16_at :: "bytes \<Rightarrow> nat \<Rightarrow> nat option" where
  "u16_at buf p = do { a \<leftarrow> byte_at buf p; b \<leftarrow> byte_at buf (p + 1); Some (a * 256 + b) }"

definition range_at :: "bytes \<Rightarrow> nat \<Rightarrow> nat \<Rightarrow> bytes option" where
  "range_at buf p n = (if p + n \<le> length buf then Some (take n (drop p buf)) else None)"

text \<open>The entries of the \<open>server_name\<close> list.\<close>

function sni_names :: "bytes \<Rightarrow> nat \<Rightarrow> nat \<Rightarrow> Sni option" where
  "sni_names buf p list_end =
     (if p + 3 \<le> list_end
      then do {
        name_type \<leftarrow> byte_at buf p;
        name_len \<leftarrow> u16_at buf (p + 1);
        if p + 3 + name_len > list_end then Some NotTls
        else if name_type = 0
        then do { name \<leftarrow> range_at buf (p + 3) name_len; Some (Found (from_utf8_lossy name)) }
        else sni_names buf (p + 3 + name_len) list_end
      }
      else Some Absent)"
  by pat_completeness auto
termination by (relation "measure (\<lambda>(buf, p, list_end). list_end - p)") auto

definition sni_server_name :: "bytes \<Rightarrow> nat \<Rightarrow> nat \<Rightarrow> Sni option" where
  "sni_server_name buf pos len =
     (if len < 2 then Some Absent
      else do {
        list_len \<leftarrow> u16_at buf pos;
        if 2 + list_len > len then Some NotTls else sni_names buf (pos + 2) (pos + 2 + list_len)
      })"

function sni_extensions :: "bytes \<Rightarrow> nat \<Rightarrow> nat \<Rightarrow> Sni option" where
  "sni_extensions buf pos ext_end =
     (if pos + 4 \<le> ext_end
      then do {
        ext_type \<leftarrow> u16_at buf pos;
        len \<leftarrow> u16_at buf (pos + 2);
        if pos + 4 + len > ext_end then Some NotTls
        else if ext_type = 0 then sni_server_name buf (pos + 4) len
        else sni_extensions buf (pos + 4 + len) ext_end
      }
      else Some Absent)"
  by pat_completeness auto
termination by (relation "measure (\<lambda>(buf, pos, ext_end). ext_end - pos)") auto

text \<open>Skip a vector with a one- or two-byte length that must lie before \<open>end\<close>.\<close>

definition skip8 :: "bytes \<Rightarrow> nat \<Rightarrow> nat \<Rightarrow> (nat \<Rightarrow> Sni option) \<Rightarrow> Sni option" where
  "skip8 buf pos fin k =
     (if pos + 1 > fin then Some NotTls
      else do { n \<leftarrow> byte_at buf pos; if pos + 1 + n > fin then Some NotTls else k (pos + 1 + n) })"

definition skip16 :: "bytes \<Rightarrow> nat \<Rightarrow> nat \<Rightarrow> (nat \<Rightarrow> Sni option) \<Rightarrow> Sni option" where
  "skip16 buf pos fin k =
     (if pos + 2 > fin then Some NotTls
      else do { n \<leftarrow> u16_at buf pos; if pos + 2 + n > fin then Some NotTls else k (pos + 2 + n) })"

definition sni_hello :: "bytes \<Rightarrow> nat \<Rightarrow> nat \<Rightarrow> Sni option" where
  "sni_hello buf pos fin =
     (if pos + 34 > fin then Some NotTls
      else skip8 buf (pos + 34) fin (\<lambda>pos.
           skip16 buf pos fin (\<lambda>pos.
           skip8 buf pos fin (\<lambda>pos.
             if pos + 2 > fin then Some Absent
             else do {
               ext_len \<leftarrow> u16_at buf pos;
               if pos + 2 + ext_len > fin then Some NotTls
               else sni_extensions buf (pos + 2) (pos + 2 + ext_len)
             }))))"

definition extract_sni :: "bytes \<Rightarrow> Sni option" where
  "extract_sni buf =
     (if length buf < 5 then Some NeedMore
      else do {
        content_type \<leftarrow> byte_at buf 0;
        if content_type \<noteq> 0x16 then Some NotTls
        else do {
          rec_len \<leftarrow> u16_at buf 3;
          let record_end = 5 + rec_len in
          if length buf < record_end then Some NeedMore
          else if record_end < 9 then Some NotTls
          else do {
            hs_type \<leftarrow> byte_at buf 5;
            if hs_type \<noteq> 1 then Some NotTls
            else do {
              b6 \<leftarrow> byte_at buf 6;
              b78 \<leftarrow> u16_at buf 7;
              let hs_len = b6 * 65536 + b78 in
              if 9 + hs_len > record_end then Some NotTls else sni_hello buf 9 (9 + hs_len)
            }
          }
        }
      })"

section \<open>Peeking and replaying\<close>

text \<open>One element of the list per call of \<open>read\<close>: an error or at most 8192 bytes; no bytes, or the
  end of the list, is the end of the stream.\<close>

type_synonym reads = "(io_error, bytes) result list"

fun peek_sni_loop :: "bytes \<Rightarrow> reads \<Rightarrow> (io_error, string option \<times> bytes) result option \<times> reads" where
  "peek_sni_loop buf rs =
     (case extract_sni buf of
        None \<Rightarrow> (None, rs)
      | Some (Found sni) \<Rightarrow> (Some (Ok (Some sni, buf)), rs)
      | Some Absent \<Rightarrow> (Some (Ok (None, buf)), rs)
      | Some NotTls \<Rightarrow> (Some (Ok (None, buf)), rs)
      | Some NeedMore \<Rightarrow>
          if length buf \<ge> MAX_PEEK_BYTES then (Some (Ok (None, buf)), rs)
          else (case rs of
              [] \<Rightarrow> (Some (Ok (None, buf)), [])
            | Inl e # rs' \<Rightarrow> (Some (Err e), rs')
            | Inr chunk # rs' \<Rightarrow>
                if chunk = [] then (Some (Ok (None, buf)), rs') else peek_sni_loop (buf @ chunk) rs'))"

definition peek_sni :: "reads \<Rightarrow> (io_error, string option \<times> bytes) result option \<times> reads" where
  "peek_sni rs = peek_sni_loop [] rs"

text \<open>The prefix adapter: a read of at most \<open>n\<close> bytes comes from the prefix while it lasts, then from
  the stream.\<close>

record Prefixed =
  px_prefix :: bytes
  px_inner :: reads

definition px_read :: "nat \<Rightarrow> Prefixed \<Rightarrow> (io_error, bytes) result \<times> Prefixed" where
  "px_read n px =
     (if px_prefix px \<noteq> []
      then (Ok (take n (px_prefix px)), px\<lparr>px_prefix := drop n (px_prefix px)\<rparr>)
      else case px_inner px of
        [] \<Rightarrow> (Ok [], px)
      | Inl e # rs \<Rightarrow> (Err e, px\<lparr>px_inner := rs\<rparr>)
      | Inr chunk # rs \<Rightarrow>
          (Ok (take n chunk), px\<lparr>px_inner := (if length chunk \<le> n then rs else Inr (drop n chunk) # rs)\<rparr>))"

text \<open>Forwarding a passed-through connection; the result is the list of visible actions.  \<open>open_bi\<close> and
  \<open>send_ok\<close> say whether opening the stream and sending succeed.\<close>

definition open_tcp :: "ServerRoute \<Rightarrow> string \<Rightarrow> Message" where
  "open_tcp route peer =
     MOpenTcp \<lparr>ot_route_id = sr_id route, ot_target_host = sr_target_host route,
               ot_target_port = sr_target_port route, ot_client_addr = Some peer\<rparr>"

definition forward_passthrough :: "serde_json \<Rightarrow> bool \<Rightarrow> (Message \<Rightarrow> bool) \<Rightarrow> rstream \<Rightarrow> ServerRoute \<Rightarrow> string
    \<Rightarrow> stream_action list" where
  "forward_passthrough J open_bi send_ok recv route peer =
     (if \<not> open_bi then []
      else
        let msg = open_tcp route peer in
        SendMessage msg 0 #
        (if \<not> send_ok msg then []
         else case fst (read_frame recv) of
           Inr (Some frame) \<Rightarrow>
             (case from_frame J frame of
                Inr (MOpenOk _) \<Rightarrow> [CopyDuplex]
              | _ \<Rightarrow> [])
         | _ \<Rightarrow> []))"

declare sni_names.simps [simp del] sni_extensions.simps [simp del] peek_sni_loop.simps [simp del]

section \<open>The parser never indexes out of bounds\<close>

lemma byte_at_ok: "p < length buf \<Longrightarrow> byte_at buf p = Some (unat (buf ! p))"
  by (simp add: byte_at_def)

lemma u16_at_ok: "p + 1 < length buf \<Longrightarrow> u16_at buf p = Some (unat (buf ! p) * 256 + unat (buf ! (p + 1)))"
  by (simp add: u16_at_def byte_at_ok)

lemma range_at_ok: "p + n \<le> length buf \<Longrightarrow> range_at buf p n = Some (take n (drop p buf))"
  by (simp add: range_at_def)

lemmas at_ok = byte_at_ok u16_at_ok range_at_ok

lemma sni_names_total: "list_end \<le> length buf \<Longrightarrow> \<exists>r. sni_names buf p list_end = Some r"
proof (induction buf p list_end rule: sni_names.induct)
  case (1 buf p list_end)
  then show ?case by (subst sni_names.simps) (auto simp: at_ok)
qed

lemma sni_server_name_total: "pos + len \<le> length buf \<Longrightarrow> \<exists>r. sni_server_name buf pos len = Some r"
  by (auto simp: sni_server_name_def sni_names_total at_ok)

lemma sni_extensions_total: "ext_end \<le> length buf \<Longrightarrow> \<exists>r. sni_extensions buf pos ext_end = Some r"
proof (induction buf pos ext_end rule: sni_extensions.induct)
  case (1 buf pos ext_end)
  then show ?case by (subst sni_extensions.simps) (auto simp: at_ok sni_server_name_total)
qed

lemma skip_total:
  "fin \<le> length buf \<Longrightarrow> (\<And>q. q \<le> fin \<Longrightarrow> \<exists>r. k q = Some r) \<Longrightarrow> \<exists>r. skip8 buf pos fin k = Some r"
  "fin \<le> length buf \<Longrightarrow> (\<And>q. q \<le> fin \<Longrightarrow> \<exists>r. k q = Some r) \<Longrightarrow> \<exists>r. skip16 buf pos fin k = Some r"
  by (simp_all add: skip8_def skip16_def at_ok)

lemma sni_hello_total: "fin \<le> length buf \<Longrightarrow> \<exists>r. sni_hello buf pos fin = Some r"
  unfolding sni_hello_def
  by (auto intro!: skip_total simp: sni_extensions_total at_ok)

text \<open>The header fields, and the parser once the header is there.\<close>

definition record_end :: "bytes \<Rightarrow> nat" where
  "record_end buf = 5 + (unat (buf ! 3) * 256 + unat (buf ! 4))"

definition hello_end :: "bytes \<Rightarrow> nat" where
  "hello_end buf = 9 + (unat (buf ! 6) * 65536 + (unat (buf ! 7) * 256 + unat (buf ! 8)))"

lemma extract_sni_eq:
  "extract_sni buf =
     (if length buf < 5 then Some NeedMore
      else if unat (buf ! 0) \<noteq> 0x16 then Some NotTls
      else if length buf < record_end buf then Some NeedMore
      else if record_end buf < 9 \<or> unat (buf ! 5) \<noteq> 1 \<or> hello_end buf > record_end buf then Some NotTls
      else sni_hello buf 9 (hello_end buf))"
proof (cases "length buf < 5")
  case False
  then have hd: "byte_at buf 0 = Some (unat (buf ! 0))" "u16_at buf 3 = Some (record_end buf - 5)"
    by (auto simp: byte_at_def u16_at_ok record_end_def)
  have "record_end buf \<le> length buf \<Longrightarrow> 9 \<le> record_end buf \<Longrightarrow>
      byte_at buf 5 = Some (unat (buf ! 5)) \<and> byte_at buf 6 = Some (unat (buf ! 6))
      \<and> u16_at buf 7 = Some (unat (buf ! 7) * 256 + unat (buf ! 8))"
    by (simp add: at_ok)
  moreover have "5 + (record_end buf - 5) = record_end buf" by (simp add: record_end_def)
  ultimately show ?thesis
    using False hd unfolding extract_sni_def
    by (simp add: Let_def hello_end_def not_less)
qed (simp add: extract_sni_def)

lemma extract_sni_total: "\<exists>r. extract_sni buf = Some r"
  unfolding extract_sni_eq by (simp add: sni_hello_total not_less)

section \<open>Bytes after the record do not matter\<close>

lemma byte_at_append [simp]: "p < length b \<Longrightarrow> byte_at (b @ x) p = byte_at b p"
  by (simp add: byte_at_def nth_append)

lemma u16_at_append [simp]: "p + 1 < length b \<Longrightarrow> u16_at (b @ x) p = u16_at b p"
  by (simp add: u16_at_def)

lemma range_at_append [simp]: "p + n \<le> length b \<Longrightarrow> range_at (b @ x) p n = range_at b p n"
  by (simp add: range_at_def)

lemma sni_names_append: "list_end \<le> length b \<Longrightarrow> sni_names (b @ x) p list_end = sni_names b p list_end"
proof (induction b p list_end rule: sni_names.induct)
  case (1 b p list_end)
  then show ?case
    by (subst (1 2) sni_names.simps) (auto cong: if_cong split: Option.bind_split)
qed

lemma sni_server_name_append:
  "pos + len \<le> length b \<Longrightarrow> sni_server_name (b @ x) pos len = sni_server_name b pos len"
  by (simp add: sni_server_name_def sni_names_append cong: if_cong)

lemma sni_extensions_append: "ext_end \<le> length b \<Longrightarrow> sni_extensions (b @ x) pos ext_end = sni_extensions b pos ext_end"
proof (induction b pos ext_end rule: sni_extensions.induct)
  case (1 b pos ext_end)
  then show ?case
    by (subst (1 2) sni_extensions.simps) (auto simp: sni_server_name_append cong: if_cong split: Option.bind_split)
qed

lemma sni_hello_append:
  assumes "fin \<le> length b"
  shows "sni_hello (b @ x) pos fin = sni_hello b pos fin"
  using assms by (simp add: sni_hello_def skip8_def skip16_def sni_extensions_append cong: if_cong)

lemma extract_sni_append:
  assumes "extract_sni b = Some r" "r \<noteq> NeedMore"
  shows "extract_sni (b @ x) = Some r"
proof -
  have len: "5 \<le> length b" using assms by (auto simp: extract_sni_eq split: if_splits)
  then have hd: "(b @ x) ! 0 = b ! 0" "record_end (b @ x) = record_end b"
    by (auto simp: nth_append record_end_def)
  show ?thesis
  proof (cases "unat (b ! 0) = 0x16")
    case True
    then have "record_end b \<le> length b" using assms len by (simp add: extract_sni_eq not_less split: if_splits)
    show ?thesis
    proof (cases "record_end b < 9")
      case False
      with \<open>record_end b \<le> length b\<close> have "(b @ x) ! 5 = b ! 5" "hello_end (b @ x) = hello_end b"
        by (simp_all add: nth_append hello_end_def)
      then show ?thesis
        using assms hd len sni_hello_append [of "hello_end b" b x 9] True \<open>record_end b \<le> length b\<close>
        by (auto simp: extract_sni_eq split: if_splits)
    qed (use assms hd len True \<open>record_end b \<le> length b\<close> in \<open>simp add: extract_sni_eq\<close>)
  qed (use assms hd len in \<open>simp add: extract_sni_eq\<close>)
qed

section \<open>Well-formed ClientHello messages\<close>

definition be16 :: "nat \<Rightarrow> bytes" where
  "be16 n = [of_nat (n div 256), of_nat (n mod 256)]"

definition vec8 :: "bytes \<Rightarrow> bytes" where
  "vec8 xs = of_nat (length xs) # xs"

definition vec16 :: "bytes \<Rightarrow> bytes" where
  "vec16 xs = be16 (length xs) @ xs"

definition ext_bytes :: "nat \<times> bytes \<Rightarrow> bytes" where
  "ext_bytes e = be16 (fst e) @ vec16 (snd e)"

text \<open>A \<open>server_name\<close> extension with one host name.\<close>

definition sni_body :: "bytes \<Rightarrow> bytes" where
  "sni_body name = vec16 (0 # vec16 name)"

record ClientHello =
  ch_record_version :: bytes
  ch_version_random :: bytes
  ch_session_id :: bytes
  ch_cipher_suites :: bytes
  ch_compression :: bytes
  ch_extensions :: "(nat \<times> bytes) list"

definition hello_body :: "ClientHello \<Rightarrow> bytes" where
  "hello_body ch = ch_version_random ch @ vec8 (ch_session_id ch) @ vec16 (ch_cipher_suites ch)
     @ vec8 (ch_compression ch) @ vec16 (concat (map ext_bytes (ch_extensions ch)))"

definition hello_record :: "ClientHello \<Rightarrow> bytes" where
  "hello_record ch = 0x16 # ch_record_version ch
     @ vec16 (1 # of_nat (length (hello_body ch) div 65536) # be16 (length (hello_body ch) mod 65536) @ hello_body ch)"

definition hello_ok :: "ClientHello \<Rightarrow> bool" where
  "hello_ok ch \<longleftrightarrow> length (ch_record_version ch) = 2 \<and> length (ch_version_random ch) = 34
     \<and> length (ch_session_id ch) < 256 \<and> length (ch_compression ch) < 256
     \<and> list_all (\<lambda>e. fst e < 65536) (ch_extensions ch) \<and> length (hello_body ch) + 4 < 65536"

lemma length_vecs [simp]: "length (be16 n) = 2" "length (vec8 xs) = 1 + length xs" "length (vec16 xs) = 2 + length xs"
  by (simp_all add: be16_def vec8_def vec16_def)

lemma byte_at_drop: "drop p buf = y # ys \<Longrightarrow> byte_at buf p = Some (unat y)"
  by (metis byte_at_ok drop_eq_Nil linorder_not_le list.distinct(1) nth_via_drop)

lemma u16_at_drop:
  assumes "drop p buf = be16 n @ ys" "n < 65536"
  shows "u16_at buf p = Some n"
proof -
  have "drop (p + 1) buf = of_nat (n mod 256) # ys"
    using assms(1) by (simp add: be16_def drop_Suc flip: drop_drop) (metis drop_Suc drop_drop list.sel(3) tl_drop)
  then show ?thesis
    using assms byte_at_drop [of p buf] byte_at_drop [of "p + 1" buf] by (simp add: u16_at_def be16_def unat_of_nat_u8)
qed

lemma drop_add: "drop p buf = xs @ ys \<Longrightarrow> length xs = n \<Longrightarrow> drop (p + n) buf = ys"
  by (metis add.commute append_eq_conv_conj drop_drop)

lemma skip8_vec:
  assumes "drop p buf = vec8 xs @ ys" "length xs < 256" "p + 1 + length xs \<le> fin"
  shows "skip8 buf p fin k = k (p + 1 + length xs)"
  using assms byte_at_drop [of p buf] by (simp add: skip8_def vec8_def unat_of_nat_u8)

lemma skip16_vec:
  assumes "drop p buf = vec16 xs @ ys" "length xs < 65536" "p + 2 + length xs \<le> fin"
  shows "skip16 buf p fin k = k (p + 2 + length xs)"
  using assms u16_at_drop [of p buf "length xs"] by (simp add: skip16_def vec16_def)

lemma sni_server_name_found:
  assumes "drop q buf = sni_body name @ ys" "length name + 3 < 65536"
  shows "sni_server_name buf q (length (sni_body name)) = Some (Found (from_utf8_lossy name))"
proof -
  let ?n = "length name"
  have q: "drop q buf = be16 (?n + 3) @ 0 # be16 ?n @ name @ ys" using assms(1) by (simp add: sni_body_def vec16_def numeral_3_eq_3)
  have q2: "drop (q + 2) buf = 0 # be16 ?n @ name @ ys" using drop_add [OF q] by simp
  have q3: "drop (q + 3) buf = be16 ?n @ name @ ys" using drop_add [of "q + 2" buf "[0]" "be16 ?n @ name @ ys" 1] q2 by (simp add: numeral_eq_Suc)
  have q5: "drop (q + 5) buf = name @ ys" using drop_add [OF q3, of 2] by (simp add: numeral_eq_Suc)
  then have "range_at buf (q + 5) ?n = Some name"
    using arg_cong [OF q, of length] by (simp add: range_at_def)
  then have "range_at buf (5 + q) ?n = Some name" by (simp add: add.commute)
  moreover have "q + 3 = q + 2 + 1" by simp
  ultimately have "sni_names buf (q + 2) (q + 2 + (?n + 3)) = Some (Found (from_utf8_lossy name))"
    using byte_at_drop [OF q2] u16_at_drop [OF q3] assms(2) \<open>q + 3 = q + 2 + 1\<close>
    by (subst sni_names.simps) simp
  then show ?thesis
    using u16_at_drop [OF q] assms(2) by (simp add: sni_server_name_def sni_body_def)
qed

lemma sni_extensions_walk:
  assumes "drop pos buf = concat (map ext_bytes es) @ ys" "ext_end = pos + length (concat (map ext_bytes es))"
    and "list_all (\<lambda>e. fst e < 65536) es" "length (concat (map ext_bytes es)) < 65536"
  shows "(map_of es 0 = None \<longrightarrow> sni_extensions buf pos ext_end = Some Absent)
     \<and> (\<forall>body. map_of es 0 = Some body \<longrightarrow>
          (\<exists>q zs. drop q buf = body @ zs \<and> sni_extensions buf pos ext_end = sni_server_name buf q (length body)
             \<and> length body < 65536))"
  using assms
proof (induction es arbitrary: pos)
  case Nil
  then show ?case by (subst sni_extensions.simps) simp
next
  case (Cons e es)
  obtain t body where e: "e = (t, body)" by (cases e)
  let ?rest = "concat (map ext_bytes es) @ ys"
  have d0: "drop pos buf = be16 t @ be16 (length body) @ body @ ?rest"
    using Cons.prems(1) by (simp add: e ext_bytes_def [of "(t, body)"] vec16_def)
  have d2: "drop (pos + 2) buf = be16 (length body) @ body @ ?rest" using drop_add [OF d0] by simp
  have d4: "drop (pos + 4) buf = body @ ?rest" using drop_add [OF d2, of 2] by (simp add: numeral_eq_Suc)
  have dn: "drop (pos + 4 + length body) buf = ?rest" using drop_add [OF d4] by simp
  have lens: "t < 65536" "length body < 65536" "ext_end = pos + 4 + length body + length (concat (map ext_bytes es))"
    using Cons.prems(2-4) by (simp_all add: e ext_bytes_def [of "(t, body)"])
  have step: "sni_extensions buf pos ext_end =
      (if t = 0 then sni_server_name buf (pos + 4) (length body) else sni_extensions buf (pos + 4 + length body) ext_end)"
    using u16_at_drop [OF d0 lens(1)] u16_at_drop [OF d2 lens(2)] lens(3) by (subst sni_extensions.simps) simp
  show ?case
  proof (cases "t = 0")
    case True
    then show ?thesis using d4 step e lens(2) by auto
  next
    case False
    then show ?thesis using Cons.IH [OF dn lens(3)] Cons.prems(3,4) step by (simp add: e)
  qed
qed

lemma hello_record_layout:
  assumes "hello_ok ch"
  shows "length (hello_record ch) = 9 + length (hello_body ch)"
    and "drop 9 (hello_record ch) = hello_body ch"
    and "unat (hello_record ch ! 0) = 0x16" "unat (hello_record ch ! 5) = 1"
    and "record_end (hello_record ch) = 9 + length (hello_body ch)"
    and "hello_end (hello_record ch) = 9 + length (hello_body ch)"
proof -
  obtain v w where v: "ch_record_version ch = [v, w]"
    using assms by (auto simp: hello_ok_def numeral_2_eq_2 length_Suc_conv)
  let ?n = "length (hello_body ch)"
  have r: "hello_record ch = [0x16, v, w, of_nat ((?n + 4) div 256), of_nat ((?n + 4) mod 256), 1,
      of_nat (?n div 65536), of_nat (?n mod 65536 div 256), of_nat (?n mod 65536 mod 256)] @ hello_body ch"
    by (simp add: hello_record_def v vec16_def be16_def add.commute)
  have n: "?n + 4 < 65536" using assms by (simp add: hello_ok_def)
  show "length (hello_record ch) = 9 + ?n" "drop 9 (hello_record ch) = hello_body ch"
    "unat (hello_record ch ! 0) = 0x16" "unat (hello_record ch ! 5) = 1"
    by (simp_all add: r)
  show "record_end (hello_record ch) = 9 + ?n"
    using n by (simp add: r record_end_def unat_of_nat_u8)
  show "hello_end (hello_record ch) = 9 + ?n"
    using n by (simp add: r hello_end_def unat_of_nat_u8)
qed

lemma length_hello_body:
  "length (hello_body ch) = length (ch_version_random ch) + (1 + length (ch_session_id ch))
     + (2 + length (ch_cipher_suites ch)) + (1 + length (ch_compression ch))
     + (2 + length (concat (map ext_bytes (ch_extensions ch))))"
  by (simp add: hello_body_def)

lemma sni_hello_extensions:
  assumes "hello_ok ch" "drop 9 buf = hello_body ch" "fin = 9 + length (hello_body ch)"
  shows "\<exists>pos. drop pos buf = concat (map ext_bytes (ch_extensions ch))
     \<and> sni_hello buf 9 fin = sni_extensions buf pos (pos + length (concat (map ext_bytes (ch_extensions ch))))"
proof -
  let ?x = "concat (map ext_bytes (ch_extensions ch))"
  have len: "length (ch_version_random ch) = 34" "length (ch_session_id ch) < 256" "length (ch_compression ch) < 256"
    "length (ch_cipher_suites ch) < 65536" "length ?x < 65536"
    using assms(1) length_hello_body [of ch] by (simp_all add: hello_ok_def)
  let ?p1 = "9 + 34" let ?p2 = "?p1 + 1 + length (ch_session_id ch)"
  let ?p3 = "?p2 + 2 + length (ch_cipher_suites ch)" let ?p4 = "?p3 + 1 + length (ch_compression ch)"
  have d1: "drop ?p1 buf = vec8 (ch_session_id ch) @ vec16 (ch_cipher_suites ch) @ vec8 (ch_compression ch) @ vec16 ?x"
    using drop_add [OF assms(2) [unfolded hello_body_def] len(1)] .
  have d2: "drop ?p2 buf = vec16 (ch_cipher_suites ch) @ vec8 (ch_compression ch) @ vec16 ?x"
    using drop_add [OF d1, of "1 + length (ch_session_id ch)"] by simp
  have d3: "drop ?p3 buf = vec8 (ch_compression ch) @ vec16 ?x"
    using drop_add [OF d2, of "2 + length (ch_cipher_suites ch)"] by (simp only: add.assoc) simp
  have d4: "drop ?p4 buf = be16 (length ?x) @ ?x"
    using drop_add [OF d3, of "1 + length (ch_compression ch)"] by (simp add: vec16_def add.assoc)
  have d5: "drop (?p4 + 2) buf = ?x" using drop_add [OF d4, of 2] by simp
  have fin: "fin = ?p4 + 2 + length ?x"
    using assms(3) len(1) length_hello_body [of ch] by simp
  have s1: "skip8 buf ?p1 fin k = k ?p2" for k using skip8_vec [OF d1 len(2)] fin by simp
  have s2: "skip16 buf ?p2 fin k = k ?p3" for k using skip16_vec [OF d2 len(4)] fin by simp
  have s3: "skip8 buf ?p3 fin k = k ?p4" for k using skip8_vec [OF d3 len(3)] fin by simp
  have "sni_hello buf 9 fin = sni_extensions buf (?p4 + 2) (?p4 + 2 + length ?x)"
    unfolding sni_hello_def s1 s2 s3 using u16_at_drop [OF d4 len(5)] fin by simp
  with d5 show ?thesis by blast
qed

lemma extract_hello_record:
  assumes "hello_ok ch"
  shows "map_of (ch_extensions ch) 0 = None \<Longrightarrow> extract_sni (hello_record ch) = Some Absent"
    and "map_of (ch_extensions ch) 0 = Some (sni_body name) \<Longrightarrow>
       extract_sni (hello_record ch) = Some (Found (from_utf8_lossy name))"
proof -
  let ?b = "hello_record ch" and ?x = "concat (map ext_bytes (ch_extensions ch))"
  note lay = hello_record_layout [OF assms]
  have e: "extract_sni ?b = sni_hello ?b 9 (9 + length (hello_body ch))"
    using lay by (simp add: extract_sni_eq)
  obtain pos where pos: "drop pos ?b = ?x @ []" "sni_hello ?b 9 (9 + length (hello_body ch))
      = sni_extensions ?b pos (pos + length ?x)"
    using sni_hello_extensions [OF assms lay(2) refl] by auto
  have ok: "list_all (\<lambda>e. fst e < 65536) (ch_extensions ch)" "length ?x < 65536"
    using assms length_hello_body [of ch] by (simp_all add: hello_ok_def)
  note walk = sni_extensions_walk [OF pos(1) refl ok]
  show "extract_sni ?b = Some Absent" if "map_of (ch_extensions ch) 0 = None"
    using walk that e pos(2) by simp
  show "extract_sni ?b = Some (Found (from_utf8_lossy name))" if m: "map_of (ch_extensions ch) 0 = Some (sni_body name)"
  proof -
    obtain q zs where q: "drop q ?b = sni_body name @ zs"
      "sni_extensions ?b pos (pos + length ?x) = sni_server_name ?b q (length (sni_body name))"
      "length (sni_body name) < 65536"
      using walk m by blast
    then have "length name + 3 < 65536" by (simp add: sni_body_def)
    with sni_server_name_found [OF q(1)] q(2) e pos(2) show ?thesis by simp
  qed
qed

lemma extract_hello_prefix:
  assumes "hello_ok ch" "k < length (hello_record ch)"
  shows "extract_sni (take k (hello_record ch)) = Some NeedMore"
proof (cases "k < 5")
  case False
  then have "record_end (take k (hello_record ch)) = record_end (hello_record ch)"
    "take k (hello_record ch) ! 0 = hello_record ch ! 0" "5 \<le> length (take k (hello_record ch))"
    using assms(2) by (simp_all add: record_end_def)
  then show ?thesis using hello_record_layout [OF assms(1)] assms(2) by (simp add: extract_sni_eq)
next
  case True
  then have "length (take k (hello_record ch)) < 5" by simp
  then show ?thesis by (simp only: extract_sni_def if_True)
qed

section \<open>The peek loop\<close>

definition sni_name :: "Sni \<Rightarrow> string option" where
  "sni_name r = (case r of Found n \<Rightarrow> Some n | _ \<Rightarrow> None)"

text \<open>All bytes the client sends, in order, when no read fails.\<close>

definition client_bytes :: "reads \<Rightarrow> bytes" where
  "client_bytes rs = concat (map (\<lambda>r. case r of Inr c \<Rightarrow> c | Inl _ \<Rightarrow> []) rs)"

definition chunked :: "reads \<Rightarrow> bool" where
  "chunked rs \<longleftrightarrow> list_all (\<lambda>r. case r of Inr c \<Rightarrow> c \<noteq> [] | Inl _ \<Rightarrow> False) rs"

lemma client_bytes_simps [simp]: "client_bytes [] = []" "client_bytes (Inr c # rs) = c @ client_bytes rs"
  by (simp_all add: client_bytes_def)

lemma chunked_simps [simp]: "chunked []" "chunked (Inr c # rs) \<longleftrightarrow> c \<noteq> [] \<and> chunked rs" "\<not> chunked (Inl e # rs)"
  by (simp_all add: chunked_def)

lemma peek_sni_loop_chunked:
  assumes "chunked rs" "extract_sni (buf @ client_bytes rs) = Some r" "r \<noteq> NeedMore"
    and "\<And>k. extract_sni (take k (buf @ client_bytes rs)) = Some NeedMore \<Longrightarrow> min k (length (buf @ client_bytes rs)) < MAX_PEEK_BYTES"
  shows "\<exists>pre rest. peek_sni_loop buf rs = (Some (Ok (sni_name r, pre)), rest) \<and> pre @ client_bytes rest = buf @ client_bytes rs"
  using assms
proof (induction rs arbitrary: buf)
  case Nil
  then show ?case by (cases r) (simp_all add: peek_sni_loop.simps [of buf "[]"] sni_name_def)
next
  case (Cons x rs)
  obtain c where c: "x = Inr c" "c \<noteq> []" "chunked rs" using Cons.prems(1) by (cases x) auto
  obtain r' where r': "extract_sni buf = Some r'" using extract_sni_total by blast
  show ?case
  proof (cases "r' = NeedMore")
    case True
    then have "length buf < MAX_PEEK_BYTES"
      using Cons.prems(4) [of "length buf"] r' by simp
    then have "peek_sni_loop buf (x # rs) = peek_sni_loop (buf @ c) rs"
      using r' True c by (simp add: peek_sni_loop.simps [of buf "Inr c # rs"])
    moreover have "\<exists>pre rest. peek_sni_loop (buf @ c) rs = (Some (Ok (sni_name r, pre)), rest)
        \<and> pre @ client_bytes rest = (buf @ c) @ client_bytes rs"
      using Cons.prems c by (intro Cons.IH) simp_all
    ultimately show ?thesis using c(1) by simp
  next
    case False
    then have "r = r'" using extract_sni_append [OF r' False, of "client_bytes (x # rs)"] Cons.prems(2) by simp
    with r' False show ?thesis
      by (cases r') (simp_all add: peek_sni_loop.simps [of buf "x # rs"] sni_name_def)
  qed
qed

lemma peek_sni_loop_robust:
  "\<exists>res used rest. peek_sni_loop buf rs = (Some res, rest) \<and> rs = used @ rest
     \<and> (\<forall>n pre. res = Ok (n, pre) \<longrightarrow> pre = buf @ client_bytes used)"
proof (induction rs arbitrary: buf)
  case Nil
  obtain r where "extract_sni buf = Some r" using extract_sni_total by blast
  then show ?case by (cases r) (auto simp: peek_sni_loop.simps [of buf "[]"])
next
  case (Cons x rs)
  obtain r where r: "extract_sni buf = Some r" using extract_sni_total by blast
  show ?case
  proof (cases "r = NeedMore \<and> length buf < MAX_PEEK_BYTES \<and> (\<exists>c. x = Inr c \<and> c \<noteq> [])")
    case True
    then obtain c where c: "x = Inr c" "c \<noteq> []" by blast
    then have step: "peek_sni_loop buf (x # rs) = peek_sni_loop (buf @ c) rs"
      using r True by (simp add: peek_sni_loop.simps [of buf "Inr c # rs"])
    obtain res used rest where "peek_sni_loop (buf @ c) rs = (Some res, rest)" "rs = used @ rest"
      "\<forall>n pre. res = Ok (n, pre) \<longrightarrow> pre = (buf @ c) @ client_bytes used"
      using Cons.IH [of "buf @ c"] by blast
    with step c(1) show ?thesis
      by (intro exI [of _ res] exI [of _ "x # used"] exI [of _ rest]) simp
  next
    case False
    then have "\<exists>res. peek_sni_loop buf (x # rs) = (Some res, x # rs) \<and> (\<forall>n pre. res = Ok (n, pre) \<longrightarrow> pre = buf)
        \<or> peek_sni_loop buf (x # rs) = (Some res, rs) \<and> (\<forall>n pre. res = Ok (n, pre) \<longrightarrow> x = Inr [] \<and> pre = buf)"
      using r by (cases r; cases x) (auto simp: peek_sni_loop.simps [of buf] not_less)
    then obtain res where "peek_sni_loop buf (x # rs) = (Some res, x # rs) \<and> (\<forall>n pre. res = Ok (n, pre) \<longrightarrow> pre = buf)
        \<or> peek_sni_loop buf (x # rs) = (Some res, rs) \<and> (\<forall>n pre. res = Ok (n, pre) \<longrightarrow> x = Inr [] \<and> pre = buf)" by blast
    then show ?thesis
    proof (elim disjE conjE)
      assume "peek_sni_loop buf (x # rs) = (Some res, x # rs)" "\<forall>n pre. res = Ok (n, pre) \<longrightarrow> pre = buf"
      then show ?thesis by (intro exI [of _ res] exI [of _ "[]"] exI [of _ "x # rs"]) simp
    next
      assume "peek_sni_loop buf (x # rs) = (Some res, rs)" "\<forall>n pre. res = Ok (n, pre) \<longrightarrow> x = Inr [] \<and> pre = buf"
      then show ?thesis by (intro exI [of _ res] exI [of _ "[x]"] exI [of _ rs]) (auto simp: client_bytes_def)
    qed
  qed
qed

lemma px_read_replays:
  "px_read n px = (Ok bs, px') \<Longrightarrow>
     bs @ px_prefix px' @ client_bytes (px_inner px') = px_prefix px @ client_bytes (px_inner px)"
  by (auto simp: px_read_def client_bytes_def split: list.splits sum.splits if_splits)

section \<open>Properties\<close>

text \<open>The ClientHello parser is total and loses nothing: whatever a client sends, in whatever pieces,
  no index of the parser is out of bounds, the peek loop ends after finitely many reads, and the
  prefix it returns is exactly the bytes it has consumed, so that replaying the prefix in front of the
  rest gives the original stream.\<close>

theorem peek_sni_robust:
  "\<exists>res used rest. peek_sni rs = (Some res, rest) \<and> rs = used @ rest
     \<and> (\<forall>n pre. res = Ok (n, pre) \<longrightarrow> pre = client_bytes used)"
  using peek_sni_loop_robust [of "[]" rs] by (simp add: peek_sni_def)

theorem peek_sni_robust_witness:
  "\<exists>res used rest. peek_sni [Inr [0x16, 3], Inl OtherIo] = (Some res, rest) \<and> [Inr [0x16, 3], Inl OtherIo] = used @ rest
     \<and> (\<forall>n pre. res = Ok (n, pre) \<longrightarrow> pre = client_bytes used)"
  by (rule peek_sni_robust)

text \<open>C25. Server names are found: when the client's bytes begin with a well-formed ClientHello record that
  fits the peek limit, then however they are cut into reads, the loop reports the host name of its
  \<open>server_name\<close> extension, and no name if it has none; prefix and remaining reads together are still
  all the client's bytes.\<close>

theorem peek_sni_finds_name:
  assumes "hello_ok ch" "length (hello_record ch) \<le> MAX_PEEK_BYTES"
    and "chunked rs" "client_bytes rs = hello_record ch @ tail"
    and "map_of (ch_extensions ch) 0 = map_option sni_body host"
  shows "\<exists>pre rest. peek_sni rs = (Some (Ok (map_option from_utf8_lossy host, pre)), rest)
     \<and> pre @ client_bytes rest = hello_record ch @ tail"
proof -
  obtain r where r: "extract_sni (hello_record ch) = Some r" "r \<noteq> NeedMore" "sni_name r = map_option from_utf8_lossy host"
    using extract_hello_record [OF assms(1)] assms(5) by (cases host) (auto simp: sni_name_def)
  have total: "extract_sni (client_bytes rs) = Some r"
    using extract_sni_append [OF r(1,2)] assms(4) by simp
  have "min k (length (client_bytes rs)) < MAX_PEEK_BYTES" if need: "extract_sni (take k (client_bytes rs)) = Some NeedMore" for k
  proof (rule ccontr)
    assume "\<not> min k (length (client_bytes rs)) < MAX_PEEK_BYTES"
    then have "take k (client_bytes rs) = hello_record ch @ take (k - length (hello_record ch)) tail"
      using assms(2,4) by simp
    with extract_sni_append [OF r(1,2)] need r(2) show False by simp
  qed
  with peek_sni_loop_chunked [of rs "[]" r] assms(3,4) total r show ?thesis by (simp add: peek_sni_def)
qed

definition sample_hello :: ClientHello where
  "sample_hello = \<lparr>ch_record_version = [3, 1], ch_version_random = replicate 34 7, ch_session_id = [],
     ch_cipher_suites = [0x13, 1], ch_compression = [0], ch_extensions = [(43, [2, 3, 4]), (0, sni_body [97, 98])]\<rparr>"

lemma sample_hello_ok: "hello_ok sample_hello" "length (hello_record sample_hello) = 70"
  by (simp_all add: hello_ok_def sample_hello_def hello_record_def hello_body_def ext_bytes_def sni_body_def)

lemma from_utf8_lossy_ab: "from_utf8_lossy [97, 98] = ''ab''"
  by (simp add: from_utf8_lossy_def utf8_first_def chr_def char_of_def bit_simps)

theorem peek_sni_finds_name_witness:
  "\<exists>pre rest. peek_sni [Inr (take 9 (hello_record sample_hello)), Inr (drop 9 (hello_record sample_hello) @ [1, 2])]
     = (Some (Ok (Some ''ab'', pre)), rest) \<and> pre @ client_bytes rest = hello_record sample_hello @ [1, 2]"
proof -
  let ?rs = "[Inr (take 9 (hello_record sample_hello)), Inr (drop 9 (hello_record sample_hello) @ [1, 2])]"
  have "chunked ?rs" using sample_hello_ok(2) by auto
  moreover have "client_bytes ?rs = hello_record sample_hello @ [1, 2]"
    using append_take_drop_id [of 9 "hello_record sample_hello"] by (simp flip: append_assoc)
  ultimately show ?thesis
    using peek_sni_finds_name [of sample_hello ?rs "[1, 2]" "Some [97, 98]"] sample_hello_ok from_utf8_lossy_ab
    by (simp add: MAX_PEEK_BYTES_def) (simp add: sample_hello_def)
qed

end
