(* ===== verification/Control.thy ===== *)
theory Control
  imports NodeAuth
begin

text \<open>
  The server side of a control connection: the control loop \<open>serve_control_stream\<close> and the connection
  lifecycle \<open>handle_connection\<close> of \<open>server/src/quic.rs\<close>, with the connection registry
  (\<open>server/src/conn_registry.rs\<close>).

  One iteration of the \<open>select!\<close> loop is one call of \<open>control_step\<close> on the branch that became ready.
  The lifecycle of many connections is a transition system over the shared state (database, node
  sessions, events, connection handles, push channels).
\<close>

section \<open>The control loop\<close>

datatype ctl_event =
    FrameRead "(ReadError, Frame option) result"
  | PushRecv "Message option"
  | HeartbeatTimeout
  | ConnClosed

record ctl_state =
  c_sv :: server_state
  c_send :: wstream
  c_deadline :: int

record ctl_clock =
  clk_instant :: int
  clk_unix :: int

definition on_ping :: "externals \<Rightarrow> ctl_clock \<Rightarrow> Uuid \<Rightarrow> u64 \<Rightarrow> PingPayload \<Rightarrow> ctl_state \<Rightarrow> bool \<times> ctl_state" where
  "on_ping X clk nid rid p c =
     (let sm1 = sm_modify nid (record_ping (clk_unix clk)) (sv_sessions (c_sv c)) in
      case send_message (x_json X) (MPong \<lparr>ping_ts = ping_ts p\<rparr>) rid (c_send c) of
        (Inl _, w) \<Rightarrow> (False, c\<lparr>c_sv := (c_sv c)\<lparr>sv_sessions := sm1\<rparr>, c_send := w\<rparr>)
      | (Inr _, w) \<Rightarrow>
          (True, c\<lparr>c_sv := (c_sv c)\<lparr>sv_sessions := sm_modify nid (record_pong (clk_unix clk)) sm1\<rparr>,
                   c_send := w\<rparr>))"

definition on_config_ack :: "externals \<Rightarrow> ctl_clock \<Rightarrow> Uuid \<Rightarrow> ConfigAckPayload \<Rightarrow> ctl_state \<Rightarrow> bool \<times> ctl_state" where
  "on_config_ack X clk nid ack c =
     (let sv = c_sv c;
          ts = x_show_time X (clk_unix clk);
          db = (if ack_applied ack
                then set_node_applied_config (x_show_uuid X nid) (sint (ack_config_version ack)) ts (sv_db sv)
                else set_node_config_failed (x_show_uuid X nid) ts (sv_db sv))
      in (True, c\<lparr>c_sv := sv\<lparr>sv_sessions := sm_modify nid (record_config_ack (ack_config_version ack)) (sv_sessions sv),
                             sv_db := db\<rparr>\<rparr>))"

definition on_config_resync :: "externals \<Rightarrow> Uuid \<Rightarrow> ctl_state \<Rightarrow> bool \<times> ctl_state" where
  "on_config_resync X nid c =
     (case get_config_version (x_show_uuid X nid) (sv_db (c_sv c)) of
        Inl _ \<Rightarrow> (False, c)
      | Inr v \<Rightarrow>
          (case send_snapshot X (sv_db (c_sv c)) nid (max0_u64 v) (c_send c) of
             (Inl _, w) \<Rightarrow> (False, c\<lparr>c_send := w\<rparr>)
           | (Inr _, w) \<Rightarrow> (True, c\<lparr>c_send := w\<rparr>)))"

definition on_frame :: "externals \<Rightarrow> ctl_clock \<Rightarrow> Uuid \<Rightarrow> Frame \<Rightarrow> ctl_state \<Rightarrow> bool \<times> ctl_state" where
  "on_frame X clk nid f c =
     (case from_frame (x_json X) f of
        Inr (MPing p) \<Rightarrow> on_ping X clk nid (request_id f) p c
      | Inr (MConfigAck ack) \<Rightarrow> on_config_ack X clk nid ack c
      | Inr (MConfigResync r) \<Rightarrow> on_config_resync X nid c
      | Inr _ \<Rightarrow> (True, c)
      | Inl _ \<Rightarrow> (True, c))"

definition control_step :: "externals \<Rightarrow> int \<Rightarrow> ctl_clock \<Rightarrow> Uuid \<Rightarrow> ctl_event \<Rightarrow> ctl_state
    \<Rightarrow> bool \<times> ctl_state" where
  "control_step X heartbeat_timeout clk nid ev c =
     (case ev of
        FrameRead (Inr (Some f)) \<Rightarrow>
          (case on_frame X clk nid f c of
             (True, c1) \<Rightarrow> (True, c1\<lparr>c_deadline := clk_instant clk + heartbeat_timeout\<rparr>)
           | (False, c1) \<Rightarrow> (False, c1))
      | FrameRead (Inr None) \<Rightarrow> (False, c)
      | FrameRead (Inl _) \<Rightarrow> (False, c)
      | PushRecv (Some m) \<Rightarrow>
          (case send_message (x_json X) m 0 (c_send c) of
             (Inl _, w) \<Rightarrow> (False, c\<lparr>c_send := w\<rparr>)
           | (Inr _, w) \<Rightarrow> (True, c\<lparr>c_send := w\<rparr>))
      | PushRecv None \<Rightarrow> (False, c)
      | HeartbeatTimeout \<Rightarrow> (clk_instant clk < c_deadline c, c)
      | ConnClosed \<Rightarrow> (False, c))"

text \<open>The loop over the branches in the order in which they become ready.  The branch
  \<open>sleep_until(deadline)\<close> is not ready before the deadline: offered too early it is passed over.\<close>

fun serve_control_stream :: "externals \<Rightarrow> int \<Rightarrow> Uuid \<Rightarrow> (ctl_clock \<times> ctl_event) list \<Rightarrow> ctl_state
    \<Rightarrow> bool \<times> ctl_state" where
  "serve_control_stream X hb nid [] c = (True, c)"
| "serve_control_stream X hb nid ((clk, ev) # evs) c =
     (case control_step X hb clk nid ev c of
        (True, c1) \<Rightarrow> serve_control_stream X hb nid evs c1
      | (False, c1) \<Rightarrow> (False, c1))"

section \<open>The lifecycle of connections\<close>

type_synonym ConnRegistry = "(Uuid \<times> nat) list"

definition cr_register :: "Uuid \<Rightarrow> nat \<Rightarrow> ConnRegistry \<Rightarrow> ConnRegistry" where
  "cr_register nid conn r = AList.update nid conn r"

definition cr_unregister :: "Uuid \<Rightarrow> ConnRegistry \<Rightarrow> ConnRegistry" where
  "cr_unregister nid r = AList.delete nid r"

definition cr_get :: "Uuid \<Rightarrow> ConnRegistry \<Rightarrow> nat option" where
  "cr_get nid r = map_of r nid"

text \<open>The shared state and the running control loops: \<open>h_live c = Some (n, ch)\<close> when connection
  \<open>c\<close> serves node \<open>n\<close> and listens on push channel \<open>ch\<close>.\<close>

record hub =
  h_sv :: server_state
  h_conns :: ConnRegistry
  h_sync :: ConfigSync
  h_live :: "nat \<Rightarrow> (Uuid \<times> nat) option"

definition hub_init :: "Db \<Rightarrow> hub" where
  "hub_init db = \<lparr>h_sv = \<lparr>sv_db = db, sv_sessions = [], sv_events = []\<rparr>, h_conns = [], h_sync = cs_new,
     h_live = (\<lambda>_. None)\<rparr>"

text \<open>What \<open>handle_connection\<close> does after a successful handshake, and when its control loop has ended.\<close>

definition go_live :: "nat \<Rightarrow> Uuid \<Rightarrow> hub \<Rightarrow> hub" where
  "go_live conn nid h =
     (let (ch, cs) = cs_register nid (h_sync h) in
      h\<lparr>h_conns := cr_register nid conn (h_conns h), h_sync := cs, h_live := (h_live h)(conn \<mapsto> (nid, ch))\<rparr>)"

definition accept_node :: "externals \<Rightarrow> int \<Rightarrow> string \<Rightarrow> string \<Rightarrow> nat \<Rightarrow> Uuid \<Rightarrow> hub \<Rightarrow> hub" where
  "accept_node X now remote version conn nid h =
     go_live conn nid (h\<lparr>h_sv := go_online X now remote version nid (h_sv h)\<rparr>)"

definition cleanup :: "externals \<Rightarrow> int \<Rightarrow> nat \<Rightarrow> Uuid \<Rightarrow> hub \<Rightarrow> hub" where
  "cleanup X now conn nid h =
     (let sv = h_sv h in
      h\<lparr>h_sync := cs_unregister nid (h_sync h), h_conns := cr_unregister nid (h_conns h),
        h_sv := \<lparr>sv_db = set_node_offline (x_show_uuid X nid) (x_show_time X now) (sv_db sv),
                 sv_sessions = snd (sm_unregister nid (sv_sessions sv)),
                 sv_events = sv_events sv @ [NodeOffline (x_show_uuid X nid)]\<rparr>,
        h_live := (h_live h)(conn := None)\<rparr>)"

text \<open>\<open>push_closed\<close>: the sender of the loop's channel was dropped because the node's entry was
  replaced or removed, so \<open>push_rx.recv()\<close> yields \<open>None\<close> and the loop ends.\<close>

definition push_closed :: "nat \<Rightarrow> hub \<Rightarrow> bool" where
  "push_closed conn h =
     (case h_live h conn of
        Some (nid, ch) \<Rightarrow> map_of (cs_push (h_sync h)) nid \<noteq> Some ch
      | None \<Rightarrow> False)"

inductive hub_step :: "externals \<Rightarrow> hub \<Rightarrow> hub \<Rightarrow> bool" for X where
  connect: "h_live h conn = None \<Longrightarrow> hub_step X h (accept_node X now remote version conn nid h)"
| leave: "h_live h conn = Some (nid, ch) \<Longrightarrow> hub_step X h (cleanup X now conn nid h)"
| displaced: "h_live h conn = Some (nid, ch) \<Longrightarrow> push_closed conn h \<Longrightarrow> hub_step X h (cleanup X now conn nid h)"

text \<open>Runs in which a node reconnects only after its previous connection has been cleaned up.\<close>

inductive orderly :: "externals \<Rightarrow> Db \<Rightarrow> hub \<Rightarrow> bool" for X db where
  orderly_init: "orderly X db (hub_init db)"
| orderly_connect: "orderly X db h \<Longrightarrow> h_live h conn = None \<Longrightarrow> (\<forall>c ch. h_live h c \<noteq> Some (nid, ch)) \<Longrightarrow>
     orderly X db (accept_node X now remote version conn nid h)"
| orderly_leave: "orderly X db h \<Longrightarrow> h_live h conn = Some (nid, ch) \<Longrightarrow> orderly X db (cleanup X now conn nid h)"

definition serves :: "hub \<Rightarrow> nat \<Rightarrow> Uuid \<Rightarrow> bool" where
  "serves h c n \<longleftrightarrow> (\<exists>ch. h_live h c = Some (n, ch))"

definition hub_exact :: "hub \<Rightarrow> bool" where
  "hub_exact h \<longleftrightarrow>
     (\<forall>n c. cr_get n (h_conns h) = Some c \<longleftrightarrow> serves h c n)
     \<and> (\<forall>n. sm_get n (sv_sessions (h_sv h)) \<noteq> None \<longleftrightarrow> (\<exists>c. serves h c n))
     \<and> (\<forall>n ch. map_of (cs_push (h_sync h)) n = Some ch \<longleftrightarrow> (\<exists>c. h_live h c = Some (n, ch)))"

text \<open>The node status stored in the database agrees with the live connections.\<close>

definition online_iff :: "(string \<Rightarrow> bool) \<Rightarrow> Db \<Rightarrow> bool" where
  "online_iff P db \<longleftrightarrow> (\<forall>row\<in>set (t_nodes db). node_status row = ''online'' \<longleftrightarrow> P (node_id row))"

definition connected :: "externals \<Rightarrow> hub \<Rightarrow> string \<Rightarrow> bool" where
  "connected X h i \<longleftrightarrow> (\<exists>c n. serves h c n \<and> x_show_uuid X n = i)"

lemma online_iff_online: "online_iff P db \<Longrightarrow> online_iff (\<lambda>i. i = k \<or> P i) (set_node_online k addr version ts db)"
  by (auto simp: online_iff_def set_node_online_def update_where_def)

lemma online_iff_offline: "online_iff P db \<Longrightarrow> online_iff (\<lambda>i. i \<noteq> k \<and> P i) (set_node_offline k ts db)"
  by (auto simp: online_iff_def set_node_offline_def update_where_def)

lemma hub_exact_unique:
  "hub_exact h \<Longrightarrow> serves h c n \<Longrightarrow> serves h c' n \<Longrightarrow> c = c'"
  unfolding hub_exact_def by (metis option.inject)

lemma live_accept:
  assumes "h_live h conn = None" "\<forall>c ch. h_live h c \<noteq> Some (nid, ch)"
  shows "h_live (accept_node X now remote version conn nid h) c = Some (n, ch)
      \<longleftrightarrow> (c = conn \<and> n = nid \<and> ch = cs_next (h_sync h)) \<or> (n \<noteq> nid \<and> h_live h c = Some (n, ch))"
  using assms by (auto simp: accept_node_def go_live_def cs_register_def Let_def)

lemma live_cleanup:
  assumes "hub_exact h" "h_live h conn = Some (nid, ch)"
  shows "h_live (cleanup X now conn nid h) c = Some (n, ch') \<longleftrightarrow> n \<noteq> nid \<and> h_live h c = Some (n, ch')"
proof (cases "c = conn")
  case False
  then show ?thesis
    using hub_exact_unique [OF assms(1), of c nid conn] assms(2) by (auto simp: cleanup_def Let_def serves_def)
qed (simp add: cleanup_def Let_def assms(2))

lemma hub_exact_connect:
  assumes "hub_exact h" "h_live h conn = None" "\<forall>c ch. h_live h c \<noteq> Some (nid, ch)"
  shows "hub_exact (accept_node X now remote version conn nid h)"
proof -
  let ?h = "accept_node X now remote version conn nid h"
  have tables: "cr_get n (h_conns ?h) = (if n = nid then Some conn else cr_get n (h_conns h))"
    "sm_get n (sv_sessions (h_sv ?h)) = (if n = nid then Some (new_session nid remote now) else sm_get n (sv_sessions (h_sv h)))"
    "map_of (cs_push (h_sync ?h)) n = (if n = nid then Some (cs_next (h_sync h)) else map_of (cs_push (h_sync h)) n)" for n
    by (simp_all add: accept_node_def go_live_def go_online_def cr_get_def cr_register_def sm_get_def sm_register_def
        new_session_def cs_register_def Let_def)
  show ?thesis
    using assms(1) unfolding hub_exact_def serves_def live_accept [OF assms(2,3)] tables by auto
qed

lemma hub_exact_leave:
  assumes "hub_exact h" "h_live h conn = Some (nid, ch)"
  shows "hub_exact (cleanup X now conn nid h)"
proof -
  let ?h = "cleanup X now conn nid h"
  have tables: "cr_get n (h_conns ?h) = (if n = nid then None else cr_get n (h_conns h))"
    "sm_get n (sv_sessions (h_sv ?h)) = (if n = nid then None else sm_get n (sv_sessions (h_sv h)))"
    "map_of (cs_push (h_sync ?h)) n = (if n = nid then None else map_of (cs_push (h_sync h)) n)" for n
    by (simp_all add: cleanup_def cr_get_def cr_unregister_def sm_get_def sm_unregister_def cs_unregister_def Let_def)
  show ?thesis
    using assms(1) unfolding hub_exact_def serves_def live_cleanup [OF assms] tables by auto
qed

lemma orderly_exact: "orderly X db h \<Longrightarrow> hub_exact h"
proof (induction rule: orderly.induct)
  case orderly_init
  then show ?case by (simp add: hub_exact_def hub_init_def cr_get_def sm_get_def cs_new_def serves_def)
qed (simp_all add: hub_exact_connect hub_exact_leave)

lemma connected_accept:
  assumes "h_live h conn = None" "\<forall>c ch. h_live h c \<noteq> Some (nid, ch)"
  shows "connected X (accept_node X now remote version conn nid h) = (\<lambda>i. i = x_show_uuid X nid \<or> connected X h i)"
  using assms(2) unfolding connected_def serves_def live_accept [OF assms] fun_eq_iff by blast

lemma connected_cleanup:
  assumes "hub_exact h" "h_live h conn = Some (nid, ch)" "inj (x_show_uuid X)"
  shows "connected X (cleanup X now conn nid h) = (\<lambda>i. i \<noteq> x_show_uuid X nid \<and> connected X h i)"
  unfolding connected_def serves_def live_cleanup [OF assms(1,2)] fun_eq_iff by (metis injD [OF assms(3)])

lemma hub_db [simp]:
  "sv_db (h_sv (accept_node X now remote version conn nid h))
     = set_node_online (x_show_uuid X nid) remote version (x_show_time X now) (sv_db (h_sv h))"
  "sv_db (h_sv (cleanup X now conn nid h)) = set_node_offline (x_show_uuid X nid) (x_show_time X now) (sv_db (h_sv h))"
  by (simp_all add: accept_node_def go_live_def go_online_def cleanup_def Let_def split: prod.splits)

lemma orderly_presence:
  assumes "orderly X db h" "inj (x_show_uuid X)" "\<forall>row\<in>set (t_nodes db). node_status row \<noteq> ''online''"
  shows "online_iff (connected X h) (sv_db (h_sv h))"
  using assms(1)
proof (induction rule: orderly.induct)
  case orderly_init
  then show ?case using assms(3) by (simp add: online_iff_def hub_init_def connected_def serves_def)
next
  case (orderly_connect h conn nid now remote version)
  then show ?case by (simp add: connected_accept online_iff_online)
next
  case (orderly_leave h conn nid ch now)
  then show ?case by (simp add: connected_cleanup [OF orderly_exact _ assms(2)] online_iff_offline)
qed

section \<open>Facts on the control loop\<close>

lemma control_step_deadline:
  "control_step X hb clk nid ev c = (True, c') \<Longrightarrow>
     c_deadline c' = (case ev of FrameRead _ \<Rightarrow> clk_instant clk + hb | _ \<Rightarrow> c_deadline c)"
  by (auto simp: control_step_def split: ctl_event.splits sum.splits option.splits prod.splits bool.splits)

text \<open>The instant of the last frame handled in a run, or the start of the run.\<close>

fun last_frame :: "int \<Rightarrow> (ctl_clock \<times> ctl_event) list \<Rightarrow> int" where
  "last_frame t [] = t"
| "last_frame t ((clk, ev) # evs) =
     last_frame (case ev of FrameRead _ \<Rightarrow> clk_instant clk | _ \<Rightarrow> t) evs"

lemma serve_deadline:
  assumes "serve_control_stream X hb nid evs c = (True, c')" "c_deadline c = t + hb"
  shows "c_deadline c' = last_frame t evs + hb"
  using assms
proof (induction evs arbitrary: c t)
  case (Cons e evs)
  obtain clk ev c1 where e: "e = (clk, ev)" and c1: "control_step X hb clk nid ev c = (True, c1)"
    "serve_control_stream X hb nid evs c1 = (True, c')"
    using Cons.prems(1) by (cases e) (auto split: prod.splits bool.splits)
  have "c_deadline c1 = (case ev of FrameRead _ \<Rightarrow> clk_instant clk | _ \<Rightarrow> t) + hb"
    using control_step_deadline [OF c1(1)] Cons.prems(2) by (cases ev) simp_all
  from Cons.IH [OF c1(2) this] show ?case by (simp add: e)
qed simp

lemma sm_get_modify [simp]:
  "sm_get n (sm_modify m f sm) = (if n = m then map_option f (sm_get m sm) else sm_get n sm)"
  by (auto simp: sm_get_def sm_modify_def split: option.splits)

section \<open>Properties\<close>

text \<open>C15. The server's picture of the nodes is exact as long as a node reconnects only after its previous
  connection has been cleaned up: in every such run the connection registry, the session manager and
  the push channels name exactly the node's one live connection, and the database has exactly the
  connected nodes as online (if it had none at the start).\<close>

theorem registries_exact:
  assumes "orderly X db h" "inj (x_show_uuid X)" "\<forall>row\<in>set (t_nodes db). node_status row \<noteq> ''online''"
  shows "(\<forall>n c. cr_get n (h_conns h) = Some c \<longleftrightarrow> serves h c n)
     \<and> (\<forall>n. sm_get n (sv_sessions (h_sv h)) \<noteq> None \<longleftrightarrow> (\<exists>c. serves h c n))
     \<and> (\<forall>n ch. map_of (cs_push (h_sync h)) n = Some ch \<longleftrightarrow> (\<exists>c. h_live h c = Some (n, ch)))
     \<and> (\<forall>row\<in>set (t_nodes (sv_db (h_sv h))).
          node_status row = ''online'' \<longleftrightarrow> (\<exists>c n. serves h c n \<and> x_show_uuid X n = node_id row))"
  using orderly_exact [OF assms(1)] orderly_presence [OF assms]
  unfolding hub_exact_def online_iff_def connected_def by blast

definition numbered_ext :: externals where
  "numbered_ext = (sample_ext sample_ok sample_snap)\<lparr>x_show_uuid := \<lambda>n. replicate (unat n) CHR ''n''\<rparr>"

lemma inj_numbered: "inj (x_show_uuid numbered_ext)"
  by (rule injI) (simp add: numbered_ext_def replicate_eq_replicate word_unat_eq_iff)

theorem registries_exact_witness:
  "cr_get 7 (h_conns (accept_node numbered_ext 0 ''peer'' ''1'' 1 7 (hub_init sample_db))) = Some 1"
proof -
  let ?h = "accept_node numbered_ext 0 ''peer'' ''1'' 1 7 (hub_init sample_db)"
  have "orderly numbered_ext sample_db ?h"
    by (rule orderly_connect [OF orderly_init]) (simp_all add: hub_init_def)
  from registries_exact [OF this inj_numbered] show ?thesis
    by (simp add: sample_db_eval accept_node_def go_live_def cs_register_def hub_init_def serves_def Let_def)
qed

text \<open>A reconnecting node loses its registration: when a node opens a second connection while the
  first one is still served, the registration of the push channel closes the first loop's channel, and
  its cleanup, which removes entries by node identifier, deletes the entries of the second connection;
  the second connection is live but the data plane and the configuration push no longer find it.\<close>

theorem reconnect_loses_registration:
  "\<exists>h. (hub_step X)\<^sup>*\<^sup>* (hub_init db) h \<and> serves h 2 7
     \<and> cr_get 7 (h_conns h) = None \<and> sm_get 7 (sv_sessions (h_sv h)) = None
     \<and> map_of (cs_push (h_sync h)) 7 = None"
proof -
  let ?h1 = "accept_node X 0 ''peer'' ''1'' 1 7 (hub_init db)"
  let ?h2 = "accept_node X 0 ''peer'' ''1'' 2 7 ?h1"
  note defs = hub_init_def accept_node_def go_online_def go_live_def cs_register_def cs_new_def Let_def
  have "hub_step X (hub_init db) ?h1" by (rule connect) (simp add: hub_init_def)
  moreover have "hub_step X ?h1 ?h2" by (rule connect) (simp add: defs)
  moreover have "hub_step X ?h2 (cleanup X 0 1 7 ?h2)"
    by (rule displaced [of _ _ _ 0]) (simp_all add: push_closed_def defs)
  ultimately have "(hub_step X)\<^sup>*\<^sup>* (hub_init db) (cleanup X 0 1 7 ?h2)" by simp
  then show ?thesis
    by (intro exI [of _ "cleanup X 0 1 7 ?h2"])
      (simp add: cleanup_def cr_get_def cr_unregister_def sm_get_def sm_unregister_def cs_unregister_def serves_def defs)
qed

text \<open>Heartbeat: while the control loop runs, its deadline is always the instant of the last frame
  received plus the heartbeat timeout, so the timeout ends the loop exactly when that much time has
  passed without a frame; pushed configuration messages do not prolong it.\<close>

theorem heartbeat_deadline:
  assumes "serve_control_stream X hb nid evs c = (True, c')" "c_deadline c = start + hb"
  shows "c_deadline c' = last_frame start evs + hb
     \<and> fst (control_step X hb clk nid HeartbeatTimeout c') = (clk_instant clk < last_frame start evs + hb)"
  using serve_deadline [OF assms] by (simp add: control_step_def)

theorem heartbeat_deadline_witness:
  "c_deadline (snd (serve_control_stream (sample_ext sample_ok sample_snap) 30 1
      [(\<lparr>clk_instant = 5, clk_unix = 0\<rparr>, FrameRead (Ok (Some (new_frame Close [])))),
       (\<lparr>clk_instant = 9, clk_unix = 0\<rparr>, FrameRead (Ok (Some (new_frame Stats []))))]
      \<lparr>c_sv = \<lparr>sv_db = sample_db, sv_sessions = [], sv_events = []\<rparr>,
       c_send = \<lparr>written = [], room = None\<rparr>, c_deadline = 0 + 30\<rparr>)) = 9 + 30"
proof -
  let ?c = "\<lparr>c_sv = \<lparr>sv_db = sample_db, sv_sessions = [], sv_events = []\<rparr>,
       c_send = \<lparr>written = [], room = None\<rparr>, c_deadline = 0 + 30\<rparr>"
  let ?evs = "[(\<lparr>clk_instant = 5, clk_unix = 0\<rparr>, FrameRead (Ok (Some (new_frame Close [])))),
       (\<lparr>clk_instant = 9, clk_unix = 0\<rparr>, FrameRead (Ok (Some (new_frame Stats []))))]"
  have "fst (serve_control_stream (sample_ext sample_ok sample_snap) 30 1 ?evs ?c)"
    by (simp add: control_step_def on_frame_def from_frame_def new_frame_def sample_ext_def ping_only_json_def
        void_codec_def)
  then obtain c' where run: "serve_control_stream (sample_ext sample_ok sample_snap) 30 1 ?evs ?c = (True, c')"
    by (metis prod.collapse)
  from heartbeat_deadline [OF run, of 0] show ?thesis unfolding run by simp
qed

end
