(* ===== verification/Limiters.thy ===== *)
theory Limiters
  imports Prelude
begin

text \<open>
  Rate limiters of the server: the login limiter (\<open>server/src/login_limiter.rs\<close>) and the per-route
  connection limiter (\<open>server/src/conn_limiter.rs\<close>).

  The login limiter prunes its failure lists lazily; it is shown to answer as if the complete
  failure log were kept.  The connection limiter increments first and rolls back on refusal; the two
  atomic operations of \<open>try_acquire\<close> are separate steps of a transition system in which any number of
  connections interleave.
\<close>

section \<open>The login limiter\<close>

definition saturating_sub :: "u64 \<Rightarrow> u64 \<Rightarrow> u64" where
  "saturating_sub a b = (if b \<le> a then a - b else 0)"

record LoginLimiter =
  max_attempts :: nat
  window_secs :: u64
  failures :: "string \<Rightarrow> u64 list option"

definition DEFAULT_MAX_ATTEMPTS :: u32 where "DEFAULT_MAX_ATTEMPTS = 5"
definition DEFAULT_WINDOW_SECS :: u64 where "DEFAULT_WINDOW_SECS = 300"

definition ll_new :: "u32 \<Rightarrow> u64 \<Rightarrow> LoginLimiter" where
  "ll_new attempts window =
     \<lparr>max_attempts = unat attempts, window_secs = window, failures = (\<lambda>_. None)\<rparr>"

definition ll_default :: LoginLimiter where
  "ll_default = ll_new DEFAULT_MAX_ATTEMPTS DEFAULT_WINDOW_SECS"

definition entry_or_default :: "('k \<Rightarrow> 'v list option) \<Rightarrow> 'k \<Rightarrow> 'v list" where
  "entry_or_default m k = (case m k of Some v \<Rightarrow> v | None \<Rightarrow> [])"

definition retain_recent :: "u64 \<Rightarrow> u64 \<Rightarrow> u64 list \<Rightarrow> u64 list" where
  "retain_recent window now ts = filter (\<lambda>t. saturating_sub now t < window) ts"

definition ll_allows :: "u64 \<Rightarrow> string \<Rightarrow> LoginLimiter \<Rightarrow> bool \<times> LoginLimiter" where
  "ll_allows now username l =
     (let entry = retain_recent (window_secs l) now (entry_or_default (failures l) username) in
      (length entry < max_attempts l, l\<lparr>failures := (failures l)(username \<mapsto> entry)\<rparr>))"

definition record_failure :: "u64 \<Rightarrow> string \<Rightarrow> LoginLimiter \<Rightarrow> LoginLimiter" where
  "record_failure now username l =
     (let entry = retain_recent (window_secs l) now (entry_or_default (failures l) username) in
      l\<lparr>failures := (failures l)(username \<mapsto> entry @ [now])\<rparr>)"

definition ll_reset :: "string \<Rightarrow> LoginLimiter \<Rightarrow> LoginLimiter" where
  "ll_reset username l = l\<lparr>failures := (failures l)(username := None)\<rparr>"

text \<open>The specification keeps the complete log of failures since the last reset.\<close>

datatype login_op = AskAllowed string | Failure string | Success string

fun ll_step :: "u64 \<times> login_op \<Rightarrow> LoginLimiter \<Rightarrow> LoginLimiter" where
  "ll_step (now, AskAllowed u) l = snd (ll_allows now u l)"
| "ll_step (now, Failure u) l = record_failure now u l"
| "ll_step (now, Success u) l = ll_reset u l"

fun log_step :: "u64 \<times> login_op \<Rightarrow> (string \<Rightarrow> u64 list) \<Rightarrow> string \<Rightarrow> u64 list" where
  "log_step (now, AskAllowed u) f = f"
| "log_step (now, Failure u) f = f(u := f u @ [now])"
| "log_step (now, Success u) f = f(u := [])"

definition ll_run :: "(u64 \<times> login_op) list \<Rightarrow> LoginLimiter \<Rightarrow> LoginLimiter" where
  "ll_run ops l = foldl (\<lambda>l op. ll_step op l) l ops"

definition log_run :: "(u64 \<times> login_op) list \<Rightarrow> string \<Rightarrow> u64 list" where
  "log_run ops = foldl (\<lambda>f op. log_step op f) (\<lambda>_. []) ops"

definition recent :: "u64 \<Rightarrow> u64 \<Rightarrow> u64 list \<Rightarrow> u64 list" where
  "recent window now ts = filter (\<lambda>t. unat now - unat t < unat window) ts"

lemma unat_saturating_sub [simp]: "unat (saturating_sub a b) = unat a - unat b"
  by (auto simp: saturating_sub_def unat_sub not_le word_less_nat_alt)

lemma retain_recent_eq [simp]: "retain_recent window now ts = recent window now ts"
  by (simp add: retain_recent_def recent_def word_less_nat_alt)

text \<open>Pruning at an earlier time does not change what is recent later.\<close>

lemma recent_recent:
  assumes "t1 \<le> t2"
  shows "recent w t2 (recent w t1 ts) = recent w t2 ts"
proof -
  have "unat t1 \<le> unat t2" using assms by (simp add: word_le_nat_alt)
  then show ?thesis by (auto simp: recent_def intro!: filter_cong)
qed

lemma recent_append: "recent w t (xs @ ys) = recent w t xs @ recent w t ys"
  by (simp add: recent_def)

lemma entry_or_default_simps [simp]:
  "entry_or_default (m(k \<mapsto> v)) j = (if j = k then v else entry_or_default m j)"
  "entry_or_default (m(k := None)) j = (if j = k then [] else entry_or_default m j)"
  by (simp_all add: entry_or_default_def)

lemma ll_step_config [simp]:
  "window_secs (ll_step op l) = window_secs l" "max_attempts (ll_step op l) = max_attempts l"
  by (cases "(op, l)" rule: ll_step.cases; simp add: ll_allows_def record_failure_def ll_reset_def Let_def)+

lemma ll_run_config [simp]:
  "window_secs (ll_run ops l) = window_secs l" "max_attempts (ll_run ops l) = max_attempts l"
  by (induction ops rule: rev_induct) (simp_all add: ll_run_def)

definition represents :: "u64 \<Rightarrow> LoginLimiter \<Rightarrow> (string \<Rightarrow> u64 list) \<Rightarrow> bool" where
  "represents now l f \<longleftrightarrow>
     (\<forall>u t. now \<le> t \<longrightarrow> recent (window_secs l) t (entry_or_default (failures l) u) = recent (window_secs l) t (f u))"

lemma represents_later: "represents t l f \<Longrightarrow> t \<le> t' \<Longrightarrow> represents t' l f"
  unfolding represents_def using order_trans by blast

lemma represents_step:
  assumes "represents t l f" "t \<le> fst op"
  shows "represents (fst op) (ll_step op l) (log_step op f)"
proof -
  have r: "represents (fst op) l f" using assms by (rule represents_later)
  then show ?thesis
    by (cases "(op, l)" rule: ll_step.cases)
      (auto simp: represents_def ll_allows_def record_failure_def ll_reset_def Let_def
        recent_recent recent_append)
qed

lemma represents_run:
  assumes "sorted (map fst ops)" "\<forall>op\<in>set ops. fst op \<le> now"
  shows "represents now (ll_run ops (ll_new a w)) (log_run ops)"
  using assms
proof (induction ops arbitrary: now rule: rev_induct)
  case Nil
  then show ?case by (simp add: represents_def ll_run_def log_run_def ll_new_def entry_or_default_def)
next
  case (snoc op ops)
  have "represents (fst op) (ll_run ops (ll_new a w)) (log_run ops)"
    using snoc by (simp add: sorted_append)
  from represents_step [OF this order_refl] show ?case
    using snoc.prems(2) represents_later by (simp add: ll_run_def log_run_def)
qed

section \<open>The connection limiter\<close>

type_synonym ConnLimiter = "Uuid \<Rightarrow> u64 option"

definition conn_active :: "Uuid \<Rightarrow> ConnLimiter \<Rightarrow> u64" where
  "conn_active rid c = (case c rid of Some n \<Rightarrow> n | None \<Rightarrow> 0)"

text \<open>The two atomic operations of \<open>try_acquire\<close> and the drop of a guard.\<close>

definition fetch_add :: "Uuid \<Rightarrow> ConnLimiter \<Rightarrow> u64 \<times> ConnLimiter" where
  "fetch_add rid c = (conn_active rid c, c(rid \<mapsto> conn_active rid c + 1))"

definition fetch_sub :: "Uuid \<Rightarrow> ConnLimiter \<Rightarrow> ConnLimiter" where
  "fetch_sub rid c = c(rid \<mapsto> conn_active rid c - 1)"

definition try_acquire :: "Uuid \<Rightarrow> u64 \<Rightarrow> ConnLimiter \<Rightarrow> bool \<times> ConnLimiter" where
  "try_acquire rid max_conns c =
     (let (prev, c1) = fetch_add rid c in
      if prev \<ge> max_conns then (False, fetch_sub rid c1) else (True, c1))"

definition guard_drop :: "Uuid \<Rightarrow> ConnLimiter \<Rightarrow> ConnLimiter" where
  "guard_drop rid c = fetch_sub rid c"

lemma fst_fetch_add [simp]: "fst (fetch_add rid c) = conn_active rid c"
  by (simp add: fetch_add_def)

lemma conn_active_simps [simp]:
  "conn_active rid (snd (fetch_add r c)) = (if rid = r then conn_active r c + 1 else conn_active rid c)"
  "conn_active rid (fetch_sub r c) = (if rid = r then conn_active r c - 1 else conn_active rid c)"
  by (simp_all add: conn_active_def fetch_add_def fetch_sub_def)

text \<open>Interleaving: connection \<open>i\<close> asks for route \<open>route i\<close>; between the increment and the
  comparison other connections may run.\<close>

datatype conn_phase = Idle | Incremented u64 | Holding

record conn_system =
  counters :: ConnLimiter
  phase :: "nat \<Rightarrow> conn_phase"

definition initial_system :: conn_system where
  "initial_system = \<lparr>counters = (\<lambda>_. None), phase = (\<lambda>_. Idle)\<rparr>"

inductive conn_step :: "nat \<Rightarrow> (nat \<Rightarrow> Uuid) \<Rightarrow> (Uuid \<Rightarrow> u64) \<Rightarrow> conn_system \<Rightarrow> conn_system \<Rightarrow> bool"
  for N :: nat and route :: "nat \<Rightarrow> Uuid" and max_conns :: "Uuid \<Rightarrow> u64" where
  increment: "i < N \<Longrightarrow> phase s i = Idle \<Longrightarrow>
     conn_step N route max_conns s
       (s\<lparr>counters := snd (fetch_add (route i) (counters s)),
          phase := (phase s)(i := Incremented (fst (fetch_add (route i) (counters s))))\<rparr>)"
| accept: "i < N \<Longrightarrow> phase s i = Incremented prev \<Longrightarrow> \<not> prev \<ge> max_conns (route i) \<Longrightarrow>
     conn_step N route max_conns s (s\<lparr>phase := (phase s)(i := Holding)\<rparr>)"
| refuse: "i < N \<Longrightarrow> phase s i = Incremented prev \<Longrightarrow> prev \<ge> max_conns (route i) \<Longrightarrow>
     conn_step N route max_conns s
       (s\<lparr>counters := fetch_sub (route i) (counters s), phase := (phase s)(i := Idle)\<rparr>)"
| close: "i < N \<Longrightarrow> phase s i = Holding \<Longrightarrow>
     conn_step N route max_conns s
       (s\<lparr>counters := guard_drop (route i) (counters s), phase := (phase s)(i := Idle)\<rparr>)"

inductive conn_reachable :: "nat \<Rightarrow> (nat \<Rightarrow> Uuid) \<Rightarrow> (Uuid \<Rightarrow> u64) \<Rightarrow> conn_system \<Rightarrow> bool"
  for N route max_conns where
  init: "conn_reachable N route max_conns initial_system"
| step: "conn_reachable N route max_conns s \<Longrightarrow> conn_step N route max_conns s t \<Longrightarrow>
     conn_reachable N route max_conns t"

definition counted :: "nat \<Rightarrow> (nat \<Rightarrow> Uuid) \<Rightarrow> conn_system \<Rightarrow> Uuid \<Rightarrow> nat set" where
  "counted N route s rid = {i. i < N \<and> route i = rid \<and> phase s i \<noteq> Idle}"

definition admitted :: "nat \<Rightarrow> (nat \<Rightarrow> Uuid) \<Rightarrow> (Uuid \<Rightarrow> u64) \<Rightarrow> conn_system \<Rightarrow> Uuid \<Rightarrow> nat set" where
  "admitted N route mx s rid =
     {i. i < N \<and> route i = rid \<and> (phase s i = Holding \<or> (\<exists>p. phase s i = Incremented p \<and> p < mx rid))}"

definition holding :: "nat \<Rightarrow> (nat \<Rightarrow> Uuid) \<Rightarrow> conn_system \<Rightarrow> Uuid \<Rightarrow> nat set" where
  "holding N route s rid = {i. i < N \<and> route i = rid \<and> phase s i = Holding}"

definition conn_inv :: "nat \<Rightarrow> (nat \<Rightarrow> Uuid) \<Rightarrow> (Uuid \<Rightarrow> u64) \<Rightarrow> conn_system \<Rightarrow> bool" where
  "conn_inv N route mx s \<longleftrightarrow>
     (\<forall>rid. unat (conn_active rid (counters s)) = card (counted N route s rid)
        \<and> card (admitted N route mx s rid) \<le> unat (mx rid))"

lemma finite_conn_sets [simp]:
  "finite (counted N route s rid)" "finite (admitted N route mx s rid)" "finite (holding N route s rid)"
  by (simp_all add: counted_def admitted_def holding_def)

lemma card_counted_le: "card (counted N route s rid) \<le> N"
  using card_mono [of "{..<N}" "counted N route s rid"] by (auto simp: counted_def)

lemma admitted_counted: "admitted N route mx s rid \<subseteq> counted N route s rid"
  by (auto simp: admitted_def counted_def)

lemma holding_admitted: "holding N route s rid \<subseteq> admitted N route mx s rid"
  by (auto simp: holding_def admitted_def)

lemma counted_upd:
  "i < N \<Longrightarrow> ph \<noteq> Idle \<Longrightarrow> counted N route (s\<lparr>counters := c, phase := (phase s)(i := ph)\<rparr>) rid =
     (if route i = rid then insert i (counted N route s rid) else counted N route s rid)"
  "counted N route (s\<lparr>counters := c, phase := (phase s)(i := Idle)\<rparr>) rid = counted N route s rid - {i}"
  by (auto simp: counted_def)

lemma unat_inc: "unat a = n \<Longrightarrow> n < 2 ^ 64 - 1 \<Longrightarrow> unat (a + 1 :: u64) = Suc n"
  by (simp add: unat_word_ariths take_bit_eq_mod)

lemma unat_dec: "unat a = n \<Longrightarrow> 0 < n \<Longrightarrow> unat (a - 1 :: u64) = n - 1"
  by (metis One_nat_def Suc_leI unat_1 unat_sub word_le_nat_alt)

lemma admitted_upd:
  "i < N \<Longrightarrow> phase s i = Idle \<Longrightarrow>
     admitted N route mx (s\<lparr>counters := c, phase := (phase s)(i := Incremented p)\<rparr>) rid =
     (if route i = rid \<and> p < mx rid then insert i (admitted N route mx s rid) else admitted N route mx s rid)"
  "phase s i = Incremented p \<Longrightarrow> p < mx (route i) \<Longrightarrow>
     admitted N route mx (s\<lparr>phase := (phase s)(i := Holding)\<rparr>) rid = admitted N route mx s rid"
  "admitted N route mx (s\<lparr>counters := c, phase := (phase s)(i := Idle)\<rparr>) rid \<subseteq> admitted N route mx s rid"
  by (auto simp: admitted_def)

lemma conn_inv_leave:
  assumes "conn_inv N route mx s" "i < N" "phase s i \<noteq> Idle"
  shows "conn_inv N route mx (s\<lparr>counters := fetch_sub (route i) (counters s), phase := (phase s)(i := Idle)\<rparr>)"
    (is "conn_inv _ _ _ ?t")
  unfolding conn_inv_def
proof (intro allI conjI)
  fix rid
  have inv: "unat (conn_active rid (counters s)) = card (counted N route s rid)"
    "card (admitted N route mx s rid) \<le> unat (mx rid)"
    using assms(1) by (simp_all add: conn_inv_def)
  show "unat (conn_active rid (counters ?t)) = card (counted N route ?t rid)"
  proof (cases "route i = rid")
    case True
    then have "i \<in> counted N route s rid" using assms by (simp add: counted_def)
    then have pos: "0 < card (counted N route s rid)" by (auto simp: card_gt_0_iff)
    have "card (counted N route ?t rid) = card (counted N route s rid) - 1"
      using \<open>i \<in> _\<close> by (simp add: counted_upd)
    then show ?thesis using True unat_dec [OF inv(1) pos] by simp
  next
    case False
    then have "counted N route s rid - {i} = counted N route s rid" by (auto simp: counted_def)
    with False inv(1) show ?thesis by (simp add: counted_upd)
  qed
  have "card (admitted N route mx ?t rid) \<le> card (admitted N route mx s rid)"
    by (intro card_mono admitted_upd) simp
  with inv(2) show "card (admitted N route mx ?t rid) \<le> unat (mx rid)" by simp
qed

lemma conn_inv_enter:
  assumes "N < 2 ^ 64" "conn_inv N route mx s" "i < N" "phase s i = Idle"
  shows "conn_inv N route mx (s\<lparr>counters := snd (fetch_add (route i) (counters s)),
      phase := (phase s)(i := Incremented (fst (fetch_add (route i) (counters s))))\<rparr>)"
    (is "conn_inv _ _ _ ?t")
  unfolding conn_inv_def
proof (intro allI conjI)
  fix rid
  let ?p = "conn_active (route i) (counters s)"
  have inv: "unat (conn_active rid (counters s)) = card (counted N route s rid)"
    "card (admitted N route mx s rid) \<le> unat (mx rid)"
    using assms(2) by (simp_all add: conn_inv_def)
  have fresh: "i \<notin> counted N route s rid" using assms(4) by (simp add: counted_def)
  have "insert i (counted N route s rid) \<subseteq> {..<N}" using assms(3) by (auto simp: counted_def)
  then have "card (insert i (counted N route s rid)) \<le> N" using card_mono [of "{..<N}"] by simp
  then have small: "card (counted N route s rid) < 2 ^ 64 - 1" using fresh assms(1) by simp
  show "unat (conn_active rid (counters ?t)) = card (counted N route ?t rid)"
    using unat_inc [OF inv(1) small] inv(1) fresh assms(3)
    by (auto simp: counted_upd)
  show "card (admitted N route mx ?t rid) \<le> unat (mx rid)"
  proof (cases "route i = rid \<and> ?p < mx rid")
    case True
    have "card (admitted N route mx s rid) \<le> card (counted N route s rid)"
      by (intro card_mono admitted_counted) simp
    also have "\<dots> < unat (mx rid)" using True inv(1) by (auto simp: word_less_nat_alt)
    finally have "card (insert i (admitted N route mx s rid)) \<le> unat (mx rid)"
      using card_insert_le_m1 by (simp add: card_insert_if)
    then show ?thesis using True assms(3,4) by (auto simp: admitted_upd(1))
  qed (use inv(2) assms(3,4) in \<open>auto simp: admitted_upd(1)\<close>)
qed

lemma conn_inv_step:
  assumes "N < 2 ^ 64" "conn_inv N route mx s" "conn_step N route mx s t"
  shows "conn_inv N route mx t"
  using assms(3)
proof cases
  case (increment i)
  then show ?thesis using conn_inv_enter [OF assms(1,2)] by simp
next
  case (accept i prev)
  then have "counted N route t rid = counted N route s rid" for rid by (auto simp: counted_def)
  moreover have "admitted N route mx t rid = admitted N route mx s rid" for rid
    using accept by (simp add: admitted_upd(2) not_le)
  ultimately show ?thesis using assms(2) accept(1) by (simp add: conn_inv_def)
next
  case (refuse i prev)
  then show ?thesis using conn_inv_leave [OF assms(2)] by simp
next
  case (close i)
  then show ?thesis using conn_inv_leave [OF assms(2)] by (simp add: guard_drop_def)
qed

lemma conn_reachable_inv:
  assumes "N < 2 ^ 64" "conn_reachable N route mx s"
  shows "conn_inv N route mx s"
  using assms(2)
proof induction
  case init
  then show ?case
    by (simp add: conn_inv_def initial_system_def counted_def admitted_def conn_active_def)
next
  case (step s t)
  then show ?case using conn_inv_step [OF assms(1)] by blast
qed

section \<open>Properties\<close>

text \<open>C30. The login limiter with its lazily pruned lists refines the full failure log: after any
  sequence of checks, failures and successes with non-decreasing clock readings, a user is allowed
  to try exactly when fewer than the configured number of failures since the last success lie
  inside the window.\<close>

theorem login_limiter_refines_log:
  assumes "sorted (map fst ops)" "\<forall>op\<in>set ops. fst op \<le> now"
  shows "fst (ll_allows now u (ll_run ops (ll_new attempts window))) \<longleftrightarrow>
     length (filter (\<lambda>t. unat now - unat t < unat window) (log_run ops u)) < unat attempts"
proof -
  have "recent window now (entry_or_default (failures (ll_run ops (ll_new attempts window))) u)
      = recent window now (log_run ops u)"
    using represents_run [OF assms, of attempts window] by (simp add: represents_def ll_new_def)
  then show ?thesis by (simp add: ll_allows_def Let_def) (simp add: recent_def ll_new_def)
qed

theorem login_limiter_refines_log_witness:
  "\<not> fst (ll_allows 250 ''bob'' (ll_run [(10, Failure ''bob''), (20, Failure ''bob'')] (ll_new 2 300)))
   \<and> fst (ll_allows 320 ''bob'' (ll_run [(10, Failure ''bob''), (20, Failure ''bob'')] (ll_new 2 300)))"
  using login_limiter_refines_log [of "[(10, Failure ''bob''), (20, Failure ''bob'')]" 250 "''bob''" 2 300]
    login_limiter_refines_log [of "[(10, Failure ''bob''), (20, Failure ''bob'')]" 320 "''bob''" 2 300]
  by (simp add: log_run_def)

text \<open>C9. The connection limiter is safe under every interleaving: when fewer than \<open>2^64\<close>
  connections compete, in every reachable state the number of connections holding a guard of a
  route never exceeds that route's limit, although increments and comparisons of different
  connections interleave freely.\<close>

theorem conn_limit_never_exceeded:
  assumes "N < 2 ^ 64" "conn_reachable N route max_conns s"
  shows "card (holding N route s rid) \<le> unat (max_conns rid)"
proof -
  have "card (holding N route s rid) \<le> card (admitted N route max_conns s rid)"
    by (intro card_mono holding_admitted) simp
  also have "\<dots> \<le> unat (max_conns rid)"
    using conn_reachable_inv [OF assms] by (simp add: conn_inv_def)
  finally show ?thesis .
qed

lemma one_connection_holds:
  "conn_reachable 1 (\<lambda>_. 7) (\<lambda>_. 1)
     \<lparr>counters = (\<lambda>_. None)(7 \<mapsto> 1), phase = (\<lambda>_. Idle)(0 := Holding)\<rparr>"
proof -
  have "conn_reachable 1 (\<lambda>_. 7) (\<lambda>_. 1)
      \<lparr>counters = (\<lambda>_. None)(7 \<mapsto> 1), phase = (\<lambda>_. Idle)(0 := Incremented 0)\<rparr>"
    using conn_reachable.step [OF conn_reachable.init conn_step.increment, of 0 1]
    by (simp add: initial_system_def fetch_add_def conn_active_def)
  from conn_reachable.step [OF this conn_step.accept [of 0]] show ?thesis by simp
qed

theorem conn_limit_never_exceeded_witness:
  "card (holding 1 (\<lambda>_. 7) \<lparr>counters = (\<lambda>_. None)(7 \<mapsto> 1), phase = (\<lambda>_. Idle)(0 := Holding)\<rparr> 7)
     \<le> unat (1 :: u64)"
  by (rule conn_limit_never_exceeded [OF _ one_connection_holds]) simp

text \<open>No capacity leaks: in every reachable state in which no connection is being set up or
  open on a route, the route's counter is zero again.\<close>

theorem conn_counter_returns_to_zero:
  assumes "N < 2 ^ 64" "conn_reachable N route max_conns s" "\<forall>i<N. route i = rid \<longrightarrow> phase s i = Idle"
  shows "conn_active rid (counters s) = 0"
proof -
  have "counted N route s rid = {}" using assms(3) by (auto simp: counted_def)
  then show ?thesis
    using conn_reachable_inv [OF assms(1,2)] by (metis card.empty conn_inv_def unat_eq_zero)
qed

lemma one_connection_closed:
  "conn_reachable 1 (\<lambda>_. 7) (\<lambda>_. 1) \<lparr>counters = (\<lambda>_. None)(7 \<mapsto> 0), phase = (\<lambda>_. Idle)\<rparr>"
  using conn_reachable.step [OF one_connection_holds conn_step.close [of 0]]
  by (simp add: guard_drop_def fetch_sub_def conn_active_def fun_upd_idem)

theorem conn_counter_returns_to_zero_witness:
  "conn_active 7 (counters \<lparr>counters = (\<lambda>_. None)(7 \<mapsto> 0), phase = (\<lambda>_. Idle)\<rparr>) = 0"
  by (rule conn_counter_returns_to_zero [OF _ one_connection_closed]) simp_all

end
