(* ===== verification/TcpProxy.thy ===== *)
theory TcpProxy
  imports TlsSni Control Limiters "HOL-Library.Multiset"
begin

text \<open>
  The TCP data plane \<open>server/src/tcp_proxy.rs\<close>: binding the listeners, reconciling them with a new set
  of routes, and admitting and forwarding an accepted connection.  The admission rules shared with the
  HTTP entry points (ACL, connection limit, connected node) are the locale \<open>data_plane_entry\<close>.

  Binding a socket is a parameter, \<open>None\<close> when it fails.  The order in which the code iterates over a
  hash set is a parameter, any reordering of the elements.  The relaying of bytes after OPEN_OK is
  one action.  What is counted is in \<open>Metrics\<close>.
\<close>

section \<open>Standard library: printing addresses\<close>

fun show_digits :: "nat \<Rightarrow> nat \<Rightarrow> nat \<Rightarrow> string" where
  "show_digits 0 base n = []"
| "show_digits (Suc fuel) base n =
     (if n < base then [] else show_digits fuel base (n div base))
     @ [if n mod base < 10 then chr (48 + n mod base) else chr (87 + n mod base)]"

text \<open>At most five digits are needed for a 16-bit number in base ten or sixteen.\<close>

definition show_u16 :: "nat \<Rightarrow> nat \<Rightarrow> string" where
  "show_u16 base n = show_digits 5 base n"

definition segments :: "u128 \<Rightarrow> nat list" where
  "segments a = map (\<lambda>i. unat (take_bit 16 (drop_bit (16 * (7 - i)) a))) [0..<8]"

text \<open>Start and length of the longest run of zeros, the first one among equals.\<close>

fun zero_run :: "nat \<Rightarrow> nat \<times> nat \<Rightarrow> nat \<times> nat \<Rightarrow> nat list \<Rightarrow> nat \<times> nat" where
  "zero_run i cur best [] = best"
| "zero_run i cur best (x # xs) =
     (if x = 0
      then let cur' = ((if snd cur = 0 then i else fst cur), Suc (snd cur))
           in zero_run (Suc i) cur' (if snd cur' > snd best then cur' else best) xs
      else zero_run (Suc i) (0, 0) best xs)"

fun join :: "string \<Rightarrow> string list \<Rightarrow> string" where
  "join sep [] = []"
| "join sep [x] = x"
| "join sep (x # y # ys) = x @ sep @ join sep (y # ys)"

definition show_ipv4 :: "u32 \<Rightarrow> string" where
  "show_ipv4 a = show_v4 (unat (drop_bit 24 a)) (unat (take_bit 8 (drop_bit 16 a)))
     (unat (take_bit 8 (drop_bit 8 a))) (unat (take_bit 8 a))"

definition show_ipv6 :: "u128 \<Rightarrow> string" where
  "show_ipv6 a =
     (case to_ipv4_mapped a of
        Some v4 \<Rightarrow> ''::ffff:'' @ show_ipv4 v4
      | None \<Rightarrow>
          let segs = map (show_u16 16) (segments a); (start, len) = zero_run 0 (0, 0) (0, 0) (segments a) in
          if len > 1 then join '':'' (take start segs) @ ''::'' @ join '':'' (drop (start + len) segs)
          else join '':'' segs)"

definition show_ip :: "IpAddr \<Rightarrow> string" where
  "show_ip ip = (case ip of V4 a \<Rightarrow> show_ipv4 a | V6 a \<Rightarrow> show_ipv6 a)"

definition show_socket :: "SocketAddr \<Rightarrow> string" where
  "show_socket a =
     (case sa_ip a of
        V4 _ \<Rightarrow> show_ip (sa_ip a)
      | V6 _ \<Rightarrow> ''['' @ show_ip (sa_ip a) @ '']'') @ '':'' @ show_u16 10 (unat (sa_port a))"

section \<open>Admission\<close>

text \<open>What an entry point knows when a connection arrives: the connected nodes and the ACL.  \<open>link\<close>
  says how the QUIC connection of a node behaves: whether a stream can be opened, whether sending on
  it succeeds, what the agent sends back, and whether its answer comes too late.\<close>

record agent_link =
  lk_open :: bool
  lk_send_ok :: "Message \<Rightarrow> bool"
  lk_recv :: rstream
  lk_late :: bool
  lk_write_ok :: "bytes \<Rightarrow> bool"

record data_plane =
  dp_conns :: ConnRegistry
  dp_acl :: AclSnapshot

definition route_limit :: "ServerRoute \<Rightarrow> u64 option" where
  "route_limit r = Option.bind (sr_limits r) max_connections"

text \<open>The connection guard of a route; without a limit the limiter is not consulted.\<close>

definition take_guard :: "ServerRoute \<Rightarrow> ConnLimiter \<Rightarrow> bool \<times> ConnLimiter" where
  "take_guard r lim =
     (case route_limit r of
        Some limit \<Rightarrow> try_acquire (sr_id r) limit lim
      | None \<Rightarrow> (True, lim))"

definition acl_admits :: "data_plane \<Rightarrow> ServerRoute \<Rightarrow> SocketAddr \<Rightarrow> bool" where
  "acl_admits dp r peer = acl_allows (dp_acl dp) (sr_id r) peer (sr_target_host r) (sr_target_port r)"

section \<open>Forwarding one connection\<close>

definition forward_tcp :: "serde_json \<Rightarrow> agent_link \<Rightarrow> ServerRoute \<Rightarrow> SocketAddr \<Rightarrow> stream_action list" where
  "forward_tcp J link route peer =
     (if \<not> lk_open link then []
      else
        let msg = open_tcp route (show_socket peer) in
        SendMessage msg 0 #
        (if \<not> lk_send_ok link msg then []
         else case fst (read_frame (lk_recv link)) of
           Inr (Some frame) \<Rightarrow>
             (case from_frame J frame of
                Inr (MOpenOk _) \<Rightarrow> [CopyDuplex]
              | Inr (MOpenFail _) \<Rightarrow> []
              | Inr _ \<Rightarrow> []
              | Inl _ \<Rightarrow> [])
         | Inr None \<Rightarrow> []
         | Inl _ \<Rightarrow> []))"

section \<open>Listeners\<close>

record BoundListener =
  bl_route_id :: Uuid
  bl_active :: u64

record TcpProxy =
  tp_routes :: RouteTable
  tp_listeners :: "(SocketAddr \<times> BoundListener) list"
  tp_accepted :: u64

datatype TcpProxyError =
    TcpListenAddr string
  | TcpBind string
  | TcpInsert SocketAddr RouteTableError
  | TcpMissing SocketAddr

definition bind_listener :: "(SocketAddr \<Rightarrow> SocketAddr option) \<Rightarrow> ServerRoute
    \<Rightarrow> (TcpProxyError, SocketAddr \<times> BoundListener) result" where
  "bind_listener os_bind route =
     and_then (map_err TcpListenAddr (listen_addr route)) (\<lambda>addr.
       case os_bind addr of
         None \<Rightarrow> Err (TcpBind (sr_name route))
       | Some local \<Rightarrow> Ok (local, \<lparr>bl_route_id = sr_id route, bl_active = 0\<rparr>))"

definition tcp_enabled :: "ServerRoute \<Rightarrow> bool" where
  "tcp_enabled r \<longleftrightarrow> sr_enabled r \<and> sr_route_type r = Tcp"

fun bind_all :: "(SocketAddr \<Rightarrow> SocketAddr option) \<Rightarrow> ServerRoute list \<Rightarrow> (SocketAddr \<times> BoundListener) list
    \<Rightarrow> (TcpProxyError, (SocketAddr \<times> BoundListener) list) result" where
  "bind_all os_bind [] ls = Ok ls"
| "bind_all os_bind (r # rs) ls =
     and_then (bind_listener os_bind r) (\<lambda>(addr, b). bind_all os_bind rs (AList.update addr b ls))"

definition tp_bind :: "(SocketAddr \<Rightarrow> SocketAddr option) \<Rightarrow> RouteTable \<Rightarrow> (TcpProxyError, TcpProxy) result" where
  "tp_bind os_bind routes =
     and_then (bind_all os_bind (filter tcp_enabled (rt_routes routes)) []) (\<lambda>ls.
       Ok \<lparr>tp_routes = routes, tp_listeners = ls, tp_accepted = 0\<rparr>)"

section \<open>Hot update\<close>

fun desired_listens :: "ServerRoute list \<Rightarrow> (SocketAddr \<times> ServerRoute) list
    \<Rightarrow> (TcpProxyError, (SocketAddr \<times> ServerRoute) list) result" where
  "desired_listens [] d = Ok d"
| "desired_listens (r # rs) d =
     and_then (map_err TcpListenAddr (listen_addr r)) (\<lambda>addr. desired_listens rs (AList.update addr r d))"

text \<open>Waiting for the active connections of a removed listener, in milliseconds: \<open>now i\<close> and \<open>active i\<close> are the
  clock and the counter seen at the \<open>i\<close>-th poll.  The result is the number of the last poll and whether the
  counter was zero; a wait that never ends has the value \<open>None\<close>.\<close>

definition DRAIN_TIMEOUT :: nat where "DRAIN_TIMEOUT = 30000"

partial_function (option) drain_poll :: "(nat \<Rightarrow> nat) \<Rightarrow> (nat \<Rightarrow> u64) \<Rightarrow> nat \<Rightarrow> nat \<Rightarrow> (nat \<times> bool) option" where
  [code]: "drain_poll now active deadline i =
     (if active i > 0
      then if now i \<ge> deadline then Some (i, False) else drain_poll now active deadline (Suc i)
      else Some (i, True))"

definition drain_wait :: "nat \<Rightarrow> (nat \<Rightarrow> nat) \<Rightarrow> (nat \<Rightarrow> u64) \<Rightarrow> (nat \<times> bool) option" where
  "drain_wait start now active = drain_poll now active (start + DRAIN_TIMEOUT) 0"

definition drain_listener :: "SocketAddr \<Rightarrow> TcpProxy \<Rightarrow> TcpProxy" where
  "drain_listener addr tp = tp\<lparr>tp_listeners := AList.delete addr (tp_listeners tp)\<rparr>"

definition remove_step :: "SocketAddr \<Rightarrow> TcpProxy \<Rightarrow> TcpProxy" where
  "remove_step addr tp = (let tp1 = drain_listener addr tp in tp1\<lparr>tp_routes := rt_remove addr (tp_routes tp1)\<rparr>)"

definition update_step :: "(SocketAddr \<times> ServerRoute) list \<Rightarrow> SocketAddr \<Rightarrow> TcpProxy \<Rightarrow> TcpProxy" where
  "update_step desired addr tp =
     (case map_of desired addr of
        None \<Rightarrow> tp
      | Some new_route \<Rightarrow>
          let t = rt_remove addr (tp_routes tp) in
          tp\<lparr>tp_routes := (case rt_insert new_route t of Inr t' \<Rightarrow> t' | Inl _ \<Rightarrow> t)\<rparr>)"

fun add_steps :: "(SocketAddr \<Rightarrow> SocketAddr option) \<Rightarrow> (SocketAddr \<times> ServerRoute) list \<Rightarrow> SocketAddr list \<Rightarrow> TcpProxy
    \<Rightarrow> (TcpProxyError, unit) result \<times> TcpProxy" where
  "add_steps os_bind desired [] tp = (Ok (), tp)"
| "add_steps os_bind desired (addr # addrs) tp =
     (case map_of desired addr of
        None \<Rightarrow> (Err (TcpMissing addr), tp)
      | Some route \<Rightarrow>
          (case rt_insert route (tp_routes tp) of
             Inl e \<Rightarrow> (Err (TcpInsert addr e), tp)
           | Inr t \<Rightarrow>
               let tp1 = tp\<lparr>tp_routes := t\<rparr> in
               (case bind_listener os_bind route of
                  Inl e \<Rightarrow> (Err e, tp1)
                | Inr (local, b) \<Rightarrow>
                    add_steps os_bind desired addrs (tp1\<lparr>tp_listeners := AList.update local b (tp_listeners tp1)\<rparr>))))"

definition tp_reconcile :: "(SocketAddr \<Rightarrow> SocketAddr option) \<Rightarrow> (SocketAddr list \<Rightarrow> SocketAddr list) \<Rightarrow> ServerRoute list
    \<Rightarrow> TcpProxy \<Rightarrow> (TcpProxyError, unit) result \<times> TcpProxy" where
  "tp_reconcile os_bind order new_routes tp =
     (case desired_listens (filter tcp_enabled new_routes) [] of
        Inl e \<Rightarrow> (Err e, tp)
      | Inr desired \<Rightarrow>
          let current = map fst (tp_listeners tp); wanted = map fst desired;
              to_remove = order (filter (\<lambda>a. a \<notin> set wanted) current);
              to_update = order (filter (\<lambda>a. a \<in> set wanted) current);
              to_add = order (filter (\<lambda>a. a \<notin> set current) wanted);
              tp1 = fold remove_step to_remove tp;
              tp2 = fold (update_step desired) to_update tp1
          in add_steps os_bind desired to_add tp2)"

section \<open>Accepting a connection\<close>

definition bump_active :: "SocketAddr \<Rightarrow> TcpProxy \<Rightarrow> TcpProxy" where
  "bump_active addr tp =
     (case map_of (tp_listeners tp) addr of
        Some b \<Rightarrow> tp\<lparr>tp_listeners := AList.update addr (b\<lparr>bl_active := bl_active b + 1\<rparr>) (tp_listeners tp)\<rparr>
      | None \<Rightarrow> tp)"

text \<open>One accepted connection of the accept loop: the actions of its forwarding task and the state
  while that task runs.\<close>

definition accept_tcp :: "serde_json \<Rightarrow> (nat \<Rightarrow> agent_link) \<Rightarrow> data_plane \<Rightarrow> SocketAddr \<Rightarrow> SocketAddr
    \<Rightarrow> TcpProxy \<times> ConnLimiter \<Rightarrow> stream_action list \<times> TcpProxy \<times> ConnLimiter" where
  "accept_tcp J links dp addr peer = (\<lambda>(tp, lim).
     case rt_lookup addr (tp_routes tp) of
       None \<Rightarrow> ([], tp, lim)
     | Some route \<Rightarrow>
         if \<not> acl_admits dp route peer then ([], tp, lim)
         else
           let tp1 = tp\<lparr>tp_accepted := tp_accepted tp + 1\<rparr> in
           (case cr_get (sr_node_id route) (dp_conns dp) of
              None \<Rightarrow> ([], tp1, lim)
            | Some conn \<Rightarrow>
                (case take_guard route lim of
                   (False, lim1) \<Rightarrow> ([], tp1, lim1)
                 | (True, lim1) \<Rightarrow> (forward_tcp J (links conn) route peer, bump_active addr tp1, lim1))))"

section \<open>The admission contract\<close>

text \<open>The admission decision of an entry point, as a specification.\<close>

definition admits :: "data_plane \<Rightarrow> ConnLimiter \<Rightarrow> ServerRoute \<Rightarrow> SocketAddr \<Rightarrow> bool" where
  "admits dp lim route peer \<longleftrightarrow>
     acl_admits dp route peer \<and> cr_get (sr_node_id route) (dp_conns dp) \<noteq> None
     \<and> (case route_limit route of Some limit \<Rightarrow> conn_active (sr_id route) lim < limit | None \<Rightarrow> True)"

lemma take_guard_iff:
  "fst (take_guard route lim) \<longleftrightarrow>
     (case route_limit route of Some limit \<Rightarrow> conn_active (sr_id route) lim < limit | None \<Rightarrow> True)"
  by (auto simp: take_guard_def try_acquire_def fetch_add_def Let_def split: option.splits)

lemma take_guard_refused: "take_guard route lim = (False, lim') \<Longrightarrow> conn_active rid lim' = conn_active rid lim"
  by (auto simp: take_guard_def try_acquire_def fetch_add_def fetch_sub_def conn_active_def Let_def
      split: option.splits if_splits)

definition agent_messages :: "stream_action list \<Rightarrow> Message list" where
  "agent_messages acts = map fst (replies acts)"

lemma agent_messages_simps [simp]:
  "agent_messages [] = []" "agent_messages (SendMessage m r # as) = m # agent_messages as"
  "agent_messages (CopyDuplex # as) = agent_messages as"
  by (simp_all add: agent_messages_def replies_def)

text \<open>An entry point of the data plane: \<open>opens\<close> are the messages sent to agents for a request, \<open>select\<close>
  the route it belongs to.\<close>

locale data_plane_entry =
  fixes opens :: "data_plane \<Rightarrow> ConnLimiter \<Rightarrow> SocketAddr \<Rightarrow> 'req \<Rightarrow> Message list"
    and select :: "'req \<Rightarrow> ServerRoute option"
  assumes only_admitted: "m \<in> set (opens dp lim peer req) \<Longrightarrow>
      \<exists>route. select req = Some route \<and> admits dp lim route peer \<and> m = open_tcp route (show_socket peer)"
begin

lemma denied_by_acl: "select req = Some route \<Longrightarrow> \<not> acl_admits dp route peer \<Longrightarrow> opens dp lim peer req = []"
  using only_admitted [of _ dp lim peer req] by (cases "opens dp lim peer req") (fastforce simp: admits_def)+

lemma denied_at_limit:
  "select req = Some route \<Longrightarrow> route_limit route = Some limit \<Longrightarrow> limit \<le> conn_active (sr_id route) lim
     \<Longrightarrow> opens dp lim peer req = []"
  using only_admitted [of _ dp lim peer req] by (cases "opens dp lim peer req") (fastforce simp: admits_def)+

lemma denied_offline:
  "select req = Some route \<Longrightarrow> cr_get (sr_node_id route) (dp_conns dp) = None \<Longrightarrow> opens dp lim peer req = []"
  using only_admitted [of _ dp lim peer req] by (cases "opens dp lim peer req") (fastforce simp: admits_def)+

lemma denied_unrouted: "select req = None \<Longrightarrow> opens dp lim peer req = []"
  using only_admitted [of _ dp lim peer req] by (cases "opens dp lim peer req") fastforce+

lemmas denied = denied_unrouted denied_by_acl denied_at_limit denied_offline

end

lemma forward_tcp_messages:
  "m \<in> set (agent_messages (forward_tcp J link route peer)) \<Longrightarrow> m = open_tcp route (show_socket peer)"
  by (auto simp: forward_tcp_def Let_def split: if_splits sum.splits option.splits Message.splits)

definition tcp_opens :: "data_plane \<Rightarrow> ConnLimiter \<Rightarrow> SocketAddr
    \<Rightarrow> serde_json \<times> (nat \<Rightarrow> agent_link) \<times> SocketAddr \<times> TcpProxy \<Rightarrow> Message list" where
  "tcp_opens dp lim peer = (\<lambda>(J, links, addr, tp). agent_messages (fst (accept_tcp J links dp addr peer (tp, lim))))"

interpretation tcp_entry: data_plane_entry tcp_opens "\<lambda>(J, links, addr, tp). rt_lookup addr (tp_routes tp)"
proof (unfold_locales, goal_cases)
  case (1 m dp lim peer req)
  obtain J links addr tp where req: "req = (J, links, addr, tp)" by (cases req)
  from 1 obtain route conn where r: "rt_lookup addr (tp_routes tp) = Some route" "acl_admits dp route peer"
      "cr_get (sr_node_id route) (dp_conns dp) = Some conn" "fst (take_guard route lim)"
      "m \<in> set (agent_messages (forward_tcp J (links conn) route peer))"
    unfolding req tcp_opens_def accept_tcp_def
    by (auto simp: Let_def split: option.splits if_splits prod.splits bool.splits)
  then show ?case
    using forward_tcp_messages [OF r(5)] by (auto simp: req admits_def take_guard_iff)
qed

section \<open>Reconciliation\<close>

lemma map_of_AList [simp]:
  "map_of (AList.delete k xs) j = (if j = k then None else map_of xs j)"
  "map_of (AList.update k v xs) j = (if j = k then Some v else map_of xs j)"
  by (simp_all add: AList.delete_conv' AList.update_conv')

lemma remove_steps:
  "map_of (tp_listeners (fold remove_step rm tp)) a = (if a \<in> set rm then None else map_of (tp_listeners tp) a)"
  "rt_lookup a (tp_routes (fold remove_step rm tp)) = (if a \<in> set rm then None else rt_lookup a (tp_routes tp))"
  by (induction rm arbitrary: tp)
    (simp_all add: remove_step_def drain_listener_def rt_remove_def rt_lookup_def Let_def)

definition desired_ok :: "(SocketAddr \<times> ServerRoute) list \<Rightarrow> bool" where
  "desired_ok d \<longleftrightarrow> (\<forall>a r. map_of d a = Some r \<longrightarrow> listen_addr r = Ok a)"

lemma desired_ok_update: "desired_ok d \<Longrightarrow> listen_addr r = Ok a \<Longrightarrow> desired_ok (AList.update a r d)"
  by (simp add: desired_ok_def)

lemma desired_listens_Cons:
  "desired_listens (r # rs) d = Ok d' \<longleftrightarrow> (\<exists>a. listen_addr r = Ok a \<and> desired_listens rs (AList.update a r d) = Ok d')"
  by (cases "listen_addr r") simp_all

lemma desired_listens_ok: "desired_listens rs d = Ok d' \<Longrightarrow> desired_ok d \<Longrightarrow> desired_ok d'"
proof (induction rs arbitrary: d)
  case (Cons r rs)
  then obtain a where "listen_addr r = Ok a" "desired_listens rs (AList.update a r d) = Ok d'"
    unfolding desired_listens_Cons by blast
  with Cons.IH Cons.prems(2) show ?case by (blast intro: desired_ok_update)
qed simp

lemma rt_insert_fresh:
  "listen_addr r = Ok a \<Longrightarrow> rt_lookup a t = None \<Longrightarrow> rt_insert r t = Ok (AList.update a r t)"
  by (simp add: rt_insert_def rt_lookup_def)

lemma update_step_effect:
  assumes "desired_ok d"
  shows "tp_listeners (update_step d b tp) = tp_listeners tp"
    and "rt_lookup a (tp_routes (update_step d b tp))
      = (if a = b \<and> map_of d b \<noteq> None then map_of d b else rt_lookup a (tp_routes tp))"
proof -
  have "rt_insert r (rt_remove b (tp_routes tp)) = Ok (AList.update b r (rt_remove b (tp_routes tp)))"
    if "map_of d b = Some r" for r
    using assms that by (intro rt_insert_fresh) (auto simp: desired_ok_def rt_lookup_def rt_remove_def)
  then show "tp_listeners (update_step d b tp) = tp_listeners tp"
    "rt_lookup a (tp_routes (update_step d b tp))
      = (if a = b \<and> map_of d b \<noteq> None then map_of d b else rt_lookup a (tp_routes tp))"
    by (auto simp: update_step_def rt_lookup_def rt_remove_def Let_def split: option.splits)
qed

lemma update_steps_listeners:
  "desired_ok d \<Longrightarrow> tp_listeners (fold (update_step d) up tp) = tp_listeners tp"
  by (induction up arbitrary: tp) (simp_all add: update_step_effect)

lemma update_steps_routes:
  "desired_ok d \<Longrightarrow> rt_lookup a (tp_routes (fold (update_step d) up tp))
      = (if a \<in> set up \<and> map_of d a \<noteq> None then map_of d a else rt_lookup a (tp_routes tp))"
  by (induction up arbitrary: tp) (auto simp: update_step_effect)

text \<open>A socket layer that binds exactly the requested address.\<close>

definition honest_bind :: "(SocketAddr \<Rightarrow> SocketAddr option) \<Rightarrow> bool" where
  "honest_bind os_bind \<longleftrightarrow> (\<forall>a l. os_bind a = Some l \<longrightarrow> l = a)"

lemma add_steps_effect:
  assumes "add_steps os_bind d new tp = (Ok (), tp')" "desired_ok d" "honest_bind os_bind"
  shows "(map_of (tp_listeners tp') a \<noteq> None) = (a \<in> set new \<or> map_of (tp_listeners tp) a \<noteq> None)
     \<and> rt_lookup a (tp_routes tp') = (if a \<in> set new then map_of d a else rt_lookup a (tp_routes tp))"
  using assms(1)
proof (induction new arbitrary: tp)
  case (Cons b new)
  obtain r where r: "map_of d b = Some r" "listen_addr r = Ok b"
    using Cons.prems assms(2) by (auto simp: desired_ok_def split: option.splits)
  obtain t where t: "rt_insert r (tp_routes tp) = Ok t" using Cons.prems r(1) by (auto split: sum.splits)
  have fresh: "rt_lookup b (tp_routes tp) = None" "t = AList.update b r (tp_routes tp)"
    using t r(2) by (auto simp: rt_insert_def rt_lookup_def split: option.splits)
  obtain bl where bl: "bind_listener os_bind r = Ok (b, bl)"
    using Cons.prems r t assms(3)
    by (auto simp: bind_listener_def honest_bind_def Let_def split: option.splits sum.splits)
  let ?tp = "tp\<lparr>tp_routes := t, tp_listeners := AList.update b bl (tp_listeners tp)\<rparr>"
  have "add_steps os_bind d new ?tp = (Ok (), tp')"
    using Cons.prems r(1) t bl by (simp add: Let_def)
  from Cons.IH [OF this] show ?case
    using r(1) fresh(2) by (auto simp: rt_lookup_def)
qed simp

lemma add_steps_ok_iff:
  assumes "desired_ok d" "honest_bind os_bind" "distinct new" "\<forall>a\<in>set new. map_of d a \<noteq> None"
  shows "fst (add_steps os_bind d new tp) = Ok ()
     \<longleftrightarrow> (\<forall>a\<in>set new. rt_lookup a (tp_routes tp) = None \<and> os_bind a \<noteq> None)"
  using assms(3,4)
proof (induction new arbitrary: tp)
  case (Cons b new)
  obtain r where r: "map_of d b = Some r" "listen_addr r = Ok b"
    using Cons.prems assms(1) by (auto simp: desired_ok_def)
  show ?case
  proof (cases "rt_lookup b (tp_routes tp) = None \<and> os_bind b \<noteq> None")
    case True
    then have t: "rt_insert r (tp_routes tp) = Ok (AList.update b r (tp_routes tp))"
      using r(2) by (intro rt_insert_fresh) auto
    have bl: "bind_listener os_bind r = Ok (b, \<lparr>bl_route_id = sr_id r, bl_active = 0\<rparr>)"
      using r(2) True assms(2) by (auto simp: bind_listener_def honest_bind_def)
    show ?thesis
      using Cons.prems True by (auto simp: r(1) t bl Let_def Cons.IH rt_lookup_def)
  next
    case False
    then have "\<not> fst (add_steps os_bind d (b # new) tp) = Ok ()"
      using r by (auto simp: rt_insert_def rt_lookup_def bind_listener_def Let_def split: option.splits)
    with False show ?thesis by auto
  qed
qed simp

text \<open>The specification of a reconciliation: the last enabled TCP route that listens on an address.\<close>

definition wanted_route :: "ServerRoute list \<Rightarrow> SocketAddr \<Rightarrow> ServerRoute option" where
  "wanted_route routes a = find (\<lambda>r. listen_addr r = Ok a) (rev (filter tcp_enabled routes))"

lemma find_append: "find P (xs @ ys) = (case find P xs of Some x \<Rightarrow> Some x | None \<Rightarrow> find P ys)"
  by (induction xs) simp_all

lemma desired_listens_lookup:
  "desired_listens rs d = Ok d' \<Longrightarrow>
     map_of d' a = (case find (\<lambda>r. listen_addr r = Ok a) (rev rs) of Some r \<Rightarrow> Some r | None \<Rightarrow> map_of d a)"
proof (induction rs arbitrary: d)
  case (Cons r rs)
  then obtain b where b: "listen_addr r = Ok b" "desired_listens rs (AList.update b r d) = Ok d'"
    unfolding desired_listens_Cons by blast
  show ?case using Cons.IH [OF b(2)] b(1) by (simp add: find_append split: option.split)
qed simp

lemma desired_listens_distinct: "desired_listens rs d = Ok d' \<Longrightarrow> distinct (map fst d) \<Longrightarrow> distinct (map fst d')"
proof (induction rs arbitrary: d)
  case (Cons r rs)
  then obtain a where "desired_listens rs (AList.update a r d) = Ok d'"
    unfolding desired_listens_Cons by blast
  with Cons.IH Cons.prems(2) show ?case by (blast intro: distinct_update)
qed simp

lemma desired_listens_total:
  "\<forall>r\<in>set rs. \<exists>a. listen_addr r = Ok a \<Longrightarrow> \<exists>d'. desired_listens rs d = Ok d'"
  by (induction rs arbitrary: d) (auto simp: desired_listens_Cons simp del: desired_listens.simps(2))

lemma bound_iff: "a \<in> set (map fst xs) \<longleftrightarrow> map_of xs a \<noteq> None"
  by (simp add: map_of_eq_None_iff)

lemma drain_poll_ends:
  assumes "\<And>i. now i + 50 \<le> now (Suc i)" "deadline \<le> now i + 50 * n"
  shows "\<exists>k b. drain_poll now active deadline i = Some (k, b) \<and> k \<le> i + n \<and> b = (active k = 0)
     \<and> (\<not> b \<longrightarrow> deadline \<le> now k) \<and> (\<forall>j. i \<le> j \<and> j < k \<longrightarrow> 0 < active j)"
  using assms(2)
proof (induction n arbitrary: i)
  case 0
  then show ?case by (subst drain_poll.simps) (auto simp: word_gt_0)
next
  case (Suc n)
  show ?case
  proof (cases "active i > 0 \<and> \<not> deadline \<le> now i")
    case True
    have "deadline \<le> now (Suc i) + 50 * n" using Suc.prems assms(1) [of i] by simp
    from Suc.IH [OF this] obtain k b where k: "drain_poll now active deadline (Suc i) = Some (k, b)" "k \<le> Suc i + n"
        "b = (active k = 0)" "\<not> b \<longrightarrow> deadline \<le> now k" "\<forall>j. Suc i \<le> j \<and> j < k \<longrightarrow> 0 < active j" by blast
    have "drain_poll now active deadline i = Some (k, b)" using True k(1) by (subst drain_poll.simps) simp
    moreover have "\<forall>j. i \<le> j \<and> j < k \<longrightarrow> 0 < active j" using True k(5) by (metis Suc_leI le_neq_implies_less)
    ultimately show ?thesis using k by auto
  next
    case False
    then show ?thesis by (subst drain_poll.simps) (auto simp: word_gt_0)
  qed
qed

lemma reconcile_steps:
  assumes d: "desired_listens (filter tcp_enabled routes) [] = Ok d" and o: "\<forall>xs. mset (order xs) = mset xs"
  obtains rm up new where "tp_reconcile os_bind order routes tp
      = add_steps os_bind d new (fold (update_step d) up (fold remove_step rm tp))"
    "set rm = {a. map_of (tp_listeners tp) a \<noteq> None \<and> map_of d a = None}"
    "set up = {a. map_of (tp_listeners tp) a \<noteq> None \<and> map_of d a \<noteq> None}"
    "set new = {a. map_of (tp_listeners tp) a = None \<and> map_of d a \<noteq> None}" "distinct new"
proof -
  have perm: "set (order xs) = set xs" "distinct (order xs) = distinct xs" for xs
    using o by (metis mset_eq_setD, metis mset_eq_imp_distinct_iff)
  let ?cur = "map fst (tp_listeners tp)" and ?want = "map fst d"
  have "distinct ?want" using desired_listens_distinct [OF d] by simp
  then show ?thesis
    by (intro that [of "order (filter (\<lambda>a. a \<notin> set ?cur) ?want)"
          "order (filter (\<lambda>a. a \<in> set ?want) ?cur)" "order (filter (\<lambda>a. a \<notin> set ?want) ?cur)"])
      (auto simp: perm tp_reconcile_def d Let_def map_of_eq_None_iff simp flip: bound_iff)
qed

text \<open>C24. Listener reconciliation.  Let the socket layer bind exactly the address asked for, and let the
  enabled TCP routes have readable addresses.  Then a reconciliation succeeds exactly when every wanted
  address without a listener is free in the route table and can be bound; and after a success the
  listeners are bound at exactly the wanted addresses, each address leads to the wanted route, the
  entries of removed listeners are gone and all other entries of the table are as before.  The order in
  which the code visits its hash sets does not matter.\<close>

theorem tcp_reconcile_exact:
  assumes "honest_bind os_bind" "\<forall>xs. mset (order xs) = mset xs"
    and "\<forall>r\<in>set routes. tcp_enabled r \<longrightarrow> (\<exists>a. listen_addr r = Ok a)"
  shows "(fst (tp_reconcile os_bind order routes tp) = Ok () \<longleftrightarrow>
       (\<forall>a. map_of (tp_listeners tp) a = None \<and> wanted_route routes a \<noteq> None
          \<longrightarrow> rt_lookup a (tp_routes tp) = None \<and> os_bind a \<noteq> None))
     \<and> (fst (tp_reconcile os_bind order routes tp) = Ok () \<longrightarrow>
       (let tp' = snd (tp_reconcile os_bind order routes tp) in
        \<forall>a. (map_of (tp_listeners tp') a \<noteq> None) = (wanted_route routes a \<noteq> None)
          \<and> rt_lookup a (tp_routes tp') =
             (if wanted_route routes a \<noteq> None then wanted_route routes a
              else if map_of (tp_listeners tp) a \<noteq> None then None
              else rt_lookup a (tp_routes tp))))"
proof -
  obtain d where d: "desired_listens (filter tcp_enabled routes) [] = Ok d"
    using desired_listens_total [of "filter tcp_enabled routes" "[]"] assms(3) by auto
  have w: "wanted_route routes a = map_of d a" for a
    using desired_listens_lookup [OF d, of a] by (simp add: wanted_route_def split: option.split)
  have dok: "desired_ok d" using desired_listens_ok [OF d] by (simp add: desired_ok_def)
  obtain rm up new where st: "tp_reconcile os_bind order routes tp
      = add_steps os_bind d new (fold (update_step d) up (fold remove_step rm tp))"
    and sets: "set rm = {a. map_of (tp_listeners tp) a \<noteq> None \<and> map_of d a = None}"
      "set up = {a. map_of (tp_listeners tp) a \<noteq> None \<and> map_of d a \<noteq> None}"
      "set new = {a. map_of (tp_listeners tp) a = None \<and> map_of d a \<noteq> None}" "distinct new"
    by (rule reconcile_steps [OF d assms(2)])
  note steps = update_steps_routes [OF dok] update_steps_listeners [OF dok] remove_steps sets
  have ok: "fst (tp_reconcile os_bind order routes tp) = Ok () \<longleftrightarrow>
      (\<forall>a\<in>set new. rt_lookup a (tp_routes tp) = None \<and> os_bind a \<noteq> None)"
  proof -
    have free: "rt_lookup a (tp_routes (fold (update_step d) up (fold remove_step rm tp))) = rt_lookup a (tp_routes tp)"
      if "a \<in> set new" for a using that by (simp add: steps)
    show ?thesis
      unfolding st by (subst add_steps_ok_iff [OF dok assms(1) sets(4)]) (simp_all add: free, simp add: sets)
  qed
  have res: "(map_of (tp_listeners tp') a \<noteq> None) = (map_of d a \<noteq> None)
      \<and> rt_lookup a (tp_routes tp') = (if map_of d a \<noteq> None then map_of d a
          else if map_of (tp_listeners tp) a \<noteq> None then None else rt_lookup a (tp_routes tp))"
    if "tp_reconcile os_bind order routes tp = (Ok (), tp')" for a tp'
    using add_steps_effect [OF that [unfolded st] dok assms(1), of a]
    by (cases "map_of d a"; cases "map_of (tp_listeners tp) a") (simp_all add: steps)
  show ?thesis
  proof (intro conjI impI, goal_cases)
    case 1
    show ?case unfolding ok w sets(3) by blast
  next
    case 2
    then have "tp_reconcile os_bind order routes tp = (Ok (), snd (tp_reconcile os_bind order routes tp))"
      by (simp add: prod_eq_iff)
    from res [OF this] show ?case unfolding w Let_def by blast
  qed
qed

definition sample_tcp :: "string \<Rightarrow> u16 \<Rightarrow> ServerRoute" where
  "sample_tcp host port = sample_route\<lparr>sr_route_type := Tcp, sr_listen_host := host, sr_listen_port := port\<rparr>"

lemma chr_eval: "chr 48 = CHR ''0''" "chr 49 = CHR ''1''"
  by code_simp+

lemma sample_tcp_simps [simp]:
  "tcp_enabled (sample_tcp host port)"
  "listen_addr (sample_tcp ''10.0.0.1'' port) = Ok \<lparr>sa_ip = V4 0x0A000001, sa_port = port\<rparr>"
proof -
  have "parse_ip ''10.0.0.1'' = Some (V4 0x0A000001)"
    using parse_ip_show_v4 [of 10 0 0 1] by (simp add: show_v4_def show_u8_def digit_char_def chr_eval)
  then show "tcp_enabled (sample_tcp host port)"
    "listen_addr (sample_tcp ''10.0.0.1'' port) = Ok \<lparr>sa_ip = V4 0x0A000001, sa_port = port\<rparr>"
    by (simp_all add: sample_tcp_def tcp_enabled_def listen_addr_def sample_route_def)
qed

theorem tcp_reconcile_exact_witness:
  "\<exists>tp'. tp_reconcile Some rev [sample_tcp ''10.0.0.1'' 80, sample_tcp ''10.0.0.1'' 81]
       \<lparr>tp_routes = [(\<lparr>sa_ip = V4 0x0A000001, sa_port = 82\<rparr>, sample_tcp ''10.0.0.1'' 82)],
        tp_listeners = [(\<lparr>sa_ip = V4 0x0A000001, sa_port = 82\<rparr>, \<lparr>bl_route_id = 1, bl_active = 0\<rparr>)], tp_accepted = 0\<rparr>
     = (Ok (), tp')
   \<and> rt_lookup \<lparr>sa_ip = V4 0x0A000001, sa_port = 81\<rparr> (tp_routes tp') = Some (sample_tcp ''10.0.0.1'' 81)
   \<and> rt_lookup \<lparr>sa_ip = V4 0x0A000001, sa_port = 82\<rparr> (tp_routes tp') = None"
proof -
  let ?rs = "[sample_tcp ''10.0.0.1'' 80, sample_tcp ''10.0.0.1'' 81]"
  let ?tp = "\<lparr>tp_routes = [(\<lparr>sa_ip = V4 0x0A000001, sa_port = 82\<rparr>, sample_tcp ''10.0.0.1'' 82)],
        tp_listeners = [(\<lparr>sa_ip = V4 0x0A000001, sa_port = 82\<rparr>, \<lparr>bl_route_id = 1, bl_active = 0\<rparr>)], tp_accepted = 0\<rparr>"
  have w: "wanted_route ?rs a = (if a = \<lparr>sa_ip = V4 0x0A000001, sa_port = 81\<rparr> then Some (sample_tcp ''10.0.0.1'' 81)
      else if a = \<lparr>sa_ip = V4 0x0A000001, sa_port = 80\<rparr> then Some (sample_tcp ''10.0.0.1'' 80) else None)" for a
    by (auto simp: wanted_route_def)
  have "honest_bind Some" "\<forall>xs :: SocketAddr list. mset (rev xs) = mset xs" by (simp_all add: honest_bind_def)
  from tcp_reconcile_exact [OF this, of ?rs ?tp]
  have ok: "fst (tp_reconcile Some rev ?rs ?tp) = Ok ()"
    and res: "\<forall>a. rt_lookup a (tp_routes (snd (tp_reconcile Some rev ?rs ?tp)))
      = (if wanted_route ?rs a \<noteq> None then wanted_route ?rs a
         else if map_of (tp_listeners ?tp) a \<noteq> None then None else rt_lookup a (tp_routes ?tp))"
    by (simp_all add: w rt_lookup_def Let_def)
  show ?thesis
    using ok res [rule_format, of "\<lparr>sa_ip = V4 0x0A000001, sa_port = 81\<rparr>"] res [rule_format, of "\<lparr>sa_ip = V4 0x0A000001, sa_port = 82\<rparr>"]
    by (intro exI [of _ "snd (tp_reconcile Some rev ?rs ?tp)"]) (simp add: w prod_eq_iff)
qed

text \<open>Draining ends.  If every sleep of the poll loop takes at least its 50 ms, the wait for the active
  connections of a removed listener ends after at most 600 sleeps; it ends at the first poll that sees no
  active connection, or else not before 30 s have passed.\<close>

theorem drain_wait_ends:
  assumes "start \<le> now 0" "\<forall>i. now i + 50 \<le> now (Suc i)"
  shows "\<exists>k drained. drain_wait start now active = Some (k, drained) \<and> k \<le> 600 \<and> drained = (active k = 0)
     \<and> (\<not> drained \<longrightarrow> start + 30000 \<le> now k) \<and> (\<forall>j<k. 0 < active j)"
  using drain_poll_ends [of now "start + DRAIN_TIMEOUT" 0 600 active] assms
  by (auto simp: drain_wait_def DRAIN_TIMEOUT_def)

theorem drain_wait_ends_witness:
  "\<exists>k drained. drain_wait 7 (\<lambda>i. 7 + 60 * i) (\<lambda>i. if i < 3 then 2 else 0) = Some (k, drained) \<and> k \<le> 600 \<and> drained"
proof -
  have "\<forall>i. 7 + 60 * i + 50 \<le> 7 + 60 * Suc i" by simp
  from drain_wait_ends [of 7 "\<lambda>i. 7 + 60 * i", OF _ this, of "\<lambda>i. if i < 3 then 2 else 0"]
  obtain k drained where k: "drain_wait 7 (\<lambda>i. 7 + 60 * i) (\<lambda>i. if i < 3 then 2 else 0 :: u64) = Some (k, drained)"
    "k \<le> 600" "drained = ((if k < 3 then 2 else 0 :: u64) = 0)" "\<forall>j<k. (0::u64) < (if j < 3 then 2 else 0)"
    "\<not> drained \<longrightarrow> 7 + 30000 \<le> 7 + 60 * k" by auto
  have "\<not> k < 3" using k(3,5) by auto
  with k show ?thesis by auto
qed

end
