(* ===== verification/Udp.thy ===== *)
theory Udp
  imports TcpProxy Complex_Main
begin

text \<open>
  The UDP data plane: the server side \<open>server/src/udp_proxy.rs\<close> (sessions, source limits, reaping) and the
  agent side \<open>agent/src/udp.rs\<close>.

  Instants are nanoseconds.  A 64-bit float is a rational number, and \<open>rnd\<close> is the rounding applied to the
  exact result of every floating-point operation.  Each handler runs to its end before the next one starts.
  A session is shared between the two session tables; its mutable part, the time of last use, is a cell of
  the proxy named by the session.  The order of iteration over a table is a parameter.  Metrics are left out.
\<close>

section \<open>Token bucket\<close>

type_synonym f64 = rat

definition NANOS_PER_SEC :: nat where "NANOS_PER_SEC = 1000000000"

definition as_secs_f64 :: "(f64 \<Rightarrow> f64) \<Rightarrow> nat \<Rightarrow> f64" where
  "as_secs_f64 rnd ns = rnd (rnd (of_nat (ns div NANOS_PER_SEC)) + rnd (of_nat (ns mod NANOS_PER_SEC) / of_nat NANOS_PER_SEC))"

definition u64_as_f64 :: "(f64 \<Rightarrow> f64) \<Rightarrow> u64 \<Rightarrow> f64" where
  "u64_as_f64 rnd n = rnd (of_nat (unat n))"

record TokenBucket =
  tb_capacity :: f64
  tb_refill_per_sec :: f64
  tb_tokens :: f64
  tb_last :: nat

definition tb_new :: "f64 \<Rightarrow> f64 \<Rightarrow> nat \<Rightarrow> TokenBucket" where
  "tb_new capacity refill now = \<lparr>tb_capacity = capacity, tb_refill_per_sec = refill, tb_tokens = capacity, tb_last = now\<rparr>"

definition try_take :: "(f64 \<Rightarrow> f64) \<Rightarrow> f64 \<Rightarrow> nat \<Rightarrow> TokenBucket \<Rightarrow> bool \<times> TokenBucket" where
  "try_take rnd n now b =
     (let elapsed = as_secs_f64 rnd (now - tb_last b);
          tokens = min (rnd (tb_tokens b + rnd (elapsed * tb_refill_per_sec b))) (tb_capacity b);
          b1 = b\<lparr>tb_tokens := tokens, tb_last := now\<rparr>
      in if tokens \<ge> n then (True, b1\<lparr>tb_tokens := rnd (tokens - n)\<rparr>) else (False, b1))"

section \<open>State of the UDP proxy\<close>

definition UDP_IDLE_TIMEOUT :: nat where "UDP_IDLE_TIMEOUT = 60 * NANOS_PER_SEC"
definition MAX_UDP_PAYLOAD :: nat where "MAX_UDP_PAYLOAD = 1200"

definition max_payload :: "nat option \<Rightarrow> nat" where
  "max_payload peer_max = (case peer_max of Some m \<Rightarrow> min (m - UDP_DATAGRAM_HEADER_LEN) MAX_UDP_PAYLOAD | None \<Rightarrow> 0)"

record UdpRateLimits =
  max_sessions_per_ip :: u32
  max_packets_per_sec :: u64
  max_bytes_per_sec :: u64

definition default_rate_limits :: UdpRateLimits where
  "default_rate_limits = \<lparr>max_sessions_per_ip = 64, max_packets_per_sec = 1000, max_bytes_per_sec = 1000000\<rparr>"

record SourceRateState =
  src_sessions :: u32
  src_packets :: TokenBucket
  src_bytes :: TokenBucket

definition source_new :: "(f64 \<Rightarrow> f64) \<Rightarrow> UdpRateLimits \<Rightarrow> nat \<Rightarrow> SourceRateState" where
  "source_new rnd limits now =
     (let pps = u64_as_f64 rnd (max_packets_per_sec limits); bps = u64_as_f64 rnd (max_bytes_per_sec limits)
      in \<lparr>src_sessions = 0, src_packets = tb_new pps pps now, src_bytes = tb_new bps bps now\<rparr>)"

record SessionKey =
  sk_client :: SocketAddr
  sk_route :: Uuid

text \<open>\<open>us_socket\<close> is the listener through which the client is answered, \<open>us_cell\<close> the cell of its last use.\<close>

record UdpSession =
  us_session_id :: u64
  us_route :: ServerRoute
  us_client :: SocketAddr
  us_socket :: SocketAddr
  us_cell :: nat

record UdpProxy =
  up_routes :: RouteTable
  up_conns :: ConnRegistry
  up_sync :: ConfigSync
  up_listeners :: "SocketAddr list"
  up_sessions :: "(SessionKey \<times> UdpSession) list"
  up_by_id :: "u64 \<rightharpoonup> UdpSession"
  up_next_session_id :: u64
  dropped_oversized :: u64
  dropped_rate_limited :: u64
  dropped_session_limited :: u64
  up_rate_limits :: UdpRateLimits
  up_sources :: "IpAddr \<rightharpoonup> SourceRateState"
  up_idle_timeout :: nat
  up_cells :: "nat \<Rightarrow> nat"
  up_next_cell :: nat

definition udp_enabled :: "ServerRoute \<Rightarrow> bool" where
  "udp_enabled r \<longleftrightarrow> sr_enabled r \<and> sr_route_type r = RouteType.Udp"

fun bind_udp_all :: "(SocketAddr \<Rightarrow> SocketAddr option) \<Rightarrow> ServerRoute list \<Rightarrow> SocketAddr list
    \<Rightarrow> (TcpProxyError, SocketAddr list) result" where
  "bind_udp_all os_bind [] ls = Ok ls"
| "bind_udp_all os_bind (r # rs) ls =
     and_then (map_err TcpListenAddr (listen_addr r)) (\<lambda>addr.
       case os_bind addr of
         None \<Rightarrow> Err (TcpBind (sr_name r))
       | Some local \<Rightarrow> bind_udp_all os_bind rs (List.insert local ls))"

definition bind_with_limits :: "(SocketAddr \<Rightarrow> SocketAddr option) \<Rightarrow> RouteTable \<Rightarrow> ConnRegistry \<Rightarrow> ConfigSync \<Rightarrow> nat \<Rightarrow> UdpRateLimits
    \<Rightarrow> (TcpProxyError, UdpProxy) result" where
  "bind_with_limits os_bind routes conns cs idle limits =
     and_then (bind_udp_all os_bind (filter udp_enabled (rt_routes routes)) []) (\<lambda>ls.
       Ok \<lparr>up_routes = routes, up_conns = conns, up_sync = cs, up_listeners = ls, up_sessions = [],
           up_by_id = Map.empty, up_next_session_id = 0, dropped_oversized = 0, dropped_rate_limited = 0,
           dropped_session_limited = 0, up_rate_limits = limits, up_sources = Map.empty,
           up_idle_timeout = idle, up_cells = (\<lambda>_. 0), up_next_cell = 0\<rparr>)"

section \<open>Client to agent\<close>

definition touch :: "nat \<Rightarrow> UdpSession \<Rightarrow> UdpProxy \<Rightarrow> UdpProxy" where
  "touch now s up = up\<lparr>up_cells := (up_cells up)(us_cell s := now)\<rparr>"

definition source_or_new :: "(f64 \<Rightarrow> f64) \<Rightarrow> nat \<Rightarrow> IpAddr \<Rightarrow> UdpProxy \<Rightarrow> SourceRateState" where
  "source_or_new rnd now ip up =
     (case up_sources up ip of Some st \<Rightarrow> st | None \<Rightarrow> source_new rnd (up_rate_limits up) now)"

definition admit_packet :: "(f64 \<Rightarrow> f64) \<Rightarrow> nat \<Rightarrow> ServerRoute \<Rightarrow> SocketAddr \<Rightarrow> nat \<Rightarrow> UdpProxy \<Rightarrow> bool \<times> UdpProxy" where
  "admit_packet rnd now route client payload_len up =
     (let ip = sa_ip client; key = \<lparr>sk_client = client, sk_route = sr_id route\<rparr> in
      if map_of (up_sessions up) key = None
         \<and> (case up_sources up ip of Some st \<Rightarrow> src_sessions st | None \<Rightarrow> 0) \<ge> max_sessions_per_ip (up_rate_limits up)
      then (False, up\<lparr>dropped_session_limited := dropped_session_limited up + 1\<rparr>)
      else
        let st = source_or_new rnd now ip up;
            (pps_ok, packets) = try_take rnd 1 now (src_packets st);
            (bps_ok, bytes) = try_take rnd (rnd (of_nat payload_len)) now (src_bytes st);
            up1 = up\<lparr>up_sources := (up_sources up)(ip \<mapsto> st\<lparr>src_packets := packets, src_bytes := bytes\<rparr>)\<rparr>
        in if \<not> pps_ok \<or> \<not> bps_ok
           then (False, up1\<lparr>dropped_rate_limited := dropped_rate_limited up1 + 1\<rparr>)
           else (True, up1))"

definition get_or_create_session :: "(f64 \<Rightarrow> f64) \<Rightarrow> nat \<Rightarrow> SocketAddr \<Rightarrow> ServerRoute \<Rightarrow> SocketAddr \<Rightarrow> UdpProxy
    \<Rightarrow> UdpSession \<times> UdpProxy" where
  "get_or_create_session rnd now socket route client up =
     (let key = \<lparr>sk_client = client, sk_route = sr_id route\<rparr> in
      case map_of (up_sessions up) key of
        Some s \<Rightarrow> (s, up)
      | None \<Rightarrow>
          let sid = up_next_session_id up;
              s = \<lparr>us_session_id = sid, us_route = route, us_client = client, us_socket = socket, us_cell = up_next_cell up\<rparr>;
              st = source_or_new rnd now (sa_ip client) up
          in (s, up\<lparr>up_next_session_id := sid + 1,
                    up_cells := (up_cells up)(up_next_cell up := now),
                    up_next_cell := Suc (up_next_cell up),
                    up_sessions := AList.update key s (up_sessions up),
                    up_by_id := (up_by_id up)(sid \<mapsto> s),
                    up_sources := (up_sources up)(sa_ip client \<mapsto> st\<lparr>src_sessions := src_sessions st + 1\<rparr>),
                    up_sync := cs_push_message (sr_node_id route)
                      (MUdpOpen \<lparr>uo_route_id = sr_id route, uo_udp_session_id = sid, uo_client_addr = show_socket client\<rparr>)
                      (up_sync up)\<rparr>))"

text \<open>A connection to an agent, for datagrams: the size it accepts and whether sending succeeds.\<close>

record datagram_link =
  dl_max :: "nat option"
  dl_send_ok :: "bytes \<Rightarrow> bool"

datatype udp_action = SendDatagram nat bytes | SendTo SocketAddr SocketAddr bytes

definition forward_to_agent :: "(f64 \<Rightarrow> f64) \<Rightarrow> (nat \<Rightarrow> datagram_link) \<Rightarrow> nat \<times> nat \<times> nat \<Rightarrow> SocketAddr \<Rightarrow> SocketAddr \<Rightarrow> bytes
    \<Rightarrow> UdpProxy \<Rightarrow> udp_action list \<times> UdpProxy" where
  "forward_to_agent rnd links = (\<lambda>(t1, t2, t3) addr client payload up.
     case rt_lookup addr (up_routes up) of
       None \<Rightarrow> ([], up)
     | Some route \<Rightarrow>
         (case cr_get (sr_node_id route) (up_conns up) of
            None \<Rightarrow> ([], up)
          | Some conn \<Rightarrow>
              let cap = max_payload (dl_max (links conn)) in
              if length payload > cap then ([], up\<lparr>dropped_oversized := dropped_oversized up + 1\<rparr>)
              else (case admit_packet rnd t1 route client (length payload) up of
                  (False, up1) \<Rightarrow> ([], up1)
                | (True, up1) \<Rightarrow>
                    let (s, up2) = get_or_create_session rnd t2 addr route client up1;
                        data = encode_udp_datagram (us_session_id s) payload
                    in if dl_send_ok (links conn) data then ([SendDatagram conn data], touch t3 s up2)
                       else ([], up2))))"

section \<open>Agent to client, and reaping\<close>

definition handle_datagram :: "nat \<Rightarrow> bytes \<Rightarrow> UdpProxy \<Rightarrow> udp_action list \<times> UdpProxy" where
  "handle_datagram now data up =
     (case decode_udp_datagram data of
        None \<Rightarrow> ([], up)
      | Some dg \<Rightarrow>
          (case up_by_id up (dg_session_id dg) of
             None \<Rightarrow> ([], up)
           | Some s \<Rightarrow> ([SendTo (us_socket s) (us_client s) (dg_payload dg)], touch now s up)))"

definition idle_for :: "nat \<Rightarrow> UdpProxy \<Rightarrow> UdpSession \<Rightarrow> nat" where
  "idle_for now up s = now - up_cells up (us_cell s)"

definition checked_sub1 :: "u32 \<Rightarrow> u32" where
  "checked_sub1 n = (if n = 0 then n else n - 1)"

definition session_key :: "UdpSession \<Rightarrow> SessionKey" where
  "session_key s = \<lparr>sk_client = us_client s, sk_route = sr_id (us_route s)\<rparr>"

definition reap_one :: "UdpSession \<Rightarrow> UdpProxy \<Rightarrow> UdpProxy" where
  "reap_one s up =
     up\<lparr>up_sessions := AList.delete (session_key s) (up_sessions up),
        up_by_id := (up_by_id up)(us_session_id s := None),
        up_sources := (case up_sources up (sa_ip (us_client s)) of
            Some st \<Rightarrow> (up_sources up)(sa_ip (us_client s) \<mapsto> st\<lparr>src_sessions := checked_sub1 (src_sessions st)\<rparr>)
          | None \<Rightarrow> up_sources up),
        up_sync := cs_push_message (sr_node_id (us_route s)) (MUdpClose \<lparr>uc_udp_session_id = us_session_id s\<rparr>) (up_sync up)\<rparr>"

definition retain_sources :: "UdpProxy \<Rightarrow> UdpProxy" where
  "retain_sources up =
     up\<lparr>up_sources := (\<lambda>ip. case up_sources up ip of Some st \<Rightarrow> if src_sessions st > 0 then Some st else None | None \<Rightarrow> None)\<rparr>"

definition expired_sessions :: "nat \<Rightarrow> UdpProxy \<Rightarrow> UdpSession list" where
  "expired_sessions now up = filter (\<lambda>s. idle_for now up s > up_idle_timeout up) (map snd (up_sessions up))"

definition reap_expired :: "(UdpSession list \<Rightarrow> UdpSession list) \<Rightarrow> nat \<Rightarrow> UdpProxy \<Rightarrow> UdpProxy" where
  "reap_expired order now up = retain_sources (fold reap_one (order (expired_sessions now up)) up)"

section \<open>The agent side\<close>

text \<open>A session of the agent is a socket connected to its target.\<close>

type_synonym UdpSessions = "(u64 \<times> SocketAddr) list"

definition resolve_udp :: "(string \<Rightarrow> u16 \<Rightarrow> SocketAddr list option) \<Rightarrow> string \<Rightarrow> u16 \<Rightarrow> SocketAddr option" where
  "resolve_udp lookup_host host port =
     (case lookup_host host port of Some (a # _) \<Rightarrow> Some a | _ \<Rightarrow> None)"

definition udp_open :: "(string \<Rightarrow> u16 \<Rightarrow> SocketAddr list option) \<Rightarrow> bool \<Rightarrow> (SocketAddr \<Rightarrow> bool) \<Rightarrow> u64 \<Rightarrow> RouteConfig
    \<Rightarrow> UdpSessions \<Rightarrow> UdpSessions" where
  "udp_open lookup_host bind_ok connect_ok sid route us =
     (if map_of us sid \<noteq> None then us
      else case resolve_udp lookup_host (rc_target_host route) (rc_target_port route) of
        None \<Rightarrow> us
      | Some addr \<Rightarrow> if \<not> bind_ok then us else if \<not> connect_ok addr then us else AList.update sid addr us)"

definition udp_close :: "u64 \<Rightarrow> UdpSessions \<Rightarrow> UdpSessions" where
  "udp_close sid us = AList.delete sid us"

definition udp_handle_datagram :: "bytes \<Rightarrow> UdpSessions \<Rightarrow> (SocketAddr \<times> bytes) option" where
  "udp_handle_datagram data us =
     (case decode_udp_datagram data of
        None \<Rightarrow> None
      | Some dg \<Rightarrow> map_option (\<lambda>target. (target, dg_payload dg)) (map_of us (dg_session_id dg)))"

definition udp_close_all :: "UdpSessions \<Rightarrow> UdpSessions" where
  "udp_close_all us = fold udp_close (map fst us) us"

text \<open>The reply loop of a session: what each receive from the target sends to the server, up to the first
  error.\<close>

fun udp_recv_loop :: "u64 \<Rightarrow> (bytes \<Rightarrow> bool) \<Rightarrow> reads \<Rightarrow> bytes list" where
  "udp_recv_loop sid send_ok [] = []"
| "udp_recv_loop sid send_ok (Inl e # rs) = []"
| "udp_recv_loop sid send_ok (Inr p # rs) =
     (let data = encode_udp_datagram sid p in
      if send_ok data then data # udp_recv_loop sid send_ok rs else [])"

section \<open>Consistency of the session tables\<close>

definition sessions_from :: "IpAddr \<Rightarrow> UdpProxy \<Rightarrow> nat" where
  "sessions_from ip up = length (filter (\<lambda>e. sa_ip (us_client (snd e)) = ip) (up_sessions up))"

definition source_count :: "IpAddr \<Rightarrow> UdpProxy \<Rightarrow> nat" where
  "source_count ip up = (case up_sources up ip of Some st \<Rightarrow> unat (src_sessions st) | None \<Rightarrow> 0)"

text \<open>Both tables hold the same sessions, the per-source counters are the true numbers of sessions and none is
  above the limit.\<close>

definition udp_consistent :: "UdpProxy \<Rightarrow> bool" where
  "udp_consistent up \<longleftrightarrow>
     distinct (map fst (up_sessions up))
     \<and> (\<forall>(k, s) \<in> set (up_sessions up). k = session_key s \<and> up_by_id up (us_session_id s) = Some s)
     \<and> (\<forall>i s. up_by_id up i = Some s \<longrightarrow> us_session_id s = i \<and> (session_key s, s) \<in> set (up_sessions up))
     \<and> (\<forall>ip. source_count ip up = sessions_from ip up)
     \<and> (\<forall>ip. sessions_from ip up \<le> unat (max_sessions_per_ip (up_rate_limits up)))"

text \<open>Session identifiers and cells in use are older than the next ones; \<open>n\<close> bounds the sessions opened so far.\<close>

definition udp_fresh :: "nat \<Rightarrow> UdpProxy \<Rightarrow> bool" where
  "udp_fresh n up \<longleftrightarrow>
     unat (up_next_session_id up) \<le> n
     \<and> (\<forall>(k, s) \<in> set (up_sessions up). us_session_id s < up_next_session_id up \<and> us_cell s < up_next_cell up)
     \<and> distinct (map (us_cell \<circ> snd) (up_sessions up))"

lemma udp_consistentD:
  assumes "udp_consistent up"
  shows "distinct (map fst (up_sessions up))"
    "(k, s) \<in> set (up_sessions up) \<Longrightarrow> k = session_key s"
    "(k, s) \<in> set (up_sessions up) \<Longrightarrow> up_by_id up (us_session_id s) = Some s"
    "up_by_id up i = Some s \<Longrightarrow> us_session_id s = i"
    "up_by_id up i = Some s \<Longrightarrow> (session_key s, s) \<in> set (up_sessions up)"
    "source_count ip up = sessions_from ip up"
    "sessions_from ip up \<le> unat (max_sessions_per_ip (up_rate_limits up))"
  using assms by (auto simp: udp_consistent_def)

lemma udp_consistentI:
  assumes "distinct (map fst (up_sessions up))"
    and "\<And>k s. (k, s) \<in> set (up_sessions up) \<Longrightarrow> k = session_key s \<and> up_by_id up (us_session_id s) = Some s"
    and "\<And>i s. up_by_id up i = Some s \<Longrightarrow> us_session_id s = i \<and> (session_key s, s) \<in> set (up_sessions up)"
    and "\<And>ip. source_count ip up = sessions_from ip up"
    and "\<And>ip. sessions_from ip up \<le> unat (max_sessions_per_ip (up_rate_limits up))"
  shows "udp_consistent up"
  using assms unfolding udp_consistent_def by blast

text \<open>A change that keeps the tables, the limits and the counts keeps consistency.\<close>

lemma udp_consistent_cong:
  assumes "udp_consistent up" "up_sessions up' = up_sessions up" "up_by_id up' = up_by_id up"
    "up_rate_limits up' = up_rate_limits up" "\<And>ip. source_count ip up' = source_count ip up"
  shows "udp_consistent up'"
  using assms unfolding udp_consistent_def sessions_from_def by simp

lemma udp_fresh_cong:
  "udp_fresh n up \<Longrightarrow> up_sessions up' = up_sessions up \<Longrightarrow> up_next_session_id up' = up_next_session_id up
     \<Longrightarrow> up_next_cell up' = up_next_cell up \<Longrightarrow> udp_fresh n up'"
  by (simp add: udp_fresh_def)

definition udp_tables :: "UdpProxy \<Rightarrow> _" where
  "udp_tables up = (up_sessions up, up_by_id up, up_rate_limits up, up_next_session_id up, up_next_cell up, up_cells up)"

lemma source_or_new_count [simp]: "unat (src_sessions (source_or_new rnd now ip up)) = source_count ip up"
  by (simp add: source_or_new_def source_count_def source_new_def Let_def split: option.split)

lemma source_count_upd:
  "source_count ip (up\<lparr>up_sources := (up_sources up)(j \<mapsto> st)\<rparr>) = (if ip = j then unat (src_sessions st) else source_count ip up)"
  by (simp add: source_count_def)

lemma admit_packet_keeps:
  assumes "admit_packet rnd now route client len up = (ok, up')"
  shows "udp_tables up' = udp_tables up" "source_count ip up' = source_count ip up"
    "up_routes up' = up_routes up" "up_conns up' = up_conns up"
    "ok \<Longrightarrow> map_of (up_sessions up) \<lparr>sk_client = client, sk_route = sr_id route\<rparr> = None \<Longrightarrow>
       source_count (sa_ip client) up < unat (max_sessions_per_ip (up_rate_limits up))"
  using assms source_or_new_count [of rnd now "sa_ip client" up]
  by (auto simp: admit_packet_def udp_tables_def source_count_def Let_def word_less_nat_alt not_le
      split: if_splits prod.splits option.splits simp del: source_or_new_count)

lemma admit_packet_consistent:
  "admit_packet rnd now route client len up = (ok, up') \<Longrightarrow> udp_consistent up \<Longrightarrow> udp_fresh n up \<Longrightarrow>
     udp_consistent up' \<and> udp_fresh n up'"
  using admit_packet_keeps [of rnd now route client len up ok up']
  by (auto simp: udp_tables_def intro: udp_consistent_cong udp_fresh_cong)

lemma update_fresh: "map_of xs k = None \<Longrightarrow> AList.update k v xs = xs @ [(k, v)]"
  by (induction xs) (auto split: if_splits)

text \<open>Looking up or creating a session.\<close>

lemma create_session:
  assumes c: "udp_consistent up" "udp_fresh n up" and n: "Suc n < 2 ^ 64"
    and room: "source_count (sa_ip client) up < unat (max_sessions_per_ip (up_rate_limits up))"
    and new: "map_of (up_sessions up) \<lparr>sk_client = client, sk_route = sr_id route\<rparr> = None"
    and g: "get_or_create_session rnd now sock route client up = (s, up')"
  shows "udp_consistent up'" "udp_fresh (Suc n) up'" "up_by_id up' (us_session_id s) = Some s" "us_client s = client"
proof -
  define key where "key = \<lparr>sk_client = client, sk_route = sr_id route\<rparr>"
  let ?sid = "up_next_session_id up" and ?max = "max_sessions_per_ip (up_rate_limits up)"
  have s: "s = \<lparr>us_session_id = ?sid, us_route = route, us_client = client, us_socket = sock, us_cell = up_next_cell up\<rparr>"
    and tabs: "up_sessions up' = up_sessions up @ [(key, s)]" "up_by_id up' = (up_by_id up)(?sid \<mapsto> s)"
      "up_next_session_id up' = ?sid + 1" "up_next_cell up' = Suc (up_next_cell up)" "up_rate_limits up' = up_rate_limits up"
    and srcs: "up_sources up' = (up_sources up)(sa_ip client \<mapsto> (source_or_new rnd now (sa_ip client) up)
        \<lparr>src_sessions := src_sessions (source_or_new rnd now (sa_ip client) up) + 1\<rparr>)"
    using g new by (auto simp: get_or_create_session_def Let_def key_def update_fresh)
  have key: "session_key s = key" by (simp add: s session_key_def key_def)
  have unused: "up_by_id up ?sid = None"
  proof (rule ccontr)
    assume "up_by_id up ?sid \<noteq> None"
    then obtain t where "up_by_id up ?sid = Some t" by auto
    with udp_consistentD(4,5) [OF c(1) this] c(2) show False by (auto simp: udp_fresh_def)
  qed
  have old: "i \<noteq> ?sid" if "up_by_id up i = Some t" for i t using unused that by auto
  have next_id: "unat (?sid + 1) = Suc (unat ?sid)"
    using c(2) n by (intro unat_inc) (auto simp: udp_fresh_def)
  have cnt: "source_count ip up' = (if ip = sa_ip client then Suc (source_count ip up) else source_count ip up)" for ip
    using room unsigned_less [of ?max, where 'a = nat]
    by (auto simp: source_count_def [of _ up'] srcs unat_word_ariths) (simp_all add: source_count_def)
  have from_ip: "sessions_from ip up' = (if ip = sa_ip client then Suc (sessions_from ip up) else sessions_from ip up)" for ip
    by (simp add: sessions_from_def tabs s)
  show "udp_consistent up'"
  proof (rule udp_consistentI)
    show "distinct (map fst (up_sessions up'))"
      using udp_consistentD(1) [OF c(1)] new by (auto simp: tabs key_def map_of_eq_None_iff)
  next
    fix k t assume "(k, t) \<in> set (up_sessions up')"
    then have "(k, t) \<in> set (up_sessions up) \<or> k = key \<and> t = s" by (auto simp: tabs)
    then show "k = session_key t \<and> up_by_id up' (us_session_id t) = Some t"
      using udp_consistentD(2,3) [OF c(1), of k t] key unused old [of "us_session_id t" t] by (auto simp: tabs(2) s)
  next
    fix i t assume i: "up_by_id up' i = Some t"
    show "us_session_id t = i \<and> (session_key t, t) \<in> set (up_sessions up')"
    proof (cases "i = ?sid")
      case True
      then have "t = s" using i by (simp add: tabs(2))
      then show ?thesis using True key by (simp add: tabs(1)) (simp add: s)
    next
      case False
      then have "up_by_id up i = Some t" using i by (simp add: tabs(2))
      from udp_consistentD(4,5) [OF c(1) this] show ?thesis by (simp add: tabs(1))
    qed
  next
    fix ip
    show "source_count ip up' = sessions_from ip up'" using udp_consistentD(6) [OF c(1)] by (simp add: cnt from_ip)
    show "sessions_from ip up' \<le> unat (max_sessions_per_ip (up_rate_limits up'))"
      using room udp_consistentD(6,7) [OF c(1)] by (auto simp: from_ip tabs(5) Suc_le_eq)
  qed
  show "udp_fresh (Suc n) up'"
    using c(2) next_id by (auto simp: udp_fresh_def tabs s word_less_nat_alt less_Suc_eq)
  show "up_by_id up' (us_session_id s) = Some s" "us_client s = client" by (simp_all add: tabs s)
qed

lemma found_session:
  assumes "udp_consistent up" "map_of (up_sessions up) \<lparr>sk_client = client, sk_route = sr_id route\<rparr> \<noteq> None"
    and "get_or_create_session rnd now sock route client up = (s, up')"
  shows "up' = up" "up_by_id up (us_session_id s) = Some s" "us_client s = client"
proof -
  from assms(2,3) have m: "map_of (up_sessions up) \<lparr>sk_client = client, sk_route = sr_id route\<rparr> = Some s" "up' = up"
    by (auto simp: get_or_create_session_def Let_def)
  then show "up' = up" by simp
  from map_of_SomeD [OF m(1)] show "up_by_id up (us_session_id s) = Some s" "us_client s = client"
    using udp_consistentD(2,3) [OF assms(1)] by (auto simp: session_key_def)
qed

lemma touch_consistent [simp]: "udp_consistent (touch now s up) = udp_consistent up" "udp_fresh n (touch now s up) = udp_fresh n up"
  by (simp_all add: touch_def udp_consistent_def udp_fresh_def sessions_from_def source_count_def)

lemma udp_fresh_mono: "udp_fresh n up \<Longrightarrow> n \<le> m \<Longrightarrow> udp_fresh m up"
  by (simp add: udp_fresh_def)

lemma forward_to_agent_cases:
  assumes "forward_to_agent rnd links (t1, t2, t3) addr client pl up = (acts, up')"
  obtains (dropped) "acts = []" "udp_tables up' = udp_tables up" "\<And>ip. source_count ip up' = source_count ip up"
  | (served) route conn up1 s up2 where "rt_lookup addr (up_routes up) = Some route"
      "cr_get (sr_node_id route) (up_conns up) = Some conn" "length pl \<le> max_payload (dl_max (links conn))"
      "admit_packet rnd t1 route client (length pl) up = (True, up1)"
      "get_or_create_session rnd t2 addr route client up1 = (s, up2)"
      "acts = [] \<and> up' = up2 \<or> acts = [SendDatagram conn (encode_udp_datagram (us_session_id s) pl)] \<and> up' = touch t3 s up2"
proof (cases "rt_lookup addr (up_routes up)")
  case None
  with assms show ?thesis by (intro dropped) (simp_all add: forward_to_agent_def)
next
  case (Some route)
  note r = Some
  show ?thesis
  proof (cases "cr_get (sr_node_id route) (up_conns up)")
    case None
    with assms r show ?thesis by (intro dropped) (simp_all add: forward_to_agent_def)
  next
    case (Some conn)
    note cn = Some
    obtain ok up1 where a: "admit_packet rnd t1 route client (length pl) up = (ok, up1)" by fastforce
    obtain s up2 where gs: "get_or_create_session rnd t2 addr route client up1 = (s, up2)" by fastforce
    show ?thesis
    proof (cases "length pl \<le> max_payload (dl_max (links conn)) \<and> ok")
      case True
      then show ?thesis
        using served [of route conn up1 s up2] assms r cn a gs
        by (cases "dl_send_ok (links conn) (encode_udp_datagram (us_session_id s) pl)")
          (auto simp: forward_to_agent_def Let_def)
    next
      case False
      then show ?thesis
        using dropped assms r cn a admit_packet_keeps(1,2) [OF a]
        by (auto simp: forward_to_agent_def Let_def udp_tables_def source_count_def split: if_splits)
    qed
  qed
qed

text \<open>Removing one session.\<close>

lemma length_filter_delete:
  "distinct (map fst xs) \<Longrightarrow> (k, v) \<in> set xs \<Longrightarrow>
     length (filter (\<lambda>e. P (snd e)) xs) = (if P v then 1 else 0) + length (filter (\<lambda>e. P (snd e)) (AList.delete k xs))"
proof (induction xs)
  case (Cons x xs)
  show ?case
  proof (cases "x = (k, v)")
    case True
    then have "AList.delete k xs = xs" using Cons.prems(1) by (simp add: AList.delete_idem)
    with True show ?thesis by simp
  next
    case False
    then have "(k, v) \<in> set xs" "fst x \<noteq> k" using Cons.prems by (auto simp: rev_image_eqI)
    then show ?thesis using Cons.IH Cons.prems(1) by (cases x) auto
  qed
qed simp

lemma checked_sub1_unat: "unat (checked_sub1 n) = unat n - 1"
  by (auto simp: checked_sub1_def unat_minus_one)

lemma reap_one_consistent:
  assumes c: "udp_consistent up" and s: "s \<in> snd ` set (up_sessions up)"
  shows "udp_consistent (reap_one s up)"
proof -
  have mem: "(session_key s, s) \<in> set (up_sessions up)"
    using s udp_consistentD(2) [OF c] by force
  have sess: "up_sessions (reap_one s up) = AList.delete (session_key s) (up_sessions up)"
    and ids: "up_by_id (reap_one s up) = (up_by_id up)(us_session_id s := None)"
    and lim: "up_rate_limits (reap_one s up) = up_rate_limits up"
    by (simp_all add: reap_one_def)
  have other: "us_session_id t \<noteq> us_session_id s" if "(k, t) \<in> set (up_sessions up)" "k \<noteq> session_key s" for k t
    using udp_consistentD(2,3) [OF c that(1)] udp_consistentD(3) [OF c mem] that(2) by (metis option.inject)
  have from_ip: "sessions_from ip up = (if sa_ip (us_client s) = ip then 1 else 0) + sessions_from ip (reap_one s up)" for ip
    unfolding sessions_from_def sess
    using length_filter_delete [OF udp_consistentD(1) [OF c] mem, of "\<lambda>s. sa_ip (us_client s) = ip"] by simp
  have cnt: "source_count ip (reap_one s up) = source_count ip up - (if sa_ip (us_client s) = ip then 1 else 0)" for ip
    by (auto simp: source_count_def reap_one_def checked_sub1_unat split: option.splits)
  show ?thesis
  proof (rule udp_consistentI, unfold sess ids lim)
    show "distinct (map fst (AList.delete (session_key s) (up_sessions up)))"
      using udp_consistentD(1) [OF c] by (rule distinct_delete)
  next
    fix k t assume "(k, t) \<in> set (AList.delete (session_key s) (up_sessions up))"
    then have "(k, t) \<in> set (up_sessions up)" "k \<noteq> session_key s" by (auto simp: AList.delete_eq)
    then show "k = session_key t \<and> ((up_by_id up)(us_session_id s := None)) (us_session_id t) = Some t"
      using udp_consistentD(2,3) [OF c] other by auto
  next
    fix i t assume "((up_by_id up)(us_session_id s := None)) i = Some t"
    then have i: "up_by_id up i = Some t" "i \<noteq> us_session_id s" by (auto split: if_splits)
    have "session_key t \<noteq> session_key s"
      using udp_consistentD(4,5) [OF c i(1)] mem i(2) udp_consistentD(1) [OF c] by (metis eq_key_imp_eq_value)
    then show "us_session_id t = i \<and> (session_key t, t) \<in> set (AList.delete (session_key s) (up_sessions up))"
      using udp_consistentD(4,5) [OF c i(1)] by (simp add: AList.delete_eq)
  next
    fix ip
    show "source_count ip (reap_one s up) = sessions_from ip (reap_one s up)"
      using udp_consistentD(6) [OF c, of ip] from_ip [of ip] cnt [of ip] by simp
    show "sessions_from ip (reap_one s up) \<le> unat (max_sessions_per_ip (up_rate_limits up))"
      using udp_consistentD(7) [OF c, of ip] from_ip [of ip] by simp
  qed
qed

lemma reap_one_sessions: "set (up_sessions (reap_one s up)) = {(k, t) \<in> set (up_sessions up). k \<noteq> session_key s}"
  by (auto simp: reap_one_def AList.delete_eq)

lemma reap_one_fresh: "udp_fresh n up \<Longrightarrow> udp_fresh n (reap_one s up)"
proof -
  assume f: "udp_fresh n up"
  then have "distinct (map (us_cell \<circ> snd) (AList.delete (session_key s) (up_sessions up)))"
    by (simp add: udp_fresh_def AList.delete_eq distinct_map_filter)
  with f show ?thesis by (auto simp: udp_fresh_def reap_one_def AList.delete_eq)
qed

lemma reap_fold:
  assumes "udp_consistent up" "udp_fresh n up" "set ss \<subseteq> snd ` set (up_sessions up)" "distinct ss"
  shows "udp_consistent (fold reap_one ss up) \<and> udp_fresh n (fold reap_one ss up)
     \<and> set (up_sessions (fold reap_one ss up)) = {(k, t) \<in> set (up_sessions up). t \<notin> set ss}"
  using assms
proof (induction ss arbitrary: up)
  case (Cons s ss)
  have c: "udp_consistent (reap_one s up)" using Cons.prems by (intro reap_one_consistent) auto
  have key: "k = session_key s \<longleftrightarrow> t = s" if "(k, t) \<in> set (up_sessions up)" for k t
  proof -
    have "(session_key s, s) \<in> set (up_sessions up)"
      using Cons.prems(1,3) udp_consistentD(2) [OF Cons.prems(1)] by force
    then show ?thesis
      using that udp_consistentD(1,2) [OF Cons.prems(1)] by (metis eq_key_imp_eq_value)
  qed
  have sub: "set ss \<subseteq> snd ` set (up_sessions (reap_one s up))"
  proof
    fix t assume t: "t \<in> set ss"
    then obtain k where k: "(k, t) \<in> set (up_sessions up)" using Cons.prems(3) by force
    moreover have "t \<noteq> s" using t Cons.prems(4) by auto
    ultimately have "(k, t) \<in> set (up_sessions (reap_one s up))" using key by (auto simp: reap_one_sessions)
    then show "t \<in> snd ` set (up_sessions (reap_one s up))" by force
  qed
  from Cons.IH [OF c reap_one_fresh [OF Cons.prems(2)] sub] Cons.prems(4) show ?case
    using key by (auto simp: reap_one_sessions)
qed auto

lemma retain_sources_consistent [simp]: "udp_consistent (retain_sources up) = udp_consistent up"
    "udp_fresh n (retain_sources up) = udp_fresh n up" "up_sessions (retain_sources up) = up_sessions up"
proof -
  have "source_count ip (retain_sources up) = source_count ip up" for ip
    by (auto simp: retain_sources_def source_count_def word_gt_0 split: option.splits)
  then show "udp_consistent (retain_sources up) = udp_consistent up" "udp_fresh n (retain_sources up) = udp_fresh n up"
    "up_sessions (retain_sources up) = up_sessions up"
    by (simp_all add: udp_consistent_def udp_fresh_def sessions_from_def) (simp_all add: retain_sources_def)
qed

lemma distinct_sessions: "udp_consistent up \<Longrightarrow> distinct (map snd (up_sessions up))"
proof -
  assume c: "udp_consistent up"
  have "map fst (up_sessions up) = map session_key (map snd (up_sessions up))"
    using udp_consistentD(2) [OF c] by (auto simp: comp_def intro: map_cong)
  then show ?thesis using udp_consistentD(1) [OF c] by (metis distinct_map)
qed

lemma reap_expired_effect:
  assumes "udp_consistent up" "udp_fresh n up" "\<forall>xs. mset (order xs) = mset xs"
  shows "udp_consistent (reap_expired order now up)" "udp_fresh n (reap_expired order now up)"
    "set (up_sessions (reap_expired order now up))
       = {(k, s) \<in> set (up_sessions up). idle_for now up s \<le> up_idle_timeout up}"
proof -
  have o: "set (order xs) = set xs" "distinct (order xs) = distinct xs" for xs
    using assms(3) by (metis mset_eq_setD, metis mset_eq_imp_distinct_iff)
  have "set (order (expired_sessions now up)) \<subseteq> snd ` set (up_sessions up)" "distinct (order (expired_sessions now up))"
    using distinct_sessions [OF assms(1)] by (auto simp: o expired_sessions_def)
  note r = reap_fold [OF assms(1,2) this]
  show "udp_consistent (reap_expired order now up)" "udp_fresh n (reap_expired order now up)"
    using r by (simp_all add: reap_expired_def)
  show "set (up_sessions (reap_expired order now up))
      = {(k, s) \<in> set (up_sessions up). idle_for now up s \<le> up_idle_timeout up}"
    using r by (auto simp: reap_expired_def o expired_sessions_def not_less) force+
qed

section \<open>Rate bound of the token bucket\<close>

text \<open>A run of requests \<open>(amount, instant)\<close>; the result is the total amount granted.\<close>

fun bucket_run :: "(f64 \<Rightarrow> f64) \<Rightarrow> (f64 \<times> nat) list \<Rightarrow> TokenBucket \<Rightarrow> f64 \<times> TokenBucket" where
  "bucket_run rnd [] b = (0, b)"
| "bucket_run rnd ((n, now) # reqs) b =
     (let (ok, b1) = try_take rnd n now b; (total, b2) = bucket_run rnd reqs b1
      in ((if ok then n else 0) + total, b2))"

definition seconds :: "nat \<Rightarrow> f64" where
  "seconds ns = of_nat ns / of_nat NANOS_PER_SEC"

text \<open>Rounding with relative error at most \<open>eps\<close>; for 64-bit floats \<open>eps = 2 ^ -53\<close>.\<close>

definition rounding :: "f64 \<Rightarrow> (f64 \<Rightarrow> f64) \<Rightarrow> bool" where
  "rounding eps rnd \<longleftrightarrow> 0 \<le> eps \<and> eps \<le> 1 \<and> (\<forall>x\<ge>0. \<bar>rnd x - x\<bar> \<le> eps * x)"

lemma rounding_bounds:
  assumes "rounding eps rnd" "0 \<le> x"
  shows "0 \<le> rnd x" "rnd x \<le> (1 + eps) * x"
proof -
  have e: "\<bar>rnd x - x\<bar> \<le> eps * x" "eps * x \<le> x" using assms by (auto simp: rounding_def intro: mult_left_le_one_le)
  then show "0 \<le> rnd x" "rnd x \<le> (1 + eps) * x" by (auto simp: algebra_simps abs_le_iff)
qed

lemma seconds_split: "of_nat (ns div NANOS_PER_SEC) + of_nat (ns mod NANOS_PER_SEC) / of_nat NANOS_PER_SEC = seconds ns"
proof -
  have "(of_nat ns :: rat) = of_nat (ns div NANOS_PER_SEC) * of_nat NANOS_PER_SEC + of_nat (ns mod NANOS_PER_SEC)"
    by (metis div_mult_mod_eq of_nat_add of_nat_mult)
  moreover have "(of_nat NANOS_PER_SEC :: rat) \<noteq> 0" by (simp add: NANOS_PER_SEC_def)
  ultimately show ?thesis by (simp add: seconds_def add_divide_distrib)
qed

lemma as_secs_f64_bounds:
  assumes "rounding eps rnd"
  shows "0 \<le> as_secs_f64 rnd ns" "as_secs_f64 rnd ns \<le> (1 + eps) ^ 2 * seconds ns"
proof -
  let ?a = "of_nat (ns div NANOS_PER_SEC) :: rat" and ?b = "of_nat (ns mod NANOS_PER_SEC) / of_nat NANOS_PER_SEC :: rat"
  have ab: "0 \<le> ?a" "0 \<le> ?b" by simp_all
  note r = rounding_bounds [OF assms]
  have sum: "0 \<le> rnd ?a + rnd ?b" "rnd ?a + rnd ?b \<le> (1 + eps) * seconds ns"
    using r(1) [OF ab(1)] r(1) [OF ab(2)] r(2) [OF ab(1)] r(2) [OF ab(2)]
    unfolding seconds_split [symmetric] distrib_left by simp_all
  show "0 \<le> as_secs_f64 rnd ns" unfolding as_secs_f64_def by (rule r(1) [OF sum(1)])
  have "as_secs_f64 rnd ns \<le> (1 + eps) * (rnd ?a + rnd ?b)" unfolding as_secs_f64_def by (rule r(2) [OF sum(1)])
  also have "\<dots> \<le> (1 + eps) * ((1 + eps) * seconds ns)"
    using assms sum(2) by (intro mult_left_mono) (simp_all add: rounding_def)
  finally show "as_secs_f64 rnd ns \<le> (1 + eps) ^ 2 * seconds ns" by (simp add: power2_eq_square algebra_simps)
qed

definition bucket_ok :: "f64 \<Rightarrow> TokenBucket \<Rightarrow> bool" where
  "bucket_ok eps b \<longleftrightarrow> 0 \<le> tb_refill_per_sec b \<and> 0 \<le> tb_capacity b \<and> 0 \<le> tb_tokens b \<and> tb_tokens b \<le> (1 + eps) * tb_capacity b"

text \<open>One request: what is granted plus what is left exceeds what was there by at most the refill and the
  rounding error.\<close>

lemma try_take_potential:
  assumes r: "rounding eps rnd" and b: "bucket_ok eps b" and n: "0 \<le> n" and t: "try_take rnd n now b = (ok, b')"
  shows "bucket_ok eps b' \<and> tb_capacity b' = tb_capacity b \<and> tb_refill_per_sec b' = tb_refill_per_sec b \<and> tb_last b' = now
     \<and> (if ok then n else 0) + tb_tokens b' \<le> tb_tokens b + (1 + eps) ^ 4 * tb_refill_per_sec b * seconds (now - tb_last b)
         + 3 * eps * tb_capacity b"
proof -
  let ?cap = "tb_capacity b" and ?s = "seconds (now - tb_last b)"
  define gain where "gain = rnd (as_secs_f64 rnd (now - tb_last b) * tb_refill_per_sec b)"
  define tokens where "tokens = min (rnd (tb_tokens b + gain)) ?cap"
  have e: "0 \<le> eps" "eps \<le> 1" and pos: "0 \<le> tb_refill_per_sec b" "0 \<le> ?cap" "0 \<le> tb_tokens b" "tb_tokens b \<le> (1 + eps) * ?cap"
    using r b by (auto simp: rounding_def bucket_ok_def)
  note sec = as_secs_f64_bounds [OF r, of "now - tb_last b"]
  have sec_refill: "0 \<le> as_secs_f64 rnd (now - tb_last b) * tb_refill_per_sec b" using sec(1) pos(1) by simp
  have gain: "0 \<le> gain" "gain \<le> (1 + eps) ^ 3 * (tb_refill_per_sec b * ?s)"
  proof -
    show "0 \<le> gain" unfolding gain_def by (rule rounding_bounds(1) [OF r sec_refill])
    have "gain \<le> (1 + eps) * (as_secs_f64 rnd (now - tb_last b) * tb_refill_per_sec b)"
      unfolding gain_def by (rule rounding_bounds(2) [OF r sec_refill])
    also have "\<dots> \<le> (1 + eps) * ((1 + eps) ^ 2 * ?s * tb_refill_per_sec b)"
      using e pos(1) sec(2) by (intro mult_left_mono mult_right_mono) simp_all
    finally show "gain \<le> (1 + eps) ^ 3 * (tb_refill_per_sec b * ?s)" by (simp add: power3_eq_cube power2_eq_square algebra_simps)
  qed
  have tok_nonneg: "0 \<le> tb_tokens b + gain" using pos(3) gain(1) by simp
  have tok: "0 \<le> tokens" "tokens \<le> ?cap" "tokens \<le> tb_tokens b + 2 * eps * ?cap + (1 + eps) ^ 4 * tb_refill_per_sec b * ?s"
  proof -
    show "0 \<le> tokens" "tokens \<le> ?cap" using rounding_bounds(1) [OF r tok_nonneg] pos(2) by (simp_all add: tokens_def)
    have "tokens \<le> rnd (tb_tokens b + gain)" by (simp add: tokens_def)
    also have "\<dots> \<le> (1 + eps) * (tb_tokens b + gain)" by (rule rounding_bounds(2) [OF r tok_nonneg])
    also have "\<dots> = tb_tokens b + eps * tb_tokens b + (1 + eps) * gain" by (simp add: algebra_simps)
    also have "\<dots> \<le> tb_tokens b + 2 * eps * ?cap + (1 + eps) * ((1 + eps) ^ 3 * (tb_refill_per_sec b * ?s))"
    proof -
      have "eps * tb_tokens b \<le> eps * (2 * ?cap)"
        using e pos mult_right_mono [of "1 + eps" 2 ?cap] by (intro mult_left_mono) simp_all
      moreover have "(1 + eps) * gain \<le> (1 + eps) * ((1 + eps) ^ 3 * (tb_refill_per_sec b * ?s))"
        using e gain(2) by (intro mult_left_mono) simp_all
      ultimately show ?thesis by simp
    qed
    also have "(1 + eps) * ((1 + eps) ^ 3 * (tb_refill_per_sec b * ?s)) = (1 + eps) ^ 4 * tb_refill_per_sec b * ?s"
      by (simp add: power4_eq_xxxx power3_eq_cube algebra_simps)
    finally show "tokens \<le> tb_tokens b + 2 * eps * ?cap + (1 + eps) ^ 4 * tb_refill_per_sec b * ?s" .
  qed
  have ec: "0 \<le> eps * ?cap" using e pos(2) by simp
  show ?thesis
  proof (cases "n \<le> tokens")
    case True
    then have d: "0 \<le> tokens - n" by simp
    have left: "0 \<le> rnd (tokens - n)" "rnd (tokens - n) \<le> tokens - n + eps * ?cap"
    proof -
      show "0 \<le> rnd (tokens - n)" by (rule rounding_bounds(1) [OF r d])
      have "rnd (tokens - n) \<le> (1 + eps) * (tokens - n)" by (rule rounding_bounds(2) [OF r d])
      also have "\<dots> = tokens - n + eps * (tokens - n)" by (simp add: algebra_simps)
      also have "eps * (tokens - n) \<le> eps * ?cap" using e tok(2) n by (intro mult_left_mono) simp_all
      finally show "rnd (tokens - n) \<le> tokens - n + eps * ?cap" by simp
    qed
    have res: "ok" "b' = b\<lparr>tb_tokens := rnd (tokens - n), tb_last := now\<rparr>"
      using t True by (auto simp: try_take_def tokens_def gain_def Let_def)
    show ?thesis using left tok n ec pos by (simp add: res bucket_ok_def algebra_simps)
  next
    case False
    then have res: "\<not> ok" "b' = b\<lparr>tb_tokens := tokens, tb_last := now\<rparr>"
      using t by (auto simp: try_take_def tokens_def gain_def Let_def)
    show ?thesis using tok ec pos by (simp add: res bucket_ok_def algebra_simps)
  qed
qed

lemma bucket_run_bound:
  assumes "rounding eps rnd" "bucket_ok eps b" "\<forall>(n, t) \<in> set reqs. 0 \<le> n" "sorted (tb_last b # map snd reqs)"
  shows "fst (bucket_run rnd reqs b) \<le> tb_tokens b
     + (1 + eps) ^ 4 * tb_refill_per_sec b * seconds (last (tb_last b # map snd reqs) - tb_last b)
     + of_nat (length reqs) * (3 * eps * tb_capacity b)"
  using assms(2-4)
proof (induction reqs arbitrary: b)
  case Nil
  then show ?case by (simp add: bucket_ok_def seconds_def)
next
  case (Cons req reqs)
  obtain n now where req: "req = (n, now)" by (cases req)
  obtain ok b1 where t: "try_take rnd n now b = (ok, b1)" by fastforce
  have "0 \<le> n" using Cons.prems(2) req by simp
  note p = try_take_potential [OF assms(1) Cons.prems(1) this t]
  have sorted: "sorted (tb_last b1 # map snd reqs)" "tb_last b \<le> now" using Cons.prems(3) p req by auto
  have ih: "fst (bucket_run rnd reqs b1) \<le> tb_tokens b1
      + (1 + eps) ^ 4 * tb_refill_per_sec b * seconds (last (now # map snd reqs) - now)
      + of_nat (length reqs) * (3 * eps * tb_capacity b)"
    using Cons.IH [of b1] p sorted(1) Cons.prems(2) by simp
  let ?stop = "last (now # map snd reqs)"
  have "now \<le> ?stop" using sorted(1) p by (cases "map snd reqs") (auto simp: last_in_set)
  then have time: "seconds (?stop - tb_last b) = seconds (now - tb_last b) + seconds (?stop - now)"
    using sorted(2) by (simp add: seconds_def add_divide_distrib [symmetric] of_nat_add [symmetric] del: of_nat_add)
  have "fst (bucket_run rnd (req # reqs) b) = (if ok then n else 0) + fst (bucket_run rnd reqs b1)"
    by (simp add: req t split: prod.split)
  also have "\<dots> \<le> tb_tokens b + (1 + eps) ^ 4 * tb_refill_per_sec b * (seconds (now - tb_last b) + seconds (?stop - now))
      + of_nat (Suc (length reqs)) * (3 * eps * tb_capacity b)"
    using p ih by (simp add: algebra_simps)
  finally show ?case using time by (simp add: req)
qed

section \<open>Runs of the proxy\<close>

text \<open>Packets of clients, datagrams of agents, reaping, and changes of the shared routes, connections and push
  channels by the rest of the server, in any order; \<open>n\<close> counts the packets.\<close>

inductive udp_reach :: "(f64 \<Rightarrow> f64) \<Rightarrow> UdpProxy \<Rightarrow> nat \<Rightarrow> UdpProxy \<Rightarrow> bool" for rnd up0 where
  start: "udp_reach rnd up0 0 up0"
| packet: "udp_reach rnd up0 n up \<Longrightarrow> udp_reach rnd up0 (Suc n) (snd (forward_to_agent rnd links ts addr client pl up))"
| datagram: "udp_reach rnd up0 n up \<Longrightarrow> udp_reach rnd up0 n (snd (handle_datagram now data up))"
| reap: "udp_reach rnd up0 n up \<Longrightarrow> \<forall>xs. mset (order xs) = mset xs \<Longrightarrow> udp_reach rnd up0 n (reap_expired order now up)"
| environment: "udp_reach rnd up0 n up \<Longrightarrow> udp_reach rnd up0 n (up\<lparr>up_routes := rt, up_conns := cr, up_sync := cs\<rparr>)"

lemma tables_consistent:
  assumes "udp_tables up' = udp_tables up" "\<And>ip. source_count ip up' = source_count ip up"
  shows "udp_consistent up \<Longrightarrow> udp_consistent up'" "udp_fresh n up \<Longrightarrow> udp_fresh n up'"
  using assms by (auto simp: udp_tables_def intro: udp_consistent_cong udp_fresh_cong)

text \<open>What a forwarded packet is: one datagram for the node of the listening route, within its size limit, that
  names a session of the client.\<close>

definition delivered :: "(nat \<Rightarrow> datagram_link) \<Rightarrow> SocketAddr \<Rightarrow> SocketAddr \<Rightarrow> bytes \<Rightarrow> UdpProxy \<Rightarrow> udp_action \<Rightarrow> UdpProxy \<Rightarrow> bool" where
  "delivered links addr client pl up act up' \<longleftrightarrow>
     (\<exists>route conn s. rt_lookup addr (up_routes up) = Some route \<and> cr_get (sr_node_id route) (up_conns up) = Some conn
       \<and> length pl \<le> max_payload (dl_max (links conn)) \<and> act = SendDatagram conn (encode_udp_datagram (us_session_id s) pl)
       \<and> up_by_id up' (us_session_id s) = Some s \<and> us_client s = client)"

lemma touch_by_id [simp]: "up_by_id (touch now s up) = up_by_id up"
  by (simp add: touch_def)

lemma forward_consistent:
  assumes c: "udp_consistent up" "udp_fresh n up" and n: "Suc n < 2 ^ 64"
    and f: "forward_to_agent rnd links (t1, t2, t3) addr client pl up = (acts, up')"
  shows "udp_consistent up' \<and> udp_fresh (Suc n) up' \<and> (acts = [] \<or> (\<exists>act. acts = [act] \<and> delivered links addr client pl up act up'))"
  using f
proof (cases rule: forward_to_agent_cases)
  case dropped
  then show ?thesis using c tables_consistent [of up' up] udp_fresh_mono [of n up' "Suc n"] by auto
next
  case (served route conn up1 s up2)
  note a = admit_packet_keeps [OF served(4)] and ac = admit_packet_consistent [OF served(4) c]
  let ?key = "\<lparr>sk_client = client, sk_route = sr_id route\<rparr>"
  have "udp_consistent up2 \<and> udp_fresh (Suc n) up2 \<and> up_by_id up2 (us_session_id s) = Some s \<and> us_client s = client"
  proof (cases "map_of (up_sessions up1) ?key = None")
    case True
    moreover have "source_count (sa_ip client) up1 < unat (max_sessions_per_ip (up_rate_limits up1))"
      using a(5) True a(1,2) by (simp add: udp_tables_def)
    ultimately show ?thesis using create_session [OF _ _ n _ _ served(5)] ac by blast
  next
    case False
    from found_session [OF _ False served(5)] ac show ?thesis using udp_fresh_mono [of n up1 "Suc n"] by auto
  qed
  then show ?thesis using served(1-3,6) by (auto simp: delivered_def)
qed

lemma handle_datagram_consistent:
  "udp_consistent up \<Longrightarrow> udp_consistent (snd (handle_datagram now data up))"
  "udp_fresh n up \<Longrightarrow> udp_fresh n (snd (handle_datagram now data up))"
  by (auto simp: handle_datagram_def split: option.splits)

lemma udp_limits_fixed: "udp_reach rnd up0 n up \<Longrightarrow> up_rate_limits up = up_rate_limits up0"
proof (induction rule: udp_reach.induct)
  case (packet n up links ts addr client pl)
  then show ?case
    by (cases ts) (auto simp: forward_to_agent_def admit_packet_def get_or_create_session_def touch_def Let_def
        split: option.splits prod.splits if_splits bool.splits)
next
  case (reap n up order now)
  have "up_rate_limits (fold reap_one ss u) = up_rate_limits u" for ss u
    by (induction ss arbitrary: u) (simp_all add: reap_one_def)
  with reap show ?case by (simp add: reap_expired_def retain_sources_def)
qed (auto simp: handle_datagram_def touch_def split: option.splits)

lemma udp_reach_consistent:
  assumes "udp_reach rnd up0 n up" "udp_consistent up0" "udp_fresh 0 up0" "n < 2 ^ 64"
  shows "udp_consistent up \<and> udp_fresh n up"
  using assms
proof (induction rule: udp_reach.induct)
  case (packet n up links ts addr client pl)
  obtain t1 t2 t3 where ts: "ts = (t1, t2, t3)" by (cases ts)
  obtain acts up' where f: "forward_to_agent rnd links (t1, t2, t3) addr client pl up = (acts, up')" by fastforce
  have "udp_consistent up" "udp_fresh n up" "Suc n < 2 ^ 64" using packet by simp_all
  from forward_consistent [OF this f] show ?case by (simp add: ts f)
next
  case (datagram n up now data)
  then show ?case by (simp add: handle_datagram_consistent)
next
  case (reap n up order now)
  then show ?case using reap_expired_effect(1,2) [of up n order now] by simp
next
  case (environment n up rt cr cs)
  then show ?case by (auto intro: udp_consistent_cong udp_fresh_cong simp: source_count_def)
qed auto

lemma bind_consistent:
  assumes "bind_with_limits os_bind routes conns cs idle limits = Ok up0"
  shows "udp_consistent up0" "udp_fresh 0 up0" "up_rate_limits up0 = limits"
  using assms
  by (auto simp: bind_with_limits_def udp_consistent_def udp_fresh_def source_count_def sessions_from_def)

section \<open>Properties\<close>

text \<open>C26. The session tables stay consistent.  From binding on, through any sequence of packets, datagrams, reaping
  and changes of routes and connections (fewer than \<open>2 ^ 64\<close> packets), the table by client and the table by
  identifier hold the same sessions, the counter of each source is the number of its sessions, and no
  source has more sessions than the configured maximum.\<close>

theorem udp_sessions_consistent:
  assumes "bind_with_limits os_bind routes conns cs idle limits = Ok up0" "udp_reach rnd up0 n up" "n < 2 ^ 64"
  shows "udp_consistent up \<and> (\<forall>ip. sessions_from ip up \<le> unat (max_sessions_per_ip limits))"
  using udp_reach_consistent [OF assms(2) bind_consistent(1,2) [OF assms(1)] assms(3)] udp_limits_fixed [OF assms(2)]
    bind_consistent(3) [OF assms(1)] udp_consistentD(7) [of up] by auto

text \<open>C27. Replies find their client.  When a packet of a client is forwarded, the datagram is sent to the node of the
  route that listens there, carries the payload unchanged, fits the limit of the connection and names a
  session; a reply datagram with this session goes, unchanged, to that client and to nobody else.\<close>

theorem udp_reply_reaches_client:
  assumes "bind_with_limits os_bind routes conns cs idle limits = Ok up0" "udp_reach rnd up0 n up" "Suc n < 2 ^ 64"
    and "forward_to_agent rnd links (t1, t2, t3) addr client pl up = (act # acts, up')"
  shows "acts = [] \<and> (\<exists>route conn sid sock.
       rt_lookup addr (up_routes up) = Some route \<and> cr_get (sr_node_id route) (up_conns up) = Some conn
     \<and> act = SendDatagram conn (encode_udp_datagram sid pl) \<and> length pl \<le> 1200
     \<and> (\<forall>m. dl_max (links conn) = Some m \<longrightarrow> 10 \<le> m \<longrightarrow> length (encode_udp_datagram sid pl) \<le> m)
     \<and> (\<forall>now reply. fst (handle_datagram now (encode_udp_datagram sid reply) up') = [SendTo sock client reply]))"
proof -
  have "udp_consistent up \<and> udp_fresh n up"
    using udp_reach_consistent [OF assms(2) bind_consistent(1,2) [OF assms(1)]] assms(3) by simp
  then have "acts = []" "delivered links addr client pl up act up'"
    using forward_consistent [OF _ _ assms(3,4)] by auto
  then obtain route conn s where d: "rt_lookup addr (up_routes up) = Some route"
      "cr_get (sr_node_id route) (up_conns up) = Some conn" "length pl \<le> max_payload (dl_max (links conn))"
      "act = SendDatagram conn (encode_udp_datagram (us_session_id s) pl)"
      "up_by_id up' (us_session_id s) = Some s" "us_client s = client" unfolding delivered_def by blast
  have "length pl \<le> 1200" "dl_max (links conn) = Some m \<Longrightarrow> 10 \<le> m \<Longrightarrow> length (encode_udp_datagram (us_session_id s) pl) \<le> m" for m
    using d(3) by (auto simp: max_payload_def MAX_UDP_PAYLOAD_def UDP_DATAGRAM_HEADER_LEN_def split: option.splits)
  moreover have "fst (handle_datagram now (encode_udp_datagram (us_session_id s) reply) up') = [SendTo (us_socket s) client reply]" for now reply
    using d(5,6) by (simp add: handle_datagram_def decode_encode_udp_datagram)
  ultimately show ?thesis using \<open>acts = []\<close> d(1,2,4) by blast
qed

text \<open>C40. The rate limit holds.  For any rounding with relative error \<open>eps\<close>, a bucket grants over any run of requests
  at most its capacity plus the refill of the elapsed time, up to a factor \<open>(1 + eps) ^ 4\<close> on the refill and
  \<open>3 eps\<close> of the capacity per request.\<close>

theorem token_bucket_rate:
  assumes "rounding eps rnd" "0 \<le> capacity" "0 \<le> refill" "\<forall>(n, t) \<in> set reqs. 0 \<le> n" "sorted (start # map snd reqs)"
  shows "fst (bucket_run rnd reqs (tb_new capacity refill start)) \<le> capacity
     + (1 + eps) ^ 4 * refill * seconds (last (start # map snd reqs) - start)
     + of_nat (length reqs) * (3 * eps * capacity)"
proof -
  have "bucket_ok eps (tb_new capacity refill start)"
    using assms(1-3) by (simp add: bucket_ok_def tb_new_def rounding_def mult_le_cancel_right1 algebra_simps)
  from bucket_run_bound [OF assms(1) this assms(4)] assms(5) show ?thesis by (simp add: tb_new_def)
qed

definition sample_udp :: UdpProxy where
  "sample_udp =
     \<lparr>up_routes = [(\<lparr>sa_ip = V4 1, sa_port = 53\<rparr>, sample_route)], up_conns = [(9, 0)], up_sync = cs_new, up_listeners = [],
      up_sessions = [], up_by_id = Map.empty, up_next_session_id = 0, dropped_oversized = 0, dropped_rate_limited = 0,
      dropped_session_limited = 0, up_rate_limits = default_rate_limits, up_sources = Map.empty,
      up_idle_timeout = UDP_IDLE_TIMEOUT, up_cells = (\<lambda>_. 0), up_next_cell = 0\<rparr>"

lemma sample_udp_bound:
  "bind_with_limits Some [(\<lparr>sa_ip = V4 1, sa_port = 53\<rparr>, sample_route)] [(9, 0)] cs_new UDP_IDLE_TIMEOUT default_rate_limits = Ok sample_udp"
  by (simp add: bind_with_limits_def sample_udp_def rt_routes_def udp_enabled_def sample_route_def)

lemma sample_udp_forward:
  "\<exists>up'. forward_to_agent id (\<lambda>_. \<lparr>dl_max = Some 1200, dl_send_ok = \<lambda>_. True\<rparr>) (5, 6, 7) \<lparr>sa_ip = V4 1, sa_port = 53\<rparr>
     \<lparr>sa_ip = V4 77, sa_port = 4000\<rparr> [1, 2, 3] sample_udp = ([SendDatagram 0 (encode_udp_datagram 0 [1, 2, 3])], up')"
  by (simp add: forward_to_agent_def sample_udp_def rt_lookup_def cr_get_def sample_route_def max_payload_def
      UDP_DATAGRAM_HEADER_LEN_def MAX_UDP_PAYLOAD_def admit_packet_def default_rate_limits_def source_or_new_def
      source_new_def u64_as_f64_def tb_new_def try_take_def as_secs_f64_def NANOS_PER_SEC_def get_or_create_session_def Let_def)

theorem udp_sessions_consistent_witness:
  "\<exists>up. udp_reach id sample_udp 1 up \<and> up_sessions up \<noteq> [] \<and> udp_consistent up"
proof -
  let ?links = "\<lambda>_. \<lparr>dl_max = Some 1200, dl_send_ok = \<lambda>_. True\<rparr>"
  let ?f = "forward_to_agent id ?links (5, 6, 7) \<lparr>sa_ip = V4 1, sa_port = 53\<rparr> \<lparr>sa_ip = V4 77, sa_port = 4000\<rparr> [1, 2, 3] sample_udp"
  have r: "udp_reach id sample_udp 1 (snd ?f)"
    using udp_reach.packet [OF udp_reach.start, of id sample_udp ?links] by simp
  have "udp_consistent (snd ?f)" using udp_sessions_consistent [OF sample_udp_bound r] by simp
  moreover have "up_sessions (snd ?f) \<noteq> []"
  proof -
    obtain up' where f: "?f = ([SendDatagram 0 (encode_udp_datagram 0 [1, 2, 3])], up')" using sample_udp_forward by blast
    have "udp_consistent sample_udp" "udp_fresh 0 sample_udp" using bind_consistent [OF sample_udp_bound] by simp_all
    from forward_consistent [OF this _ f] have "delivered ?links \<lparr>sa_ip = V4 1, sa_port = 53\<rparr> \<lparr>sa_ip = V4 77, sa_port = 4000\<rparr>
        [1, 2, 3] sample_udp (SendDatagram 0 (encode_udp_datagram 0 [1, 2, 3])) up'" "udp_consistent up'" by simp_all
    then show ?thesis using udp_consistentD(5) [of up'] f by (fastforce simp: delivered_def)
  qed
  ultimately show ?thesis using r by blast
qed

theorem udp_reply_reaches_client_witness:
  "\<exists>sid sock up'. forward_to_agent id (\<lambda>_. \<lparr>dl_max = Some 1200, dl_send_ok = \<lambda>_. True\<rparr>) (5, 6, 7) \<lparr>sa_ip = V4 1, sa_port = 53\<rparr>
       \<lparr>sa_ip = V4 77, sa_port = 4000\<rparr> [1, 2, 3] sample_udp = ([SendDatagram 0 (encode_udp_datagram sid [1, 2, 3])], up')
   \<and> fst (handle_datagram 8 (encode_udp_datagram sid [4]) up') = [SendTo sock \<lparr>sa_ip = V4 77, sa_port = 4000\<rparr> [4]]"
proof -
  obtain up' where f: "forward_to_agent id (\<lambda>_. \<lparr>dl_max = Some 1200, dl_send_ok = \<lambda>_. True\<rparr>) (5, 6, 7) \<lparr>sa_ip = V4 1, sa_port = 53\<rparr>
     \<lparr>sa_ip = V4 77, sa_port = 4000\<rparr> [1, 2, 3] sample_udp = ([SendDatagram 0 (encode_udp_datagram 0 [1, 2, 3])], up')"
    using sample_udp_forward by blast
  from udp_reply_reaches_client [OF sample_udp_bound udp_reach.start _ f]
  obtain sid sock where "SendDatagram 0 (encode_udp_datagram 0 [1, 2, 3]) = SendDatagram 0 (encode_udp_datagram sid [1, 2, 3])"
    "\<forall>now reply. fst (handle_datagram now (encode_udp_datagram sid reply) up') = [SendTo sock \<lparr>sa_ip = V4 77, sa_port = 4000\<rparr> reply]"
    by auto
  with f show ?thesis by metis
qed

theorem token_bucket_rate_witness:
  "fst (bucket_run id [(1, 500000000), (1, 1000000000), (1, 1000000000)] (tb_new 1 1 0)) \<le> 2"
proof -
  have "rounding 0 id" by (simp add: rounding_def)
  from token_bucket_rate [OF this, of 1 1 "[(1, 500000000), (1, 1000000000), (1, 1000000000)]" 0]
  show ?thesis by (simp add: seconds_def NANOS_PER_SEC_def)
qed

end
