(* ===== verification/UdpTasks.thy ===== *)
theory UdpTasks
  imports Udp
begin

text \<open>
  The tasks of the UDP data plane in \<open>server/src/udp_proxy.rs\<close>: a receive loop per listener, a datagram reader per agent
  connection, and the reaper.  Each turn of a task runs its handler to the end (\<open>Udp\<close>); the turns of all tasks are
  one list, in the order in which they happen.
\<close>

section \<open>Turns of the tasks\<close>

text \<open>What a socket or a connection hands to the task that waits for it: a packet, a datagram, or an error.\<close>

datatype udp_event =
    RecvTurn SocketAddr "nat \<times> nat \<times> nat" "(bytes \<times> SocketAddr) option"
  | ReaderTurn nat nat "bytes option"
  | ReapTurn nat "UdpSession list \<Rightarrow> UdpSession list"

record udp_tasks =
  ut_proxy :: UdpProxy
  ut_receiving :: "SocketAddr list"
  ut_reading :: "nat list"

definition udp_run :: "nat list \<Rightarrow> UdpProxy \<Rightarrow> udp_tasks" where
  "udp_run conns up = \<lparr>ut_proxy = up, ut_receiving = up_listeners up, ut_reading = conns\<rparr>"

definition recv_loop :: "(f64 \<Rightarrow> f64) \<Rightarrow> (nat \<Rightarrow> datagram_link) \<Rightarrow> SocketAddr \<Rightarrow> nat \<times> nat \<times> nat \<Rightarrow> (bytes \<times> SocketAddr) option
    \<Rightarrow> udp_tasks \<Rightarrow> udp_action list \<times> udp_tasks" where
  "recv_loop rnd links addr clk recv st =
     (if addr \<notin> set (ut_receiving st) then ([], st)
      else case recv of
        None \<Rightarrow> ([], st\<lparr>ut_receiving := removeAll addr (ut_receiving st)\<rparr>)
      | Some (data, client) \<Rightarrow>
          (let (acts, up) = forward_to_agent rnd links clk addr client (take 65535 data) (ut_proxy st)
           in (acts, st\<lparr>ut_proxy := up\<rparr>)))"

definition datagram_reader :: "nat \<Rightarrow> nat \<Rightarrow> bytes option \<Rightarrow> udp_tasks \<Rightarrow> udp_action list \<times> udp_tasks" where
  "datagram_reader conn now recv st =
     (if conn \<notin> set (ut_reading st) then ([], st)
      else case recv of
        None \<Rightarrow> ([], st\<lparr>ut_reading := removeAll conn (ut_reading st)\<rparr>)
      | Some data \<Rightarrow> (let (acts, up) = handle_datagram now data (ut_proxy st) in (acts, st\<lparr>ut_proxy := up\<rparr>)))"

definition reap_loop :: "nat \<Rightarrow> (UdpSession list \<Rightarrow> UdpSession list) \<Rightarrow> udp_tasks \<Rightarrow> udp_tasks" where
  "reap_loop now order st = st\<lparr>ut_proxy := reap_expired order now (ut_proxy st)\<rparr>"

fun udp_task_turn :: "(f64 \<Rightarrow> f64) \<Rightarrow> (nat \<Rightarrow> datagram_link) \<Rightarrow> udp_event \<Rightarrow> udp_tasks \<Rightarrow> udp_action list \<times> udp_tasks" where
  "udp_task_turn rnd links (RecvTurn addr clk recv) st = recv_loop rnd links addr clk recv st"
| "udp_task_turn rnd links (ReaderTurn conn now recv) st = datagram_reader conn now recv st"
| "udp_task_turn rnd links (ReapTurn now order) st = ([], reap_loop now order st)"

fun udp_turns :: "(f64 \<Rightarrow> f64) \<Rightarrow> (nat \<Rightarrow> datagram_link) \<Rightarrow> udp_event list \<Rightarrow> udp_tasks \<Rightarrow> udp_action list \<times> udp_tasks" where
  "udp_turns rnd links [] st = ([], st)"
| "udp_turns rnd links (t # ts) st =
     (let (a, st1) = udp_task_turn rnd links t st; (b, st2) = udp_turns rnd links ts st1 in (a @ b, st2))"

text \<open>The addresses the listeners are bound to, in the order of the routes.\<close>

definition local_addrs :: "UdpProxy \<Rightarrow> (Uuid \<times> SocketAddr) list" where
  "local_addrs up =
     sort_key fst (List.map_filter (\<lambda>a. map_option (\<lambda>r. (sr_id r, a)) (rt_lookup a (up_routes up))) (up_listeners up))"

section \<open>Facts\<close>

text \<open>A turn is a step of the proxy or leaves it alone.\<close>

definition fair_turn :: "udp_event \<Rightarrow> bool" where
  "fair_turn t = (case t of ReapTurn now order \<Rightarrow> (\<forall>xs. mset (order xs) = mset xs) | _ \<Rightarrow> True)"

lemma turn_reaches:
  assumes "udp_reach rnd up0 n (ut_proxy st)" "fair_turn t"
  shows "\<exists>m. m \<le> Suc n \<and> udp_reach rnd up0 m (ut_proxy (snd (udp_task_turn rnd links t st)))"
proof (cases t)
  case (RecvTurn addr clk recv)
  show ?thesis
  proof (cases "addr \<in> set (ut_receiving st) \<and> recv \<noteq> None")
    case True
    then obtain data client where "recv = Some (data, client)" by auto
    with True udp_reach.packet [OF assms(1), of links clk addr client "take 65535 data"] RecvTurn show ?thesis
      by (auto simp: recv_loop_def split: prod.splits)
  next
    case False
    then show ?thesis using RecvTurn assms(1) by (cases recv) (auto simp: recv_loop_def intro: exI [of _ n])
  qed
next
  case (ReaderTurn conn now recv)
  show ?thesis
  proof (cases "conn \<in> set (ut_reading st) \<and> recv \<noteq> None")
    case True
    then obtain data where "recv = Some data" by auto
    with True udp_reach.datagram [OF assms(1), of now data] ReaderTurn show ?thesis
      by (auto simp: datagram_reader_def intro: exI [of _ n] split: prod.splits)
  next
    case False
    then show ?thesis using ReaderTurn assms(1) by (cases recv) (auto simp: datagram_reader_def intro: exI [of _ n])
  qed
next
  case (ReapTurn now order)
  then show ?thesis
    using udp_reach.reap [OF assms(1), of order now] assms(2) by (auto simp: reap_loop_def fair_turn_def intro: exI [of _ n])
qed

lemma turns_reach:
  assumes "udp_reach rnd up0 n (ut_proxy st)" "list_all fair_turn ts"
  shows "\<exists>m. m \<le> n + length ts \<and> udp_reach rnd up0 m (ut_proxy (snd (udp_turns rnd links ts st)))"
  using assms
proof (induction ts arbitrary: n st)
  case (Cons t ts)
  obtain a st1 where t: "udp_task_turn rnd links t st = (a, st1)" by force
  obtain m where m: "m \<le> Suc n" "udp_reach rnd up0 m (ut_proxy st1)"
    using turn_reaches [OF Cons.prems(1), of t links] Cons.prems(2) t by auto
  obtain k where "k \<le> m + length ts" "udp_reach rnd up0 k (ut_proxy (snd (udp_turns rnd links ts st1)))"
    using Cons.IH [OF m(2)] Cons.prems(2) by auto
  then show ?case using m(1) t by (auto simp: Let_def split: prod.splits intro!: exI [of _ k])
qed (auto intro: exI [of _ n])

lemma receiving_shrinks:
  "addr \<notin> set (ut_receiving st) \<Longrightarrow> addr \<notin> set (ut_receiving (snd (udp_task_turn rnd links t st)))"
  by (cases t) (auto simp: recv_loop_def datagram_reader_def reap_loop_def split: option.splits prod.splits)

lemma receiving_shrinks_all:
  "addr \<notin> set (ut_receiving st) \<Longrightarrow> addr \<notin> set (ut_receiving (snd (udp_turns rnd links ts st)))"
proof (induction ts arbitrary: st)
  case (Cons t ts)
  obtain b st2 where t: "udp_task_turn rnd links t st = (b, st2)" by force
  have "addr \<notin> set (ut_receiving st2)" using receiving_shrinks [OF Cons.prems, of rnd links t] t by simp
  from Cons.IH [OF this] show ?case using t by (auto simp: Let_def split: prod.splits)
qed simp

section \<open>Properties\<close>

text \<open>The tasks of the UDP data plane keep its tables consistent: after any fewer than \<open>2 ^ 64\<close> turns, in any order, of all
  receive loops, readers and the reaper, the table by client and the table by identifier hold the same sessions, and the
  counter of each source is the number of its sessions.\<close>

theorem udp_tasks_consistent:
  assumes "bind_with_limits os_bind routes conns cs idle limits = Ok up0"
    and "list_all fair_turn ts" "length ts < 2 ^ 64"
  shows "udp_consistent (ut_proxy (snd (udp_turns rnd links ts (udp_run agents up0))))"
proof -
  have "udp_reach rnd up0 0 (ut_proxy (udp_run agents up0))" by (simp add: udp_run_def udp_reach.start)
  from turns_reach [OF this assms(2)] obtain m where
    m: "m \<le> length ts" "udp_reach rnd up0 m (ut_proxy (snd (udp_turns rnd links ts (udp_run agents up0))))" by auto
  show ?thesis
    using udp_reach_consistent [OF m(2) bind_consistent(1,2) [OF assms(1)]] m(1) assms(3) by simp
qed

text \<open>A listener does not survive an error of its socket: after one failed receive no packet that arrives at its address
  is ever handled again, while the address stays bound.\<close>

theorem udp_listener_dies:
  assumes "udp_task_turn rnd links (RecvTurn addr clk None) st = (a, st1)"
  shows "addr \<notin> set (ut_receiving (snd (udp_turns rnd links ts st1)))
     \<and> fst (udp_task_turn rnd links (RecvTurn addr clk' (Some p)) (snd (udp_turns rnd links ts st1))) = []
     \<and> up_listeners (ut_proxy st1) = up_listeners (ut_proxy st)"
proof -
  have "addr \<notin> set (ut_receiving st1)" and kept: "ut_proxy st1 = ut_proxy st"
    using assms by (auto simp: recv_loop_def split: if_splits)
  then have "addr \<notin> set (ut_receiving (snd (udp_turns rnd links ts st1)))" by (intro receiving_shrinks_all)
  then show ?thesis using kept by (simp add: recv_loop_def)
qed

end
