(* ===== verification/Agent.thy ===== *)
theory Agent
  imports Udp Control
begin

text \<open>
  The agent's connection to a server: the handshake and the control loop (\<open>agent/src/session.rs\<close>), the trial of
  several servers, and reconnecting with backoff (\<open>agent/src/reconnect.rs\<close>).

  One iteration of the \<open>select!\<close> loop is one call of \<open>agent_step\<close> on the branch that became ready; a timer
  branch offered too early is passed over.  Instants are nanoseconds.  Name resolution and the sockets of
  UDP sessions are parameters, as are the random jitter and the moment of a cancellation.
\<close>

section \<open>Connecting\<close>

datatype ConnectError =
    CeSend HandshakeError
  | CeRead ReadError
  | CeClosed string
  | CeDecode ProtocolError
  | CeAuthFailed string string
  | CeUnexpected Message
  | CeNoEndpoint

record AgentSession =
  ase_node_id :: Uuid
  ase_config :: AgentConfigState

definition read_message :: "serde_json \<Rightarrow> string \<Rightarrow> rstream \<Rightarrow> (ConnectError, Message \<times> u64) result \<times> rstream" where
  "read_message J at_eof r =
     (case read_frame r of
        (Inl e, r1) \<Rightarrow> (Err (CeRead e), r1)
      | (Inr None, r1) \<Rightarrow> (Err (CeClosed at_eof), r1)
      | (Inr (Some f), r1) \<Rightarrow> (map_err CeDecode (and_then (from_frame J f) (\<lambda>m. Ok (m, request_id f))), r1))"

definition finish_connect :: "serde_json \<Rightarrow> HelloPayload \<Rightarrow> AuthPayload \<Rightarrow> wstream \<Rightarrow> rstream
    \<Rightarrow> (ConnectError, AgentSession) result \<times> wstream \<times> rstream" where
  "finish_connect J hello auth w r =
     (case send_message J (MHello hello) 1 w of
        (Inl e, w1) \<Rightarrow> (Err (CeSend e), w1, r)
      | (Inr _, w1) \<Rightarrow>
     (case send_message J (MAuth auth) 2 w1 of
        (Inl e, w2) \<Rightarrow> (Err (CeSend e), w2, r)
      | (Inr _, w2) \<Rightarrow>
     (case read_message J ''server closed before AUTH response'' r of
        (Inl e, r1) \<Rightarrow> (Err e, w2, r1)
      | (Inr (MAuthOk ok, _), r1) \<Rightarrow>
          (case read_message J ''server closed before CONFIG_SNAPSHOT'' r1 of
             (Inl e, r2) \<Rightarrow> (Err e, w2, r2)
           | (Inr (MConfigSnapshot s, rid), r2) \<Rightarrow>
               (case send_message J (config_ack (snap_config_version s)) rid w2 of
                  (Inl e, w3) \<Rightarrow> (Err (CeSend e), w3, r2)
                | (Inr _, w3) \<Rightarrow>
                    (Ok \<lparr>ase_node_id = aok_node_id ok,
                         ase_config = \<lparr>applied_version = snap_config_version s, agent_routes = snap_routes s\<rparr>\<rparr>, w3, r2))
           | (Inr (m, _), r2) \<Rightarrow> (Err (CeUnexpected m), w2, r2))
      | (Inr (MAuthFail p, _), r1) \<Rightarrow> (Err (CeAuthFailed (afail_code p) (afail_message p)), w2, r1)
      | (Inr (m, _), r1) \<Rightarrow> (Err (CeUnexpected m), w2, r1))))"

fun connect_any :: "(SocketAddr \<Rightarrow> string \<Rightarrow> (ConnectError, 's) result) \<Rightarrow> ConnectError option \<Rightarrow> (SocketAddr \<times> string) list
    \<Rightarrow> (ConnectError, 's) result" where
  "connect_any connect_to last_err [] = Err (case last_err of Some e \<Rightarrow> e | None \<Rightarrow> CeNoEndpoint)"
| "connect_any connect_to last_err ((addr, server_name) # endpoints) =
     (case connect_to addr server_name of
        Inr session \<Rightarrow> Ok session
      | Inl e \<Rightarrow> connect_any connect_to (Some e) endpoints)"

section \<open>The control loop\<close>

record HeartbeatConfig =
  hb_interval :: nat
  hb_timeout :: nat

definition default_heartbeat :: HeartbeatConfig where
  "default_heartbeat = \<lparr>hb_interval = 15 * NANOS_PER_SEC, hb_timeout = 45 * NANOS_PER_SEC\<rparr>"

datatype RunOutcome = Closed | Timeout

datatype agent_event =
    PingDue
  | DeadlineDue
  | AgentFrame "(ReadError, Frame option) result"

record agent_state =
  ag_send :: wstream
  ag_next_ping :: nat
  ag_last_pong :: nat
  ag_request_id :: u64
  ag_config :: AgentConfigState
  ag_udp :: UdpSessions

text \<open>Name resolution and sockets for UDP sessions.\<close>

record udp_net =
  un_lookup :: "string \<Rightarrow> u16 \<Rightarrow> SocketAddr list option"
  un_bind_ok :: bool
  un_connect_ok :: "SocketAddr \<Rightarrow> bool"

definition on_ping_due :: "serde_json \<Rightarrow> HeartbeatConfig \<Rightarrow> nat \<Rightarrow> i64 \<Rightarrow> agent_state
    \<Rightarrow> (ProtocolError, RunOutcome) result option \<times> agent_state" where
  "on_ping_due J hb now ts st =
     (if now < ag_next_ping st then (None, st)
      else case into_frame J (MPing \<lparr>ping_ts = ts\<rparr>) (ag_request_id st) of
        Inl e \<Rightarrow> (Some (Err e), st)
      | Inr f \<Rightarrow>
          (case write_frame f (ag_send st) of
             (Inl _, w) \<Rightarrow> (Some (Ok Closed), st\<lparr>ag_send := w\<rparr>)
           | (Inr _, w) \<Rightarrow> (None, st\<lparr>ag_send := w, ag_request_id := ag_request_id st + 1, ag_next_ping := now + hb_interval hb\<rparr>)))"

text \<open>The configuration messages: the new state is installed before the answer is sent.\<close>

definition on_config :: "serde_json \<Rightarrow> u64 \<Rightarrow> Message \<Rightarrow> agent_state
    \<Rightarrow> (ProtocolError, RunOutcome) result option \<times> agent_state" where
  "on_config J rid m st =
     (case agent_config_step m (ag_config st) of
        (cfg, None) \<Rightarrow> (None, st\<lparr>ag_config := cfg\<rparr>)
      | (cfg, Some answer) \<Rightarrow>
          (case send_message J answer rid (ag_send st) of
             (Inl _, w) \<Rightarrow> (Some (Ok Closed), st\<lparr>ag_config := cfg, ag_send := w\<rparr>)
           | (Inr _, w) \<Rightarrow> (None, st\<lparr>ag_config := cfg, ag_send := w\<rparr>)))"

definition on_udp_open :: "udp_net \<Rightarrow> UdpOpenPayload \<Rightarrow> agent_state \<Rightarrow> agent_state" where
  "on_udp_open net p st =
     (case find (\<lambda>r. rc_id r = uo_route_id p \<and> rc_route_type r = RouteType.Udp) (agent_routes (ag_config st)) of
        Some route \<Rightarrow>
          st\<lparr>ag_udp := udp_open (un_lookup net) (un_bind_ok net) (un_connect_ok net) (uo_udp_session_id p) route (ag_udp st)\<rparr>
      | None \<Rightarrow> st)"

definition on_agent_frame :: "serde_json \<Rightarrow> udp_net \<Rightarrow> nat \<Rightarrow> Frame \<Rightarrow> agent_state
    \<Rightarrow> (ProtocolError, RunOutcome) result option \<times> agent_state" where
  "on_agent_frame J net now f st =
     (case from_frame J f of
        Inr (MPong p) \<Rightarrow> (None, st\<lparr>ag_last_pong := now\<rparr>)
      | Inr (MConfigSnapshot s) \<Rightarrow> on_config J (request_id f) (MConfigSnapshot s) st
      | Inr (MConfigUpdate u) \<Rightarrow> on_config J (request_id f) (MConfigUpdate u) st
      | Inr (MUdpOpen p) \<Rightarrow> (None, on_udp_open net p st)
      | Inr (MUdpClose p) \<Rightarrow> (None, st\<lparr>ag_udp := udp_close (uc_udp_session_id p) (ag_udp st)\<rparr>)
      | Inr _ \<Rightarrow> (None, st)
      | Inl _ \<Rightarrow> (None, st))"

definition agent_step :: "serde_json \<Rightarrow> HeartbeatConfig \<Rightarrow> udp_net \<Rightarrow> nat \<Rightarrow> i64 \<Rightarrow> agent_event \<Rightarrow> agent_state
    \<Rightarrow> (ProtocolError, RunOutcome) result option \<times> agent_state" where
  "agent_step J hb net now ts ev st =
     (case ev of
        PingDue \<Rightarrow> on_ping_due J hb now ts st
      | DeadlineDue \<Rightarrow> (if now < ag_last_pong st + hb_timeout hb then None else Some (Ok Timeout), st)
      | AgentFrame (Inr (Some f)) \<Rightarrow> on_agent_frame J net now f st
      | AgentFrame (Inr None) \<Rightarrow> (Some (Ok Closed), st)
      | AgentFrame (Inl _) \<Rightarrow> (Some (Ok Closed), st))"

fun agent_run :: "serde_json \<Rightarrow> HeartbeatConfig \<Rightarrow> (udp_net \<times> nat \<times> i64 \<times> agent_event) list \<Rightarrow> agent_state
    \<Rightarrow> (ProtocolError, RunOutcome) result option \<times> agent_state" where
  "agent_run J hb [] st = (None, st)"
| "agent_run J hb ((net, now, ts, ev) # evs) st =
     (case agent_step J hb net now ts ev st of
        (None, st1) \<Rightarrow> agent_run J hb evs st1
      | (Some out, st1) \<Rightarrow> (Some out, st1\<lparr>ag_udp := udp_close_all (ag_udp st1)\<rparr>))"

definition run_start :: "HeartbeatConfig \<Rightarrow> nat \<Rightarrow> wstream \<Rightarrow> AgentSession \<Rightarrow> agent_state" where
  "run_start hb now w s =
     \<lparr>ag_send = w, ag_next_ping = now + hb_interval hb, ag_last_pong = now, ag_request_id = 3,
      ag_config = ase_config s, ag_udp = []\<rparr>"

section \<open>Reconnecting\<close>

definition BACKOFF_SECONDS :: "nat list" where "BACKOFF_SECONDS = [1, 2, 4, 8, 16, 30, 60]"

record Backoff =
  bo_attempt :: u32
  bo_cap :: nat

definition backoff_new :: "nat \<Rightarrow> Backoff" where
  "backoff_new cap = \<lparr>bo_attempt = 0, bo_cap = cap\<rparr>"

definition backoff_reset :: "Backoff \<Rightarrow> Backoff" where
  "backoff_reset b = b\<lparr>bo_attempt := 0\<rparr>"

definition base_delay :: "Backoff \<Rightarrow> nat" where
  "base_delay b =
     (let idx = min (unat (bo_attempt b)) (length BACKOFF_SECONDS - 1)
      in min ((BACKOFF_SECONDS ! idx) * NANOS_PER_SEC) (bo_cap b))"

text \<open>\<open>gen_range half\<close> is the random number between 0 and \<open>half\<close>; the delay is in nanoseconds.\<close>

definition next_delay :: "(nat \<Rightarrow> nat) \<Rightarrow> Backoff \<Rightarrow> nat \<times> Backoff" where
  "next_delay gen_range b =
     (let half = (base_delay b div 1000000) div 2; jitter = gen_range half
      in ((half + jitter) * 1000000, b\<lparr>bo_attempt := bo_attempt b + 1\<rparr>))"

record ReconnectConfig =
  rcfg_cap :: nat
  rcfg_max_reconnects :: "u32 option"

text \<open>The world as seen in the \<open>i\<close>-th round: whether the loop is cancelled at its head, whether the connection
  succeeds (the session then runs and ends), the random number, and whether the sleep is cancelled.\<close>

record round =
  rd_cancelled :: bool
  rd_connects :: bool
  rd_random :: "nat \<Rightarrow> nat"
  rd_cancel_sleep :: bool

text \<open>The loop; the result lists, for each connection attempt, whether it succeeded and the delay after it.\<close>

partial_function (option) reconnect_loop :: "u32 option \<Rightarrow> (nat \<Rightarrow> round) \<Rightarrow> nat \<Rightarrow> Backoff \<Rightarrow> u32 \<Rightarrow> (bool \<times> nat) list
    \<Rightarrow> (bool \<times> nat) list option" where
  [code]: "reconnect_loop mx world i backoff reconnects trace =
     (if rd_cancelled (world i) then Some trace
      else if (case mx of Some m \<Rightarrow> reconnects > m | None \<Rightarrow> False) then Some trace
      else
        let backoff1 = (if rd_connects (world i) then backoff_reset backoff else backoff);
            (delay, backoff2) = next_delay (rd_random (world i)) backoff1;
            trace1 = trace @ [(rd_connects (world i), delay)]
        in if rd_cancel_sleep (world i) then Some trace1
           else reconnect_loop mx world (Suc i) backoff2 (reconnects + 1) trace1)"

definition run_with_reconnect :: "ReconnectConfig \<Rightarrow> (nat \<Rightarrow> round) \<Rightarrow> (bool \<times> nat) list option" where
  "run_with_reconnect cfg world = reconnect_loop (rcfg_max_reconnects cfg) world 0 (backoff_new (rcfg_cap cfg)) 0 []"

section \<open>Agreement of the two ends\<close>

lemma send_message_unlimited:
  "into_frame J m rid = Ok f \<Longrightarrow> room w = None \<Longrightarrow> send_message J m rid w = (Ok (), w\<lparr>written := written w @ encode f\<rparr>)"
  by (simp add: send_message_def write_frame_def write_all_def)

lemma read_message_put:
  assumes "frame_ok f" "from_frame J f = Ok m"
  shows "read_message J at_eof \<lparr>pending = encode f @ rest, ending = z\<rparr> = (Ok (m, request_id f), \<lparr>pending = rest, ending = z\<rparr>)"
  using read_frame_put [OF assms(1), of rest z] assms(2) by (simp add: read_message_def)

lemma frame_ok_length: "length (encode f) \<le> MAX_FRAME_LEN \<Longrightarrow> frame_ok f"
  by (simp add: frame_ok_def frame_consts)

section \<open>What a configuration message means\<close>

text \<open>The abstract configuration of an agent: the version it has applied, and the route each identifier denotes.\<close>

type_synonym config_view = "u64 \<times> (Uuid \<Rightarrow> RouteConfig option)"

definition view :: "AgentConfigState \<Rightarrow> config_view" where
  "view c = (applied_version c, idx (agent_routes c))"

definition keyed :: "RouteConfig list \<Rightarrow> (Uuid \<times> RouteConfig) list" where
  "keyed rs = map (\<lambda>r. (rc_id r, r)) rs"

text \<open>A snapshot replaces everything.  An update is only taken when it leads from the applied version to the next
  one: then its added routes come in where the identifier is new, its updated routes come in whatever was there, its
  removed identifiers go.  Both are acknowledged with the version reached; any other update changes nothing and asks
  to be sent a snapshot since the applied version.\<close>

fun view_step :: "Message \<Rightarrow> config_view \<Rightarrow> config_view \<times> Message option" where
  "view_step (MConfigSnapshot s) vw =
     ((snap_config_version s, map_of (keyed (snap_routes s))),
      Some (MConfigAck \<lparr>ack_config_version = snap_config_version s, ack_applied = True, ack_error = None\<rparr>))"
| "view_step (MConfigUpdate u) (v, m) =
     (if upd_config_version u = v + 1
      then ((v + 1, ((map_of (keyed (added (upd_routes u))) ++ m) ++ map_of (rev (keyed (updated (upd_routes u)))))
                      |` (- set (removed (upd_routes u)))),
            Some (MConfigAck \<lparr>ack_config_version = v + 1, ack_applied = True, ack_error = None\<rparr>))
      else ((v, m), Some (MConfigResync \<lparr>last_applied_version = v\<rparr>)))"
| "view_step _ vw = (vw, None)"

text \<open>A run over messages with their request identifiers: the view reached, and the answers with the identifiers of
  the messages they answer.\<close>

fun view_run :: "(Message \<times> u64) list \<Rightarrow> config_view \<Rightarrow> config_view \<times> (Message \<times> u64) list" where
  "view_run [] vw = (vw, [])"
| "view_run ((m, rid) # ms) vw =
     (case view_step m vw of
        (vw1, answer) \<Rightarrow>
          (case view_run ms vw1 of
             (vw2, answers) \<Rightarrow> (vw2, (case answer of Some a \<Rightarrow> (a, rid) # answers | None \<Rightarrow> answers))))"

definition control_messages :: "serde_json \<Rightarrow> (udp_net \<times> nat \<times> i64 \<times> agent_event) list \<Rightarrow> (Message \<times> u64) list" where
  "control_messages J evs =
     concat (map (\<lambda>(net, now, ts, ev). case ev of
         AgentFrame (Inr (Some f)) \<Rightarrow> (case from_frame J f of Inr m \<Rightarrow> [(m, request_id f)] | Inl _ \<Rightarrow> [])
       | _ \<Rightarrow> []) evs)"

section \<open>The control loop follows it\<close>

lemma by_id_keyed: "by_id rs = map_of (rev (keyed rs))"
  by (induction rs rule: rev_induct) (simp_all add: by_id_def keyed_def)

lemma agent_config_step_view:
  "view_step m (view c) = (view (fst (agent_config_step m c)), snd (agent_config_step m c))"
proof (cases m)
  case (MConfigUpdate u)
  have "idx (apply_route_delta rs d) = ((map_of (keyed (added d)) ++ idx rs) ++ map_of (rev (keyed (updated d)))) |` (- set (removed d))"
    for rs d
  proof
    fix k
    show "idx (apply_route_delta rs d) k
      = (((map_of (keyed (added d)) ++ idx rs) ++ map_of (rev (keyed (updated d)))) |` (- set (removed d))) k"
      unfolding idx_apply_route_delta by_id_keyed
      by (auto simp: restrict_map_def map_add_def idx_def keyed_def split: option.split)
  qed
  then show ?thesis
    using MConfigUpdate by (auto simp: view_def apply_config_update_def config_ack_def config_resync_def)
qed (simp_all add: view_def idx_def keyed_def config_ack_def)

lemma view_run_append:
  "view_run (xs @ ys) vw =
     (case view_run xs vw of (vw1, as) \<Rightarrow> (case view_run ys vw1 of (vw2, bs) \<Rightarrow> (vw2, as @ bs)))"
  by (induction xs arbitrary: vw) (auto split: prod.splits option.splits)

text \<open>The frames a loop has written are the ones on top of what was there; those that are no PING are the answers.\<close>

definition sent_answers :: "serde_json \<Rightarrow> wstream \<Rightarrow> wstream \<Rightarrow> (Message \<times> u64) list \<Rightarrow> bool" where
  "sent_answers J w w' answers \<longleftrightarrow>
     (\<exists>fs. written w' = written w @ concat (map encode fs)
         \<and> map Ok (filter (\<lambda>f. message_type f \<noteq> Ping) fs) = map (\<lambda>(m, rid). into_frame J m rid) answers)"

lemma sent_nothing [simp]: "sent_answers J w w []"
  unfolding sent_answers_def by (intro exI [of _ "[]"]) simp

lemma sent_answers_trans:
  "sent_answers J w w1 as \<Longrightarrow> sent_answers J w1 w2 bs \<Longrightarrow> sent_answers J w w2 (as @ bs)"
  unfolding sent_answers_def by (elim exE conjE, rule_tac x = "fs @ fsa" in exI) simp

lemma write_frame_Ok: "write_frame f w = (Ok u, w') \<Longrightarrow> written w' = written w @ encode f"
  by (auto simp: write_frame_def write_all_def split: option.splits if_splits)

lemma sent_ping:
  assumes "into_frame J (MPing p) rid = Ok f" "write_frame f w = (Ok u, w')"
  shows "sent_answers J w w' []"
  unfolding sent_answers_def using write_frame_Ok [OF assms(2)] into_frame_fields(1) [OF assms(1)]
  by (intro exI [of _ "[f]"]) simp

lemma sent_answer:
  assumes "send_message J m rid w = (Ok u, w')" "message_type_of m \<noteq> Ping"
  shows "sent_answers J w w' [(m, rid)]"
proof -
  obtain f where "into_frame J m rid = Ok f" "written w' = written w @ encode f"
    using send_message_Ok assms(1) by (metis unit.exhaust)
  then show ?thesis unfolding sent_answers_def using assms(2) into_frame_fields(1) [of J m rid f] by (intro exI [of _ "[f]"]) simp
qed

lemma agent_answer_no_ping: "snd (agent_config_step m c) = Some a \<Longrightarrow> message_type_of a \<noteq> Ping"
  by (cases m) (auto simp: config_ack_def config_resync_def split: sum.splits)

lemma on_config_view:
  assumes "on_config J rid m st = (out, st1)"
  shows "view (ag_config st1) = fst (view_run [(m, rid)] (view (ag_config st)))"
    and "out = None \<Longrightarrow> sent_answers J (ag_send st) (ag_send st1) (snd (view_run [(m, rid)] (view (ag_config st))))"
proof -
  obtain cfg answer where c: "agent_config_step m (ag_config st) = (cfg, answer)" by fastforce
  have v: "view_run [(m, rid)] (view (ag_config st)) = (view cfg, case answer of Some a \<Rightarrow> [(a, rid)] | None \<Rightarrow> [])"
    using agent_config_step_view [of m "ag_config st"] c by simp
  show "view (ag_config st1) = fst (view_run [(m, rid)] (view (ag_config st)))"
    using assms c unfolding v by (auto simp: on_config_def split: option.splits prod.splits sum.splits)
  have np: "message_type_of a \<noteq> Ping" if "answer = Some a" for a
    using agent_answer_no_ping [of m "ag_config st" a] c that by simp
  show "sent_answers J (ag_send st) (ag_send st1) (snd (view_run [(m, rid)] (view (ag_config st))))" if "out = None"
    using assms c that np unfolding v
    by (auto simp: on_config_def split: option.splits prod.splits sum.splits intro: sent_answer)
qed

lemma agent_step_view:
  assumes "agent_step J hb net now ts ev st = (out, st1)"
  defines "vr \<equiv> view_run (control_messages J [(net, now, ts, ev)]) (view (ag_config st))"
  shows "view (ag_config st1) = fst vr"
    and "out = None \<Longrightarrow> sent_answers J (ag_send st) (ag_send st1) (snd vr)"
proof -
  have quiet: "vr = (view (ag_config st), [])" if "control_messages J [(net, now, ts, ev)] = []"
    unfolding vr_def that by simp
  have "view (ag_config st1) = fst vr \<and> (out = None \<longrightarrow> sent_answers J (ag_send st) (ag_send st1) (snd vr))"
  proof (cases ev)
    case PingDue
    have "vr = (view (ag_config st), [])" by (rule quiet) (simp add: control_messages_def PingDue)
    with assms(1) show ?thesis
      by (auto simp: PingDue agent_step_def on_ping_due_def intro: sent_ping split: prod.splits sum.splits if_splits)
  next
    case DeadlineDue
    have "vr = (view (ag_config st), [])" by (rule quiet) (simp add: control_messages_def DeadlineDue)
    with assms(1) show ?thesis by (auto simp: DeadlineDue agent_step_def)
  next
    case (AgentFrame res)
    show ?thesis
    proof (cases "\<exists>f m. res = Ok (Some f) \<and> from_frame J f = Ok m")
      case True
      then obtain f m where f: "res = Ok (Some f)" "from_frame J f = Ok m" by blast
      then have r: "vr = view_run [(m, request_id f)] (view (ag_config st))"
        by (simp add: vr_def AgentFrame control_messages_def)
      have frame: "on_agent_frame J net now f st = (out, st1)" using assms(1) f by (simp add: AgentFrame agent_step_def)
      show ?thesis
      proof (cases "(\<exists>s. m = MConfigSnapshot s) \<or> (\<exists>u. m = MConfigUpdate u)")
        case True
        then have "on_config J (request_id f) m st = (out, st1)" using frame f(2) by (auto simp: on_agent_frame_def)
        from on_config_view [OF this] show ?thesis unfolding r by blast
      next
        case False
        then have "vr = (view (ag_config st), [])" unfolding r by (cases m) simp_all
        with frame f(2) False show ?thesis
          by (cases m) (auto simp: on_agent_frame_def on_udp_open_def split: option.splits)
      qed
    next
      case False
      then have bad: "\<exists>e. from_frame J f = Inl e" if "res = Ok (Some f)" for f
        using that by (cases "from_frame J f") auto
      then have "vr = (view (ag_config st), [])"
        by (intro quiet) (auto simp: AgentFrame control_messages_def split: sum.splits option.splits)
      with assms(1) bad show ?thesis
        by (cases res; cases "projr res") (auto simp: AgentFrame agent_step_def on_agent_frame_def)
    qed
  qed
  then show "view (ag_config st1) = fst vr" "out = None \<Longrightarrow> sent_answers J (ag_send st) (ag_send st1) (snd vr)" by simp_all
qed

text \<open>The part of a list of events that a loop handles: all of it, or the part up to the event that ends it.\<close>

definition handled :: "serde_json \<Rightarrow> HeartbeatConfig \<Rightarrow> agent_state \<Rightarrow> (udp_net \<times> nat \<times> i64 \<times> agent_event) list \<Rightarrow> nat \<Rightarrow> bool" where
  "handled J hb st evs k \<longleftrightarrow>
     (case fst (agent_run J hb evs st) of
        None \<Rightarrow> k = length evs
      | Some out \<Rightarrow> 0 < k \<and> k \<le> length evs \<and> fst (agent_run J hb (take k evs) st) = Some out
          \<and> fst (agent_run J hb (take (k - 1) evs) st) = None)"

lemma agent_run_view:
  "\<exists>k. handled J hb st evs k
     \<and> view (ag_config (snd (agent_run J hb evs st))) = fst (view_run (control_messages J (take k evs)) (view (ag_config st)))
     \<and> (fst (agent_run J hb evs st) = None \<longrightarrow>
          sent_answers J (ag_send st) (ag_send (snd (agent_run J hb evs st)))
            (snd (view_run (control_messages J (take k evs)) (view (ag_config st)))))"
proof (induction evs arbitrary: st)
  case Nil
  show ?case by (simp add: handled_def control_messages_def)
next
  case (Cons e evs)
  obtain net now ts ev where e: "e = (net, now, ts, ev)" by (cases e)
  obtain out st1 where s: "agent_step J hb net now ts ev st = (out, st1)" by fastforce
  obtain vw as where vr: "view_run (control_messages J [e]) (view (ag_config st)) = (vw, as)" by fastforce
  note step = agent_step_view [OF s, folded e, unfolded vr fst_conv snd_conv]
  have app: "control_messages J (e # xs) = control_messages J [e] @ control_messages J xs" for xs
    by (simp add: control_messages_def)
  show ?case
  proof (cases out)
    case None
    have run: "agent_run J hb (e # xs) st = agent_run J hb xs st1" for xs by (simp add: e s None)
    obtain k where k: "handled J hb st1 evs k"
      "view (ag_config (snd (agent_run J hb evs st1))) = fst (view_run (control_messages J (take k evs)) (view (ag_config st1)))"
      "fst (agent_run J hb evs st1) = None \<longrightarrow>
          sent_answers J (ag_send st1) (ag_send (snd (agent_run J hb evs st1)))
            (snd (view_run (control_messages J (take k evs)) (view (ag_config st1))))"
      using Cons.IH [of st1] by (elim exE conjE)
    have h: "handled J hb st (e # evs) (Suc k)"
      using k(1) by (cases k) (auto simp: handled_def run simp del: agent_run.simps(2) split: option.splits)
    obtain vw2 bs where rest: "view_run (control_messages J (take k evs)) vw = (vw2, bs)" by fastforce
    have all: "view_run (control_messages J (take (Suc k) (e # evs))) (view (ag_config st)) = (vw2, as @ bs)"
      using vr rest by (simp add: app [of "take k evs"] view_run_append)
    have "view (ag_config (snd (agent_run J hb evs st1))) = vw2" using k(2) step(1) rest by simp
    moreover have "sent_answers J (ag_send st) (ag_send (snd (agent_run J hb evs st1))) (as @ bs)"
      if "fst (agent_run J hb evs st1) = None"
      using sent_answers_trans [OF step(2) [OF None]] k(3) step(1) rest that by simp
    ultimately show ?thesis unfolding run using h all by (intro exI [of _ "Suc k"]) simp
  next
    case (Some o1)
    then have run: "agent_run J hb (e # xs) st = (Some o1, st1\<lparr>ag_udp := udp_close_all (ag_udp st1)\<rparr>)" for xs
      by (simp add: e s)
    show ?thesis
      using step(1) by (intro exI [of _ 1]) (simp add: handled_def run vr del: agent_run.simps(2))
  qed
qed

section \<open>The reconnect loop\<close>

text \<open>The number of attempts since and including the last successful one, for a history given from its end.\<close>

fun since_success :: "bool list \<Rightarrow> nat" where
  "since_success [] = 0"
| "since_success (True # h) = 1"
| "since_success (False # h) = Suc (since_success h)"

definition backoff_base :: "nat \<Rightarrow> nat \<Rightarrow> nat" where
  "backoff_base cap k = min ((BACKOFF_SECONDS ! min k 6) * NANOS_PER_SEC) cap"

text \<open>A delay for an attempt: between half the base (in whole milliseconds) and the base.\<close>

definition delay_ok :: "nat \<Rightarrow> (bool \<times> nat) list \<Rightarrow> nat \<Rightarrow> bool" where
  "delay_ok cap trace k \<longleftrightarrow>
     (let base = backoff_base cap (since_success (rev (map fst (take (Suc k) trace))) - 1); d = snd (trace ! k)
      in (base div 1000000) div 2 * 1000000 \<le> d \<and> d \<le> base)"

lemma delay_ok_append: "k < length trace \<Longrightarrow> delay_ok cap (trace @ ys) k = delay_ok cap trace k"
  by (simp add: delay_ok_def nth_append)

lemma since_success_pos: "h \<noteq> [] \<Longrightarrow> 0 < since_success h"
  by (cases h rule: since_success.cases) auto

lemma since_success_le: "since_success h \<le> length h"
  by (induction h rule: since_success.induct) auto

lemma next_delay_bounds:
  assumes "\<And>h. gen h \<le> h" "next_delay gen b = (d, b')"
  shows "(base_delay b div 1000000) div 2 * 1000000 \<le> d" "d \<le> base_delay b" "bo_cap b' = bo_cap b"
    "bo_attempt b' = bo_attempt b + 1"
proof -
  let ?half = "(base_delay b div 1000000) div 2"
  have d: "d = (?half + gen ?half) * 1000000" "b' = b\<lparr>bo_attempt := bo_attempt b + 1\<rparr>"
    using assms(2) by (auto simp: next_delay_def Let_def)
  then show "?half * 1000000 \<le> d" "bo_cap b' = bo_cap b" "bo_attempt b' = bo_attempt b + 1" by simp_all
  have "?half + gen ?half \<le> base_delay b div 1000000" using assms(1) [of ?half] by linarith
  then have "d \<le> base_delay b div 1000000 * 1000000" unfolding d(1) by (rule mult_right_mono) simp
  then show "d \<le> base_delay b" using div_times_less_eq_dividend order_trans by blast
qed

lemma unat_of_nat_u32: "n < 2 ^ 32 \<Longrightarrow> unat (of_nat n :: u32) = n"
  by (simp add: unat_of_nat)

lemma unat_inc_u32: "unat a < 2 ^ 32 - 1 \<Longrightarrow> unat (a + 1 :: u32) = Suc (unat a)"
  by (simp add: unat_word_ariths)

lemma base_delay_eq: "base_delay b = backoff_base (bo_cap b) (unat (bo_attempt b))"
proof -
  have "length BACKOFF_SECONDS - 1 = 6" by (simp add: BACKOFF_SECONDS_def)
  then show ?thesis by (simp add: base_delay_def backoff_base_def Let_def)
qed

text \<open>What holds at the head of the loop in round \<open>i\<close>.\<close>

definition loop_inv :: "nat \<Rightarrow> nat \<Rightarrow> Backoff \<Rightarrow> (bool \<times> nat) list \<Rightarrow> bool" where
  "loop_inv cap i b trace \<longleftrightarrow>
     length trace = i \<and> bo_cap b = cap \<and> unat (bo_attempt b) = since_success (rev (map fst trace))
     \<and> (\<forall>k<i. delay_ok cap trace k)"

lemma loop_inv_step:
  assumes inv: "loop_inv cap i b trace" and i: "Suc i < 2 ^ 32" and gen: "\<And>h. gen h \<le> h"
    and nd: "next_delay gen (if ok then backoff_reset b else b) = (d, b')"
  shows "loop_inv cap (Suc i) b' (trace @ [(ok, d)])"
proof -
  let ?b = "if ok then backoff_reset b else b" and ?n = "since_success (rev (map fst trace))"
  note bounds = next_delay_bounds [OF gen nd]
  have att: "unat (bo_attempt ?b) = (if ok then 0 else ?n)" "bo_cap ?b = cap"
    using inv by (simp_all add: loop_inv_def backoff_reset_def)
  have idx: "since_success (rev (map fst (trace @ [(ok, d)]))) = Suc (unat (bo_attempt ?b))"
    using att(1) by (cases ok) simp_all
  have "unat (bo_attempt ?b) < 2 ^ 32 - 1"
    using att(1) i since_success_le [of "rev (map fst trace)"] inv by (auto simp: loop_inv_def)
  then have "unat (bo_attempt b') = Suc (unat (bo_attempt ?b))"
    unfolding bounds(4) by (rule unat_inc_u32)
  moreover have "delay_ok cap (trace @ [(ok, d)]) i"
  proof -
    have tk: "take (Suc i) (trace @ [(ok, d)]) = trace @ [(ok, d)]" "(trace @ [(ok, d)]) ! i = (ok, d)"
      using inv by (auto simp: loop_inv_def)
    show ?thesis
      unfolding delay_ok_def tk idx Let_def using bounds(1,2) unfolding base_delay_eq att(2) by simp
  qed
  ultimately show ?thesis
    using inv idx bounds(3) att(2) by (auto simp: loop_inv_def less_Suc_eq delay_ok_append)
qed

lemma reconnect_loop_ends:
  assumes "loop_inv cap i b trace" "i + n = Suc (unat m)" "unat m + 1 < 2 ^ 32" "rc = of_nat i"
    and gen: "\<And>j h. rd_random (world j) h \<le> h"
  shows "\<exists>tr. reconnect_loop (Some m) world i b rc trace = Some tr \<and> length tr \<le> Suc (unat m)
     \<and> (\<forall>k<length tr. delay_ok cap tr k)
     \<and> ((\<forall>j. \<not> rd_cancelled (world j) \<and> \<not> rd_cancel_sleep (world j)) \<longrightarrow> length tr = Suc (unat m))"
  using assms(1,2,4)
proof (induction n arbitrary: i b trace rc)
  case 0
  have "unat rc = Suc (unat m)" unfolding 0(3) using 0(2) assms(3) by (subst unat_of_nat_u32) simp_all
  then have "rc > m" by (simp add: word_less_nat_alt)
  then show ?case using 0(1,2) by (subst reconnect_loop.simps) (auto simp: loop_inv_def)
next
  case (Suc n)
  have "unat rc = i" unfolding Suc.prems(3) using Suc.prems(2) assms(3) by (subst unat_of_nat_u32) simp_all
  then have rc: "\<not> rc > m" using Suc.prems(2) by (simp add: word_less_nat_alt)
  have len: "length trace = i" "\<forall>k<i. delay_ok cap trace k" using Suc.prems(1) by (simp_all add: loop_inv_def)
  show ?case
  proof (cases "rd_cancelled (world i)")
    case True
    then show ?thesis using len Suc.prems(2) by (subst reconnect_loop.simps) auto
  next
    case False
    obtain d b' where nd: "next_delay (rd_random (world i)) (if rd_connects (world i) then backoff_reset b else b) = (d, b')"
      by fastforce
    let ?tr = "trace @ [(rd_connects (world i), d)]"
    have inv: "loop_inv cap (Suc i) b' ?tr"
      using loop_inv_step [OF Suc.prems(1) _ gen nd] Suc.prems(2) assms(3) by simp
    have step: "reconnect_loop (Some m) world i b rc trace =
        (if rd_cancel_sleep (world i) then Some ?tr else reconnect_loop (Some m) world (Suc i) b' (rc + 1) ?tr)"
      using False rc nd by (subst reconnect_loop.simps) simp
    show ?thesis
    proof (cases "rd_cancel_sleep (world i)")
      case True
      have "length ?tr = Suc i" "\<forall>k<Suc i. delay_ok cap ?tr k" using inv unfolding loop_inv_def by blast+
      with True Suc.prems(2) show ?thesis unfolding step by (intro exI [of _ ?tr]) auto
    next
      case go: False
      have "rc + 1 = of_nat (Suc i)" using Suc.prems(3) by simp
      from Suc.IH [OF inv _ this] Suc.prems(2) show ?thesis unfolding step using go by simp
    qed
  qed
qed

section \<open>Properties\<close>

text \<open>C4. Both ends agree after a handshake.  When the server's handshake succeeds for a node and its answer, at most
  a maximal frame long, reaches the agent, the agent's side succeeds too.  The answer starts with an AUTH_OK that
  names the node and announces the configuration version stored in the node's row; the agent ends with that node
  identifier, that version as the applied one and exactly the routes the server's database has for this node;
  and its HELLO, its AUTH and then a CONFIG_ACK of that version are what it has written.\<close>

theorem handshake_agreement:
  assumes "serde_ok (x_json X)"
    and "handshake X ver now remote sv \<lparr>written = [], room = None\<rparr> r = (Ok (Some nid), sv', w', r')"
    and "length (written w') \<le> MAX_FRAME_LEN"
    and "into_frame (x_json X) (MHello hello) 1 = Ok fh" "into_frame (x_json X) (MAuth auth) 2 = Ok fa"
    and "\<forall>v. \<exists>f. into_frame (x_json X) (config_ack v) 0 = Ok f" "room w = None"
  shows "\<exists>stored v ok rid r1 routes fc wa ra. stored_version X (sv_db sv) nid stored \<and> v = max0_u64 stored
     \<and> read_message (x_json X) '''' \<lparr>pending = written w', ending = z\<rparr> = (Ok (MAuthOk ok, rid), r1)
     \<and> aok_node_id ok = nid \<and> aok_config_version ok = v
     \<and> node_routes X nid (sv_db sv) = Ok routes
     \<and> finish_connect (x_json X) hello auth w \<lparr>pending = written w', ending = z\<rparr>
       = (Ok \<lparr>ase_node_id = nid, ase_config = \<lparr>applied_version = v, agent_routes = routes\<rparr>\<rparr>, wa, ra)
     \<and> into_frame (x_json X) (config_ack v) 0 = Ok fc
     \<and> written wa = written w @ encode fh @ encode fa @ encode fc"
proof -
  obtain p rid s r0 av where s: "authenticate X (db_query (sv_db sv)) p now = AuthDecision.Success s"
    "finish_handshake X ver now remote av rid s sv \<lparr>written = [], room = None\<rparr> r0 = (Ok (Some nid), sv', w', r')"
    using handshake_admits [OF assms(2)] by metis
  obtain stored where st: "stored_version X (sv_db sv) (as_node_id s) stored" "as_config_version s = max0_u64 stored"
    using authenticate_version [OF s(1)] .
  from finish_handshake_writes [OF s(2)] obtain f1 f2 routes where f:
    "written w' = encode f1 @ encode f2"
    "into_frame (x_json X) (MAuthOk \<lparr>aok_node_id = as_node_id s, aok_config_version = as_config_version s,
        aok_server_version = ver, aok_server_time = x_show_time X now\<rparr>) rid = Ok f1"
    "into_frame (x_json X) (snapshot_message (as_config_version s) routes) 0 = Ok f2"
    "node_routes X (as_node_id s) (sv_db sv) = Ok routes" "nid = as_node_id s" by auto
  obtain fc where fc: "into_frame (x_json X) (config_ack (as_config_version s)) 0 = Ok fc" using assms(6) by blast
  have ok: "frame_ok f1" "frame_ok f2" using assms(3) f(1) by (auto intro: frame_ok_length)
  have rid2: "request_id f2 = 0" using into_frame_fields(3) [OF f(3)] .
  note d1 = from_frame_into_frame [OF assms(1) f(2)] and d2 = from_frame_into_frame [OF assms(1) f(3)]
  note rd1 = read_message_put [OF ok(1) d1, of _ "encode f2" z]
  have rd2: "read_message (x_json X) at_eof \<lparr>pending = encode f2, ending = z\<rparr>
      = (Ok (snapshot_message (as_config_version s) routes, 0), \<lparr>pending = [], ending = z\<rparr>)" for at_eof
    using read_message_put [OF ok(2) d2, of at_eof "[]"] rid2 by simp
  have "\<exists>wa ra. finish_connect (x_json X) hello auth w \<lparr>pending = written w', ending = z\<rparr>
       = (Ok \<lparr>ase_node_id = nid, ase_config = \<lparr>applied_version = max0_u64 stored, agent_routes = routes\<rparr>\<rparr>, wa, ra)
     \<and> written wa = written w @ encode fh @ encode fa @ encode fc"
    using assms(4,5,7) fc f(1,4,5) rd1 st(2)
    by (simp add: finish_connect_def send_message_unlimited rd2) (simp add: snapshot_message_def send_message_unlimited)
  then obtain wa ra where "finish_connect (x_json X) hello auth w \<lparr>pending = written w', ending = z\<rparr>
       = (Ok \<lparr>ase_node_id = nid, ase_config = \<lparr>applied_version = max0_u64 stored, agent_routes = routes\<rparr>\<rparr>, wa, ra)"
     "written wa = written w @ encode fh @ encode fa @ encode fc" by blast
  then show ?thesis
    using rd1 [of "''''"] f(1,4,5) st fc
    by (intro exI [of _ stored] exI [of _ "max0_u64 stored"] exI conjI) auto
qed

text \<open>C29. The control loop applies and answers configuration messages as specified.  Whatever pings, timeouts, UDP
  messages and decoding errors are interleaved, the applied version and the route each identifier denotes are what the
  abstract reading of the handled messages gives: a snapshot replaces, an update counts only when it is the
  successor of the applied version, nothing else changes anything.  The handled messages are all of them while the loop
  runs, and those up to the event that ended it otherwise.  While it runs, the frames it has written besides its
  pings are exactly the answers of the abstract reading, a CONFIG_ACK or a CONFIG_RESYNC for each of those messages,
  in order and under the request identifiers of the messages they answer.\<close>

theorem agent_run_refines_config:
  "\<exists>k. handled J hb st evs k
     \<and> view (ag_config (snd (agent_run J hb evs st))) = fst (view_run (control_messages J (take k evs)) (view (ag_config st)))
     \<and> (fst (agent_run J hb evs st) = None \<longrightarrow>
          sent_answers J (ag_send st) (ag_send (snd (agent_run J hb evs st)))
            (snd (view_run (control_messages J (take k evs)) (view (ag_config st)))))"
  by (rule agent_run_view)

text \<open>C39. A bounded reconnect loop ends, with backoff.  With a maximum of \<open>m\<close> reconnects the loop returns after at most
  \<open>m + 1\<close> attempts, and after exactly that many if it is never cancelled; the delay after each attempt lies
  between half the base delay and the base delay, which follows 1, 2, 4, 8, 16, 30, 60 seconds up to the
  cap and starts again after each successful connection.\<close>

theorem reconnect_ends_with_backoff:
  assumes "unat m + 1 < 2 ^ 32" "\<forall>i h. rd_random (world i) h \<le> h"
  shows "\<exists>trace. run_with_reconnect \<lparr>rcfg_cap = cap, rcfg_max_reconnects = Some m\<rparr> world = Some trace
     \<and> length trace \<le> Suc (unat m) \<and> (\<forall>k<length trace. delay_ok cap trace k)
     \<and> ((\<forall>j. \<not> rd_cancelled (world j) \<and> \<not> rd_cancel_sleep (world j)) \<longrightarrow> length trace = Suc (unat m))"
proof -
  have "loop_inv cap 0 (backoff_new cap) []" by (simp add: loop_inv_def backoff_new_def)
  from reconnect_loop_ends [OF this _ assms(1)] assms(2) show ?thesis by (simp add: run_with_reconnect_def)
qed

definition calm_world :: "nat \<Rightarrow> round" where
  "calm_world i = \<lparr>rd_cancelled = False, rd_connects = (i = 1), rd_random = (\<lambda>h. h), rd_cancel_sleep = False\<rparr>"

theorem reconnect_ends_with_backoff_witness:
  "\<exists>trace. run_with_reconnect \<lparr>rcfg_cap = 60 * NANOS_PER_SEC, rcfg_max_reconnects = Some 3\<rparr> calm_world = Some trace
     \<and> length trace = 4 \<and> delay_ok (60 * NANOS_PER_SEC) trace 3"
  using reconnect_ends_with_backoff [of 3 calm_world "60 * NANOS_PER_SEC"] by (auto simp: calm_world_def)

text \<open>A complete handshake between an agent and a server that knows one node.\<close>

definition ack_codec :: "ConfigAckPayload json_codec" where
  "ack_codec =
     \<lparr>to_vec = (\<lambda>a. if ack_applied a \<and> ack_error a = None then Some (to_be_bytes 8 (ack_config_version a)) else None),
      from_slice = (\<lambda>b. Some \<lparr>ack_config_version = from_be_bytes b, ack_applied = True, ack_error = None\<rparr>)\<rparr>"

definition sample_hello_msg :: HelloPayload where
  "sample_hello_msg = \<lparr>hello_protocol_version = \<lparr>major = 1, minor = 0\<rparr>, hello_agent_version = ''0.1'',
     hello_capabilities = \<lparr>cap_tcp = True, cap_udp = True, cap_http = True, cap_websocket = True, cap_quic = True\<rparr>\<rparr>"

definition sample_auth_msg :: AuthPayload where
  "sample_auth_msg = \<lparr>auth_node_id = None, auth_credential = Some ''secret''\<rparr>"

definition joint_ext :: externals where
  "joint_ext = (sample_ext sample_ok sample_snap)\<lparr>x_json := (x_json (sample_ext sample_ok sample_snap))
     \<lparr>js_Hello := single_codec sample_hello_msg [3], js_Auth := single_codec sample_auth_msg [4], js_ConfigAck := ack_codec\<rparr>\<rparr>"

definition hello_frame :: Frame where
  "hello_frame = \<lparr>message_type = Hello, flags = 0, request_id = 1, payload = [3]\<rparr>"

definition auth_frame :: Frame where
  "auth_frame = \<lparr>message_type = Auth, flags = 0, request_id = 2, payload = [4]\<rparr>"

lemma joint_frames:
  "into_frame (x_json joint_ext) (MHello sample_hello_msg) 1 = Ok hello_frame"
  "into_frame (x_json joint_ext) (MAuth sample_auth_msg) 2 = Ok auth_frame"
  "\<exists>f. into_frame (x_json joint_ext) (config_ack v) 0 = Ok f"
  by (simp_all add: into_frame_def joint_ext_def single_codec_def hello_frame_def auth_frame_def config_ack_def ack_codec_def)

lemma joint_serde: "serde_ok (x_json joint_ext)"
  by (simp add: joint_ext_def sample_ext_def serde_ok_def ping_only_json_def) (simp add: codec_ok_def ack_codec_def)

lemma joint_routes: "node_routes joint_ext 1 sample_db = Ok []"
  by (simp add: node_routes_def list_routes_for_node_def sample_db_eval)

lemma joint_handshake:
  "\<exists>sv' w' r'. handshake joint_ext ''1'' 5 ''peer'' \<lparr>sv_db = sample_db, sv_sessions = [], sv_events = []\<rparr> \<lparr>written = [], room = None\<rparr>
      \<lparr>pending = encode hello_frame @ encode auth_frame, ending = Eof\<rparr> = (Ok (Some 1), sv', w', r')
    \<and> length (written w') \<le> MAX_FRAME_LEN"
proof -
  have ok: "frame_ok hello_frame" "frame_ok auth_frame"
    by (simp_all add: frame_ok_def hello_frame_def auth_frame_def frame_consts)
  have rd: "read_frame \<lparr>pending = encode hello_frame @ encode auth_frame, ending = Eof\<rparr>
      = (Ok (Some hello_frame), \<lparr>pending = encode auth_frame, ending = Eof\<rparr>)"
    "read_frame \<lparr>pending = encode auth_frame, ending = Eof\<rparr> = (Ok (Some auth_frame), \<lparr>pending = [], ending = Eof\<rparr>)"
    using read_frame_put [OF ok(1)] read_frame_put [OF ok(2), of "[]"] by simp_all
  note dec = from_frame_into_frame [OF joint_serde joint_frames(1)] from_frame_into_frame [OF joint_serde joint_frames(2)]
  have auth: "authenticate joint_ext (db_query sample_db) sample_auth_msg 5 = AuthDecision.Success \<lparr>as_node_id = 1, as_config_version = 0\<rparr>"
    by (simp add: authenticate_def evaluate_def db_query_def find_node_credential_def sample_auth_msg_def joint_ext_def
        sample_ext_def sample_db_eval max0_u64_def)
  show ?thesis
    using rd dec auth joint_routes
    by (simp add: handshake_def sample_hello_msg_def SUPPORTED_PROTOCOL_MAJOR_def finish_handshake_def send_snapshot_def
        send_message_def into_frame_def joint_ext_def sample_ext_def single_codec_def sample_ok_def sample_snap_def
        snapshot_message_def write_frame_def write_all_def frame_consts)
qed

theorem handshake_agreement_witness:
  "\<exists>(w' :: wstream) wa ra. finish_connect (x_json joint_ext) sample_hello_msg sample_auth_msg \<lparr>written = [], room = None\<rparr>
      \<lparr>pending = written w', ending = Eof\<rparr>
     = (Ok \<lparr>ase_node_id = 1, ase_config = \<lparr>applied_version = 0, agent_routes = []\<rparr>\<rparr>, wa, ra)"
proof -
  obtain sv' w' r' where h: "handshake joint_ext ''1'' 5 ''peer'' \<lparr>sv_db = sample_db, sv_sessions = [], sv_events = []\<rparr>
      \<lparr>written = [], room = None\<rparr> \<lparr>pending = encode hello_frame @ encode auth_frame, ending = Eof\<rparr> = (Ok (Some 1), sv', w', r')"
    "length (written w') \<le> MAX_FRAME_LEN" using joint_handshake by blast
  have stored: "stored = 0" if "stored_version joint_ext sample_db 1 stored" for stored
    using that by (auto simp: stored_version_def sample_db_eval)
  from handshake_agreement [OF joint_serde h joint_frames(1,2), of "\<lparr>written = [], room = None\<rparr>" Eof] joint_frames(3) joint_routes
  have "\<exists>wa ra. finish_connect (x_json joint_ext) sample_hello_msg sample_auth_msg \<lparr>written = [], room = None\<rparr>
      \<lparr>pending = written w', ending = Eof\<rparr>
     = (Ok \<lparr>ase_node_id = 1, ase_config = \<lparr>applied_version = 0, agent_routes = []\<rparr>\<rparr>, wa, ra)"
    by (fastforce dest!: stored simp: max0_u64_def)
  then show ?thesis by blast
qed

definition no_udp :: udp_net where
  "no_udp = \<lparr>un_lookup = (\<lambda>_ _. None), un_bind_ok = False, un_connect_ok = (\<lambda>_. False)\<rparr>"

definition snapshot_frame :: Frame where
  "snapshot_frame = \<lparr>message_type = ConfigSnapshot, flags = 0, request_id = 0, payload = [2]\<rparr>"

theorem agent_run_refines_config_witness:
  "let J = x_json joint_ext; st = run_start default_heartbeat 0 \<lparr>written = [], room = None\<rparr>
         \<lparr>ase_node_id = 1, ase_config = \<lparr>applied_version = 7, agent_routes = []\<rparr>\<rparr>;
       evs = [(no_udp, 1, 0, AgentFrame (Ok (Some snapshot_frame))), (no_udp, 2, 0, DeadlineDue)]
   in fst (agent_run J default_heartbeat evs st) = None
     \<and> view (ag_config (snd (agent_run J default_heartbeat evs st))) = (0, Map.empty)
     \<and> sent_answers J (ag_send st) (ag_send (snd (agent_run J default_heartbeat evs st)))
         [(MConfigAck \<lparr>ack_config_version = 0, ack_applied = True, ack_error = None\<rparr>, 0)]"
proof -
  let ?J = "x_json joint_ext" and ?st = "run_start default_heartbeat 0 \<lparr>written = [], room = None\<rparr>
         \<lparr>ase_node_id = 1, ase_config = \<lparr>applied_version = 7, agent_routes = []\<rparr>\<rparr>"
  let ?evs = "[(no_udp, 1, 0, AgentFrame (Ok (Some snapshot_frame))), (no_udp, 2, 0, DeadlineDue)] :: (udp_net \<times> nat \<times> i64 \<times> agent_event) list"
  have "into_frame ?J (MConfigSnapshot sample_snap) 0 = Ok snapshot_frame"
    by (simp add: into_frame_def joint_ext_def sample_ext_def single_codec_def snapshot_frame_def)
  from from_frame_into_frame [OF joint_serde this]
  have msg: "from_frame ?J snapshot_frame = Ok (MConfigSnapshot sample_snap)" .
  have "to_vec (js_ConfigAck ?J) \<lparr>ack_config_version = 0, ack_applied = True, ack_error = None\<rparr> \<noteq> None"
    by (simp add: joint_ext_def ack_codec_def)
  then have runs: "fst (agent_run ?J default_heartbeat ?evs ?st) = None"
    by (auto simp: agent_step_def on_agent_frame_def msg on_config_def sample_snap_def config_ack_def send_message_def
        into_frame_def write_frame_def write_all_def run_start_def default_heartbeat_def NANOS_PER_SEC_def)
  have msgs: "control_messages ?J ?evs = [(MConfigSnapshot sample_snap, 0)]"
    by (simp add: control_messages_def msg) (simp add: snapshot_frame_def)
  have told: "view_run [(MConfigSnapshot sample_snap, 0)] (view (ag_config ?st))
      = ((0, Map.empty), [(MConfigAck \<lparr>ack_config_version = 0, ack_applied = True, ack_error = None\<rparr>, 0)])"
    by (simp add: sample_snap_def keyed_def fun_eq_iff)
  obtain k where k: "handled ?J default_heartbeat ?st ?evs k"
    "view (ag_config (snd (agent_run ?J default_heartbeat ?evs ?st))) = fst (view_run (control_messages ?J (take k ?evs)) (view (ag_config ?st)))"
    "sent_answers ?J (ag_send ?st) (ag_send (snd (agent_run ?J default_heartbeat ?evs ?st)))
            (snd (view_run (control_messages ?J (take k ?evs)) (view (ag_config ?st))))"
    using agent_run_refines_config [of ?J default_heartbeat ?st ?evs] runs by blast
  have "take k ?evs = ?evs" using k(1) runs unfolding handled_def by (simp del: agent_run.simps(2))
  with k(2,3) runs show ?thesis unfolding Let_def by (simp only: msgs told fst_conv snd_conv simp_thms)
qed

end
