(* ===== verification/Connection.thy ===== *)
theory Connection
  imports Agent
begin

text \<open>
  The whole life of one agent connection: \<open>handle_connection\<close> and the accept loop \<open>run\<close> of \<open>server/src/quic.rs\<close>, from the
  control stream over the handshake, the registration and the control loop to the cleanup.  The branches of the control
  loop are given in the order in which they become ready.  What other tasks do to the shared state
  meanwhile is the subject of \<open>Control\<close>, where the steps of many connections interleave.
\<close>

section \<open>One connection\<close>

record conn_io =
  ci_remote :: string
  ci_streams :: "(wstream \<times> rstream) option"
  ci_start :: ctl_clock
  ci_events :: "(ctl_clock \<times> ctl_event) list"
  ci_end :: int

text \<open>The result says whether the handler has ended; while the control loop waits, it has not.\<close>

definition handle_connection :: "externals \<Rightarrow> string \<Rightarrow> int \<Rightarrow> nat \<Rightarrow> conn_io \<Rightarrow> hub \<Rightarrow> bool \<times> hub" where
  "handle_connection X server_version heartbeat_timeout conn io h =
     (case ci_streams io of
        None \<Rightarrow> (True, h)
      | Some (send, recv) \<Rightarrow>
          (case handshake X server_version (clk_unix (ci_start io)) (ci_remote io) (h_sv h) send recv of
             (Inl e, sv, w, r) \<Rightarrow> (True, h\<lparr>h_sv := sv\<rparr>)
           | (Inr None, sv, w, r) \<Rightarrow> (True, h\<lparr>h_sv := sv\<rparr>)
           | (Inr (Some nid), sv, w, r) \<Rightarrow>
               let h1 = go_live conn nid (h\<lparr>h_sv := sv\<rparr>);
                   (running, c) = serve_control_stream X heartbeat_timeout nid (ci_events io)
                     \<lparr>c_sv = h_sv h1, c_send = w, c_deadline = clk_instant (ci_start io) + heartbeat_timeout\<rparr>;
                   h2 = h1\<lparr>h_sv := c_sv c\<rparr>
               in if running then (False, h2) else (True, cleanup X (ci_end io) conn nid h2)))"

text \<open>The accept loop hands every connection whose handshake succeeded to a task of its own.\<close>

definition quic_run :: "(unit, nat) result list \<Rightarrow> nat list" where
  "quic_run incoming = List.map_filter (\<lambda>r. case r of Inr conn \<Rightarrow> Some conn | Inl _ \<Rightarrow> None) incoming"

section \<open>What a connection may change\<close>

text \<open>The control loop of a node changes the session of this node and its row, and nothing else.\<close>

definition only_node :: "externals \<Rightarrow> Uuid \<Rightarrow> server_state \<Rightarrow> server_state \<Rightarrow> bool" where
  "only_node X nid sv sv' \<longleftrightarrow>
     (\<forall>m. m \<noteq> nid \<longrightarrow> sm_get m (sv_sessions sv') = sm_get m (sv_sessions sv))
     \<and> (\<exists>rows. sv_db sv' = (sv_db sv)\<lparr>t_nodes := rows\<rparr>
           \<and> filter (\<lambda>n. node_id n \<noteq> x_show_uuid X nid) rows = filter (\<lambda>n. node_id n \<noteq> x_show_uuid X nid) (t_nodes (sv_db sv)))"

lemma only_node_refl [simp]: "only_node X nid sv sv"
  by (auto simp: only_node_def intro: exI [of _ "t_nodes (sv_db sv)"])

lemma only_node_trans: "only_node X nid a b \<Longrightarrow> only_node X nid b c \<Longrightarrow> only_node X nid a c"
  by (auto simp: only_node_def)

lemma filter_update_other:
  assumes "\<And>n. P n \<Longrightarrow> node_id n = i" "\<And>n. node_id (f n) = node_id n"
  shows "filter (\<lambda>n. node_id n \<noteq> i) (update_where P f rows) = filter (\<lambda>n. node_id n \<noteq> i) rows"
  using assms by (induction rows) (auto simp: update_where_def)

lemma sm_modify_other: "m \<noteq> nid \<Longrightarrow> sm_get m (sm_modify nid f s) = sm_get m s"
  by (simp add: sm_modify_def sm_get_def AList.update_conv' split: option.split)

lemma only_node_parts:
  "only_node X nid sv (sv\<lparr>sv_sessions := sm_modify nid f (sv_sessions sv)\<rparr>)"
  "only_node X nid sv (sv\<lparr>sv_sessions := sm_modify nid f (sv_sessions sv),
     sv_db := set_node_applied_config (x_show_uuid X nid) v ts (sv_db sv)\<rparr>)"
  "only_node X nid sv (sv\<lparr>sv_sessions := sm_modify nid f (sv_sessions sv),
     sv_db := set_node_config_failed (x_show_uuid X nid) ts (sv_db sv)\<rparr>)"
proof -
  show "only_node X nid sv (sv\<lparr>sv_sessions := sm_modify nid f (sv_sessions sv)\<rparr>)"
    by (auto simp: only_node_def sm_modify_other intro: exI [of _ "t_nodes (sv_db sv)"])
  show "only_node X nid sv (sv\<lparr>sv_sessions := sm_modify nid f (sv_sessions sv),
     sv_db := set_node_applied_config (x_show_uuid X nid) v ts (sv_db sv)\<rparr>)"
    by (auto simp: only_node_def sm_modify_other set_node_applied_config_def intro!: exI filter_update_other)
  show "only_node X nid sv (sv\<lparr>sv_sessions := sm_modify nid f (sv_sessions sv),
     sv_db := set_node_config_failed (x_show_uuid X nid) ts (sv_db sv)\<rparr>)"
    by (auto simp: only_node_def sm_modify_other set_node_config_failed_def intro!: exI filter_update_other)
qed

lemma only_node_ping:
  "only_node X nid sv (sv\<lparr>sv_sessions := sm_modify nid f (sm_modify nid g (sv_sessions sv))\<rparr>)"
  by (auto simp: only_node_def sm_modify_other intro: exI [of _ "t_nodes (sv_db sv)"])

lemma on_frame_only: "on_frame X clk nid f c = (b, c') \<Longrightarrow> only_node X nid (c_sv c) (c_sv c')"
  using only_node_parts [of X nid "c_sv c"] only_node_ping [of X nid "c_sv c"]
  by (auto simp: on_frame_def on_ping_def on_config_ack_def on_config_resync_def Let_def
      split: sum.splits Message.splits prod.splits if_splits)

lemma control_step_only: "control_step X hb clk nid ev c = (b, c') \<Longrightarrow> only_node X nid (c_sv c) (c_sv c')"
  by (auto simp: control_step_def dest!: on_frame_only
      split: ctl_event.splits sum.splits option.splits prod.splits if_splits bool.splits)

lemma serve_only: "serve_control_stream X hb nid evs c = (b, c') \<Longrightarrow> only_node X nid (c_sv c) (c_sv c')"
proof (induction evs arbitrary: c)
  case (Cons e evs)
  obtain clk ev where e: "e = (clk, ev)" by force
  obtain go c1 where s: "control_step X hb clk nid ev c = (go, c1)" by force
  show ?case
  proof (cases go)
    case True
    then have "serve_control_stream X hb nid evs c1 = (b, c')" using Cons.prems e s by simp
    from only_node_trans [OF control_step_only [OF s] Cons.IH [OF this]] show ?thesis .
  next
    case False
    then show ?thesis using Cons.prems e s control_step_only [OF s] by auto
  qed
qed auto

section \<open>Registration and cleanup\<close>

lemma cs_register_push: "cs_push (snd (cs_register nid cs)) = AList.update nid (cs_next cs) (cs_push cs)"
  by (simp add: cs_register_def Let_def)

lemma go_live_conns: "h_conns (go_live conn nid h) = AList.update nid conn (h_conns h)"
  by (simp add: go_live_def cs_register_def cr_register_def Let_def)

lemma go_live_push: "cs_push (h_sync (go_live conn nid h)) = AList.update nid (cs_next (h_sync h)) (cs_push (h_sync h))"
  by (simp add: go_live_def cs_register_def Let_def)

lemma go_live_sv [simp]: "h_sv (go_live conn nid h) = h_sv h"
  by (simp add: go_live_def cs_register_def Let_def)

lemma cleanup_parts:
  "h_conns (cleanup X now conn nid h) = AList.delete nid (h_conns h)"
  "cs_push (h_sync (cleanup X now conn nid h)) = AList.delete nid (cs_push (h_sync h))"
  "sv_sessions (h_sv (cleanup X now conn nid h)) = AList.delete nid (sv_sessions (h_sv h))"
  "sv_db (h_sv (cleanup X now conn nid h)) = set_node_offline (x_show_uuid X nid) (x_show_time X now) (sv_db (h_sv h))"
  by (simp_all add: cleanup_def Let_def cr_unregister_def cs_unregister_def sm_unregister_def)

lemma offline_nodes:
  "t_nodes (set_node_offline i ts db) = update_where (\<lambda>n. node_id n = i \<and> node_status n = ''online'')
      (\<lambda>n. n\<lparr>node_status := ''offline'', node_last_seen_at := Some ts, node_updated_at := ts\<rparr>) (t_nodes db)"
  by (simp add: set_node_offline_def)

lemma offline_rows:
  assumes "n \<in> set (t_nodes (set_node_offline i ts db))" "node_id n = i"
  shows "node_status n \<noteq> ''online''"
proof -
  obtain m where m: "n = (if node_id m = i \<and> node_status m = ''online''
      then m\<lparr>node_status := ''offline'', node_last_seen_at := Some ts, node_updated_at := ts\<rparr> else m)"
    using assms(1) unfolding offline_nodes update_where_def set_map by blast
  show ?thesis
  proof (cases "node_id m = i \<and> node_status m = ''online''")
    case True
    then show ?thesis using m by simp
  next
    case False
    then show ?thesis using m assms(2) by (simp only: if_False) blast
  qed
qed

lemma offline_others:
  "filter (\<lambda>n. node_id n \<noteq> i) (t_nodes (set_node_offline i ts db)) = filter (\<lambda>n. node_id n \<noteq> i) (t_nodes db)"
  unfolding offline_nodes by (rule filter_update_other) auto

lemma go_online_only: "only_node X nid sv (go_online X now remote av nid sv)"
  by (auto simp: only_node_def go_online_def set_node_online_def sm_register_def new_session_def sm_get_def AList.update_conv'
      intro!: exI filter_update_other)

section \<open>Properties\<close>

text \<open>C38. A connection leaves no trace.  A connection whose control stream does not present a HELLO and an AUTH
  that authenticates a node changes nothing at all.  One that does is
  the connection of the node its AUTH authenticates; when its handler has ended, the node has no connection handle,
  no push channel and no session, no row says that it is online, and the handles, channels, sessions and
  rows of all other nodes are what they were before.\<close>

theorem connection_lifecycle:
  assumes "handle_connection X ver hb conn io h = (ended, h')"
  shows "h' = h
    \<or> (\<exists>nid send recv hello p. ci_streams io = Some (send, recv) \<and> presented (x_json X) recv hello p
        \<and> authenticated X (clk_unix (ci_start io)) (sv_db (h_sv h)) p nid
        \<and> (\<forall>m. m \<noteq> nid \<longrightarrow> cr_get m (h_conns h') = cr_get m (h_conns h)
              \<and> map_of (cs_push (h_sync h')) m = map_of (cs_push (h_sync h)) m
              \<and> sm_get m (sv_sessions (h_sv h')) = sm_get m (sv_sessions (h_sv h)))
        \<and> filter (\<lambda>n. node_id n \<noteq> x_show_uuid X nid) (t_nodes (sv_db (h_sv h')))
            = filter (\<lambda>n. node_id n \<noteq> x_show_uuid X nid) (t_nodes (sv_db (h_sv h)))
        \<and> (if ended then cr_get nid (h_conns h') = None \<and> map_of (cs_push (h_sync h')) nid = None
               \<and> sm_get nid (sv_sessions (h_sv h')) = None
               \<and> (\<forall>n\<in>set (t_nodes (sv_db (h_sv h'))). node_id n = x_show_uuid X nid \<longrightarrow> node_status n \<noteq> ''online'')
           else cr_get nid (h_conns h') = Some conn))"
proof (cases "ci_streams io")
  case None
  then show ?thesis using assms by (simp add: handle_connection_def)
next
  case (Some s)
  obtain send recv where s: "s = (send, recv)" by force
  let ?now = "clk_unix (ci_start io)"
  obtain res sv w r where hs: "handshake X ver ?now (ci_remote io) (h_sv h) send recv = (res, sv, w, r)"
    by (cases "handshake X ver ?now (ci_remote io) (h_sv h) send recv") auto
  show ?thesis
  proof (cases "\<exists>nid. res = Ok (Some nid)")
    case False
    then have "sv = h_sv h" using handshake_state [OF hs] by auto
    moreover have "h' = h\<lparr>h_sv := sv\<rparr>"
      using assms Some s hs False by (cases res) (auto simp: handle_connection_def split: option.splits)
    ultimately show ?thesis by simp
  next
    case True
    then obtain nid where nid: "res = Ok (Some nid)" by blast
    then obtain av hello p where sv: "sv = go_online X ?now (ci_remote io) av nid (h_sv h)"
      and auth: "presented (x_json X) recv hello p" "authenticated X ?now (sv_db (h_sv h)) p nid"
      using handshake_state [OF hs] by auto
    have streams: "ci_streams io = Some (send, recv)" using Some s by simp
    let ?h1 = "go_live conn nid (h\<lparr>h_sv := sv\<rparr>)"
    obtain running c where loop: "serve_control_stream X hb nid (ci_events io)
        \<lparr>c_sv = sv, c_send = w, c_deadline = clk_instant (ci_start io) + hb\<rparr> = (running, c)" by force
    let ?h2 = "?h1\<lparr>h_sv := c_sv c\<rparr>"
    have h': "(ended, h') = (if running then (False, ?h2) else (True, cleanup X (ci_end io) conn nid ?h2))"
      using assms Some s hs nid loop by (simp add: handle_connection_def Let_def)
    have only: "only_node X nid (h_sv h) (c_sv c)"
      using only_node_trans [OF go_online_only [of X nid "h_sv h" ?now "ci_remote io" av], of "c_sv c"] serve_only [OF loop] sv by simp
    show ?thesis
      using h' only
      by (intro disjI2 exI [of _ nid] exI [of _ send] exI [of _ recv] exI [of _ hello] exI [of _ p] conjI [OF streams] conjI [OF auth(1)] conjI [OF auth(2)])
        (auto simp: cleanup_parts go_live_conns go_live_push cr_get_def sm_get_def AList.update_conv' AList.delete_conv' only_node_def
          offline_rows offline_others split: if_splits)
  qed
qed

definition sample_conn :: conn_io where
  "sample_conn = \<lparr>ci_remote = ''peer'',
     ci_streams = Some (\<lparr>written = [], room = None\<rparr>, \<lparr>pending = encode hello_frame @ encode auth_frame, ending = Eof\<rparr>),
     ci_start = \<lparr>clk_instant = 0, clk_unix = 5\<rparr>, ci_events = [(\<lparr>clk_instant = 1, clk_unix = 6\<rparr>, ConnClosed)], ci_end = 9\<rparr>"

theorem connection_lifecycle_witness:
  "\<exists>h'. handle_connection joint_ext ''1'' 45 7 sample_conn (hub_init sample_db) = (True, h')
     \<and> h_sv h' \<noteq> h_sv (hub_init sample_db)
     \<and> (\<exists>nid p. authenticated joint_ext 5 sample_db p nid \<and> sm_get nid (sv_sessions (h_sv h')) = None)"
proof -
  obtain sv w r where hs: "handshake joint_ext ''1'' 5 ''peer'' (h_sv (hub_init sample_db)) \<lparr>written = [], room = None\<rparr>
      \<lparr>pending = encode hello_frame @ encode auth_frame, ending = Eof\<rparr> = (Ok (Some 1), sv, w, r)"
    using joint_handshake by (auto simp: hub_init_def)
  define h' where "h' = snd (handle_connection joint_ext ''1'' 45 7 sample_conn (hub_init sample_db))"
  have run: "handle_connection joint_ext ''1'' 45 7 sample_conn (hub_init sample_db) = (True, h')"
    using hs by (simp add: h'_def handle_connection_def sample_conn_def control_step_def Let_def)
  have "sv_events (h_sv h') = sv_events sv @ [NodeOffline (x_show_uuid joint_ext 1)]"
    using hs by (simp add: h'_def handle_connection_def sample_conn_def control_step_def cleanup_def Let_def)
  then have changed: "h_sv h' \<noteq> h_sv (hub_init sample_db)"
    by (auto simp: hub_init_def)
  then have "h' \<noteq> hub_init sample_db" by auto
  with connection_lifecycle [OF run] show ?thesis
    using run changed by (auto simp: sample_conn_def hub_init_def)
qed

end
