(* ===== verification/WebSession.thy ===== *)
theory WebSession
  imports Net
begin

text \<open>
  Web sessions (\<open>server/src/session.rs\<close>), role-based access control (\<open>server/src/api/rbac.rs\<close>) and
  the credential headers of a request (\<open>cookie_value\<close>, \<open>bearer_token\<close>, \<open>current_user\<close> of
  \<open>server/src/api/auth.rs\<close>).

  The clock (Unix seconds) and the random tokens are arguments of each operation.
\<close>

section \<open>The session store\<close>

definition SESSION_TTL_SECS :: int where "SESSION_TTL_SECS = 7 * 24 * 3600"
definition ACCESS_TOKEN_TTL_SECS :: int where "ACCESS_TOKEN_TTL_SECS = 15 * 60"

lemmas ttl_defs = SESSION_TTL_SECS_def ACCESS_TOKEN_TTL_SECS_def

record User =
  u_id :: string
  u_username :: string
  u_email :: "string option"
  u_role :: string

record Session =
  sess_user :: User
  sess_expires_at :: int

record AccessToken =
  tok_session_id :: string
  tok_expires_at :: int

record Issued =
  issued_session_id :: string
  issued_access_token :: string

record SessionStore =
  sessions :: "string \<Rightarrow> Session option"
  access_tokens :: "string \<Rightarrow> AccessToken option"

definition new_store :: SessionStore where
  "new_store = \<lparr>sessions = (\<lambda>_. None), access_tokens = (\<lambda>_. None)\<rparr>"

definition ss_create :: "int \<Rightarrow> string \<Rightarrow> string \<Rightarrow> User \<Rightarrow> SessionStore \<Rightarrow> Issued \<times> SessionStore" where
  "ss_create now sid tok user s =
     (\<lparr>issued_session_id = sid, issued_access_token = tok\<rparr>,
      s\<lparr>sessions := (sessions s)(sid \<mapsto> \<lparr>sess_user = user, sess_expires_at = now + SESSION_TTL_SECS\<rparr>),
        access_tokens := (access_tokens s)
          (tok \<mapsto> \<lparr>tok_session_id = sid, tok_expires_at = now + ACCESS_TOKEN_TTL_SECS\<rparr>)\<rparr>)"

definition user_by_session :: "int \<Rightarrow> string \<Rightarrow> SessionStore \<Rightarrow> User option \<times> SessionStore" where
  "user_by_session now sid s =
     (case sessions s sid of
        None \<Rightarrow> (None, s)
      | Some session \<Rightarrow>
          if sess_expires_at session \<le> now
          then (None, s\<lparr>sessions := (sessions s)(sid := None)\<rparr>)
          else (Some (sess_user session), s))"

definition user_by_access_token :: "int \<Rightarrow> string \<Rightarrow> SessionStore \<Rightarrow> User option \<times> SessionStore" where
  "user_by_access_token now tok s =
     (case access_tokens s tok of
        None \<Rightarrow> (None, s)
      | Some entry \<Rightarrow>
          if tok_expires_at entry \<le> now
          then (None, s\<lparr>access_tokens := (access_tokens s)(tok := None)\<rparr>)
          else user_by_session now (tok_session_id entry) s)"

definition ss_refresh :: "int \<Rightarrow> string \<Rightarrow> string \<Rightarrow> SessionStore \<Rightarrow> string option \<times> SessionStore" where
  "ss_refresh now new_tok sid s =
     (case sessions s sid of
        None \<Rightarrow> (None, s)
      | Some session \<Rightarrow>
          if sess_expires_at session \<le> now
          then (None, s\<lparr>sessions := (sessions s)(sid := None)\<rparr>)
          else (Some new_tok,
                s\<lparr>access_tokens := (access_tokens s)
                  (new_tok \<mapsto> \<lparr>tok_session_id = sid, tok_expires_at = now + ACCESS_TOKEN_TTL_SECS\<rparr>)\<rparr>))"

definition ss_revoke :: "string \<Rightarrow> SessionStore \<Rightarrow> SessionStore" where
  "ss_revoke sid s =
     s\<lparr>sessions := (sessions s)(sid := None),
       access_tokens := (\<lambda>t. case access_tokens s t of
          Some e \<Rightarrow> if tok_session_id e \<noteq> sid then Some e else None | None \<Rightarrow> None)\<rparr>"

section \<open>Runs of the session store\<close>

datatype store_op =
    Create string string User
  | LookSession string
  | LookToken string
  | Refresh string string
  | Revoke string

fun store_step :: "int \<times> store_op \<Rightarrow> SessionStore \<Rightarrow> SessionStore" where
  "store_step (now, Create sid tok user) s = snd (ss_create now sid tok user s)"
| "store_step (now, LookSession sid) s = snd (user_by_session now sid s)"
| "store_step (now, LookToken tok) s = snd (user_by_access_token now tok s)"
| "store_step (now, Refresh tok sid) s = snd (ss_refresh now tok sid s)"
| "store_step (now, Revoke sid) s = ss_revoke sid s"

fun store_run :: "(int \<times> store_op) list \<Rightarrow> SessionStore \<Rightarrow> SessionStore" where
  "store_run [] s = s"
| "store_run (op # ops) s = store_run ops (store_step op s)"

text \<open>An operation leaves the session \<open>sid\<close> and the token \<open>tok\<close> alone when it neither revokes the
  session nor draws one of the two random identifiers again.\<close>

fun foreign :: "string \<Rightarrow> string \<Rightarrow> store_op \<Rightarrow> bool" where
  "foreign sid tok (Create sid' tok' u) \<longleftrightarrow> sid' \<noteq> sid \<and> tok' \<noteq> tok"
| "foreign sid tok (Refresh tok' sid') \<longleftrightarrow> tok' \<noteq> tok"
| "foreign sid tok (Revoke sid') \<longleftrightarrow> sid' \<noteq> sid"
| "foreign sid tok _ \<longleftrightarrow> True"

definition live :: "string \<Rightarrow> string \<Rightarrow> Session \<Rightarrow> AccessToken \<Rightarrow> int \<Rightarrow> SessionStore \<Rightarrow> bool" where
  "live sid tok sess entry now s \<longleftrightarrow>
     (sessions s sid = Some sess \<or> sessions s sid = None \<and> sess_expires_at sess \<le> now)
     \<and> (access_tokens s tok = Some entry \<or> access_tokens s tok = None \<and> tok_expires_at entry \<le> now)"

lemmas store_defs = ss_create_def user_by_session_def user_by_access_token_def ss_refresh_def ss_revoke_def

lemma live_later: "live sid tok sess entry now s \<Longrightarrow> now \<le> now' \<Longrightarrow> live sid tok sess entry now' s"
  by (auto simp: live_def)

text \<open>A lookup or a refresh removes at most expired entries.\<close>

definition expired_sess :: "int \<Rightarrow> Session option \<Rightarrow> bool" where
  "expired_sess now x = (case x of Some e \<Rightarrow> sess_expires_at e \<le> now | None \<Rightarrow> False)"

definition expired_tok :: "int \<Rightarrow> AccessToken option \<Rightarrow> bool" where
  "expired_tok now x = (case x of Some e \<Rightarrow> tok_expires_at e \<le> now | None \<Rightarrow> False)"

lemma user_by_session_effect:
  "sessions (snd (user_by_session now k s)) j =
     (if j = k \<and> expired_sess now (sessions s k) then None else sessions s j)"
  "access_tokens (snd (user_by_session now k s)) = access_tokens s"
  by (auto simp: user_by_session_def expired_sess_def split: option.splits)

lemma user_by_access_token_effect:
  "\<exists>k. sessions (snd (user_by_access_token now t s)) j =
     (if j = k \<and> expired_sess now (sessions s k) then None else sessions s j)"
  "access_tokens (snd (user_by_access_token now t s)) j =
     (if j = t \<and> expired_tok now (access_tokens s t) then None else access_tokens s j)"
  by (auto simp: user_by_access_token_def user_by_session_effect expired_tok_def expired_sess_def
      split: option.splits)

lemma ss_refresh_effect:
  "sessions (snd (ss_refresh now t k s)) j =
     (if j = k \<and> expired_sess now (sessions s k) then None else sessions s j)"
  "j \<noteq> t \<Longrightarrow> access_tokens (snd (ss_refresh now t k s)) j = access_tokens s j"
  by (auto simp: ss_refresh_def expired_sess_def split: option.splits)

lemma live_sess_removed:
  assumes "live sid tok sess entry now s"
    and "sessions s' sid = (if sid = k \<and> expired_sess now (sessions s k) then None else sessions s sid)"
    and "access_tokens s' tok = (if tok = t \<and> expired_tok now (access_tokens s t) then None else access_tokens s tok)"
  shows "live sid tok sess entry now s'"
  using assms by (auto simp: live_def expired_sess_def expired_tok_def split: if_splits)

lemma live_step:
  assumes "live sid tok sess entry now s" "foreign sid tok x" "tok_session_id entry = sid"
  shows "live sid tok sess entry now (store_step (now, x) s)"
proof (cases x)
  case (LookSession k)
  then show ?thesis
    using live_sess_removed [OF assms(1), of _ k "tok @ ''x''"] by (simp add: user_by_session_effect)
next
  case (LookToken t)
  obtain k where "sessions (snd (user_by_access_token now t s)) sid =
      (if sid = k \<and> expired_sess now (sessions s k) then None else sessions s sid)"
    using user_by_access_token_effect(1) by blast
  then show ?thesis
    using LookToken live_sess_removed [OF assms(1), of _ k t] by (simp add: user_by_access_token_effect(2))
next
  case (Refresh t k)
  then show ?thesis
    using assms(2) live_sess_removed [OF assms(1), of _ k "tok @ ''x''"] by (simp add: ss_refresh_effect)
qed (use assms in \<open>simp_all add: live_def ss_create_def ss_revoke_def\<close>, auto split: option.splits)

lemma live_run:
  assumes "live sid tok sess entry t s" "tok_session_id entry = sid"
    and "sorted (t # map fst ops)" "\<forall>op\<in>set ops. foreign sid tok (snd op)"
    and "\<forall>op\<in>set ops. fst op \<le> now" "t \<le> now"
  shows "live sid tok sess entry now (store_run ops s)"
  using assms
proof (induction ops arbitrary: t s)
  case Nil
  then show ?case using live_later by simp
next
  case (Cons op ops)
  have "live sid tok sess entry (fst op) s"
    using live_later [OF Cons.prems(1)] Cons.prems(3) by simp
  then have st: "live sid tok sess entry (fst op) (store_step op s)"
    using Cons.prems(2,4) live_step [of sid tok sess entry "fst op" s "snd op"] by simp
  have "live sid tok sess entry now (store_run ops (store_step op s))"
    using Cons.prems by (intro Cons.IH [OF st]) simp_all
  then show ?case by simp
qed

text \<open>No session and no token leads to \<open>sid\<close>.\<close>

definition no_access :: "string \<Rightarrow> SessionStore \<Rightarrow> bool" where
  "no_access sid s \<longleftrightarrow>
     sessions s sid = None \<and> (\<forall>tok en. access_tokens s tok = Some en \<longrightarrow> tok_session_id en \<noteq> sid)"

fun creates :: "string \<Rightarrow> store_op \<Rightarrow> bool" where
  "creates sid (Create sid' tok u) \<longleftrightarrow> sid' = sid"
| "creates sid _ \<longleftrightarrow> False"

lemma no_access_shrink:
  assumes "no_access sid s"
    and "sessions s' sid = sessions s sid \<or> sessions s' sid = None"
    and "\<And>t. access_tokens s' t = access_tokens s t \<or> access_tokens s' t = None"
  shows "no_access sid s'"
  using assms unfolding no_access_def by (metis option.distinct(1))

lemma no_access_step:
  assumes "no_access sid s" "\<not> creates sid x"
  shows "no_access sid (store_step (now, x) s)"
proof (cases x)
  case (LookSession k)
  then show ?thesis using assms(1) by (intro no_access_shrink [OF assms(1)]) (auto simp: user_by_session_effect)
next
  case (LookToken t)
  obtain k where "sessions (snd (user_by_access_token now t s)) sid =
      (if sid = k \<and> expired_sess now (sessions s k) then None else sessions s sid)"
    using user_by_access_token_effect(1) by blast
  then show ?thesis
    using LookToken by (intro no_access_shrink [OF assms(1)]) (auto simp: user_by_access_token_effect(2))
next
  case (Refresh t k)
  then show ?thesis using assms(1) by (auto simp: no_access_def ss_refresh_def split: option.splits)
qed (use assms in \<open>auto simp: no_access_def ss_create_def ss_revoke_def split: option.splits if_splits\<close>)

lemma no_access_run:
  assumes "no_access sid s" "\<forall>op\<in>set ops. \<not> creates sid (snd op)"
  shows "no_access sid (store_run ops s)"
  using assms
proof (induction ops arbitrary: s)
  case (Cons op ops)
  then show ?case using no_access_step [of sid s "snd op" "fst op"] by simp
qed simp

section \<open>Permissions\<close>

datatype Permission =
    NodesRead | NodesWrite | RoutesRead | RoutesWrite | UsersRead | UsersWrite
  | LogsRead | AuditRead | SettingsRead | SettingsWrite

fun perm_code :: "Permission \<Rightarrow> string" where
  "perm_code NodesRead = ''nodes.read''"
| "perm_code NodesWrite = ''nodes.write''"
| "perm_code RoutesRead = ''routes.read''"
| "perm_code RoutesWrite = ''routes.write''"
| "perm_code UsersRead = ''users.read''"
| "perm_code UsersWrite = ''users.write''"
| "perm_code LogsRead = ''logs.read''"
| "perm_code AuditRead = ''audit.read''"
| "perm_code SettingsRead = ''settings.read''"
| "perm_code SettingsWrite = ''settings.write''"

definition is_read :: "Permission \<Rightarrow> bool" where
  "is_read p \<longleftrightarrow> p \<in> {NodesRead, RoutesRead, UsersRead, LogsRead, AuditRead, SettingsRead}"

definition role_has_permission :: "string \<Rightarrow> Permission \<Rightarrow> bool" where
  "role_has_permission role p =
     (if role = ''admin'' then True
      else if role = ''operator'' then p \<in> {NodesRead, NodesWrite, RoutesRead, RoutesWrite}
      else if role = ''viewer'' then is_read p
      else False)"

definition user_has_permission :: "User \<Rightarrow> Permission \<Rightarrow> bool" where
  "user_has_permission user p = role_has_permission (u_role user) p"

section \<open>Credential headers\<close>

type_synonym HeaderMap = "(string \<times> string) list"

text \<open>\<open>HeaderMap::get\<close> returns the first value of a (lower-case) name; \<open>HeaderValue::to_str\<close> fails
  unless every byte is visible ASCII, a space or a tab.\<close>

definition header_str :: "string \<Rightarrow> HeaderMap \<Rightarrow> string option" where
  "header_str name hs =
     (case map_of hs name of
        Some v \<Rightarrow> if list_all (\<lambda>c. code c = 9 \<or> (32 \<le> code c \<and> code c < 127)) v then Some v else None
      | None \<Rightarrow> None)"

fun split_on :: "char \<Rightarrow> string \<Rightarrow> string list" where
  "split_on c [] = [[]]"
| "split_on c (x # xs) =
     (if x = c then [] # split_on c xs
      else case split_on c xs of [] \<Rightarrow> [[x]] | p # ps \<Rightarrow> (x # p) # ps)"

fun find_map :: "('a \<Rightarrow> 'b option) \<Rightarrow> 'a list \<Rightarrow> 'b option" where
  "find_map f [] = None"
| "find_map f (x # xs) = (case f x of Some y \<Rightarrow> Some y | None \<Rightarrow> find_map f xs)"

definition SESSION_COOKIE :: string where "SESSION_COOKIE = ''sid''"

definition cookie_value :: "HeaderMap \<Rightarrow> string \<Rightarrow> string option" where
  "cookie_value hs name =
     (case header_str ''cookie'' hs of
        None \<Rightarrow> None
      | Some v \<Rightarrow>
          find_map (\<lambda>part. case split_once CHR ''='' part of
              None \<Rightarrow> None
            | Some (key, val) \<Rightarrow> if key = name then Some val else None) (map trim (split_on CHR '';'' v)))"

definition strip_prefix :: "string \<Rightarrow> string \<Rightarrow> string option" where
  "strip_prefix p s = (if take (length p) s = p then Some (drop (length p) s) else None)"

definition bearer_token :: "HeaderMap \<Rightarrow> string option" where
  "bearer_token hs =
     (case header_str ''authorization'' hs of
        None \<Rightarrow> None
      | Some v \<Rightarrow> map_option trim (strip_prefix ''Bearer '' v))"

definition current_user :: "int \<Rightarrow> HeaderMap \<Rightarrow> SessionStore \<Rightarrow> User option \<times> SessionStore" where
  "current_user now hs s =
     (let (by_token, s1) = (case bearer_token hs of
              Some tok \<Rightarrow> user_by_access_token now tok s
            | None \<Rightarrow> (None, s))
      in case by_token of
           Some user \<Rightarrow> (Some user, s1)
         | None \<Rightarrow>
             (case cookie_value hs SESSION_COOKIE of
                None \<Rightarrow> (None, s1)
              | Some sid \<Rightarrow> user_by_session now sid s1))"

text \<open>\<open>session_cookie\<close> for a session identifier made of header characters.\<close>

definition session_cookie :: "string \<Rightarrow> string" where
  "session_cookie sid =
     (let v = SESSION_COOKIE @ ''='' @ sid @ ''; HttpOnly; Secure; SameSite=Strict; Path=/; Max-Age=604800''
      in if list_all (\<lambda>c. code c = 9 \<or> (32 \<le> code c \<and> code c \<noteq> 127)) v then v else ''sid='')"

lemma user_by_session_Some:
  "fst (user_by_session now sid s) = Some u \<longleftrightarrow>
     (\<exists>e. sessions s sid = Some \<lparr>sess_user = u, sess_expires_at = e\<rparr> \<and> now < e)"
  by (cases "the (sessions s sid)") (auto simp: user_by_session_def split: option.splits)

lemma user_by_access_token_Some:
  "fst (user_by_access_token now tok s) = Some u \<longleftrightarrow>
     (\<exists>en. access_tokens s tok = Some en \<and> now < tok_expires_at en
         \<and> fst (user_by_session now (tok_session_id en) s) = Some u)"
  by (auto simp: user_by_access_token_def split: option.splits)

section \<open>Properties\<close>

text \<open>Session lifetime: a session created at time \<open>t\<close> with fresh identifiers authenticates its
  user through the cookie exactly until \<open>t + 7\<close> days and through the issued access token exactly
  until \<open>t + 15\<close> minutes, whatever other sessions are created, looked up, refreshed or revoked in
  between, and whenever expired entries are cleaned up.\<close>

theorem session_lifetime:
  assumes "sorted (t # map fst ops)" "\<forall>op\<in>set ops. fst op \<le> now" "t \<le> now"
    and "\<forall>op\<in>set ops. foreign sid tok (snd op)"
  shows "fst (user_by_session now sid (store_run ops (snd (ss_create t sid tok user s))))
           = (if now < t + SESSION_TTL_SECS then Some user else None)
       \<and> fst (user_by_access_token now tok (store_run ops (snd (ss_create t sid tok user s))))
           = (if now < t + ACCESS_TOKEN_TTL_SECS then Some user else None)"
proof -
  let ?sess = "\<lparr>sess_user = user, sess_expires_at = t + SESSION_TTL_SECS\<rparr>"
  let ?en = "\<lparr>tok_session_id = sid, tok_expires_at = t + ACCESS_TOKEN_TTL_SECS\<rparr>"
  have "live sid tok ?sess ?en t (snd (ss_create t sid tok user s))"
    by (simp add: live_def ss_create_def)
  then have "live sid tok ?sess ?en now (store_run ops (snd (ss_create t sid tok user s)))"
    using assms by (intro live_run) auto
  then show ?thesis
    by (auto simp: live_def user_by_session_def user_by_access_token_def ttl_defs split: option.splits)
qed

definition sample_user :: User where
  "sample_user = \<lparr>u_id = ''u1'', u_username = ''bob'', u_email = None, u_role = ''viewer''\<rparr>"

theorem session_lifetime_witness:
  "fst (user_by_access_token 1000 ''t1''
      (store_run [(500, Create ''s2'' ''t2'' sample_user), (600, Revoke ''s2'')]
        (snd (ss_create 100 ''s1'' ''t1'' sample_user new_store)))) = None
   \<and> fst (user_by_session 1000 ''s1''
      (store_run [(500, Create ''s2'' ''t2'' sample_user), (600, Revoke ''s2'')]
        (snd (ss_create 100 ''s1'' ''t1'' sample_user new_store)))) = Some sample_user"
  using session_lifetime [of 100 "[(500, Create ''s2'' ''t2'' sample_user), (600, Revoke ''s2'')]" 1000
      "''s1''" "''t1''" sample_user new_store]
  by (simp add: ttl_defs)

text \<open>Logout is effective and final: after a session is revoked, and after any further
  operations that do not create a session with the same identifier, its cookie authenticates nobody
  at any time and no stored access token belongs to it.\<close>

theorem revoked_session_stays_revoked:
  assumes "\<forall>op\<in>set ops. \<not> creates sid (snd op)"
  shows "fst (user_by_session now sid (store_run ops (ss_revoke sid s))) = None
       \<and> (\<forall>tok en. access_tokens (store_run ops (ss_revoke sid s)) tok = Some en \<longrightarrow> tok_session_id en \<noteq> sid)"
proof -
  have "no_access sid (ss_revoke sid s)"
    by (auto simp: no_access_def ss_revoke_def split: option.splits if_splits)
  from no_access_run [OF this assms] show ?thesis
    by (simp add: no_access_def user_by_session_def)
qed

theorem revoked_session_stays_revoked_witness:
  "fst (user_by_session 300 ''s1''
     (store_run [(250, Refresh ''t9'' ''s1'')]
        (ss_revoke ''s1'' (snd (ss_create 100 ''s1'' ''t1'' sample_user new_store))))) = None"
  using revoked_session_stays_revoked [of "[(250, Refresh ''t9'' ''s1'')]" "''s1''" 300
      "snd (ss_create 100 ''s1'' ''t1'' sample_user new_store)"]
  by simp

text \<open>The permission matrix is ordered: a viewer may do exactly the read operations, an operator
  exactly the node and route operations, an administrator everything, and any other role nothing.\<close>

theorem permission_matrix:
  "user_has_permission u p \<longleftrightarrow>
     u_role u = ''admin''
     \<or> (u_role u = ''operator'' \<and> p \<in> {NodesRead, NodesWrite, RoutesRead, RoutesWrite})
     \<or> (u_role u = ''viewer'' \<and> p \<notin> {NodesWrite, RoutesWrite, UsersWrite, SettingsWrite})"
  by (cases p) (auto simp: user_has_permission_def role_has_permission_def is_read_def)

end
