(* ===== verification/Api.thy ===== *)
theory Api
  imports NodeAuth WebSession Limiters
begin

text \<open>
  The management API (\<open>server/src/api\<close>): the shared application state, the error type, permission
  checks, audit logging (\<open>mod.rs\<close>), login, logout and refresh (\<open>auth.rs\<close>) and the first-run setup
  (\<open>setup.rs\<close>).

  A handler maps the application state to a result and the new state; everything it reads from its
  environment (clock, timestamps, random identifiers) is in the record \<open>env\<close>.  Password hashing
  (\<open>argon2\<close>) and JSON texts are parameters.  Error messages that print values with the debug
  formatter are abbreviated; statuses and error codes are the source's.
\<close>

section \<open>State and handlers\<close>

record app =
  a_db :: Db
  a_sessions :: SessionStore
  a_limiter :: LoginLimiter
  a_acl :: AclSnapshot
  a_config :: ConfigManager
  a_sync :: ConfigSync
  a_events :: "event list"
  a_allow_unsafe_targets :: bool

record env =
  e_now :: u64
  e_ts :: string
  e_uuid :: "nat \<Rightarrow> string"
  e_token :: "nat \<Rightarrow> string"

record api_externals =
  y_ext :: externals
  y_show_limits :: "Limits \<Rightarrow> string option"
  y_meta :: "(string \<times> string) list \<Rightarrow> string"
  y_hash_password :: "string \<Rightarrow> string option"
  y_verify_password :: "string \<Rightarrow> string \<Rightarrow> bool option"

datatype ApiError = ApiError nat string string

definition unauthorized :: "string \<Rightarrow> ApiError" where "unauthorized m = ApiError 401 ''UNAUTHORIZED'' m"
definition forbidden :: "string \<Rightarrow> ApiError" where "forbidden m = ApiError 403 ''FORBIDDEN'' m"
definition not_found :: "string \<Rightarrow> string \<Rightarrow> ApiError" where "not_found c m = ApiError 404 c m"
definition conflict :: "string \<Rightarrow> string \<Rightarrow> ApiError" where "conflict c m = ApiError 409 c m"
definition unprocessable :: "string \<Rightarrow> string \<Rightarrow> ApiError" where "unprocessable c m = ApiError 422 c m"
definition internal_error :: "string \<Rightarrow> ApiError" where "internal_error m = ApiError 500 ''INTERNAL'' m"
definition too_many_requests :: "string \<Rightarrow> string \<Rightarrow> ApiError" where "too_many_requests c m = ApiError 429 c m"

definition map_db_error :: "DbError \<Rightarrow> string \<Rightarrow> ApiError" where
  "map_db_error e resource =
     (case e of
        UniqueViolation \<Rightarrow> conflict ''DUPLICATE'' (resource @ '' already exists (unique constraint violated)'')
      | _ \<Rightarrow> internal_error ''database error'')"

type_synonym 'a handler = "app \<Rightarrow> (ApiError, 'a) result \<times> app"

definition hbind :: "'a handler \<Rightarrow> ('a \<Rightarrow> 'b handler) \<Rightarrow> 'b handler" where
  "hbind m f = (\<lambda>s. case m s of (Inl e, s1) \<Rightarrow> (Err e, s1) | (Inr x, s1) \<Rightarrow> f x s1)"

definition hlift :: "(ApiError, 'a) result \<Rightarrow> 'a handler" where
  "hlift r = (\<lambda>s. (r, s))"

definition hget :: "(app \<Rightarrow> 'a) \<Rightarrow> 'a handler" where
  "hget f = (\<lambda>s. (Ok (f s), s))"

definition hmod :: "(app \<Rightarrow> app) \<Rightarrow> unit handler" where
  "hmod f = (\<lambda>s. (Ok (), f s))"

text \<open>Run a database statement and store the new database.\<close>

definition hdb :: "(DbError \<Rightarrow> ApiError) \<Rightarrow> (Db \<Rightarrow> (DbError, Db) result) \<Rightarrow> unit handler" where
  "hdb err stmt = (\<lambda>s. case stmt (a_db s) of Inl e \<Rightarrow> (Err (err e), s) | Inr db \<Rightarrow> (Ok (), s\<lparr>a_db := db\<rparr>))"

definition internal_db :: "DbError \<Rightarrow> ApiError" where
  "internal_db e = internal_error ''database error''"

definition publish :: "event \<Rightarrow> unit handler" where
  "publish ev = hmod (\<lambda>s. s\<lparr>a_events := a_events s @ [ev]\<rparr>)"

lemma hbind_simps [simp]:
  "hbind (hlift (Inl e)) f s = (Err e, s)"
  "hbind (hlift (Inr x)) f s = f x s"
  "hbind (hget g) f s = f (g s) s"
  "hbind (hmod h) k s = k () (h s)"
  by (simp_all add: hbind_def hlift_def hget_def hmod_def)

lemma hbind_assoc: "hbind (hbind m f) g = hbind m (\<lambda>x. hbind (f x) g)"
  by (auto simp: hbind_def fun_eq_iff split: prod.splits sum.splits)

lemma hbind_Ok:
  "hbind m f s = (Ok y, s') \<longleftrightarrow> (\<exists>x s1. m s = (Ok x, s1) \<and> f x s1 = (Ok y, s'))"
  by (auto simp: hbind_def split: prod.splits sum.splits)

lemma hlift_Ok [simp]: "hlift r s = (Ok y, s') \<longleftrightarrow> r = Ok y \<and> s' = s"
  by (auto simp: hlift_def)

lemma hget_Ok [simp]: "hget f s = (Ok y, s') \<longleftrightarrow> y = f s \<and> s' = s"
  by (auto simp: hget_def)

lemma hmod_Ok [simp]: "hmod f s = (Ok y, s') \<longleftrightarrow> s' = f s"
  by (auto simp: hmod_def)

lemma hdb_Ok [simp]:
  "hdb err stmt s = (Ok y, s') \<longleftrightarrow> (\<exists>db. stmt (a_db s) = Ok db \<and> s' = s\<lparr>a_db := db\<rparr>)"
  by (auto simp: hdb_def split: sum.splits)

section \<open>Permissions and audit\<close>

definition require_permission :: "User \<Rightarrow> Permission \<Rightarrow> (ApiError, unit) result" where
  "require_permission user p =
     (if user_has_permission user p then Ok ()
      else Err (forbidden (''permission '' @ [chr 39] @ perm_code p @ [chr 39] @ '' required'')))"

definition audit_row :: "env \<Rightarrow> nat \<Rightarrow> string option \<Rightarrow> string \<Rightarrow> string \<Rightarrow> string \<Rightarrow> string option \<Rightarrow> AuditRow" where
  "audit_row E i uid action rtype rid meta =
     \<lparr>audit_id = e_uuid E i, audit_user_id = uid, audit_action = action, audit_resource_type = Some rtype,
      audit_resource_id = Some rid, audit_ip = None, audit_user_agent = None, audit_metadata = meta,
      audit_created_at = e_ts E\<rparr>"

definition write_audit :: "env \<Rightarrow> nat \<Rightarrow> string option \<Rightarrow> string \<Rightarrow> string \<Rightarrow> string \<Rightarrow> string option \<Rightarrow> unit handler" where
  "write_audit E i uid action rtype rid meta =
     hdb internal_db (insert_audit_log (audit_row E i uid action rtype rid meta))"

text \<open>\<open>let _ = write_audit(..).await\<close>: the error is ignored.\<close>

definition try_audit :: "env \<Rightarrow> nat \<Rightarrow> string option \<Rightarrow> string \<Rightarrow> string \<Rightarrow> string \<Rightarrow> string option \<Rightarrow> unit handler" where
  "try_audit E i uid action rtype rid meta =
     (\<lambda>s. (Ok (), snd (write_audit E i uid action rtype rid meta s)))"

section \<open>Login, logout, refresh\<close>

record LoginResponse =
  lr_user :: User
  lr_access_token :: string
  lr_cookie :: string

definition session_now :: "env \<Rightarrow> int" where
  "session_now E = uint (e_now E)"

definition issue_session :: "env \<Rightarrow> User \<Rightarrow> LoginResponse handler" where
  "issue_session E user =
     (\<lambda>s. let (iss, st) = ss_create (session_now E) (e_token E 0) (e_token E 1) user (a_sessions s) in
          (Ok \<lparr>lr_user = user, lr_access_token = issued_access_token iss,
               lr_cookie = session_cookie (issued_session_id iss)\<rparr>,
           s\<lparr>a_sessions := st\<rparr>))"

definition login_failed :: "api_externals \<Rightarrow> env \<Rightarrow> string \<Rightarrow> string option \<Rightarrow> string \<Rightarrow> 'a handler" where
  "login_failed Y E username uid resource =
     hbind (hmod (\<lambda>s. s\<lparr>a_limiter := record_failure (e_now E) username (a_limiter s)\<rparr>)) (\<lambda>_.
     hbind (try_audit E 0 uid ''login.failed'' ''user'' resource
              (Some (y_meta Y [(''username'', username)]))) (\<lambda>_.
     hlift (Err (unauthorized ''invalid username or password''))))"

definition login_success :: "env \<Rightarrow> string \<Rightarrow> UserRow \<Rightarrow> LoginResponse handler" where
  "login_success E username row =
     hbind (hmod (\<lambda>s. s\<lparr>a_limiter := ll_reset username (a_limiter s)\<rparr>)) (\<lambda>_.
     hbind (hget (\<lambda>s. case list_role_names_for_user (user_id row) (a_db s) of
                        [] \<Rightarrow> ''user'' | r # _ \<Rightarrow> r)) (\<lambda>role.
     let user = \<lparr>u_id = user_id row, u_username = user_username row, u_email = user_email row, u_role = role\<rparr> in
     hbind (issue_session E user) (\<lambda>resp.
     hbind (write_audit E 0 (Some (user_id row)) ''login'' ''user'' (user_id row) None) (\<lambda>_.
     hlift (Ok resp)))))"

definition login :: "api_externals \<Rightarrow> env \<Rightarrow> string \<Rightarrow> string \<Rightarrow> LoginResponse handler" where
  "login Y E username password s =
     (let (ok, lim) = ll_allows (e_now E) username (a_limiter s); s1 = s\<lparr>a_limiter := lim\<rparr> in
      if \<not> ok then (Err (too_many_requests ''LOGIN_LOCKED'' ''too many failed login attempts; try again later''), s1)
      else case find_user_by_username username (a_db s1) of
        None \<Rightarrow> login_failed Y E username None username s1
      | Some row \<Rightarrow>
          if user_disabled row then login_failed Y E username (Some (user_id row)) (user_id row) s1
          else (case y_verify_password Y password (user_password_hash row) of
                  None \<Rightarrow> (Err (internal_error ''password hash''), s1)
                | Some False \<Rightarrow> login_failed Y E username (Some (user_id row)) (user_id row) s1
                | Some True \<Rightarrow> login_success E username row s1))"

definition logout :: "env \<Rightarrow> HeaderMap \<Rightarrow> string handler" where
  "logout E hs s =
     (case cookie_value hs SESSION_COOKIE of
        None \<Rightarrow> (Ok ''sid=; HttpOnly; Secure; SameSite=Strict; Path=/; Max-Age=0'', s)
      | Some sid \<Rightarrow>
          (let (user, st) = user_by_session (session_now E) sid (a_sessions s);
               s1 = s\<lparr>a_sessions := ss_revoke sid st\<rparr>;
               s2 = (case user of
                       Some u \<Rightarrow> snd (try_audit E 0 (Some (u_id u)) ''logout'' ''user'' (u_id u) None s1)
                     | None \<Rightarrow> s1)
           in (Ok ''sid=; HttpOnly; Secure; SameSite=Strict; Path=/; Max-Age=0'', s2)))"

definition refresh :: "env \<Rightarrow> HeaderMap \<Rightarrow> string handler" where
  "refresh E hs s =
     (case cookie_value hs SESSION_COOKIE of
        None \<Rightarrow> (Err (unauthorized ''not authenticated''), s)
      | Some sid \<Rightarrow>
          (case ss_refresh (session_now E) (e_token E 0) sid (a_sessions s) of
             (None, st) \<Rightarrow> (Err (unauthorized ''session expired''), s\<lparr>a_sessions := st\<rparr>)
           | (Some tok, st) \<Rightarrow> (Ok tok, s\<lparr>a_sessions := st\<rparr>)))"

text \<open>The authentication extractor of the protected endpoints, and \<open>/auth/me\<close>.\<close>

definition require_user :: "env \<Rightarrow> HeaderMap \<Rightarrow> User handler" where
  "require_user E hs s =
     (case current_user (session_now E) hs (a_sessions s) of
        (None, st) \<Rightarrow> (Err (unauthorized ''not authenticated''), s\<lparr>a_sessions := st\<rparr>)
      | (Some u, st) \<Rightarrow> (Ok u, s\<lparr>a_sessions := st\<rparr>))"

section \<open>First-run setup\<close>

definition setup_admin :: "api_externals \<Rightarrow> env \<Rightarrow> string \<Rightarrow> string \<Rightarrow> string option \<Rightarrow> LoginResponse handler" where
  "setup_admin Y E username0 password email =
     hbind (hget (\<lambda>s. count_users (a_db s))) (\<lambda>n.
     if n > 0 then hlift (Err (conflict ''SETUP_ALREADY_DONE'' ''initial admin already exists''))
     else
       let username = trim username0 in
       if username = [] then hlift (Err (unprocessable ''INVALID_USERNAME'' ''username must not be empty''))
       else if length password < 8
       then hlift (Err (unprocessable ''WEAK_PASSWORD'' ''password must be at least 8 characters''))
       else
         let uid = e_uuid E 0 in
         hbind (hlift (ok_or (y_hash_password Y password) (internal_error ''password hash''))) (\<lambda>pw.
         hbind (hdb (\<lambda>e. map_db_error e ''user'') (create_user uid username email pw False)) (\<lambda>_.
         hbind (hget (\<lambda>s. find_role_id_by_name ''admin'' (a_db s))) (\<lambda>rid.
         hbind (hlift (ok_or rid (internal_error ''admin role missing (migration 0003 not applied)''))) (\<lambda>role.
         hbind (hdb internal_db (assign_user_role uid role)) (\<lambda>_.
         hbind (write_audit E 1 None ''user.create'' ''user'' uid
                  (Some (y_meta Y [(''setup'', ''true''), (''role'', ''admin'')]))) (\<lambda>_.
         issue_session E \<lparr>u_id = uid, u_username = username, u_email = email, u_role = ''admin''\<rparr>)))))))"

section \<open>Properties of login\<close>

lemma write_audit_Ok:
  "write_audit E i uid ac rt rid meta s = (Ok y, s') \<Longrightarrow>
     s' = s\<lparr>a_db := (a_db s)\<lparr>t_audit_logs := t_audit_logs (a_db s) @ [audit_row E i uid ac rt rid meta]\<rparr>\<rparr>"
  by (auto simp: write_audit_def insert_audit_log_def split: if_splits)

lemma try_audit_sessions [simp]:
  "a_sessions (snd (try_audit E i uid ac rt rid meta s)) = a_sessions s"
  "a_limiter (snd (try_audit E i uid ac rt rid meta s)) = a_limiter s"
  by (simp_all add: try_audit_def write_audit_def hdb_def split: sum.splits)

lemma login_failed_result:
  "login_failed Y E u uid r s = (res, s') \<Longrightarrow>
     res = Err (unauthorized ''invalid username or password'') \<and> a_sessions s' = a_sessions s
     \<and> a_limiter s' = record_failure (e_now E) u (a_limiter s)"
  by (auto simp: login_failed_def hbind_def hmod_def hlift_def try_audit_def write_audit_def hdb_def split: sum.splits)

lemma login_success_Ok:
  assumes "login_success E u row s = (Ok resp, s')"
  shows "u_id (lr_user resp) = user_id row \<and> u_username (lr_user resp) = user_username row
    \<and> lr_access_token resp = e_token E 1
    \<and> a_sessions s' = snd (ss_create (session_now E) (e_token E 0) (e_token E 1) (lr_user resp) (a_sessions s))
    \<and> a_limiter s' = ll_reset u (a_limiter s)"
  using assms
  by (auto simp: login_success_def issue_session_def hbind_Ok Let_def ss_create_def dest!: write_audit_Ok)

lemma created_session_usable:
  "fst (user_by_access_token now tok (snd (ss_create now sid tok user st))) = Some user"
  by (simp add: ss_create_def user_by_access_token_def user_by_session_def ttl_defs)

section \<open>Properties\<close>

text \<open>C33. Login is sound: it succeeds only for a user name that is not locked, that belongs to an
  existing, enabled user whose stored hash verifies the password; the response names that user, the
  issued access token authenticates as that user, and the failure record of the name is cleared.\<close>

theorem login_sound:
  assumes "login Y E username password s = (Ok resp, s')"
  shows "\<exists>row. find_user_by_username username (a_db s) = Some row \<and> \<not> user_disabled row
     \<and> y_verify_password Y password (user_password_hash row) = Some True
     \<and> fst (ll_allows (e_now E) username (a_limiter s))
     \<and> u_id (lr_user resp) = user_id row
     \<and> fst (user_by_access_token (session_now E) (lr_access_token resp) (a_sessions s')) = Some (lr_user resp)
     \<and> failures (a_limiter s') username = None"
proof -
  obtain ok lim where lim: "ll_allows (e_now E) username (a_limiter s) = (ok, lim)" by (cases "ll_allows (e_now E) username (a_limiter s)")
  obtain row where row: "find_user_by_username username (a_db s) = Some row" "\<not> user_disabled row"
    "y_verify_password Y password (user_password_hash row) = Some True" "ok"
    and suc: "login_success E username row (s\<lparr>a_limiter := lim\<rparr>) = (Ok resp, s')"
    using assms lim
    by (auto simp: login_def Let_def dest!: login_failed_result split: if_splits option.splits bool.splits)
  from login_success_Ok [OF suc] show ?thesis
    using row lim by (auto simp: created_session_usable ll_reset_def)
qed

definition sample_api :: api_externals where
  "sample_api =
     \<lparr>y_ext = sample_ext sample_ok sample_snap, y_show_limits = (\<lambda>_. Some ''{}''), y_meta = (\<lambda>_. ''{}''),
      y_hash_password = (\<lambda>p. Some (CHR ''$'' # p)), y_verify_password = (\<lambda>p h. Some (h = CHR ''$'' # p))\<rparr>"

definition sample_env :: env where
  "sample_env = \<lparr>e_now = 1000, e_ts = ''ts'', e_uuid = (\<lambda>n. replicate (Suc n) CHR ''u''),
     e_token = (\<lambda>n. replicate (Suc n) CHR ''t'')\<rparr>"

definition sample_app :: "Db \<Rightarrow> app" where
  "sample_app db = \<lparr>a_db = db, a_sessions = new_store, a_limiter = ll_new 5 300, a_acl = empty_snapshot,
     a_config = new_config_manager, a_sync = cs_new, a_events = [], a_allow_unsafe_targets = False\<rparr>"

definition user_db :: Db where
  "user_db = empty_db\<lparr>t_users := [\<lparr>user_id = ''u1'', user_username = ''bob'', user_email = None,
     user_password_hash = ''$secret'', user_disabled = False\<rparr>]\<rparr>"

lemmas login_eval = login_def login_success_def login_failed_def issue_session_def hbind_def hmod_def hget_def
  hlift_def write_audit_def hdb_def insert_audit_log_def try_audit_def ll_allows_def find_user_by_username_def
  ss_create_def Let_def

theorem login_sound_witness:
  "\<exists>resp s'. login sample_api sample_env ''bob'' ''secret'' (sample_app user_db) = (Ok resp, s')
     \<and> u_id (lr_user resp) = ''u1''
     \<and> fst (user_by_access_token (session_now sample_env) (lr_access_token resp) (a_sessions s')) = Some (lr_user resp)"
proof -
  have "is_ok (fst (login sample_api sample_env ''bob'' ''secret'' (sample_app user_db)))"
    by (simp add: login_eval user_db_def empty_db_def sample_app_def sample_api_def ll_new_def
        entry_or_default_def recent_def)
  then obtain resp s' where l: "login sample_api sample_env ''bob'' ''secret'' (sample_app user_db) = (Ok resp, s')"
    by (metis is_ok_iff prod.collapse)
  from login_sound [OF l] l show ?thesis
    by (auto simp: find_user_by_username_def sample_app_def user_db_def)
qed

text \<open>A locked user name is refused before the password is looked at: when the limiter does not
  allow an attempt, login answers 429 whatever the password, and neither the database nor the
  sessions change.\<close>

theorem locked_login_refused:
  assumes "\<not> fst (ll_allows (e_now E) username (a_limiter s))"
  shows "\<exists>msg s'. login Y E username password s = (Err (ApiError 429 ''LOGIN_LOCKED'' msg), s')
     \<and> a_db s' = a_db s \<and> a_sessions s' = a_sessions s"
  using assms by (auto simp: login_def too_many_requests_def split: prod.splits)

theorem locked_login_refused_witness:
  "\<exists>msg s'. login sample_api sample_env ''bob'' ''secret''
      ((sample_app user_db)\<lparr>a_limiter := record_failure 990 ''bob'' (ll_new 1 300)\<rparr>)
      = (Err (ApiError 429 ''LOGIN_LOCKED'' msg), s') \<and> a_db s' = user_db \<and> a_sessions s' = new_store"
  using locked_login_refused [of sample_env "''bob''"
      "(sample_app user_db)\<lparr>a_limiter := record_failure 990 ''bob'' (ll_new 1 300)\<rparr>" sample_api "''secret''"]
  by (simp add: ll_allows_def record_failure_def ll_new_def entry_or_default_def recent_def sample_env_def
      sample_app_def Let_def)

text \<open>The first-run setup creates exactly one administrator and then locks itself: it succeeds only
  on a database without users, after success the database has exactly one user, who holds the role
  \<open>admin\<close>, and every further call is refused with 409 without any change.\<close>

theorem setup_once:
  assumes "setup_admin Y E username password email s = (Ok resp, s')"
  shows "count_users (a_db s) = 0 \<and> count_users (a_db s') = 1
     \<and> (\<exists>rid. find_role_id_by_name ''admin'' (a_db s') = Some rid
          \<and> (u_id (lr_user resp), rid) \<in> set (t_user_roles (a_db s')))
     \<and> (\<exists>msg. \<forall>Y' E' u p em. setup_admin Y' E' u p em s' = (Err (ApiError 409 ''SETUP_ALREADY_DONE'' msg), s'))"
proof -
  have none: "count_users (a_db s) = 0"
    using assms by (auto simp: setup_admin_def hbind_Ok split: if_splits)
  obtain pw db1 rid db2 s3 where steps:
    "create_user (e_uuid E 0) (trim username) email pw False (a_db s) = Ok db1"
    "find_role_id_by_name ''admin'' db1 = Some rid"
    "assign_user_role (e_uuid E 0) rid db1 = Ok db2"
    "s3 = s\<lparr>a_db := db2\<lparr>t_audit_logs := t_audit_logs db2 @ [audit_row E 1 None ''user.create'' ''user'' (e_uuid E 0)
        (Some (y_meta Y [(''setup'', ''true''), (''role'', ''admin'')]))]\<rparr>\<rparr>"
    "issue_session E \<lparr>u_id = e_uuid E 0, u_username = trim username, u_email = email, u_role = ''admin''\<rparr> s3 = (Ok resp, s')"
    using assms none
    by (auto simp: setup_admin_def hbind_Ok Let_def split: if_splits dest!: write_audit_Ok)
  have db': "a_db s' = a_db s3" and uid: "u_id (lr_user resp) = e_uuid E 0"
    using steps(5) by (auto simp: issue_session_def Let_def ss_create_def)
  have one: "count_users (a_db s') = 1"
    using none steps(1,3,4) db'
    by (auto simp: count_users_def create_user_def assign_user_role_def split: if_splits)
  moreover have "find_role_id_by_name ''admin'' (a_db s') = Some rid" "(e_uuid E 0, rid) \<in> set (t_user_roles (a_db s'))"
    using steps(2,3,4) db' by (auto simp: find_role_id_by_name_def assign_user_role_def split: if_splits)
  moreover have "setup_admin Y' E' u p em s' = (Err (ApiError 409 ''SETUP_ALREADY_DONE'' ''initial admin already exists''), s')"
    for Y' E' u p em
    using one by (simp add: setup_admin_def conflict_def hlift_def)
  ultimately show ?thesis using none uid by auto
qed

theorem setup_once_witness:
  "\<exists>resp s'. setup_admin sample_api sample_env ''root'' ''longpassword'' None (sample_app empty_db) = (Ok resp, s')
     \<and> count_users (a_db s') = 1"
proof -
  have "trim ''root'' = ''root''" by (rule trim_graphic) (simp_all add: graphic_def code_numeral_simps)
  then have "is_ok (fst (setup_admin sample_api sample_env ''root'' ''longpassword'' None (sample_app empty_db)))"
    by (simp add: setup_admin_def hbind_def hget_def hlift_def hdb_def count_users_def create_user_def
        find_role_id_by_name_def assign_user_role_def write_audit_def insert_audit_log_def issue_session_def
        ss_create_def empty_db_def sample_app_def sample_api_def Let_def)
  then obtain resp s' where l: "setup_admin sample_api sample_env ''root'' ''longpassword'' None (sample_app empty_db) = (Ok resp, s')"
    by (metis is_ok_iff prod.collapse)
  from setup_once [OF l] l show ?thesis by auto
qed

end
