(* ===== verification/RouteApi.thy ===== *)
theory RouteApi
  imports Api
begin

text \<open>
  The route endpoints \<open>server/src/api/routes.rs\<close>: validation and normalisation of the input, the check
  of target addresses, the conflict check against the database, and the handlers that create, update,
  delete, enable and disable routes, each with its version bump, snapshot push, configuration reload,
  audit entry and events.
\<close>

section \<open>Input validation\<close>

datatype TlsMode = Terminate | Passthrough | Disabled

record RouteInput =
  ri_name :: string
  ri_node_id :: string
  ri_route_type :: RouteType
  ri_enabled :: bool
  ri_listen_host :: "string option"
  ri_listen_port :: "u16 option"
  ri_hostname :: "string option"
  ri_target_host :: string
  ri_target_port :: u16
  ri_tls_mode :: TlsMode
  ri_limits :: "Limits option"

text \<open>The request before normalisation; the TLS mode is optional there.\<close>

record RouteRequest =
  rq_name :: string
  rq_node_id :: string
  rq_route_type :: RouteType
  rq_enabled :: bool
  rq_listen_host :: "string option"
  rq_listen_port :: "u16 option"
  rq_hostname :: "string option"
  rq_target_host :: string
  rq_target_port :: u16
  rq_tls_mode :: "TlsMode option"
  rq_limits :: "Limits option"

fun route_type_str :: "RouteType \<Rightarrow> string" where
  "route_type_str Tcp = ''tcp''"
| "route_type_str Udp = ''udp''"
| "route_type_str Http = ''http''"
| "route_type_str Https = ''https''"

definition parse_route_type :: "string \<Rightarrow> RouteType option" where
  "parse_route_type s =
     (if s = ''tcp'' then Some Tcp else if s = ''udp'' then Some Udp
      else if s = ''http'' then Some Http else if s = ''https'' then Some Https else None)"

fun tls_mode_str :: "TlsMode \<Rightarrow> string" where
  "tls_mode_str Terminate = ''terminate''"
| "tls_mode_str Passthrough = ''passthrough''"
| "tls_mode_str Disabled = ''disabled''"

definition parse_tls_mode :: "string option \<Rightarrow> TlsMode option" where
  "parse_tls_mode s =
     (if s = Some ''terminate'' then Some Terminate else if s = Some ''passthrough'' then Some Passthrough
      else if s = Some ''disabled'' then Some Disabled else None)"

definition normalize_listen :: "RouteRequest \<Rightarrow> (ApiError, string option \<times> u16 option \<times> string option) result" where
  "normalize_listen q =
     (if rq_route_type q = Tcp \<or> rq_route_type q = Udp
      then
        if rq_hostname q \<noteq> None
        then Err (unprocessable ''INVALID_HOSTNAME'' ''hostname is only valid for http/https routes'')
        else
          let host = (case rq_listen_host q of Some h \<Rightarrow> h | None \<Rightarrow> ''0.0.0.0'') in
          if parse_ip host = None
          then Err (unprocessable ''INVALID_LISTEN'' ''listen_host must be a valid IP address'')
          else (case rq_listen_port q of
              None \<Rightarrow> Err (unprocessable ''INVALID_LISTEN'' ''listen_port is required for tcp/udp routes'')
            | Some port \<Rightarrow>
                if port = 0 then Err (unprocessable ''INVALID_PORT'' ''listen_port must be 1-65535'')
                else Ok (Some host, Some port, None))
      else
        (case (case rq_hostname q of Some h \<Rightarrow> if trim h \<noteq> [] then Some (trim h) else None | None \<Rightarrow> None) of
           None \<Rightarrow> Err (unprocessable ''INVALID_HOSTNAME'' ''hostname is required for http/https routes'')
         | Some hostname \<Rightarrow>
             if rq_listen_host q \<noteq> None \<or> rq_listen_port q \<noteq> None
             then Err (unprocessable ''INVALID_LISTEN'' ''listen_host/listen_port are not used for http/https routes'')
             else Ok (None, None, Some hostname)))"

definition normalize_route :: "RouteRequest \<Rightarrow> (ApiError, RouteInput) result" where
  "normalize_route q =
     (let name = trim (rq_name q) in
      if name = [] then Err (unprocessable ''INVALID_NAME'' ''name must not be empty'')
      else if trim (rq_node_id q) = [] then Err (unprocessable ''INVALID_NODE'' ''node_id must not be empty'')
      else if trim (rq_target_host q) = []
      then Err (unprocessable ''INVALID_TARGET'' ''target_host must not be empty'')
      else if rq_target_port q = 0 then Err (unprocessable ''INVALID_PORT'' ''target_port must be 1-65535'')
      else
        let tls = (case rq_tls_mode q of Some t \<Rightarrow> t | None \<Rightarrow> Disabled) in
        and_then (normalize_listen q) (\<lambda>(lh, lp, hn).
          Ok \<lparr>ri_name = name, ri_node_id = rq_node_id q, ri_route_type = rq_route_type q,
              ri_enabled = rq_enabled q, ri_listen_host = lh, ri_listen_port = lp, ri_hostname = hn,
              ri_target_host = rq_target_host q, ri_target_port = rq_target_port q, ri_tls_mode = tls,
              ri_limits = rq_limits q\<rparr>))"

definition check_target :: "string \<Rightarrow> bool \<Rightarrow> (ApiError, unit) result" where
  "check_target target_host allow =
     (if allow then Ok ()
      else case parse_ip (trim target_host) of
        None \<Rightarrow> Ok ()
      | Some ip \<Rightarrow>
          (case forbidden_target_category ip of
             Some category \<Rightarrow>
               Err (unprocessable ''FORBIDDEN_TARGET''
                 (''target '' @ target_host @ '' is forbidden ('' @ category
                  @ ''); set security.allow_unsafe_targets to allow it''))
           | None \<Rightarrow> Ok ()))"

definition check_conflicts :: "Db \<Rightarrow> RouteInput \<Rightarrow> string option \<Rightarrow> (ApiError, unit) result" where
  "check_conflicts db i exclude =
     (if \<not> node_exists (ri_node_id i) db
      then Err (not_found ''NODE_NOT_FOUND'' (''node '' @ ri_node_id i @ '' does not exist''))
      else if route_name_exists (ri_name i) exclude db
      then Err (conflict ''DUPLICATE_NAME'' (''route '' @ ri_name i @ '' already exists''))
      else if (case (ri_listen_host i, ri_listen_port i) of
                 (Some host, Some port) \<Rightarrow> route_listen_exists host (uint port) exclude db
               | _ \<Rightarrow> False)
      then Err (conflict ''DUPLICATE_LISTEN'' ''listen address already in use'')
      else if (case ri_hostname i of Some h \<Rightarrow> route_hostname_exists h exclude db | None \<Rightarrow> False)
      then Err (conflict ''DUPLICATE_HOSTNAME'' ''hostname already in use'')
      else Ok ())"

section \<open>Distribution of a change\<close>

definition bump_and_push :: "api_externals \<Rightarrow> env \<Rightarrow> string \<Rightarrow> app \<Rightarrow> app" where
  "bump_and_push Y E nid s =
     (let X = y_ext Y; (r, db) = bump_config_version nid (e_ts E) (a_db s); s1 = s\<lparr>a_db := db\<rparr> in
      case r of
        Inl _ \<Rightarrow> s1
      | Inr version \<Rightarrow>
          (case x_parse_uuid X nid of
             None \<Rightarrow> s1
           | Some node \<Rightarrow>
               s1\<lparr>a_sync := snd (push_snapshot (x_parse_uuid X) (x_parse_limits X)
                   (Ok (list_routes_for_node (x_show_uuid X node) (a_db s1))) node (max0_u64 version)
                   (a_sync s1))\<rparr>))"

definition reload_config :: "api_externals \<Rightarrow> app \<Rightarrow> app" where
  "reload_config Y s =
     s\<lparr>a_config := snd (cm_reload (x_parse_uuid (y_ext Y)) (x_parse_limits (y_ext Y))
                          (Ok (list_routes (a_db s))) (a_config s))\<rparr>"

section \<open>Handlers\<close>

definition limits_json :: "api_externals \<Rightarrow> Limits option \<Rightarrow> (ApiError, string option) result" where
  "limits_json Y l =
     (case l of
        None \<Rightarrow> Ok None
      | Some x \<Rightarrow> and_then (ok_or (y_show_limits Y x) (internal_error ''serialize limits'')) (\<lambda>t. Ok (Some t)))"

definition route_columns :: "RouteInput \<Rightarrow> string option \<Rightarrow> RouteColumns" where
  "route_columns i lim =
     \<lparr>col_name = ri_name i, col_node_id = ri_node_id i, col_route_type = route_type_str (ri_route_type i),
      col_enabled = ri_enabled i, col_listen_host = ri_listen_host i,
      col_listen_port = map_option uint (ri_listen_port i), col_hostname = ri_hostname i,
      col_target_host = ri_target_host i, col_target_port = uint (ri_target_port i),
      col_tls_mode = tls_mode_str (ri_tls_mode i), col_limits = lim\<rparr>"

definition fetch_route :: "string \<Rightarrow> ApiError \<Rightarrow> RouteDetailRow handler" where
  "fetch_route rid err = hbind (hget (\<lambda>s. get_route rid (a_db s))) (\<lambda>r. hlift (ok_or r err))"

definition route_events :: "string \<Rightarrow> string \<Rightarrow> string \<Rightarrow> unit handler" where
  "route_events kind rid nid =
     hbind (publish (RouteEvent kind rid)) (\<lambda>_. publish (ConfigChanged nid))"

text \<open>The response object.\<close>

record Route =
  vw_id :: string
  vw_name :: string
  vw_node_id :: string
  vw_route_type :: RouteType
  vw_enabled :: bool
  vw_listen_host :: "string option"
  vw_listen_port :: "u16 option"
  vw_hostname :: "string option"
  vw_target_host :: string
  vw_target_port :: u16
  vw_tls_mode :: "string option"
  vw_status :: string
  vw_limits :: "Limits option"

definition route_response :: "api_externals \<Rightarrow> RouteDetailRow \<Rightarrow> Route" where
  "route_response Y r =
     \<lparr>vw_id = route_id r, vw_name = route_name r, vw_node_id = route_node_id r,
      vw_route_type = (case parse_route_type (route_route_type r) of Some t \<Rightarrow> t | None \<Rightarrow> Tcp),
      vw_enabled = route_enabled r, vw_listen_host = route_listen_host r,
      vw_listen_port = map_option of_int (route_listen_port r), vw_hostname = route_hostname r,
      vw_target_host = route_target_host r, vw_target_port = of_int (route_target_port r),
      vw_tls_mode = route_tls_mode r, vw_status = route_status r,
      vw_limits = Option.bind (route_limits r) (x_parse_limits (y_ext Y))\<rparr>"

definition api_list_routes :: "api_externals \<Rightarrow> User \<Rightarrow> Route list handler" where
  "api_list_routes Y user =
     hbind (hlift (require_permission user RoutesRead)) (\<lambda>_.
     hget (\<lambda>s. map (route_response Y) (list_routes_detail (a_db s))))"

definition api_get_route :: "api_externals \<Rightarrow> User \<Rightarrow> string \<Rightarrow> Route handler" where
  "api_get_route Y user rid =
     hbind (hlift (require_permission user RoutesRead)) (\<lambda>_.
     hbind (fetch_route rid (not_found ''ROUTE_NOT_FOUND'' ''route does not exist'')) (\<lambda>row.
     hlift (Ok (route_response Y row))))"

definition api_create_route :: "api_externals \<Rightarrow> env \<Rightarrow> User \<Rightarrow> RouteRequest \<Rightarrow> Route handler" where
  "api_create_route Y E user q =
     hbind (hlift (require_permission user RoutesWrite)) (\<lambda>_.
     hbind (hlift (normalize_route q)) (\<lambda>i.
     hbind (hget a_allow_unsafe_targets) (\<lambda>allow.
     hbind (hlift (check_target (ri_target_host i) allow)) (\<lambda>_.
     hbind (hget (\<lambda>s. check_conflicts (a_db s) i None)) (\<lambda>c.
     hbind (hlift c) (\<lambda>_.
     hbind (hlift (limits_json Y (ri_limits i))) (\<lambda>lim.
     hbind (hdb (\<lambda>e. map_db_error e ''route'') (create_route (e_uuid E 0) (route_columns i lim) (e_ts E))) (\<lambda>_.
     hbind (hmod (\<lambda>s. reload_config Y (bump_and_push Y E (ri_node_id i) s))) (\<lambda>_.
     hbind (fetch_route (e_uuid E 0) (internal_error ''route not found after create'')) (\<lambda>row.
     hbind (write_audit E 1 (Some (u_id user)) ''route.create'' ''route'' (e_uuid E 0)
              (Some (y_meta Y [(''name'', ri_name i)]))) (\<lambda>_.
     hbind (route_events ''route.created'' (e_uuid E 0) (ri_node_id i)) (\<lambda>_.
     hlift (Ok (route_response Y row))))))))))))))"

record RoutePatch =
  pt_name :: "string option"
  pt_node_id :: "string option"
  pt_route_type :: "RouteType option"
  pt_enabled :: "bool option"
  pt_listen_host :: "string option"
  pt_listen_port :: "u16 option"
  pt_hostname :: "string option"
  pt_target_host :: "string option"
  pt_target_port :: "u16 option"
  pt_tls_mode :: "TlsMode option"
  pt_limits :: "Limits option"

definition or_else :: "'a option \<Rightarrow> 'a option \<Rightarrow> 'a option" where
  "or_else a b = (case a of Some x \<Rightarrow> Some x | None \<Rightarrow> b)"

definition merge_patch :: "api_externals \<Rightarrow> RouteDetailRow \<Rightarrow> RoutePatch \<Rightarrow> RouteRequest" where
  "merge_patch Y ex p =
     (let existing_type = (case parse_route_type (route_route_type ex) of Some t \<Rightarrow> t | None \<Rightarrow> Tcp);
          rt = (case pt_route_type p of Some t \<Rightarrow> t | None \<Rightarrow> existing_type);
          (lh, lp, hn) =
            (if rt = Tcp \<or> rt = Udp
             then (or_else (pt_listen_host p) (route_listen_host ex),
                   or_else (pt_listen_port p) (map_option of_int (route_listen_port ex)), None)
             else (None, None, or_else (pt_hostname p) (route_hostname ex)))
      in \<lparr>rq_name = (case pt_name p of Some n \<Rightarrow> n | None \<Rightarrow> route_name ex),
          rq_node_id = (case pt_node_id p of Some n \<Rightarrow> n | None \<Rightarrow> route_node_id ex),
          rq_route_type = rt,
          rq_enabled = (case pt_enabled p of Some b \<Rightarrow> b | None \<Rightarrow> route_enabled ex),
          rq_listen_host = lh, rq_listen_port = lp, rq_hostname = hn,
          rq_target_host = (case pt_target_host p of Some h \<Rightarrow> h | None \<Rightarrow> route_target_host ex),
          rq_target_port = (case pt_target_port p of Some x \<Rightarrow> x | None \<Rightarrow> of_int (route_target_port ex)),
          rq_tls_mode = or_else (pt_tls_mode p) (parse_tls_mode (route_tls_mode ex)),
          rq_limits = or_else (pt_limits p) (Option.bind (route_limits ex) (x_parse_limits (y_ext Y)))\<rparr>)"

definition api_update_route :: "api_externals \<Rightarrow> env \<Rightarrow> User \<Rightarrow> string \<Rightarrow> RoutePatch \<Rightarrow> Route handler" where
  "api_update_route Y E user rid p =
     hbind (hlift (require_permission user RoutesWrite)) (\<lambda>_.
     hbind (fetch_route rid (not_found ''ROUTE_NOT_FOUND'' ''route does not exist'')) (\<lambda>ex.
     hbind (hlift (normalize_route (merge_patch Y ex p))) (\<lambda>i.
     hbind (hget a_allow_unsafe_targets) (\<lambda>allow.
     hbind (hlift (check_target (ri_target_host i) allow)) (\<lambda>_.
     hbind (hget (\<lambda>s. check_conflicts (a_db s) i (Some rid))) (\<lambda>c.
     hbind (hlift c) (\<lambda>_.
     hbind (hlift (limits_json Y (ri_limits i))) (\<lambda>lim.
     hbind (hdb (\<lambda>e. map_db_error e ''route'') (update_route rid (route_columns i lim) (e_ts E))) (\<lambda>_.
     hbind (hmod (\<lambda>s. let s1 = bump_and_push Y E (ri_node_id i) s;
                          s2 = (if route_node_id ex \<noteq> ri_node_id i
                                then bump_and_push Y E (route_node_id ex) s1 else s1)
                      in reload_config Y s2)) (\<lambda>_.
     hbind (fetch_route rid (internal_error ''route not found after update'')) (\<lambda>row.
     hbind (write_audit E 0 (Some (u_id user)) ''route.update'' ''route'' rid
              (Some (y_meta Y [(''name'', ri_name i)]))) (\<lambda>_.
     hbind (route_events ''route.updated'' rid (ri_node_id i)) (\<lambda>_.
     hlift (Ok (route_response Y row)))))))))))))))"

definition api_delete_route :: "api_externals \<Rightarrow> env \<Rightarrow> User \<Rightarrow> string \<Rightarrow> unit handler" where
  "api_delete_route Y E user rid =
     hbind (hlift (require_permission user RoutesWrite)) (\<lambda>_.
     hbind (fetch_route rid (not_found ''ROUTE_NOT_FOUND'' ''route does not exist'')) (\<lambda>ex.
     hbind (hmod (\<lambda>s. s\<lparr>a_db := delete_route rid (a_db s)\<rparr>)) (\<lambda>_.
     hbind (hmod (\<lambda>s. reload_config Y (bump_and_push Y E (route_node_id ex) s))) (\<lambda>_.
     hbind (write_audit E 0 (Some (u_id user)) ''route.delete'' ''route'' rid None) (\<lambda>_.
     route_events ''route.deleted'' rid (route_node_id ex))))))"

definition set_enabled :: "api_externals \<Rightarrow> env \<Rightarrow> string \<Rightarrow> string \<Rightarrow> bool \<Rightarrow> string \<Rightarrow> Route handler" where
  "set_enabled Y E uid rid enabled action =
     hbind (fetch_route rid (not_found ''ROUTE_NOT_FOUND'' ''route does not exist'')) (\<lambda>ex.
     hbind (hmod (\<lambda>s. s\<lparr>a_db := set_route_enabled rid enabled (e_ts E) (a_db s)\<rparr>)) (\<lambda>_.
     hbind (hmod (\<lambda>s. reload_config Y (bump_and_push Y E (route_node_id ex) s))) (\<lambda>_.
     hbind (write_audit E 0 (Some uid) action ''route'' rid
              (Some (y_meta Y [(''enabled'', if enabled then ''true'' else ''false'')]))) (\<lambda>_.
     hbind (route_events ''route.updated'' rid (route_node_id ex)) (\<lambda>_.
     hbind (fetch_route rid (internal_error ''route not found after update'')) (\<lambda>row.
     hlift (Ok (route_response Y row))))))))"

definition api_enable_route :: "api_externals \<Rightarrow> env \<Rightarrow> User \<Rightarrow> string \<Rightarrow> Route handler" where
  "api_enable_route Y E user rid =
     hbind (hlift (require_permission user RoutesWrite)) (\<lambda>_.
     set_enabled Y E (u_id user) rid True ''route.enable'')"

definition api_disable_route :: "api_externals \<Rightarrow> env \<Rightarrow> User \<Rightarrow> string \<Rightarrow> Route handler" where
  "api_disable_route Y E user rid =
     hbind (hlift (require_permission user RoutesWrite)) (\<lambda>_.
     set_enabled Y E (u_id user) rid False ''route.disable'')"

section \<open>What the handlers do to the routes table\<close>

text \<open>\<open>keeps g m\<close>: whatever its result, \<open>m\<close> leaves the part \<open>g\<close> of the state alone.\<close>

definition keeps :: "(app \<Rightarrow> 'c) \<Rightarrow> 'a handler \<Rightarrow> bool" where
  "keeps g m \<longleftrightarrow> (\<forall>s. g (snd (m s)) = g s)"

abbreviation routes_of :: "app \<Rightarrow> RouteDetailRow list" where
  "routes_of s \<equiv> t_routes (a_db s)"

lemma keeps_bind [intro]: "keeps g m \<Longrightarrow> (\<And>x. keeps g (f x)) \<Longrightarrow> keeps g (hbind m f)"
  by (auto simp: keeps_def hbind_def split: prod.splits sum.splits) (metis snd_conv)+

lemma keepsD: "keeps g m \<Longrightarrow> g (snd (m s)) = g s"
  by (simp add: keeps_def)

lemma bump_and_push_keeps [simp]:
  "t_routes (a_db (bump_and_push Y E nid s)) = t_routes (a_db s)"
  "a_allow_unsafe_targets (bump_and_push Y E nid s) = a_allow_unsafe_targets s"
  by (auto simp: bump_and_push_def bump_config_version_def Let_def split: sum.splits option.splits)

lemma bump_and_push_frame [simp]:
  "a_events (bump_and_push Y E nid s) = a_events s"
  "t_audit_logs (a_db (bump_and_push Y E nid s)) = t_audit_logs (a_db s)"
  by (auto simp: bump_and_push_def bump_config_version_def Let_def split: sum.splits option.splits)

text \<open>A connected agent is sent the snapshot of the rows that are now in the database, under the bumped version.\<close>

lemma bump_and_push_sends:
  assumes "s1 = bump_and_push Y E nid s"
    and "x_parse_uuid (y_ext Y) nid = Some node" "x_show_uuid (y_ext Y) node = nid"
    and "map_of (cs_push (a_sync s)) node = Some ch"
    and "cm_load (x_parse_uuid (y_ext Y)) (x_parse_limits (y_ext Y)) (Ok (list_routes_for_node nid (a_db s))) = Ok routes"
    and "get_config_version nid (a_db s1) = Ok ver"
  shows "cs_queues (a_sync s1) = (cs_queues (a_sync s))
     (ch := cs_queues (a_sync s) ch @ [snapshot_message (max0_u64 ver) (map to_route_config routes)])"
  using assms
  by (auto simp: bump_and_push_def bump_config_version_def push_snapshot_def cs_push_message_def Let_def
      list_routes_for_node_def split: sum.splits)

lemma reload_config_frame [simp]:
  "a_events (reload_config Y s) = a_events s" "a_sync (reload_config Y s) = a_sync s"
  by (simp_all add: reload_config_def)

lemma reload_config_keeps [simp]:
  "a_db (reload_config Y s) = a_db s"
  "a_allow_unsafe_targets (reload_config Y s) = a_allow_unsafe_targets s"
  by (simp_all add: reload_config_def)

lemma keeps_pure [simp, intro]: "keeps g (hlift r)" "keeps g (hget f)" "keeps g (fetch_route rid err)"
  by (auto simp: keeps_def hlift_def hget_def fetch_route_def hbind_def)

lemma keeps_mod [intro]: "(\<And>s. g (f s) = g s) \<Longrightarrow> keeps g (hmod f)"
  by (simp add: keeps_def hmod_def)

lemma keeps_routes [intro]:
  "keeps routes_of (route_events k rid nid)" "keeps routes_of (write_audit E i uid ac rt rid' meta)"
  by (auto simp: keeps_def hmod_def publish_def write_audit_def hdb_def insert_audit_log_def
      route_events_def hbind_def split: sum.splits if_splits)

lemma keeps_flag [intro]:
  "keeps a_allow_unsafe_targets (route_events k rid nid)" "keeps a_allow_unsafe_targets (hdb err stmt)"
  "keeps a_allow_unsafe_targets (write_audit E i uid ac rt rid' meta)"
  by (auto simp: keeps_def hmod_def publish_def write_audit_def hdb_def route_events_def hbind_def
      split: sum.splits)

lemma hbind_lift: "hbind (hlift r) f s = (case r of Inl e \<Rightarrow> (Err e, s) | Inr x \<Rightarrow> f x s)"
  by (cases r) simp_all

lemma hbind_db: "hbind (hdb err stmt) f s =
    (case stmt (a_db s) of Inl e \<Rightarrow> (Err (err e), s) | Inr db \<Rightarrow> f () (s\<lparr>a_db := db\<rparr>))"
  by (auto simp: hbind_def hdb_def split: sum.splits)

lemma api_create_route_routes:
  "t_routes (a_db (snd (api_create_route Y E user q s))) = t_routes (a_db s)
   \<or> (\<exists>i lim db. normalize_route q = Ok i \<and> check_target (ri_target_host i) (a_allow_unsafe_targets s) = Ok ()
        \<and> check_conflicts (a_db s) i None = Ok () \<and> limits_json Y (ri_limits i) = Ok lim
        \<and> create_route (e_uuid E 0) (route_columns i lim) (e_ts E) (a_db s) = Ok db
        \<and> t_routes (a_db (snd (api_create_route Y E user q s))) = t_routes db)"
proof -
  have tail: "keeps routes_of (hbind (fetch_route (e_uuid E 0) (internal_error ''route not found after create'')) (\<lambda>row.
     hbind (write_audit E n (Some (u_id user)) ''route.create'' ''route'' (e_uuid E 0)
              (Some (y_meta Y [(''name'', ri_name i)]))) (\<lambda>_.
     hbind (route_events ''route.created'' (e_uuid E 0) (ri_node_id i)) (\<lambda>_. hlift (Ok (route_response Y row))))))" for i n
    by (intro keeps_bind keeps_pure keeps_routes)
  show ?thesis
    unfolding api_create_route_def
    by (auto simp: hbind_lift hbind_db keepsD [OF tail] split: sum.splits)
qed

lemma api_update_route_routes:
  "t_routes (a_db (snd (api_update_route Y E user rid p s))) = t_routes (a_db s)
   \<or> (\<exists>ex i lim db. get_route rid (a_db s) = Some ex \<and> normalize_route (merge_patch Y ex p) = Ok i
        \<and> check_target (ri_target_host i) (a_allow_unsafe_targets s) = Ok ()
        \<and> check_conflicts (a_db s) i (Some rid) = Ok () \<and> limits_json Y (ri_limits i) = Ok lim
        \<and> update_route rid (route_columns i lim) (e_ts E) (a_db s) = Ok db
        \<and> t_routes (a_db (snd (api_update_route Y E user rid p s))) = t_routes db)"
proof -
  have tail: "keeps routes_of (hbind (fetch_route rid (internal_error ''route not found after update'')) (\<lambda>row.
     hbind (write_audit E 0 (Some (u_id user)) ''route.update'' ''route'' rid
              (Some (y_meta Y [(''name'', ri_name i)]))) (\<lambda>_.
     hbind (route_events ''route.updated'' rid (ri_node_id i)) (\<lambda>_. hlift (Ok (route_response Y row))))))" for i
    by (intro keeps_bind keeps_pure keeps_routes)
  show ?thesis
    unfolding api_update_route_def fetch_route_def [of rid "not_found ''ROUTE_NOT_FOUND'' ''route does not exist''"]
    by (auto simp: hbind_lift hbind_db hbind_assoc keepsD [OF tail] Let_def split: sum.splits)
qed

lemma api_delete_route_routes:
  "t_routes (a_db (snd (api_delete_route Y E user rid s))) = t_routes (a_db s)
   \<or> t_routes (a_db (snd (api_delete_route Y E user rid s))) = t_routes (delete_route rid (a_db s))"
proof -
  have tail: "keeps routes_of (hbind (write_audit E n (Some (u_id user)) ''route.delete'' ''route'' rid None) (\<lambda>_.
     route_events ''route.deleted'' rid (route_node_id ex)))" for n ex
    by (intro keeps_bind keeps_pure keeps_routes)
  show ?thesis
    unfolding api_delete_route_def fetch_route_def
    by (auto simp: hbind_lift hbind_assoc keepsD [OF tail] split: sum.splits)
qed

lemma set_enabled_routes:
  "t_routes (a_db (snd (set_enabled Y E uid rid en action s))) = t_routes (a_db s)
   \<or> t_routes (a_db (snd (set_enabled Y E uid rid en action s))) = t_routes (set_route_enabled rid en (e_ts E) (a_db s))"
proof -
  have tail: "keeps routes_of (hbind (write_audit E n (Some uid) action ''route'' rid meta) (\<lambda>_.
     hbind (route_events ''route.updated'' rid (route_node_id ex)) (\<lambda>_.
     hbind (fetch_route rid (internal_error ''route not found after update'')) (\<lambda>row.
     hlift (Ok (route_response Y row))))))" for n ex meta
    by (intro keeps_bind keeps_pure keeps_routes)
  show ?thesis
    unfolding set_enabled_def fetch_route_def [of rid "not_found ''ROUTE_NOT_FOUND'' ''route does not exist''"]
    by (auto simp: hbind_lift hbind_assoc keepsD [OF tail] split: sum.splits)
qed

section \<open>Invariants of the routes table\<close>

text \<open>A sequence of requests to the write endpoints; every request brings its own environment and user.\<close>

datatype route_op =
    CreateRoute env User RouteRequest
  | UpdateRoute env User string RoutePatch
  | DeleteRoute env User string
  | EnableRoute env User string
  | DisableRoute env User string

fun route_op_step :: "api_externals \<Rightarrow> route_op \<Rightarrow> app \<Rightarrow> app" where
  "route_op_step Y (CreateRoute E u q) s = snd (api_create_route Y E u q s)"
| "route_op_step Y (UpdateRoute E u rid p) s = snd (api_update_route Y E u rid p s)"
| "route_op_step Y (DeleteRoute E u rid) s = snd (api_delete_route Y E u rid s)"
| "route_op_step Y (EnableRoute E u rid) s = snd (api_enable_route Y E u rid s)"
| "route_op_step Y (DisableRoute E u rid) s = snd (api_disable_route Y E u rid s)"

definition route_ops_run :: "api_externals \<Rightarrow> route_op list \<Rightarrow> app \<Rightarrow> app" where
  "route_ops_run Y ops s = fold (route_op_step Y) ops s"

lemma allow_flag_fixed: "a_allow_unsafe_targets (route_op_step Y op s) = a_allow_unsafe_targets s"
proof -
  note k = keeps_bind keeps_pure keeps_flag keeps_mod
  have "keeps a_allow_unsafe_targets (api_create_route Y E u q)" for E u q
    unfolding api_create_route_def by (intro k) simp
  moreover have "keeps a_allow_unsafe_targets (api_update_route Y E u rid p)" for E u rid p
    unfolding api_update_route_def by (intro k) (simp add: Let_def)
  moreover have "keeps a_allow_unsafe_targets (api_delete_route Y E u rid)" for E u rid
    unfolding api_delete_route_def by (intro k) simp_all
  moreover have "keeps a_allow_unsafe_targets (set_enabled Y E uid rid en action)" for E uid rid en action
    unfolding set_enabled_def by (intro k) simp_all
  ultimately show ?thesis
    by (cases op) (auto simp: keepsD api_enable_route_def api_disable_route_def hbind_lift split: sum.splits)
qed

text \<open>What the checks of the handlers promise about an accepted input, and about an input that is then stored with a
  limits column.\<close>

definition accepted :: "bool \<Rightarrow> Db \<Rightarrow> RouteInput \<Rightarrow> string option \<Rightarrow> bool" where
  "accepted allow db i exclude \<longleftrightarrow>
     check_target (ri_target_host i) allow = Ok () \<and> check_conflicts db i exclude = Ok ()"

definition storable :: "api_externals \<Rightarrow> bool \<Rightarrow> Db \<Rightarrow> RouteInput \<Rightarrow> string option \<Rightarrow> string option \<Rightarrow> bool" where
  "storable Y allow db i exclude lim \<longleftrightarrow>
     accepted allow db i exclude \<and> (\<exists>q. normalize_route q = Ok i) \<and> limits_json Y (ri_limits i) = Ok lim"

text \<open>The contract of an invariant of the routes table: it survives the four statements the handlers
  execute, where the handlers accepted the input.  Then it survives every sequence of requests.\<close>

locale route_table_invariant =
  fixes Y :: api_externals and allow :: bool and inv :: "RouteDetailRow list \<Rightarrow> bool"
  assumes inv_create: "inv (t_routes db) \<Longrightarrow> storable Y allow db i None lim
      \<Longrightarrow> create_route rid (route_columns i lim) ts db = Ok db' \<Longrightarrow> inv (t_routes db')"
    and inv_update: "inv (t_routes db) \<Longrightarrow> storable Y allow db i (Some rid) lim
      \<Longrightarrow> update_route rid (route_columns i lim) ts db = Ok db' \<Longrightarrow> inv (t_routes db')"
    and inv_delete: "inv (t_routes db) \<Longrightarrow> inv (t_routes (delete_route rid db))"
    and inv_enable: "inv (t_routes db) \<Longrightarrow> inv (t_routes (set_route_enabled rid en ts db))"
begin

lemma inv_set_enabled: "inv (routes_of s) \<Longrightarrow> inv (routes_of (snd (set_enabled Y E uid rid en ac s)))"
  using set_enabled_routes [of Y E uid rid en ac s] inv_enable by metis

lemma inv_step:
  assumes "inv (routes_of s)" "a_allow_unsafe_targets s = allow"
  shows "inv (routes_of (route_op_step Y op s))"
proof (cases op)
  case (CreateRoute E u q)
  from api_create_route_routes [of Y E u q s] show ?thesis
  proof (elim disjE exE conjE)
    fix i lim db
    assume "normalize_route q = Ok i" "check_target (ri_target_host i) (a_allow_unsafe_targets s) = Ok ()"
      "check_conflicts (a_db s) i None = Ok ()" "limits_json Y (ri_limits i) = Ok lim"
      and c: "create_route (e_uuid E 0) (route_columns i lim) (e_ts E) (a_db s) = Ok db"
        "routes_of (snd (api_create_route Y E u q s)) = t_routes db"
    then have "storable Y allow (a_db s) i None lim" using assms(2) by (auto simp: accepted_def storable_def)
    from inv_create [OF assms(1) this c(1)] show ?thesis using c(2) CreateRoute by simp
  qed (use CreateRoute assms in simp)
next
  case (UpdateRoute E u rid p)
  from api_update_route_routes [of Y E u rid p s] show ?thesis
  proof (elim disjE exE conjE)
    fix ex i lim db
    assume "normalize_route (merge_patch Y ex p) = Ok i" "check_target (ri_target_host i) (a_allow_unsafe_targets s) = Ok ()"
      "check_conflicts (a_db s) i (Some rid) = Ok ()" "limits_json Y (ri_limits i) = Ok lim"
      and c: "update_route rid (route_columns i lim) (e_ts E) (a_db s) = Ok db"
        "routes_of (snd (api_update_route Y E u rid p s)) = t_routes db"
    then have "storable Y allow (a_db s) i (Some rid) lim" using assms(2) by (auto simp: accepted_def storable_def)
    from inv_update [OF assms(1) this c(1)] show ?thesis using c(2) UpdateRoute by simp
  qed (use UpdateRoute assms in simp)
next
  case (DeleteRoute E u rid)
  then show ?thesis
    using assms api_delete_route_routes [of Y E u rid s] inv_delete by auto
qed (use assms in \<open>auto simp: api_enable_route_def api_disable_route_def hbind_lift inv_set_enabled split: sum.splits\<close>)

lemma inv_run:
  "inv (routes_of s) \<Longrightarrow> a_allow_unsafe_targets s = allow \<Longrightarrow> inv (routes_of (route_ops_run Y ops s))"
  by (induction ops arbitrary: s) (auto simp: route_ops_run_def inv_step allow_flag_fixed)

end

text \<open>No stored target is an address literal of a forbidden category.\<close>

definition target_safe :: "string \<Rightarrow> bool" where
  "target_safe h = (case parse_ip (trim h) of Some ip \<Rightarrow> forbidden_target_category ip = None | None \<Rightarrow> True)"

definition targets_safe :: "RouteDetailRow list \<Rightarrow> bool" where
  "targets_safe rows \<longleftrightarrow> list_all (\<lambda>r. target_safe (route_target_host r)) rows"

lemma check_target_False: "check_target h False = Ok () \<longleftrightarrow> target_safe h"
  by (auto simp: check_target_def target_safe_def split: option.splits)

interpretation ssrf: route_table_invariant Y False targets_safe for Y
  by unfold_locales
    (auto simp: targets_safe_def storable_def accepted_def check_target_False create_route_def update_route_def
      delete_route_def set_route_enabled_def route_columns_def list_all_iff update_where_def delete_where_def
      split: if_splits)

text \<open>No two routes share a listen address or a host name, compared as the conflict check does.\<close>

definition listen_pair :: "RouteDetailRow \<Rightarrow> (string \<times> int) option" where
  "listen_pair r = (case (route_listen_host r, route_listen_port r) of
     (Some h, Some p) \<Rightarrow> Some (h, p) | _ \<Rightarrow> None)"

definition same_slot :: "RouteDetailRow \<Rightarrow> RouteDetailRow \<Rightarrow> bool" where
  "same_slot r q \<longleftrightarrow> listen_pair r \<noteq> None \<and> listen_pair r = listen_pair q
     \<or> route_hostname r \<noteq> None \<and> route_hostname r = route_hostname q"

definition slots_unique :: "RouteDetailRow list \<Rightarrow> bool" where
  "slots_unique rows \<longleftrightarrow> distinct (map route_id rows)
     \<and> (\<forall>r\<in>set rows. \<forall>q\<in>set rows. same_slot r q \<longrightarrow> route_id r = route_id q)"

lemma same_slot_sym: "same_slot r q \<longleftrightarrow> same_slot q r"
  unfolding same_slot_def by metis

lemma accepted_fresh_slot:
  assumes "accepted allow db i exclude" "r \<in> set (t_routes db)" "not_excluded exclude r"
    "route_listen_host q = ri_listen_host i" "route_listen_port q = map_option uint (ri_listen_port i)"
    "route_hostname q = ri_hostname i"
  shows "\<not> same_slot q r"
  using assms
  by (auto simp: accepted_def check_conflicts_def same_slot_def listen_pair_def route_listen_exists_def
      route_hostname_exists_def filter_empty_conv split: option.splits if_splits)

lemma slots_unique_update:
  assumes "slots_unique rows" "\<And>r. route_id (f r) = route_id r"
    and "\<And>r q. r \<in> set rows \<Longrightarrow> q \<in> set rows \<Longrightarrow> P r \<Longrightarrow> \<not> P q \<Longrightarrow> \<not> same_slot (f r) q"
    and "\<And>r q. P r \<Longrightarrow> P q \<Longrightarrow> same_slot (f r) (f q) \<Longrightarrow> route_id r = route_id q"
  shows "slots_unique (update_where P f rows)"
proof -
  have ids: "map route_id (update_where P f rows) = map route_id rows"
    using assms(2) by (simp add: update_where_def)
  have "route_id (if P r then f r else r) = route_id (if P q then f q else q)"
    if "r \<in> set rows" "q \<in> set rows" "same_slot (if P r then f r else r) (if P q then f q else q)" for r q
  proof (cases "P r"; cases "P q")
    assume "\<not> P r" "P q"
    then show ?thesis using that assms(3) [of q r] same_slot_sym by simp
  next
    assume "\<not> P r" "\<not> P q"
    then show ?thesis using that assms(1) unfolding slots_unique_def by simp
  qed (use that assms(2-4) in simp_all)
  then have "\<forall>r\<in>set (update_where P f rows). \<forall>q\<in>set (update_where P f rows).
      same_slot r q \<longrightarrow> route_id r = route_id q"
    unfolding update_where_def set_map by blast
  then show ?thesis
    using assms(1) unfolding slots_unique_def ids by blast
qed

lemma slots_unique_snoc:
  assumes "slots_unique rows" "route_id n \<notin> route_id ` set rows" "\<And>r. r \<in> set rows \<Longrightarrow> \<not> same_slot n r"
  shows "slots_unique (rows @ [n])"
proof -
  have "\<not> same_slot r n" if "r \<in> set rows" for r
    using assms(3) [OF that] same_slot_sym by blast
  with assms show ?thesis unfolding slots_unique_def by auto
qed

interpretation slots: route_table_invariant Y allow slots_unique for Y allow
proof (unfold_locales, goal_cases)
  case (1 db i rid lim ts db')
  define n where "n = last (t_routes db')"
  have db': "t_routes db' = t_routes db @ [n]" and fresh: "route_id n \<notin> route_id ` set (t_routes db)"
    and cols: "route_listen_host n = ri_listen_host i" "route_listen_port n = map_option uint (ri_listen_port i)"
      "route_hostname n = ri_hostname i"
    using 1(3) by (auto simp: n_def create_route_def list_ex_iff route_columns_def split: if_splits)
  have "\<not> same_slot n r" if "r \<in> set (t_routes db)" for r
    using accepted_fresh_slot [OF _ that _ cols, of allow None] 1(2) by (simp add: storable_def not_excluded_def)
  then show ?case
    unfolding db' using 1(1) fresh by (intro slots_unique_snoc)
next
  case (2 db i rid lim ts db')
  show ?case
  proof (cases "list_ex (\<lambda>r. route_id r = rid) (t_routes db)")
    case True
    define f where "f = (\<lambda>r. r\<lparr>route_name := ri_name i, route_node_id := ri_node_id i,
      route_route_type := route_type_str (ri_route_type i), route_enabled := ri_enabled i,
      route_listen_host := ri_listen_host i, route_listen_port := map_option uint (ri_listen_port i),
      route_hostname := ri_hostname i, route_target_host := ri_target_host i,
      route_target_port := uint (ri_target_port i), route_tls_mode := Some (tls_mode_str (ri_tls_mode i)),
      route_limits := lim, route_updated_at := ts\<rparr> :: RouteDetailRow)"
    have f: "\<And>r. route_id (f r) = route_id r" "\<And>r. route_listen_host (f r) = ri_listen_host i"
      "\<And>r. route_listen_port (f r) = map_option uint (ri_listen_port i)" "\<And>r. route_hostname (f r) = ri_hostname i"
      by (simp_all add: f_def)
    have db': "t_routes db' = update_where (\<lambda>r. route_id r = rid) f (t_routes db)"
      using True 2(3) unfolding update_route_def f_def by (simp add: route_columns_def split: if_splits) force
    have fresh: "\<not> same_slot (f r) q" if "q \<in> set (t_routes db)" "route_id q \<noteq> rid" for r q
      using accepted_fresh_slot [of allow db i "Some rid" q "f r"] 2(2) that f by (simp add: storable_def not_excluded_def)
    show ?thesis
      unfolding db' by (rule slots_unique_update [OF 2(1)]) (use f fresh in \<open>simp_all add: not_excluded_def\<close>)
  qed (use 2 in \<open>simp add: update_route_def\<close>)
next
  case (3 db rid)
  then show ?case
    by (auto simp: slots_unique_def delete_route_def delete_where_def distinct_map_filter)
next
  case (4 db rid en ts)
  have "same_slot (r\<lparr>route_enabled := b, route_updated_at := t\<rparr>) q = same_slot r q" for r q b t
    by (simp add: same_slot_def listen_pair_def)
  moreover have "\<not> same_slot r q"
    if "r \<in> set (t_routes db)" "q \<in> set (t_routes db)" "route_id r = rid" "route_id q \<noteq> rid" for r q
    using that 4 unfolding slots_unique_def by auto
  ultimately show ?case
    unfolding set_route_enabled_def using 4 by (auto intro!: slots_unique_update)
qed

text \<open>The rows the endpoints store are well typed: the type and the TLS mode are known names, ports are in range, a
  listen address is an address literal with a port, and a host name is present exactly for HTTP and HTTPS.\<close>

definition row_typed :: "api_externals \<Rightarrow> RouteDetailRow \<Rightarrow> bool" where
  "row_typed Y r \<longleftrightarrow> (\<exists>ty. route_route_type r = route_type_str ty
      \<and> (if ty = Tcp \<or> ty = Udp
         then (\<exists>h p. route_listen_host r = Some h \<and> parse_ip h \<noteq> None \<and> route_listen_port r = Some p \<and> 0 < p \<and> p < 65536)
            \<and> route_hostname r = None
         else route_listen_host r = None \<and> route_listen_port r = None \<and> (\<exists>h. route_hostname r = Some h \<and> h \<noteq> [])))
    \<and> 0 < route_target_port r \<and> route_target_port r < 65536 \<and> (\<exists>m. route_tls_mode r = Some (tls_mode_str m))
    \<and> (case route_limits r of None \<Rightarrow> True | Some t \<Rightarrow> \<exists>l. y_show_limits Y l = Some t)"

definition rows_typed :: "api_externals \<Rightarrow> RouteDetailRow list \<Rightarrow> bool" where
  "rows_typed Y rows \<longleftrightarrow> list_all (row_typed Y) rows"

lemma u16_pos:
  assumes "p \<noteq> (0 :: u16)"
  shows "0 < uint p" "uint p < 65536"
  using uint_lt2p [of p] uint_ge_0 [of p] assms by (simp_all add: uint_0_iff order_less_le)

lemma normalize_listen_typed:
  assumes "normalize_listen q = Ok (lh, lp, hn)"
  shows "if rq_route_type q = Tcp \<or> rq_route_type q = Udp
     then (\<exists>h p. lh = Some h \<and> parse_ip h \<noteq> None \<and> lp = Some p \<and> p \<noteq> 0) \<and> hn = None
     else lh = None \<and> lp = None \<and> (\<exists>h. hn = Some h \<and> h \<noteq> [])"
  using assms by (cases q) (auto simp: normalize_listen_def Let_def split: if_splits option.splits)

lemma limits_json_typed: "limits_json Y l = Ok lim \<Longrightarrow> case lim of None \<Rightarrow> True | Some t \<Rightarrow> \<exists>l. y_show_limits Y l = Some t"
  by (auto simp: limits_json_def split: option.splits)

lemma normalized_typed:
  assumes "normalize_route q = Ok i" "limits_json Y (ri_limits i) = Ok lim"
    and "route_route_type r = route_type_str (ri_route_type i)" "route_listen_host r = ri_listen_host i"
      "route_listen_port r = map_option uint (ri_listen_port i)" "route_hostname r = ri_hostname i"
      "route_target_port r = uint (ri_target_port i)" "route_tls_mode r = Some (tls_mode_str (ri_tls_mode i))"
      "route_limits r = lim"
  shows "row_typed Y r"
proof -
  obtain lh lp hn where n: "normalize_listen q = Ok (lh, lp, hn)" "ri_listen_host i = lh" "ri_listen_port i = lp" "ri_hostname i = hn"
    and ty: "ri_route_type i = rq_route_type q" and port: "ri_target_port i \<noteq> 0"
    using assms(1) by (auto simp: normalize_route_def Let_def split: if_splits)
  from normalize_listen_typed [OF n(1)] show ?thesis
    unfolding row_typed_def assms(3-9) n(2-4) ty
    using u16_pos [OF port] u16_pos limits_json_typed [OF assms(2)]
    by (intro conjI exI [of _ "rq_route_type q"] exI [of _ "ri_tls_mode i"]) (auto split: if_splits)
qed

interpretation typed: route_table_invariant Y allow "rows_typed Y" for Y allow
proof (unfold_locales, goal_cases)
  case (1 db i lim rid ts db')
  then obtain q where q: "normalize_route q = Ok i" "limits_json Y (ri_limits i) = Ok lim" by (auto simp: storable_def)
  show ?case
    using 1(1,3) normalized_typed [OF q] by (auto simp: rows_typed_def create_route_def route_columns_def split: if_splits)
next
  case (2 db i rid lim ts db')
  then obtain q where "normalize_route q = Ok i" "limits_json Y (ri_limits i) = Ok lim" by (auto simp: storable_def)
  then have "row_typed Y (r\<lparr>route_name := ri_name i, route_node_id := ri_node_id i,
      route_route_type := route_type_str (ri_route_type i), route_enabled := ri_enabled i,
      route_listen_host := ri_listen_host i, route_listen_port := map_option uint (ri_listen_port i),
      route_hostname := ri_hostname i, route_target_host := ri_target_host i,
      route_target_port := uint (ri_target_port i), route_tls_mode := Some (tls_mode_str (ri_tls_mode i)),
      route_limits := lim, route_updated_at := ts\<rparr>)" for r
    by (rule normalized_typed) simp_all
  with 2(1,3) show ?case
    by (auto simp: rows_typed_def update_route_def route_columns_def update_where_def list_all_iff split: if_splits)
next
  case (3 db rid)
  then show ?case by (auto simp: rows_typed_def delete_route_def delete_where_def list_all_iff)
next
  case (4 db rid en ts)
  have "row_typed Y (r\<lparr>route_enabled := en, route_updated_at := ts\<rparr>) = row_typed Y r" for r
    by (simp add: row_typed_def)
  with 4 show ?case by (auto simp: rows_typed_def set_route_enabled_def update_where_def list_all_iff)
qed

lemma u16_typed: "0 < p \<Longrightarrow> p < 65536 \<Longrightarrow> u16_try_from p = Some (of_int p) \<and> uint (of_int p :: u16) = p"
  by (simp add: u16_try_from_def unsigned_of_int take_bit_int_eq_self)

lemma route_type_str_inv [simp]: "route_type_from_str (route_type_str ty) = Some ty"
  by (cases ty) (simp_all add: route_type_from_str_def)

text \<open>The server route a row stands for, column by column: the host name and the TLS mode as stored, the default
  listen host where none is stored, the ports as the same numbers, and limits exactly where a text is stored that
  prints them.\<close>

definition same_data :: "api_externals \<Rightarrow> RouteDetailRow \<Rightarrow> Uuid \<Rightarrow> Uuid \<Rightarrow> ServerRoute \<Rightarrow> bool" where
  "same_data Y r rid nid sr \<longleftrightarrow>
     sr_id sr = rid \<and> sr_node_id sr = nid \<and> sr_name sr = route_name r
     \<and> route_type_str (sr_route_type sr) = route_route_type r \<and> sr_enabled sr = route_enabled r
     \<and> sr_listen_host sr = (case route_listen_host r of Some h \<Rightarrow> h | None \<Rightarrow> ''0.0.0.0'')
     \<and> uint (sr_listen_port sr) = (case route_listen_port r of Some p \<Rightarrow> p | None \<Rightarrow> 0)
     \<and> sr_hostname sr = route_hostname r \<and> sr_target_host sr = route_target_host r
     \<and> uint (sr_target_port sr) = route_target_port r \<and> sr_tls_mode sr = route_tls_mode r
     \<and> (case route_limits r of
          None \<Rightarrow> sr_limits sr = None
        | Some t \<Rightarrow> \<exists>l. sr_limits sr = Some l \<and> y_show_limits Y l = Some t)"

lemma typed_row_parses:
  assumes "row_typed Y r" "pu (route_id r) = Some rid" "pu (route_node_id r) = Some nid"
    and "\<forall>l t. y_show_limits Y l = Some t \<longrightarrow> t \<noteq> [] \<and> pl t = Some l"
  shows "\<exists>sr. try_from_row pu pl (route_row r) = Ok sr \<and> slot sr \<noteq> None \<and> same_data Y r rid nid sr"
proof -
  obtain ty where ty: "route_route_type r = route_type_str ty"
    and addr: "if ty = Tcp \<or> ty = Udp
     then (\<exists>h p. route_listen_host r = Some h \<and> parse_ip h \<noteq> None \<and> route_listen_port r = Some p \<and> 0 < p \<and> p < 65536)
        \<and> route_hostname r = None
     else route_listen_host r = None \<and> route_listen_port r = None \<and> (\<exists>h. route_hostname r = Some h \<and> h \<noteq> [])"
    and rest: "0 < route_target_port r" "route_target_port r < 65536"
      "case route_limits r of None \<Rightarrow> True | Some t \<Rightarrow> \<exists>l. y_show_limits Y l = Some t"
    using assms(1) unfolding row_typed_def by blast
  have target: "u16_try_from (route_target_port r) = Some (of_int (route_target_port r))"
    "uint (of_int (route_target_port r) :: u16) = route_target_port r"
    using u16_typed [OF rest(1,2)] by simp_all
  obtain lim where lim: "(case route_limits r of
       Some s \<Rightarrow> if s \<noteq> [] then map_err (\<lambda>_. BadLimits) (and_then (ok_or (pl s) BadLimits) (\<lambda>l. Ok (Some l))) else Ok None
     | None \<Rightarrow> Ok None) = (Ok lim :: (RouteParseError, Limits option) result)"
    and read: "case route_limits r of None \<Rightarrow> lim = None | Some t \<Rightarrow> \<exists>l. lim = Some l \<and> y_show_limits Y l = Some t"
    using rest(3) assms(4) by (cases "route_limits r") auto
  show ?thesis
  proof (cases "ty = Tcp \<or> ty = Udp")
    case True
    then obtain h p where h: "route_listen_host r = Some h" "parse_ip h \<noteq> None" "route_listen_port r = Some p" "0 < p" "p < 65536"
      and "route_hostname r = None"
      using addr by auto
    then show ?thesis
      using True u16_typed [OF h(4,5)] read
      by (auto simp: same_data_def try_from_row_def route_row_def Let_def ty target lim assms(2,3) slot_def is_http_def listen_key_def listen_addr_def
          split: option.splits)
  next
    case False
    then have "ty = Http \<or> ty = Https" by (cases ty) auto
    then show ?thesis
      using addr read by (auto simp: same_data_def try_from_row_def route_row_def Let_def ty target lim assms(2,3) slot_def is_http_def host_key_def
          split: option.splits)
  qed
qed

section \<open>Properties of the route endpoints\<close>

text \<open>With \<open>allow_unsafe_targets\<close> off, no sequence of requests to the route endpoints, by any users and
  with any inputs, ever stores a route whose target is an address literal of a forbidden category
  (loopback, link-local, multicast, metadata): if the table has none, it never gets one.\<close>

theorem stored_targets_safe:
  assumes "\<not> a_allow_unsafe_targets s" "targets_safe (t_routes (a_db s))"
  shows "targets_safe (t_routes (a_db (route_ops_run Y ops s)))"
  using assms by (intro ssrf.inv_run) simp_all

definition sample_account :: "string \<Rightarrow> User" where
  "sample_account role = \<lparr>u_id = ''u1'', u_username = ''bob'', u_email = None, u_role = role\<rparr>"

definition sample_request :: "string \<Rightarrow> string \<Rightarrow> RouteRequest" where
  "sample_request name host =
     \<lparr>rq_name = name, rq_node_id = ''n1'', rq_route_type = Http, rq_enabled = True, rq_listen_host = None,
      rq_listen_port = None, rq_hostname = Some host, rq_target_host = ''db'', rq_target_port = 80,
      rq_tls_mode = None, rq_limits = None\<rparr>"

theorem stored_targets_safe_witness:
  "targets_safe (t_routes (a_db (route_ops_run sample_api
      [CreateRoute sample_env (sample_account ''admin'') ((sample_request ''r'' ''a'')\<lparr>rq_target_host := ''127.0.0.1''\<rparr>)]
      (sample_app sample_db))))"
  using stored_targets_safe [of "sample_app sample_db"]
  by (simp add: sample_app_def sample_db_eval targets_safe_def)

text \<open>The route endpoints keep the slots of the data plane unique: whatever sequence of requests is
  served, no two stored routes have the same listen address and port, or the same host name (both
  compared as stored), if none had before.\<close>

theorem stored_slots_unique:
  assumes "slots_unique (t_routes (a_db s))"
  shows "slots_unique (t_routes (a_db (route_ops_run Y ops s)))"
  using assms by (intro slots.inv_run) simp_all

theorem stored_slots_unique_witness:
  "slots_unique (t_routes (a_db (route_ops_run sample_api
      [CreateRoute sample_env (sample_account ''admin'') (sample_request ''r'' ''a''),
       CreateRoute sample_env (sample_account ''admin'') (sample_request ''q'' ''a'')] (sample_app sample_db))))"
  using stored_slots_unique [of "sample_app sample_db"]
  by (simp add: sample_app_def sample_db_eval slots_unique_def)

text \<open>C35. The stored routes are well typed, and well-typed routes work.  No sequence of requests stores an ill-typed row
  among well-typed ones; and, if the limits that were printed can be read again, each well-typed row with readable
  identifiers converts to a server route with the same data in every column (identifiers, name, type, enabled flag,
  listen host and port, host name, target, TLS mode and limits) and a place in the data plane (a listen address or
  a host name), so that it never makes a reload of the configuration fail by itself.\<close>

theorem stored_routes_typed:
  "(rows_typed Y (t_routes (a_db s)) \<longrightarrow> rows_typed Y (t_routes (a_db (route_ops_run Y ops s))))
   \<and> (row_typed Y r \<and> pu (route_id r) = Some rid \<and> pu (route_node_id r) = Some nid
        \<and> (\<forall>l t. y_show_limits Y l = Some t \<longrightarrow> t \<noteq> [] \<and> pl t = Some l)
      \<longrightarrow> (\<exists>sr. try_from_row pu pl (route_row r) = Ok sr \<and> slot sr \<noteq> None \<and> same_data Y r rid nid sr))"
proof (intro conjI impI)
  assume "rows_typed Y (t_routes (a_db s))"
  then show "rows_typed Y (t_routes (a_db (route_ops_run Y ops s)))" by (rule typed.inv_run) simp
next
  assume a: "row_typed Y r \<and> pu (route_id r) = Some rid \<and> pu (route_node_id r) = Some nid
        \<and> (\<forall>l t. y_show_limits Y l = Some t \<longrightarrow> t \<noteq> [] \<and> pl t = Some l)"
  then show "\<exists>sr. try_from_row pu pl (route_row r) = Ok sr \<and> slot sr \<noteq> None \<and> same_data Y r rid nid sr"
    by (intro typed_row_parses) auto
qed

definition limits_api :: "Limits \<Rightarrow> api_externals" where
  "limits_api l0 = sample_api\<lparr>y_show_limits := \<lambda>l. if l = l0 then Some ''{}'' else None\<rparr>"

definition sample_row :: RouteDetailRow where
  "sample_row = \<lparr>route_id = ''r1'', route_name = ''web'', route_node_id = ''n1'', route_route_type = ''udp'', route_enabled = True,
     route_listen_host = Some ''127.0.0.1'', route_listen_port = Some 53, route_hostname = None, route_target_host = ''dns'',
     route_target_port = 5353, route_tls_mode = Some ''disabled'', route_status = ''draft'', route_limits = Some ''{}'',
     route_created_at = ''t'', route_updated_at = ''t''\<rparr>"

theorem stored_routes_typed_witness:
  "\<forall>l0. rows_typed (limits_api l0) (t_routes (a_db (route_ops_run (limits_api l0)
        [CreateRoute sample_env (sample_account ''admin'') (sample_request ''web'' ''a.io'')] (sample_app sample_db))))
     \<and> (\<exists>sr. try_from_row (\<lambda>_. Some 1) (\<lambda>_. Some l0) (route_row sample_row) = Ok sr \<and> slot sr \<noteq> None \<and> uint (sr_target_port sr) = 5353)"
proof (intro allI conjI)
  fix l0
  show "rows_typed (limits_api l0) (t_routes (a_db (route_ops_run (limits_api l0)
        [CreateRoute sample_env (sample_account ''admin'') (sample_request ''web'' ''a.io'')] (sample_app sample_db))))"
    using stored_routes_typed [of "limits_api l0" "sample_app sample_db"]
    by (simp add: sample_app_def sample_db_eval rows_typed_def)
  have "parse_ip ''127.0.0.1'' \<noteq> None" by (simp add: parse_eval)
  then have "row_typed (limits_api l0) sample_row"
    by (auto simp: row_typed_def sample_row_def limits_api_def intro!: exI [of _ Udp] exI [of _ Disabled])
  then show "\<exists>sr. try_from_row (\<lambda>_. Some 1) (\<lambda>_. Some l0) (route_row sample_row) = Ok sr \<and> slot sr \<noteq> None \<and> uint (sr_target_port sr) = 5353"
    using stored_routes_typed [of "limits_api l0" "sample_app sample_db" "[]" sample_row "\<lambda>_. Some 1" 1 1 "\<lambda>_. Some l0"]
    by (auto simp: sample_row_def limits_api_def same_data_def split: if_splits)
qed

text \<open>A user without the permission \<open>routes:write\<close> gets 403 from every write endpoint, and nothing
  changes: no row, no configuration, no pushed message, no audit entry, no event.\<close>

theorem route_write_forbidden:
  assumes "\<not> user_has_permission u RoutesWrite"
  shows "\<exists>m. api_create_route Y E u q s = (Err (ApiError 403 ''FORBIDDEN'' m), s)
     \<and> api_update_route Y E u rid p s = (Err (ApiError 403 ''FORBIDDEN'' m), s)
     \<and> api_delete_route Y E u rid s = (Err (ApiError 403 ''FORBIDDEN'' m), s)
     \<and> api_enable_route Y E u rid s = (Err (ApiError 403 ''FORBIDDEN'' m), s)
     \<and> api_disable_route Y E u rid s = (Err (ApiError 403 ''FORBIDDEN'' m), s)"
  using assms
  by (simp add: api_create_route_def api_update_route_def api_delete_route_def api_enable_route_def
      api_disable_route_def require_permission_def forbidden_def)

theorem route_write_forbidden_witness:
  "\<exists>m. api_delete_route sample_api sample_env (sample_account ''viewer'') ''r1'' (sample_app sample_db)
     = (Err (ApiError 403 ''FORBIDDEN'' m), sample_app sample_db)"
  using route_write_forbidden [of "sample_account ''viewer''" sample_api sample_env _ "sample_app sample_db" "''r1''"]
  by (auto simp: sample_account_def user_has_permission_def role_has_permission_def is_read_def)

text \<open>The row a request asks for: the name and the host name are trimmed, a listen address belongs to TCP and UDP
  only and a host name to HTTP and HTTPS only, TLS is disabled unless asked for, and the row starts as a draft.\<close>

definition requested_row :: "env \<Rightarrow> RouteRequest \<Rightarrow> string option \<Rightarrow> RouteDetailRow" where
  "requested_row E q lim =
     (let by_port = rq_route_type q \<in> {Tcp, Udp} in
      \<lparr>route_id = e_uuid E 0, route_name = trim (rq_name q), route_node_id = rq_node_id q,
       route_route_type = route_type_str (rq_route_type q), route_enabled = rq_enabled q,
       route_listen_host = (if by_port then Some (case rq_listen_host q of Some h \<Rightarrow> h | None \<Rightarrow> ''0.0.0.0'') else None),
       route_listen_port = (if by_port then map_option uint (rq_listen_port q) else None),
       route_hostname = (if by_port then None else map_option trim (rq_hostname q)),
       route_target_host = rq_target_host q, route_target_port = uint (rq_target_port q),
       route_tls_mode = Some (tls_mode_str (case rq_tls_mode q of Some t \<Rightarrow> t | None \<Rightarrow> Disabled)),
       route_status = ''draft'', route_limits = lim, route_created_at = e_ts E, route_updated_at = e_ts E\<rparr>)"

lemma created_row:
  assumes "normalize_route q = Ok i" "create_route (e_uuid E 0) (route_columns i lim) (e_ts E) db = Ok db'"
  shows "t_routes db' = t_routes db @ [requested_row E q lim]"
    and "ri_node_id i = rq_node_id q" "ri_name i = trim (rq_name q)" "ri_limits i = rq_limits q"
proof -
  obtain lh lp hn where n: "normalize_listen q = Ok (lh, lp, hn)"
    and i: "i = \<lparr>ri_name = trim (rq_name q), ri_node_id = rq_node_id q, ri_route_type = rq_route_type q,
        ri_enabled = rq_enabled q, ri_listen_host = lh, ri_listen_port = lp, ri_hostname = hn,
        ri_target_host = rq_target_host q, ri_target_port = rq_target_port q,
        ri_tls_mode = (case rq_tls_mode q of Some t \<Rightarrow> t | None \<Rightarrow> Disabled), ri_limits = rq_limits q\<rparr>"
    using assms(1) by (auto simp: normalize_route_def Let_def split: if_splits)
  have "lh = (if rq_route_type q \<in> {Tcp, Udp} then Some (case rq_listen_host q of Some h \<Rightarrow> h | None \<Rightarrow> ''0.0.0.0'') else None)"
    "lp = (if rq_route_type q \<in> {Tcp, Udp} then rq_listen_port q else None)"
    "hn = (if rq_route_type q \<in> {Tcp, Udp} then None else map_option trim (rq_hostname q))"
    using n by (auto simp: normalize_listen_def Let_def split: if_splits option.splits)
  then show "t_routes db' = t_routes db @ [requested_row E q lim]"
    using assms(2) by (auto simp: create_route_def route_columns_def i requested_row_def Let_def split: if_splits)
  show "ri_node_id i = rq_node_id q" "ri_name i = trim (rq_name q)" "ri_limits i = rq_limits q" by (simp_all add: i)
qed

lemma find_update_where:
  "(\<And>x. P (f x) = P x) \<Longrightarrow> find P (update_where P f xs) = map_option f (find P xs)"
  by (induction xs) (auto simp: update_where_def)

lemma bump_version:
  assumes "get_config_version nid db = Ok old"
  shows "get_config_version nid (snd (bump_config_version nid ts db)) = Ok (old + 1)"
  using assms
  by (auto simp: get_config_version_def bump_config_version_def Let_def find_update_where split: option.splits)

lemma bump_other_version:
  assumes "n \<noteq> nid"
  shows "get_config_version n (snd (bump_config_version nid ts db)) = get_config_version n db"
proof -
  have "find (\<lambda>x. node_id x = n) (update_where (\<lambda>x. node_id x = nid) f xs) = find (\<lambda>x. node_id x = n) xs"
    if "\<And>x. node_id (f x) = node_id x" for f :: "NodeRow \<Rightarrow> NodeRow" and xs
    using assms that by (induction xs) (auto simp: update_where_def)
  then show ?thesis by (simp add: get_config_version_def bump_config_version_def Let_def)
qed

lemma get_config_version_cong: "t_nodes db = t_nodes db' \<Longrightarrow> get_config_version n db = get_config_version n db'"
  by (simp add: get_config_version_def)

text \<open>C11. A successful creation takes effect everywhere at once.  The answer shows the new row, which holds in every
  column what was asked for, or the printed limits, and is the only change of the routes table; the
  configuration version of the node goes up by one and that of no other node changes; one audit entry
  names the user, the route and its name; one route event and one configuration event are
  published; and if the node is connected and its rows load, its agent is sent exactly one message, the
  full snapshot of its routes under the version after the old one.\<close>

theorem create_route_effect:
  assumes ok: "api_create_route Y E u q s = (Ok v, s')"
  shows "\<exists>lim old. limits_json Y (rq_limits q) = Ok lim
      \<and> t_routes (a_db s') = t_routes (a_db s) @ [requested_row E q lim] \<and> v = route_response Y (requested_row E q lim)
      \<and> get_config_version (rq_node_id q) (a_db s) = Ok old \<and> get_config_version (rq_node_id q) (a_db s') = Ok (old + 1)
      \<and> (\<forall>n. n \<noteq> rq_node_id q \<longrightarrow> get_config_version n (a_db s') = get_config_version n (a_db s))
      \<and> t_audit_logs (a_db s') = t_audit_logs (a_db s)
          @ [\<lparr>audit_id = e_uuid E 1, audit_user_id = Some (u_id u), audit_action = ''route.create'',
              audit_resource_type = Some ''route'', audit_resource_id = Some (e_uuid E 0), audit_ip = None,
              audit_user_agent = None, audit_metadata = Some (y_meta Y [(''name'', trim (rq_name q))]),
              audit_created_at = e_ts E\<rparr>]
      \<and> a_events s' = a_events s @ [RouteEvent ''route.created'' (e_uuid E 0), ConfigChanged (rq_node_id q)]
      \<and> (\<forall>node ch routes. x_parse_uuid (y_ext Y) (rq_node_id q) = Some node
            \<and> x_show_uuid (y_ext Y) node = rq_node_id q
            \<and> map_of (cs_push (a_sync s)) node = Some ch
            \<and> cm_load (x_parse_uuid (y_ext Y)) (x_parse_limits (y_ext Y))
                 (Ok (list_routes_for_node (rq_node_id q) (a_db s'))) = Ok routes
          \<longrightarrow> cs_queues (a_sync s') = (cs_queues (a_sync s))
                (ch := cs_queues (a_sync s) ch @ [snapshot_message (max0_u64 (old + 1)) (map to_route_config routes)]))"
proof -
  obtain i lim db row s2 where st:
    "normalize_route q = Ok i" "create_route (e_uuid E 0) (route_columns i lim) (e_ts E) (a_db s) = Ok db"
    "s2 = reload_config Y (bump_and_push Y E (ri_node_id i) (s\<lparr>a_db := db\<rparr>))"
    "get_route (e_uuid E 0) (a_db s2) = Some row" "v = route_response Y row" "limits_json Y (ri_limits i) = Ok lim"
    "s' = s2\<lparr>a_db := (a_db s2)\<lparr>t_audit_logs := t_audit_logs (a_db s2) @ [audit_row E 1 (Some (u_id u)) ''route.create''
        ''route'' (e_uuid E 0) (Some (y_meta Y [(''name'', ri_name i)]))]\<rparr>,
      a_events := a_events s2 @ [RouteEvent ''route.created'' (e_uuid E 0), ConfigChanged (ri_node_id i)]\<rparr>"
    using ok unfolding api_create_route_def fetch_route_def route_events_def publish_def
    by (auto simp: hbind_Ok dest!: write_audit_Ok)
  note new = created_row [OF st(1,2)]
  have fresh: "\<forall>r\<in>set (t_routes (a_db s)). route_id r \<noteq> e_uuid E 0" "t_audit_logs db = t_audit_logs (a_db s)"
    "t_nodes db = t_nodes (a_db s)" "list_ex (\<lambda>n. node_id n = rq_node_id q) (t_nodes (a_db s))"
    using st(2) new(2) by (auto simp: create_route_def list_ex_iff route_columns_def split: if_splits)
  have row: "row = requested_row E q lim"
    using st(3,4) new(1) fresh(1)
    by (auto simp: get_route_def find_Some_iff nth_append requested_row_def Let_def split: if_splits)
  obtain old where old: "get_config_version (rq_node_id q) (a_db s) = Ok old"
    using fresh(4) by (cases "find (\<lambda>n. node_id n = rq_node_id q) (t_nodes (a_db s))")
      (auto simp: get_config_version_def list_ex_iff find_None_iff)
  have nodes: "t_nodes (a_db s') = t_nodes (snd (bump_config_version (rq_node_id q) (e_ts E) db))"
    using st(3,7) new(2) by (auto simp: bump_and_push_def Let_def split: prod.splits sum.splits option.splits)
  have before: "get_config_version n db = get_config_version n (a_db s)" for n
    by (rule get_config_version_cong [OF fresh(3)])
  have ver: "get_config_version (rq_node_id q) (a_db s') = Ok (old + 1)"
    using bump_version [of "rq_node_id q" db old] old before get_config_version_cong [OF nodes] by simp
  have others: "\<forall>n. n \<noteq> rq_node_id q \<longrightarrow> get_config_version n (a_db s') = get_config_version n (a_db s)"
    using bump_other_version before get_config_version_cong [OF nodes] by simp
  have "cs_queues (a_sync s') = (cs_queues (a_sync s))
        (ch := cs_queues (a_sync s) ch @ [snapshot_message (max0_u64 (old + 1)) (map to_route_config routes)])"
    if "x_parse_uuid (y_ext Y) (rq_node_id q) = Some node" "x_show_uuid (y_ext Y) node = rq_node_id q"
      "map_of (cs_push (a_sync s)) node = Some ch"
      "cm_load (x_parse_uuid (y_ext Y)) (x_parse_limits (y_ext Y))
         (Ok (list_routes_for_node (rq_node_id q) (a_db s'))) = Ok routes" for node ch routes
    using bump_and_push_sends [OF refl, of Y "rq_node_id q" node "s\<lparr>a_db := db\<rparr>" ch routes E "old + 1"] that st(3,7) ver new(2)
    by (simp add: list_routes_for_node_def get_config_version_def)
  then show ?thesis
    using st old ver others new row fresh(2) by (intro exI [of _ lim] exI [of _ old]) (simp add: audit_row_def)
qed

text \<open>Conversely a request that passes all the checks is served.\<close>

lemma api_create_route_succeeds:
  assumes "user_has_permission u RoutesWrite" "normalize_route q = Ok i"
    "accepted (a_allow_unsafe_targets s) (a_db s) i None" "limits_json Y (ri_limits i) = Ok lim"
    "create_route (e_uuid E 0) (route_columns i lim) (e_ts E) (a_db s) = Ok db"
    "\<forall>a\<in>set (t_audit_logs (a_db s)). audit_id a \<noteq> e_uuid E 1"
  shows "\<exists>v s'. api_create_route Y E u q s = (Ok v, s') \<and> t_routes (a_db s') = t_routes db
     \<and> t_nodes (a_db s') = t_nodes (snd (bump_config_version (ri_node_id i) (e_ts E) db))"
proof -
  obtain new where "t_routes db = t_routes (a_db s) @ [new]" "route_id new = e_uuid E 0"
      "t_audit_logs db = t_audit_logs (a_db s)"
    using assms(5) by (auto simp: create_route_def split: if_splits)
  then have "get_route (e_uuid E 0) db \<noteq> None"
    by (auto simp: get_route_def find_None_iff)
  moreover have "get_route rid (a_db (bump_and_push Y E n (s\<lparr>a_db := db\<rparr>))) = get_route rid db" for rid n
    by (simp add: get_route_def)
  moreover have "t_nodes (a_db (bump_and_push Y E n (s\<lparr>a_db := db\<rparr>))) = t_nodes (snd (bump_config_version n (e_ts E) db))" for n
    by (auto simp: bump_and_push_def Let_def split: prod.splits sum.splits option.splits)
  ultimately show ?thesis
    using assms \<open>t_audit_logs db = _\<close>
    by (auto simp: api_create_route_def require_permission_def accepted_def hbind_db fetch_route_def hbind_assoc
        route_events_def publish_def write_audit_def insert_audit_log_def audit_row_def list_ex_iff)
qed

definition any_uuid_api :: api_externals where
  "any_uuid_api = sample_api\<lparr>y_ext := (sample_ext sample_ok sample_snap)\<lparr>x_parse_uuid := \<lambda>_. Some 1\<rparr>\<rparr>"

definition online_app :: app where
  "online_app = (sample_app sample_db)\<lparr>a_sync := snd (cs_register 1 cs_new)\<rparr>"

definition sample_input :: "string \<Rightarrow> string \<Rightarrow> RouteInput" where
  "sample_input name host =
     \<lparr>ri_name = name, ri_node_id = ''n1'', ri_route_type = Http, ri_enabled = True, ri_listen_host = None,
      ri_listen_port = None, ri_hostname = Some host, ri_target_host = ''db'', ri_target_port = 80,
      ri_tls_mode = Disabled, ri_limits = None\<rparr>"

lemma graphic_trim_sample [simp]:
  "trim ''web'' = ''web''" "trim ''api'' = ''api''" "trim ''n1'' = ''n1''" "trim ''db'' = ''db''"
  "trim ''a.io'' = ''a.io''" "trim ''A.io'' = ''A.io''"
  by (rule trim_graphic; simp add: graphic_def code_numeral_simps)+

lemma normalize_sample: "normalize_route (sample_request ''web'' ''a.io'') = Ok (sample_input ''web'' ''a.io'')"
  by (simp add: normalize_route_def normalize_listen_def sample_request_def sample_input_def)

lemma parse_ip_db: "parse_ip ''db'' = None"
  by (simp add: parse_eval)

lemmas conflict_eval = check_conflicts_def node_exists_def route_name_exists_def route_hostname_exists_def
  sample_input_def not_excluded_def

lemma accepted_sample: "accepted False sample_db (sample_input ''web'' ''a.io'') None"
  by (simp add: accepted_def check_target_def conflict_eval sample_db_eval parse_ip_db)

theorem create_route_effect_witness:
  "\<exists>v s' row. api_create_route any_uuid_api sample_env (sample_account ''admin'') (sample_request ''web'' ''a.io'') online_app
      = (Ok v, s') \<and> t_routes (a_db s') = [row] \<and> route_name row = ''web''
     \<and> (\<exists>route. cs_queues (a_sync s') 0 = [snapshot_message 1 [route]] \<and> rc_hostname route = Some ''a.io'')"
proof -
  let ?i = "sample_input ''web'' ''a.io''"
  obtain db where db: "create_route (e_uuid sample_env 0) (route_columns ?i None) (e_ts sample_env) sample_db = Ok db"
    by (simp add: create_route_def sample_input_def route_columns_def sample_db_eval)
  obtain v s' where c: "api_create_route any_uuid_api sample_env (sample_account ''admin'') (sample_request ''web'' ''a.io'')
      online_app = (Ok v, s')" and rows: "t_routes (a_db s') = t_routes db"
      and nodes: "t_nodes (a_db s') = t_nodes (snd (bump_config_version ''n1'' (e_ts sample_env) db))"
    using api_create_route_succeeds [OF _ normalize_sample, of "sample_account ''admin''" online_app any_uuid_api None sample_env db]
      accepted_sample db
    by (auto simp: sample_account_def user_has_permission_def role_has_permission_def online_app_def sample_app_def
        limits_json_def sample_input_def sample_db_eval)
  obtain route where load: "cm_load (x_parse_uuid (y_ext any_uuid_api)) (x_parse_limits (y_ext any_uuid_api))
      (Ok (list_routes_for_node ''n1'' (a_db s'))) = Ok [route]" "sr_hostname route = Some ''a.io''"
    using rows db
    by (auto simp: cm_load_def list_routes_for_node_def create_route_def sample_input_def route_columns_def
        sample_db_eval route_row_def try_from_row_def route_type_from_str_def u16_try_from_def any_uuid_api_def
        sample_api_def split: if_splits)
  obtain row where row: "t_routes (a_db s') = [row]" "route_name row = ''web''"
    and sent: "\<forall>node ch routes. x_parse_uuid (y_ext any_uuid_api) ''n1'' = Some node
        \<and> x_show_uuid (y_ext any_uuid_api) node = ''n1'' \<and> map_of (cs_push (a_sync online_app)) node = Some ch
        \<and> cm_load (x_parse_uuid (y_ext any_uuid_api)) (x_parse_limits (y_ext any_uuid_api))
             (Ok (list_routes_for_node ''n1'' (a_db s'))) = Ok routes
      \<longrightarrow> cs_queues (a_sync s') = (cs_queues (a_sync online_app))
            (ch := cs_queues (a_sync online_app) ch @ [snapshot_message (max0_u64 1) (map to_route_config routes)])"
    using create_route_effect [OF c]
    by (auto simp: online_app_def sample_app_def sample_db_eval sample_request_def requested_row_def Let_def get_config_version_def)
  have "cs_queues (a_sync s') 0 = [snapshot_message 1 [to_route_config route]]"
    using sent [rule_format, of 1 0 "[route]"] load(1)
    by (simp add: any_uuid_api_def sample_api_def sample_ext_def online_app_def sample_app_def cs_register_def
        cs_new_def Let_def max0_u64_def)
  moreover have "rc_hostname (to_route_config route) = Some ''a.io''"
    using load(2) by (simp add: to_route_config_def)
  ultimately show ?thesis using c row by blast
qed

text \<open>The conflict check compares host names as strings, the configuration compares them without case:
  two routes whose host names differ in case only are both accepted and stored, and from then on no
  reload of the configuration succeeds.\<close>

theorem host_case_variant_blocks_reload:
  "\<exists>db1 db2. create_route ''r1'' (route_columns (sample_input ''web'' ''a.io'') None) ''t1'' sample_db = Ok db1
     \<and> accepted False db1 (sample_input ''api'' ''A.io'') None
     \<and> create_route ''r2'' (route_columns (sample_input ''api'' ''A.io'') None) ''t2'' db1 = Ok db2
     \<and> is_ok (fst (cm_reload (\<lambda>_. Some 1) (\<lambda>_. None) (Ok (list_routes db1)) new_config_manager))
     \<and> \<not> is_ok (fst (cm_reload (\<lambda>_. Some 1) (\<lambda>_. None) (Ok (list_routes db2)) m))"
proof -
  obtain db1 where db1: "create_route ''r1'' (route_columns (sample_input ''web'' ''a.io'') None) ''t1'' sample_db = Ok db1"
    by (simp add: create_route_def sample_input_def route_columns_def sample_db_eval)
  obtain db2 where db2: "create_route ''r2'' (route_columns (sample_input ''api'' ''A.io'') None) ''t2'' db1 = Ok db2"
    using db1 by (auto simp: create_route_def sample_input_def route_columns_def sample_db_eval split: if_splits)
  note eval = cm_load_def list_routes_def create_route_def sample_input_def route_columns_def sample_db_eval route_row_def
    try_from_row_def route_type_from_str_def u16_try_from_def validate_routes_def host_key_def cm_reload_def
  have "accepted False db1 (sample_input ''api'' ''A.io'') None"
    using db1 by (auto simp: accepted_def check_target_def parse_ip_db conflict_eval create_route_def route_columns_def
        sample_db_eval)
  moreover have "is_ok (fst (cm_reload (\<lambda>_. Some 1) (\<lambda>_. None) (Ok (list_routes db1)) new_config_manager))"
    using db1 by (auto simp: eval)
  moreover have "\<not> is_ok (fst (cm_reload (\<lambda>_. Some 1) (\<lambda>_. None) (Ok (list_routes db2)) m))"
    using db1 db2 by (auto simp: eval lowercase_eval)
  ultimately show ?thesis using db1 db2 by blast
qed

end
