(* ===== verification/NodeApi.thy ===== *)
theory NodeApi
  imports RouteApi
begin

text \<open>
  The node, enrollment, ACL and audit endpoints of the management API: \<open>server/src/api/nodes.rs\<close>, \<open>enroll.rs\<close>,
  \<open>acl.rs\<close> and \<open>audit.rs\<close>, in the handler style of the theory on the API.

  Random identifiers and tokens come from the environment of the request; token hashing, the parsing of
  timestamps and the JSON texts of the audit log are parameters.  An event carries its kind and the node.
\<close>

section \<open>Nodes\<close>

record Node =
  nv_id :: string
  nv_name :: string
  nv_description :: "string option"
  nv_status :: string
  nv_hostname :: "string option"
  nv_platform :: "string option"
  nv_architecture :: "string option"
  nv_agent_version :: "string option"
  nv_remote_addr :: "string option"
  nv_connected_at :: "string option"
  nv_last_seen_at :: "string option"
  nv_config_version :: int
  nv_applied_config_version :: int
  nv_config_status :: string

definition node_response :: "NodeRow \<Rightarrow> Node" where
  "node_response row =
     \<lparr>nv_id = node_id row, nv_name = node_name row, nv_description = node_description row,
      nv_status = node_status row, nv_hostname = node_hostname row, nv_platform = node_platform row,
      nv_architecture = node_architecture row, nv_agent_version = node_agent_version row,
      nv_remote_addr = node_remote_addr row, nv_connected_at = node_connected_at row,
      nv_last_seen_at = node_last_seen_at row, nv_config_version = node_config_version row,
      nv_applied_config_version = node_applied_config_version row, nv_config_status = node_config_status row\<rparr>"

definition fetch_node :: "string \<Rightarrow> ApiError \<Rightarrow> NodeRow handler" where
  "fetch_node nid err = hbind (hget (\<lambda>s. get_node nid (a_db s))) (\<lambda>row. hlift (ok_or row err))"

definition node_missing :: ApiError where
  "node_missing = not_found ''NODE_NOT_FOUND'' ''node does not exist''"

definition api_list_nodes :: "User \<Rightarrow> Node list handler" where
  "api_list_nodes user =
     hbind (hlift (require_permission user NodesRead)) (\<lambda>_.
     hget (\<lambda>s. map node_response (list_nodes (a_db s))))"

definition api_get_node :: "User \<Rightarrow> string \<Rightarrow> Node handler" where
  "api_get_node user nid =
     hbind (hlift (require_permission user NodesRead)) (\<lambda>_.
     hbind (fetch_node nid node_missing) (\<lambda>row.
     hlift (Ok (node_response row))))"

definition check_node_name :: "string \<Rightarrow> (ApiError, string) result" where
  "check_node_name raw =
     (let name = trim raw in
      if name = [] then Err (unprocessable ''INVALID_NAME'' ''name must not be empty'') else Ok name)"

definition duplicate_node :: ApiError where
  "duplicate_node = conflict ''DUPLICATE_NAME'' ''node already exists''"

text \<open>The response of a creation carries the bootstrap token, which is stored only as its hash.\<close>

definition api_create_node :: "api_externals \<Rightarrow> env \<Rightarrow> User \<Rightarrow> string \<Rightarrow> string option \<Rightarrow> (Node \<times> string) handler" where
  "api_create_node Y E user raw_name descr =
     hbind (hlift (require_permission user NodesWrite)) (\<lambda>_.
     hbind (hlift (check_node_name raw_name)) (\<lambda>name.
     hbind (hget (\<lambda>s. node_name_exists name None (a_db s))) (\<lambda>taken.
     hbind (hlift (if taken then Err duplicate_node else Ok ())) (\<lambda>_.
     hbind (hdb (\<lambda>e. map_db_error e ''node'') (create_node (e_uuid E 0) name descr (e_ts E))) (\<lambda>_.
     hbind (hdb internal_db (create_credential (e_uuid E 1) (e_uuid E 0) ''bootstrap''
              (x_hash_token (y_ext Y) (e_token E 0)) None (e_ts E))) (\<lambda>_.
     hbind (fetch_node (e_uuid E 0) (internal_error ''node not found after create'')) (\<lambda>row.
     hbind (write_audit E 2 (Some (u_id user)) ''node.create'' ''node'' (e_uuid E 0) (Some (y_meta Y [(''name'', name)]))) (\<lambda>_.
     hbind (publish (NodeEvent ''node.created'' (e_uuid E 0))) (\<lambda>_.
     hlift (Ok (node_response row, e_token E 0)))))))))))"

definition api_update_node :: "api_externals \<Rightarrow> env \<Rightarrow> User \<Rightarrow> string \<Rightarrow> string option \<Rightarrow> string option \<Rightarrow> Node handler" where
  "api_update_node Y E user nid raw_name descr =
     hbind (hlift (require_permission user NodesWrite)) (\<lambda>_.
     hbind (fetch_node nid node_missing) (\<lambda>existing.
     hbind (hlift (case raw_name of Some n \<Rightarrow> check_node_name n | None \<Rightarrow> Ok (node_name existing))) (\<lambda>name.
     hbind (hget (\<lambda>s. name \<noteq> node_name existing \<and> node_name_exists name (Some nid) (a_db s))) (\<lambda>taken.
     hbind (hlift (if taken then Err duplicate_node else Ok ())) (\<lambda>_.
     hbind (hdb (\<lambda>e. map_db_error e ''node'')
              (update_node nid name (or_else descr (node_description existing)) (e_ts E))) (\<lambda>_.
     hbind (fetch_node nid (internal_error ''node not found after update'')) (\<lambda>row.
     hbind (write_audit E 0 (Some (u_id user)) ''node.update'' ''node'' nid (Some (y_meta Y [(''name'', name)]))) (\<lambda>_.
     hbind (publish (NodeEvent ''node.updated'' nid)) (\<lambda>_.
     hlift (Ok (node_response row)))))))))))"

definition api_delete_node :: "env \<Rightarrow> User \<Rightarrow> string \<Rightarrow> unit handler" where
  "api_delete_node E user nid =
     hbind (hlift (require_permission user NodesWrite)) (\<lambda>_.
     hbind (hget (\<lambda>s. node_exists nid (a_db s))) (\<lambda>ex.
     hbind (hlift (if ex then Ok () else Err node_missing)) (\<lambda>_.
     hbind (hmod (\<lambda>s. s\<lparr>a_db := delete_node nid (a_db s)\<rparr>)) (\<lambda>_.
     write_audit E 0 (Some (u_id user)) ''node.delete'' ''node'' nid None))))"

definition api_create_credential :: "api_externals \<Rightarrow> env \<Rightarrow> User \<Rightarrow> string \<Rightarrow> string \<Rightarrow> string option \<Rightarrow> (string \<times> string) handler" where
  "api_create_credential Y E user nid ty expires =
     hbind (hlift (require_permission user NodesWrite)) (\<lambda>_.
     hbind (hlift (if ty = ''token'' then Ok ()
                   else Err (unprocessable ''INVALID_TYPE'' ''only credential type 'token' is supported''))) (\<lambda>_.
     hbind (hlift (case expires of
                     Some t \<Rightarrow> if x_parse_time (y_ext Y) t = None
                              then Err (unprocessable ''INVALID_EXPIRES_AT'' ''expires_at must be a valid RFC3339 timestamp'')
                              else Ok ()
                   | None \<Rightarrow> Ok ())) (\<lambda>_.
     hbind (hget (\<lambda>s. node_exists nid (a_db s))) (\<lambda>ex.
     hbind (hlift (if ex then Ok () else Err node_missing)) (\<lambda>_.
     hbind (hdb internal_db (create_credential (e_uuid E 0) nid ''token''
              (x_hash_token (y_ext Y) (e_token E 0)) expires (e_ts E))) (\<lambda>_.
     hbind (write_audit E 1 (Some (u_id user)) ''credential.create'' ''credential'' (e_uuid E 0)
              (Some (y_meta Y [(''type'', ''token'')]))) (\<lambda>_.
     hlift (Ok (e_uuid E 0, e_token E 0)))))))))"

definition api_revoke_credential :: "env \<Rightarrow> User \<Rightarrow> string \<Rightarrow> string \<Rightarrow> unit handler" where
  "api_revoke_credential E user nid cid =
     hbind (hlift (require_permission user NodesWrite)) (\<lambda>_.
     hbind (hget (\<lambda>s. get_credential cid (a_db s))) (\<lambda>found.
     hbind (hlift (ok_or found (not_found ''CREDENTIAL_NOT_FOUND'' ''credential does not exist''))) (\<lambda>cred.
     hbind (hlift (if cred_node_id cred = nid then Ok ()
                   else Err (not_found ''CREDENTIAL_NOT_FOUND'' ''credential does not belong to node''))) (\<lambda>_.
     hbind (hmod (\<lambda>s. s\<lparr>a_db := revoke_credential cid (e_ts E) (a_db s)\<rparr>)) (\<lambda>_.
     write_audit E 0 (Some (u_id user)) ''credential.revoke'' ''credential'' cid None)))))"

section \<open>Enrollment\<close>

record EnrollRequest =
  er_bootstrap_token :: string
  er_node_name :: "string option"
  er_hostname :: "string option"
  er_platform :: "string option"
  er_architecture :: "string option"
  er_agent_version :: "string option"

record EnrollResponse =
  ep_node_id :: string
  ep_credential :: string
  ep_config_version :: int

definition name_matches :: "string option \<Rightarrow> string \<Rightarrow> bool" where
  "name_matches claimed name =
     (case claimed of Some c \<Rightarrow> trim c = [] \<or> trim c = name | None \<Rightarrow> True)"

definition enroll :: "api_externals \<Rightarrow> env \<Rightarrow> EnrollRequest \<Rightarrow> EnrollResponse handler" where
  "enroll Y E q =
     (let token = trim (er_bootstrap_token q) in
     hbind (hlift (if token = [] then Err (unprocessable ''INVALID_TOKEN'' ''bootstrap_token must not be empty'') else Ok ())) (\<lambda>_.
     hbind (hget (\<lambda>s. find_credential_by_hash (x_hash_token (y_ext Y) token) ''bootstrap'' (a_db s))) (\<lambda>found.
     hbind (hlift (ok_or found (unauthorized ''invalid bootstrap token''))) (\<lambda>cred.
     hbind (hlift (if cred_revoked_at cred \<noteq> None then Err (unauthorized ''bootstrap token already used or revoked'') else Ok ())) (\<lambda>_.
     hbind (fetch_node (cred_node_id cred) (internal_error ''bootstrap token references a missing node'')) (\<lambda>node.
     hbind (hlift (if name_matches (er_node_name q) (node_name node) then Ok ()
                   else Err (unprocessable ''NODE_NAME_MISMATCH'' ''node_name does not match bootstrap token''))) (\<lambda>_.
     hbind (hmod (\<lambda>s. s\<lparr>a_db := revoke_credential (cred_id cred) (e_ts E) (a_db s)\<rparr>)) (\<lambda>_.
     hbind (hmod (\<lambda>s. s\<lparr>a_db := set_node_agent_meta (node_id node) (er_hostname q) (er_platform q)
                                  (er_architecture q) (er_agent_version q) (e_ts E) (a_db s)\<rparr>)) (\<lambda>_.
     hbind (hdb internal_db (create_credential (e_uuid E 0) (node_id node) ''token''
              (x_hash_token (y_ext Y) (e_token E 0)) None (e_ts E))) (\<lambda>_.
     hbind (write_audit E 1 None ''credential.revoke'' ''credential'' (cred_id cred)
              (Some (y_meta Y [(''reason'', ''enroll'')]))) (\<lambda>_.
     hbind (write_audit E 2 None ''credential.create'' ''credential'' (e_uuid E 0)
              (Some (y_meta Y [(''type'', ''token''), (''via'', ''enroll'')]))) (\<lambda>_.
     hlift (Ok \<lparr>ep_node_id = node_id node, ep_credential = e_token E 0, ep_config_version = node_config_version node\<rparr>)))))))))))))"

section \<open>ACL rules\<close>

record AclRuleView =
  av_id :: string
  av_route_id :: "string option"
  av_action :: string
  av_source_cidr :: "string option"
  av_source_port :: "u16 option"
  av_target_host :: "string option"
  av_target_port :: "u16 option"

definition rule_response :: "AclRuleRow \<Rightarrow> AclRuleView" where
  "rule_response row =
     \<lparr>av_id = aclr_id row, av_route_id = aclr_route_id row, av_action = aclr_action row,
      av_source_cidr = aclr_source_cidr row, av_source_port = Option.bind (aclr_source_port row) u16_try_from,
      av_target_host = aclr_target_host row, av_target_port = Option.bind (aclr_target_port row) u16_try_from\<rparr>"

record AclRequest =
  aq_route_id :: "string option"
  aq_action :: string
  aq_source_cidr :: "string option"
  aq_source_port :: "u16 option"
  aq_target_host :: "string option"
  aq_target_port :: "u16 option"

definition api_list_acl_rules :: "User \<Rightarrow> AclRuleView list handler" where
  "api_list_acl_rules user =
     hbind (hlift (require_permission user RoutesRead)) (\<lambda>_.
     hget (\<lambda>s. map rule_response (list_acl_rules (a_db s))))"

definition reload_acl :: "api_externals \<Rightarrow> unit handler" where
  "reload_acl Y = hmod (\<lambda>s. s\<lparr>a_acl := acl_reload (x_parse_uuid (y_ext Y)) (Ok (list_acl_rules (a_db s))) (a_acl s)\<rparr>)"

definition api_create_acl_rule :: "api_externals \<Rightarrow> env \<Rightarrow> User \<Rightarrow> AclRequest \<Rightarrow> AclRuleView handler" where
  "api_create_acl_rule Y E user q =
     hbind (hlift (require_permission user RoutesWrite)) (\<lambda>_.
     let action = to_ascii_lowercase (trim (aq_action q)) in
     hbind (hlift (if action \<noteq> ''allow'' \<and> action \<noteq> ''deny''
                   then Err (unprocessable ''INVALID_ACTION'' (''action must be 'allow' or 'deny'' @ [chr 39])) else Ok ())) (\<lambda>_.
     hbind (hlift (case aq_source_cidr q of
                     Some c \<Rightarrow> if parse_cidr c = None then Err (unprocessable ''INVALID_CIDR'' ''source_cidr is not a valid CIDR'') else Ok ()
                   | None \<Rightarrow> Ok ())) (\<lambda>_.
     hbind (hget (\<lambda>s. case aq_route_id q of Some r \<Rightarrow> get_route r (a_db s) = None | None \<Rightarrow> False)) (\<lambda>missing.
     hbind (hlift (if missing then Err (not_found ''ROUTE_NOT_FOUND'' ''route_id does not exist'') else Ok ())) (\<lambda>_.
     hbind (hdb internal_db (create_acl_rule (e_uuid E 0) (aq_route_id q) action (aq_source_cidr q)
              (map_option uint (aq_source_port q)) (aq_target_host q) (map_option uint (aq_target_port q)) (e_ts E))) (\<lambda>_.
     hbind (write_audit E 1 (Some (u_id user)) ''acl.create'' ''acl_rule'' (e_uuid E 0)
              (Some (y_meta Y [(''action'', action), (''route_id'', case aq_route_id q of Some r \<Rightarrow> r | None \<Rightarrow> ''null'')]))) (\<lambda>_.
     hbind (reload_acl Y) (\<lambda>_.
     hbind (hget (\<lambda>s. get_acl_rule (e_uuid E 0) (a_db s))) (\<lambda>row.
     hbind (hlift (ok_or row (internal_error ''acl rule not found after create''))) (\<lambda>r.
     hlift (Ok (rule_response r))))))))))))"

definition api_delete_acl_rule :: "api_externals \<Rightarrow> env \<Rightarrow> User \<Rightarrow> string \<Rightarrow> unit handler" where
  "api_delete_acl_rule Y E user aid =
     hbind (hlift (require_permission user RoutesWrite)) (\<lambda>_.
     hbind (hget (\<lambda>s. get_acl_rule aid (a_db s))) (\<lambda>row.
     hbind (hlift (ok_or row (not_found ''ACL_RULE_NOT_FOUND'' ''acl rule does not exist''))) (\<lambda>_.
     hbind (hmod (\<lambda>s. s\<lparr>a_db := delete_acl_rule aid (a_db s)\<rparr>)) (\<lambda>_.
     hbind (write_audit E 0 (Some (u_id user)) ''acl.delete'' ''acl_rule'' aid None) (\<lambda>_.
     reload_acl Y)))))"

section \<open>Audit log\<close>

record AuditQuery =
  aud_user_id :: "string option"
  aud_action :: "string option"
  aud_limit :: int
  aud_offset :: int

definition api_list_audit_logs :: "User \<Rightarrow> AuditQuery \<Rightarrow> AuditRow list handler" where
  "api_list_audit_logs user q =
     hbind (hlift (require_permission user AuditRead)) (\<lambda>_.
     hget (\<lambda>s. list_audit_logs (aud_user_id q) (aud_action q) (max 1 (min 1000 (aud_limit q))) (max 0 (aud_offset q)) (a_db s)))"

section \<open>What the handlers leave behind\<close>

text \<open>A successful creation has added one pending node and the hash of its bootstrap token.\<close>

definition fresh_node :: "string \<Rightarrow> string \<Rightarrow> string option \<Rightarrow> string \<Rightarrow> NodeRow" where
  "fresh_node nid name descr ts =
     \<lparr>node_id = nid, node_name = name, node_description = descr, node_status = ''pending'',
      node_hostname = None, node_platform = None, node_architecture = None, node_agent_version = None,
      node_remote_addr = None, node_last_seen_at = None, node_connected_at = None, node_config_version = 0,
      node_applied_config_version = 0, node_config_status = ''pending'', node_created_at = ts, node_updated_at = ts\<rparr>"

definition fresh_credential :: "string \<Rightarrow> string \<Rightarrow> string \<Rightarrow> string \<Rightarrow> string option \<Rightarrow> string \<Rightarrow> CredentialRow" where
  "fresh_credential cid nid ty hash expires ts =
     \<lparr>cred_id = cid, cred_node_id = nid, cred_credential_type = ty, cred_secret_hash = hash, cred_expires_at = expires,
      cred_revoked_at = None, cred_last_used_at = None, cred_created_at = ts\<rparr>"

lemma fresh_node_sel [simp]:
  "node_id (fresh_node nid name descr ts) = nid" "node_name (fresh_node nid name descr ts) = name"
  "node_status (fresh_node nid name descr ts) = ''pending''" "node_config_version (fresh_node nid name descr ts) = 0"
  by (simp_all add: fresh_node_def)

lemma fresh_credential_sel [simp]:
  "cred_id (fresh_credential cid nid ty h ex ts) = cid" "cred_node_id (fresh_credential cid nid ty h ex ts) = nid"
  "cred_credential_type (fresh_credential cid nid ty h ex ts) = ty" "cred_secret_hash (fresh_credential cid nid ty h ex ts) = h"
  "cred_expires_at (fresh_credential cid nid ty h ex ts) = ex" "cred_revoked_at (fresh_credential cid nid ty h ex ts) = None"
  by (simp_all add: fresh_credential_def)

lemma create_node_Ok:
  "create_node nid name descr ts db = Ok db' \<longleftrightarrow>
     (\<forall>n\<in>set (t_nodes db). node_id n \<noteq> nid \<and> node_name n \<noteq> name)
     \<and> db' = db\<lparr>t_nodes := t_nodes db @ [fresh_node nid name descr ts]\<rparr>"
  by (auto simp: create_node_def fresh_node_def list_ex_iff)

lemma create_credential_Ok:
  "create_credential cid nid ty h ex ts db = Ok db' \<longleftrightarrow>
     (\<forall>c\<in>set (t_credentials db). cred_id c \<noteq> cid) \<and> (\<exists>n\<in>set (t_nodes db). node_id n = nid)
     \<and> db' = db\<lparr>t_credentials := t_credentials db @ [fresh_credential cid nid ty h ex ts]\<rparr>"
  by (auto simp: create_credential_def fresh_credential_def list_ex_iff)

lemma fetch_node_Ok: "fetch_node nid err s = (Ok row, s') \<longleftrightarrow> get_node nid (a_db s) = Some row \<and> s' = s"
  by (auto simp: fetch_node_def hbind_Ok split: option.splits)

lemma find_snoc: "\<forall>x\<in>set xs. \<not> P x \<Longrightarrow> P y \<Longrightarrow> find P (xs @ [y]) = Some y"
  by (induction xs) auto

lemma api_create_node_effect:
  assumes "api_create_node Y E u raw descr s = (Ok (v, tok), s')"
  shows "tok = e_token E 0 \<and> nv_id v = e_uuid E 0 \<and> nv_name v = trim raw
    \<and> t_nodes (a_db s') = t_nodes (a_db s) @ [fresh_node (e_uuid E 0) (trim raw) descr (e_ts E)]
    \<and> t_credentials (a_db s') = t_credentials (a_db s)
        @ [fresh_credential (e_uuid E 1) (e_uuid E 0) ''bootstrap'' (x_hash_token (y_ext Y) tok) None (e_ts E)]
    \<and> (\<forall>n\<in>set (t_nodes (a_db s)). node_id n \<noteq> e_uuid E 0)
    \<and> (\<forall>c\<in>set (t_credentials (a_db s)). cred_id c \<noteq> e_uuid E 1)
    \<and> t_audit_logs (a_db s') = t_audit_logs (a_db s)
        @ [audit_row E 2 (Some (u_id u)) ''node.create'' ''node'' (e_uuid E 0) (Some (y_meta Y [(''name'', trim raw)]))]"
  using assms unfolding api_create_node_def
  by (auto simp: hbind_Ok create_node_Ok create_credential_Ok fetch_node_Ok check_node_name_def Let_def publish_def
      node_response_def get_node_def find_snoc split: if_splits dest!: write_audit_Ok)

text \<open>Enrollment with an unused bootstrap token: the token is spent, the runtime token is stored.\<close>

lemma enroll_effect:
  assumes "trim (er_bootstrap_token q) = tok" "tok \<noteq> []"
    and "find_credential_by_hash (x_hash_token (y_ext Y) tok) ''bootstrap'' (a_db s) = Some c" "cred_revoked_at c = None"
    and "get_node (cred_node_id c) (a_db s) = Some n" "name_matches (er_node_name q) (node_name n)"
    and "\<forall>c\<in>set (t_credentials (a_db s)). cred_id c \<noteq> e_uuid E 0"
    and "\<forall>a\<in>set (t_audit_logs (a_db s)). audit_id a \<noteq> e_uuid E 1 \<and> audit_id a \<noteq> e_uuid E 2"
    and "e_uuid E 1 \<noteq> e_uuid E 2"
  shows "\<exists>s'. enroll Y E q s = (Ok \<lparr>ep_node_id = node_id n, ep_credential = e_token E 0, ep_config_version = node_config_version n\<rparr>, s')
     \<and> t_nodes (a_db s') = t_nodes (set_node_agent_meta (node_id n) (er_hostname q) (er_platform q) (er_architecture q)
         (er_agent_version q) (e_ts E) (a_db s))
     \<and> t_credentials (a_db s') = t_credentials (revoke_credential (cred_id c) (e_ts E) (a_db s))
         @ [fresh_credential (e_uuid E 0) (node_id n) ''token'' (x_hash_token (y_ext Y) (e_token E 0)) None (e_ts E)]"
proof -
  let ?db = "set_node_agent_meta (node_id n) (er_hostname q) (er_platform q) (er_architecture q) (er_agent_version q)
    (e_ts E) (revoke_credential (cred_id c) (e_ts E) (a_db s))"
  have n: "n \<in> set (t_nodes (a_db s))"
    using assms(5) by (auto simp: get_node_def find_Some_iff)
  have "node_id n \<in> node_id ` set (t_nodes ?db)" "e_uuid E 0 \<notin> cred_id ` set (t_credentials ?db)"
    using n assms(7) by (auto simp: set_node_agent_meta_def revoke_credential_def)
  then have "\<exists>db. create_credential (e_uuid E 0) (node_id n) ''token'' (x_hash_token (y_ext Y) (e_token E 0)) None (e_ts E) ?db = Ok db"
    unfolding create_credential_Ok image_iff by simp metis
  then obtain db where db: "create_credential (e_uuid E 0) (node_id n) ''token'' (x_hash_token (y_ext Y) (e_token E 0)) None (e_ts E) ?db = Ok db" ..
  then have "t_audit_logs db = t_audit_logs (a_db s)"
    "t_nodes db = t_nodes (set_node_agent_meta (node_id n) (er_hostname q) (er_platform q) (er_architecture q)
         (er_agent_version q) (e_ts E) (a_db s))"
    "t_credentials db = t_credentials (revoke_credential (cred_id c) (e_ts E) (a_db s))
         @ [fresh_credential (e_uuid E 0) (node_id n) ''token'' (x_hash_token (y_ext Y) (e_token E 0)) None (e_ts E)]"
    by (auto simp: create_credential_Ok revoke_credential_def set_node_agent_meta_def)
  with db show ?thesis
    using assms unfolding enroll_def fetch_node_def
    by (auto simp: Let_def hbind_db hbind_assoc write_audit_def insert_audit_log_def audit_row_def list_ex_iff)
qed

section \<open>Revoked secrets\<close>

text \<open>Every credential that stores this hash is revoked.\<close>

definition spent :: "string \<Rightarrow> Db \<Rightarrow> bool" where
  "spent h db \<longleftrightarrow> (\<forall>c\<in>set (t_credentials db). cred_secret_hash c = h \<longrightarrow> cred_revoked_at c \<noteq> None)"

text \<open>A write statement that stores no further credential with this hash.\<close>

definition secret_step :: "string \<Rightarrow> Db \<Rightarrow> Db \<Rightarrow> bool" where
  "secret_step h db db' \<longleftrightarrow> db_step db db'
     \<and> (\<forall>c'\<in>set (t_credentials db'). cred_secret_hash c' = h \<longrightarrow> (\<exists>c\<in>set (t_credentials db). cred_id c = cred_id c'))"

lemma db_step_credentials:
  assumes "db_step db db'"
  shows "(\<forall>c'\<in>set (t_credentials db'). \<exists>c\<in>set (t_credentials db). cred_id c = cred_id c'
            \<and> cred_secret_hash c = cred_secret_hash c' \<and> (cred_revoked_at c \<noteq> None \<longrightarrow> cred_revoked_at c' \<noteq> None))
       \<or> (\<exists>new. t_credentials db' = t_credentials db @ [new] \<and> (\<forall>c\<in>set (t_credentials db). cred_id c \<noteq> cred_id new))"
    (is "?old (t_credentials db') \<or> ?new")
proof -
  have same: "?old (t_credentials db)" by auto
  show ?thesis
    using assms
  proof cases
    case (10 cid nid ty hash ex ts)
    then show ?thesis by (auto simp: create_credential_Ok)
  next
    case (11 cid ts)
    then show ?thesis by (force simp: revoke_credential_def update_where_def)
  qed (use same in \<open>auto simp: set_node_online_def set_node_offline_def bump_config_version_def set_node_applied_config_def
      set_node_config_failed_def set_node_agent_meta_def create_node_def update_node_def delete_node_def create_user_def
      assign_user_role_def create_route_def update_route_def set_route_enabled_def delete_route_def insert_audit_log_def
      create_certificate_def delete_certificate_def create_acl_rule_def delete_acl_rule_def Let_def delete_where_def
      split: if_splits\<close>)
qed

lemma spent_step: "spent h db \<Longrightarrow> secret_step h db db' \<Longrightarrow> spent h db'"
  unfolding secret_step_def spent_def
  by (elim conjE, drule db_step_credentials, elim disjE exE conjE) (fastforce, fastforce)

lemma spent_steps: "(secret_step h)\<^sup>*\<^sup>* db db' \<Longrightarrow> spent h db \<Longrightarrow> spent h db'"
  by (induction rule: rtranclp_induct) (auto intro: spent_step)

lemma spent_not_authenticated:
  assumes "spent (x_hash_token X tok) db" "auth_credential p = Some tok"
  shows "\<exists>code msg. authenticate X (db_query db) p now = AuthDecision.Failure code msg"
proof (cases "authenticate X (db_query db) p now")
  case (Success a)
  from authenticate_credential [OF Success assms(2)] assms(1) show ?thesis
    by (auto simp: usable_def spent_def)
qed simp

lemma spent_not_enrolled:
  assumes "spent (x_hash_token (y_ext Y) (trim (er_bootstrap_token q))) (a_db s)"
  shows "\<exists>status code msg. enroll Y E q s = (Err (ApiError status code msg), s) \<and> status \<in> {401, 422}"
  using assms
  by (auto simp: enroll_def Let_def spent_def find_credential_by_hash_def find_Some_iff unauthorized_def unprocessable_def
      hbind_lift split: option.splits sum.splits)

lemma api_revoke_credential_effect:
  assumes "api_revoke_credential E u nid cid s = (Ok (), s')"
  shows "t_credentials (a_db s') = t_credentials (revoke_credential cid (e_ts E) (a_db s))"
  using assms unfolding api_revoke_credential_def by (auto simp: hbind_Ok split: if_splits dest!: write_audit_Ok)

lemma find_node_credential_last:
  assumes "t_credentials db = cs @ [c]" "\<forall>x\<in>set cs. cred_secret_hash x \<noteq> h"
    and "cred_secret_hash c = h" "cred_credential_type c = ''token''"
    and "filter (\<lambda>n. node_id n = cred_node_id c) (t_nodes db) = [n]"
  shows "find_node_credential h db = Some \<lparr>ncr_node_id = node_id n, ncr_node_status = node_status n,
     ncr_config_version = node_config_version n, ncr_revoked_at = cred_revoked_at c, ncr_expires_at = cred_expires_at c\<rparr>"
proof -
  have none: "concat (map (\<lambda>c. if cred_secret_hash c = h \<and> cred_credential_type c = ''token'' then F c else []) cs) = []"
    for F :: "CredentialRow \<Rightarrow> NodeCredentialRow list"
    using assms(2) by auto
  show ?thesis
    using assms by (simp add: find_node_credential_def none)
qed

lemma rule_in_force_list: "rule_in_force pu (list_acl_rules db) rid r \<longleftrightarrow> rule_in_force pu (t_acl_rules db) rid r"
  by (simp add: rule_in_force_def list_acl_rules_def list_ex_iff)

section \<open>Properties\<close>

text \<open>C5. Provisioning of a node.  When an administrator has created a node, the returned bootstrap token enrolls an agent
  (which may give the name of the node), whatever it reports about itself.  The runtime token it then holds
  authenticates it as exactly that node.  The bootstrap token works once: whatever is written to the database
  afterwards, except a further credential with the same hash, every enrollment with it is refused and changes
  nothing.  Assumed are a fresh identifier for each row and a token hash without collision in the database.\<close>

theorem node_provisioning:
  assumes created: "api_create_node Y E u raw descr s = (Ok (v, tok), s1)"
    and tokens: "trim tok = tok" "tok \<noteq> []" "e_token E2 0 \<noteq> []"
    and hashes: "\<forall>c\<in>set (t_credentials (a_db s)). cred_secret_hash c \<noteq> x_hash_token (y_ext Y) tok
        \<and> cred_secret_hash c \<noteq> x_hash_token (y_ext Y) (e_token E2 0)"
      "x_hash_token (y_ext Y) (e_token E2 0) \<noteq> x_hash_token (y_ext Y) tok"
    and ids: "\<forall>c\<in>set (t_credentials (a_db s1)). cred_id c \<noteq> e_uuid E2 0"
      "\<forall>a\<in>set (t_audit_logs (a_db s1)). audit_id a \<noteq> e_uuid E2 1 \<and> audit_id a \<noteq> e_uuid E2 2" "e_uuid E2 1 \<noteq> e_uuid E2 2"
      "x_parse_uuid (y_ext Y) (nv_id v) = Some nid"
    and request: "trim (er_bootstrap_token q) = tok" "name_matches (er_node_name q) (nv_name v)"
  shows "\<exists>resp s2. enroll Y E2 q s1 = (Ok resp, s2) \<and> ep_node_id resp = nv_id v
     \<and> authenticate (y_ext Y) (db_query (a_db s2)) \<lparr>auth_node_id = Some nid, auth_credential = Some (ep_credential resp)\<rparr> now
         = AuthDecision.Success \<lparr>as_node_id = nid, as_config_version = 0\<rparr>
     \<and> (\<forall>s3 E3 q3. (secret_step (x_hash_token (y_ext Y) tok))\<^sup>*\<^sup>* (a_db s2) (a_db s3) \<and> trim (er_bootstrap_token q3) = tok
         \<longrightarrow> (\<exists>status code msg. enroll Y E3 q3 s3 = (Err (ApiError status code msg), s3) \<and> status \<in> {401, 422}))"
proof -
  let ?H = "x_hash_token (y_ext Y)"
  define b where "b = fresh_credential (e_uuid E 1) (e_uuid E 0) ''bootstrap'' (?H tok) None (e_ts E)"
  define n where "n = fresh_node (e_uuid E 0) (trim raw) descr (e_ts E)"
  have eff: "nv_id v = e_uuid E 0" "nv_name v = trim raw" "t_nodes (a_db s1) = t_nodes (a_db s) @ [n]"
    "t_credentials (a_db s1) = t_credentials (a_db s) @ [b]" "\<forall>n\<in>set (t_nodes (a_db s)). node_id n \<noteq> e_uuid E 0"
    using api_create_node_effect [OF created] by (simp_all add: b_def n_def)
  have b: "find_credential_by_hash (?H tok) ''bootstrap'' (a_db s1) = Some b"
    using eff(4) hashes(1) by (auto simp: find_credential_by_hash_def b_def intro!: find_snoc)
  have n: "get_node (cred_node_id b) (a_db s1) = Some n"
    using eff(3,5) by (auto simp: get_node_def b_def n_def intro!: find_snoc)
  obtain resp s2 where en: "enroll Y E2 q s1 = (Ok resp, s2)" "ep_node_id resp = e_uuid E 0" "ep_credential resp = e_token E2 0"
    and nodes: "t_nodes (a_db s2) = t_nodes (set_node_agent_meta (node_id n) (er_hostname q) (er_platform q) (er_architecture q)
         (er_agent_version q) (e_ts E2) (a_db s1))"
    and creds: "t_credentials (a_db s2) = t_credentials (revoke_credential (cred_id b) (e_ts E2) (a_db s1))
         @ [fresh_credential (e_uuid E2 0) (node_id n) ''token'' (?H (e_token E2 0)) None (e_ts E2)]"
    using enroll_effect [OF request(1) tokens(2) b _ n _ ids(1-3)] request(2) eff(2) by (auto simp: b_def n_def)
  have "filter (\<lambda>m. node_id m = node_id n) (t_nodes (a_db s2)) = [n\<lparr>node_hostname := er_hostname q, node_platform := er_platform q,
      node_architecture := er_architecture q, node_agent_version := er_agent_version q, node_updated_at := e_ts E2\<rparr>]"
    using nodes eff(3,5) by (auto simp: set_node_agent_meta_def update_where_def n_def filter_empty_conv)
  then have "find_node_credential (?H (e_token E2 0)) (a_db s2) = Some \<lparr>ncr_node_id = e_uuid E 0, ncr_node_status = ''pending'',
      ncr_config_version = 0, ncr_revoked_at = None, ncr_expires_at = None\<rparr>"
    using hashes eff(4)
    by (subst find_node_credential_last [OF creds]) (auto simp: revoke_credential_def update_where_def b_def n_def)
  then have "authenticate (y_ext Y) (db_query (a_db s2)) \<lparr>auth_node_id = Some nid, auth_credential = Some (ep_credential resp)\<rparr> now
         = AuthDecision.Success \<lparr>as_node_id = nid, as_config_version = 0\<rparr>"
    using ids(4) eff(1) en(3) tokens(3)
    by (simp add: authenticate_def db_query_def evaluate_def max0_u64_def)
  moreover have "spent (?H tok) (a_db s2)"
    using creds eff(4) hashes by (auto simp: spent_def revoke_credential_def update_where_def b_def)
  ultimately show ?thesis
    using en eff(1) spent_not_enrolled spent_steps by metis
qed

text \<open>A change of the access rules takes effect at once: after a rule was created or deleted through the API, the
  stored rules are the old ones with that change, and the data plane decides about every connection as the
  rules that are now in the database say: it is admitted
  exactly if no rule is in force for its route, or some rule in force matches it and no rule in force that
  matches denies.\<close>

theorem acl_write_takes_effect:
  assumes "api_create_acl_rule Y E u q s = (Ok v, s') \<or> api_delete_acl_rule Y E u aid s = (Ok (), s')"
  shows "((\<exists>row. t_acl_rules (a_db s') = t_acl_rules (a_db s) @ [row] \<and> aclr_route_id row = aq_route_id q
            \<and> aclr_source_cidr row = aq_source_cidr q \<and> aclr_action row = to_ascii_lowercase (trim (aq_action q)))
         \<or> t_acl_rules (a_db s') = filter (\<lambda>a. aclr_id a \<noteq> aid) (t_acl_rules (a_db s)))
    \<and> (acl_allows (a_acl s') rid source th tp \<longleftrightarrow>
     (\<forall>r. \<not> rule_in_force (x_parse_uuid (y_ext Y)) (t_acl_rules (a_db s')) rid r)
     \<or> (\<exists>r. rule_in_force (x_parse_uuid (y_ext Y)) (t_acl_rules (a_db s')) rid r
           \<and> rule_matches r (sa_ip source) (sa_port source) th tp)
       \<and> \<not> (\<exists>r. rule_in_force (x_parse_uuid (y_ext Y)) (t_acl_rules (a_db s')) rid r
           \<and> rule_matches r (sa_ip source) (sa_port source) th tp \<and> acl_action r = Deny))"
proof -
  consider (create) "api_create_acl_rule Y E u q s = (Ok v, s')" | (delete) "api_delete_acl_rule Y E u aid s = (Ok (), s')"
    using assms by blast
  then have "a_acl s' = acl_reload (x_parse_uuid (y_ext Y)) (Ok (list_acl_rules (a_db s'))) (a_acl s)
     \<and> ((\<exists>row. t_acl_rules (a_db s') = t_acl_rules (a_db s) @ [row] \<and> aclr_route_id row = aq_route_id q
            \<and> aclr_source_cidr row = aq_source_cidr q \<and> aclr_action row = to_ascii_lowercase (trim (aq_action q)))
         \<or> t_acl_rules (a_db s') = filter (\<lambda>a. aclr_id a \<noteq> aid) (t_acl_rules (a_db s)))"
    by cases (auto simp: api_create_acl_rule_def api_delete_acl_rule_def reload_acl_def hbind_Ok Let_def create_acl_rule_def
      delete_acl_rule_def delete_where_def list_acl_rules_def split: if_splits dest!: write_audit_Ok)
  then show ?thesis
    by (simp add: acl_allows_reloaded rule_in_force_list)
qed

text \<open>Concrete requests.\<close>

definition enroll_env :: env where
  "enroll_env = \<lparr>e_now = 2000, e_ts = ''t2'', e_uuid = (\<lambda>n. replicate (Suc n) CHR ''v''), e_token = (\<lambda>_. ''run'')\<rparr>"

definition sample_enroll :: EnrollRequest where
  "sample_enroll = \<lparr>er_bootstrap_token = ''t'', er_node_name = None, er_hostname = Some ''h'', er_platform = None,
     er_architecture = None, er_agent_version = None\<rparr>"

lemma trim_samples: "trim ''t'' = ''t''" "trim ''edge2'' = ''edge2''" "trim ''Deny'' = ''Deny''"
  by (rule trim_graphic; simp add: graphic_def code_numeral_simps)+

theorem node_provisioning_witness:
  "\<exists>v s1 resp s2. api_create_node any_uuid_api sample_env (sample_account ''admin'') ''edge2'' None (sample_app sample_db) = (Ok (v, ''t''), s1)
     \<and> enroll any_uuid_api enroll_env sample_enroll s1 = (Ok resp, s2)
     \<and> authenticate (y_ext any_uuid_api) (db_query (a_db s2)) \<lparr>auth_node_id = Some 1, auth_credential = Some (ep_credential resp)\<rparr> 7
         = AuthDecision.Success \<lparr>as_node_id = 1, as_config_version = 0\<rparr>
     \<and> (\<exists>status code msg. enroll any_uuid_api enroll_env sample_enroll s2 = (Err (ApiError status code msg), s2))"
proof -
  note eval = sample_app_def sample_db_eval sample_env_def any_uuid_api_def sample_api_def sample_ext_def
  obtain v s1 where c: "api_create_node any_uuid_api sample_env (sample_account ''admin'') ''edge2'' None (sample_app sample_db) = (Ok (v, ''t''), s1)"
    by (auto simp: api_create_node_def require_permission_def check_node_name_def hbind_db node_name_exists_def fetch_node_def
        hbind_assoc get_node_def write_audit_def insert_audit_log_def audit_row_def publish_def trim_samples eval sample_account_def
        user_has_permission_def role_has_permission_def)
  note eff = api_create_node_effect [OF c]
  have tok: "x_hash_token (y_ext any_uuid_api) t = CHR ''#'' # t" "e_token enroll_env 0 = ''run''" for t
    by (simp_all add: any_uuid_api_def sample_api_def sample_ext_def enroll_env_def)
  have "\<exists>resp s2. enroll any_uuid_api enroll_env sample_enroll s1 = (Ok resp, s2) \<and> ep_node_id resp = nv_id v
     \<and> authenticate (y_ext any_uuid_api) (db_query (a_db s2)) \<lparr>auth_node_id = Some 1, auth_credential = Some (ep_credential resp)\<rparr> 7
         = AuthDecision.Success \<lparr>as_node_id = 1, as_config_version = 0\<rparr>
     \<and> (\<forall>s3 E3 q3. (secret_step (x_hash_token (y_ext any_uuid_api) ''t''))\<^sup>*\<^sup>* (a_db s2) (a_db s3) \<and> trim (er_bootstrap_token q3) = ''t''
         \<longrightarrow> (\<exists>status code msg. enroll any_uuid_api E3 q3 s3 = (Err (ApiError status code msg), s3) \<and> status \<in> {401, 422}))"
    by (rule node_provisioning [OF c])
      (use eff in \<open>simp_all add: trim_samples tok sample_enroll_def name_matches_def sample_app_def sample_db_eval sample_env_def
        enroll_env_def any_uuid_api_def sample_ext_def audit_row_def numeral_2_eq_2\<close>)
  moreover have "trim (er_bootstrap_token sample_enroll) = ''t''"
    by (simp add: sample_enroll_def trim_samples)
  ultimately show ?thesis using c by blast
qed

definition deny_all :: AclRequest where
  "deny_all = \<lparr>aq_route_id = None, aq_action = ''Deny'', aq_source_cidr = None, aq_source_port = None, aq_target_host = None,
     aq_target_port = None\<rparr>"

theorem acl_write_takes_effect_witness:
  "\<exists>v s'. api_create_acl_rule sample_api sample_env (sample_account ''admin'') deny_all (sample_app sample_db) = (Ok v, s')
     \<and> \<not> acl_allows (a_acl s') 1 \<lparr>sa_ip = V4 9, sa_port = 5\<rparr> ''db'' 80"
proof -
  let ?src = "\<lparr>sa_ip = V4 9, sa_port = 5\<rparr>"
  obtain v s' where c: "api_create_acl_rule sample_api sample_env (sample_account ''admin'') deny_all (sample_app sample_db) = (Ok v, s')"
    and rows: "t_acl_rules (a_db s') = [(sample_acl_row ''deny'' None)\<lparr>aclr_id := ''u'', aclr_tenant_id := ''default''\<rparr>]"
    by (auto simp: api_create_acl_rule_def require_permission_def deny_all_def hbind_db write_audit_def insert_audit_log_def
        get_acl_rule_def sample_app_def sample_db_eval sample_account_def user_has_permission_def role_has_permission_def
        create_acl_rule_def reload_acl_def audit_row_def trim_samples lowercase_eval sample_env_def sample_acl_row_def Let_def)
  define r where "r = \<lparr>acl_action = Deny, acl_source_cidr = None, acl_source_port = None, acl_target_host = None, acl_target_port = None\<rparr>"
  have "rule_in_force (x_parse_uuid (y_ext sample_api)) (t_acl_rules (a_db s')) 1 r" "rule_matches r (sa_ip ?src) (sa_port ?src) ''db'' 80"
    unfolding rows by (simp_all add: rule_in_force_def row_applies_def row_to_rule_def sample_acl_row_def r_def rule_matches_def)
  then show ?thesis
    using c acl_write_takes_effect [OF disjI1 [OF c], where rid = 1 and source = ?src and th = "''db''" and tp = 80] r_def
    by (metis AclRule.select_convs(1))
qed

end
