(* ===== verification/Backup.thy ===== *)
theory Backup
  imports NodeApi TlsSni "HOL-Library.Multiset"
begin

text \<open>
  Export, import, backup and restore: \<open>server/src/snapshot.rs\<close> and the endpoints of \<open>server/src/api/admin.rs\<close>.

  A snapshot holds the rows of six tables.  \<open>restore\<close> validates it and then walks through the tables in the
  order of their foreign keys; a row whose identifier exists is skipped, the others are inserted one
  statement at a time (there is no transaction, so a failing statement leaves the earlier ones in place).
  The YAML codec is a parameter; the texts of validation errors are constructors of \<open>RestoreError\<close>.
\<close>

section \<open>Snapshots\<close>

record SnapAclRule =
  sa_id :: string
  sa_route_id :: "string option"
  sa_action :: string
  sa_source_cidr :: "string option"
  sa_source_port :: "int option"
  sa_target_host :: "string option"
  sa_target_port :: "int option"
  sa_created_at :: string

text \<open>The other row types of the module have the columns of the tables, without the tenant.\<close>

record Snapshot =
  sn_nodes :: "NodeRow list"
  sn_routes :: "RouteDetailRow list"
  sn_domains :: "DomainRow list"
  sn_acl_rules :: "SnapAclRule list"
  sn_credentials :: "CredentialRow list"
  sn_certificates :: "CertificateTableRow list"

definition read_acl :: "AclRuleRow \<Rightarrow> SnapAclRule" where
  "read_acl a = \<lparr>sa_id = aclr_id a, sa_route_id = aclr_route_id a, sa_action = aclr_action a,
     sa_source_cidr = aclr_source_cidr a, sa_source_port = aclr_source_port a, sa_target_host = aclr_target_host a,
     sa_target_port = aclr_target_port a, sa_created_at = aclr_created_at a\<rparr>"

definition write_acl :: "SnapAclRule \<Rightarrow> AclRuleRow" where
  "write_acl a = \<lparr>aclr_id = sa_id a, aclr_tenant_id = ''default'', aclr_route_id = sa_route_id a, aclr_action = sa_action a,
     aclr_source_cidr = sa_source_cidr a, aclr_source_port = sa_source_port a, aclr_target_host = sa_target_host a,
     aclr_target_port = sa_target_port a, aclr_created_at = sa_created_at a\<rparr>"

definition snapshot_from_db :: "Db \<Rightarrow> bool \<Rightarrow> Snapshot" where
  "snapshot_from_db db include_secrets =
     \<lparr>sn_nodes = sort_key node_name (t_nodes db),
      sn_routes = sort_key route_name (t_routes db),
      sn_domains = sort_key dom_hostname (t_domains db),
      sn_acl_rules = map read_acl (sort_key aclr_created_at (t_acl_rules db)),
      sn_credentials = (if include_secrets then sort_key cred_created_at (t_credentials db) else []),
      sn_certificates = (if include_secrets then sort_key cert_name (t_certificates db) else [])\<rparr>"

section \<open>Validation\<close>

datatype RestoreError =
    EmptyNodeField
  | EmptyRouteField string
  | RouteUnknownNode string string
  | EmptyAclField
  | AclUnknownRoute string string
  | EmptyDomainField string
  | DomainUnknownRoute string string
  | DomainUnknownCertificate string string
  | EmptyCredentialField
  | CredentialUnknownNode string string
  | UnknownTable string
  | Statement DbError

abbreviation blank :: "string \<Rightarrow> bool" where
  "blank s \<equiv> trim s = []"

definition check_node :: "NodeRow \<Rightarrow> RestoreError option" where
  "check_node n = (if blank (node_id n) \<or> blank (node_name n) then Some EmptyNodeField else None)"

definition check_route :: "string list \<Rightarrow> RouteDetailRow \<Rightarrow> RestoreError option" where
  "check_route node_ids r =
     (if blank (route_id r) \<or> blank (route_name r) \<or> blank (route_target_host r) then Some (EmptyRouteField (route_id r))
      else if route_node_id r \<notin> set node_ids then Some (RouteUnknownNode (route_id r) (route_node_id r))
      else None)"

definition check_acl :: "string list \<Rightarrow> SnapAclRule \<Rightarrow> RestoreError option" where
  "check_acl route_ids a =
     (if blank (sa_id a) \<or> blank (sa_action a) then Some EmptyAclField
      else case sa_route_id a of
        Some rid \<Rightarrow> if rid \<notin> set route_ids then Some (AclUnknownRoute (sa_id a) rid) else None
      | None \<Rightarrow> None)"

definition check_domain :: "string list \<Rightarrow> string list \<Rightarrow> DomainRow \<Rightarrow> RestoreError option" where
  "check_domain route_ids cert_ids d =
     (if blank (dom_id d) \<or> blank (dom_hostname d) then Some (EmptyDomainField (dom_id d))
      else case (case dom_route_id d of Some rid \<Rightarrow> if rid \<notin> set route_ids then Some rid else None | None \<Rightarrow> None) of
        Some rid \<Rightarrow> Some (DomainUnknownRoute (dom_id d) rid)
      | None \<Rightarrow>
          (case dom_certificate_id d of
             Some cid \<Rightarrow> if cid \<notin> set cert_ids then Some (DomainUnknownCertificate (dom_id d) cid) else None
           | None \<Rightarrow> None))"

definition check_credential :: "string list \<Rightarrow> CredentialRow \<Rightarrow> RestoreError option" where
  "check_credential node_ids c =
     (if blank (cred_id c) \<or> blank (cred_node_id c) \<or> blank (cred_secret_hash c) then Some EmptyCredentialField
      else if cred_node_id c \<notin> set node_ids then Some (CredentialUnknownNode (cred_id c) (cred_node_id c))
      else None)"

fun check_each :: "('r \<Rightarrow> RestoreError option) \<Rightarrow> 'r list \<Rightarrow> (RestoreError, unit) result" where
  "check_each check [] = Ok ()"
| "check_each check (r # rs) = (case check r of Some e \<Rightarrow> Err e | None \<Rightarrow> check_each check rs)"

definition validate :: "Snapshot \<Rightarrow> (RestoreError, unit) result" where
  "validate s =
     (let node_ids = map node_id (sn_nodes s); route_ids = map route_id (sn_routes s) in
      and_then (check_each check_node (sn_nodes s)) (\<lambda>_.
      and_then (check_each (check_route node_ids) (sn_routes s)) (\<lambda>_.
      and_then (check_each (check_acl route_ids) (sn_acl_rules s)) (\<lambda>_.
      and_then (check_each (check_domain route_ids (map cert_id (sn_certificates s))) (sn_domains s)) (\<lambda>_.
      check_each (check_credential node_ids) (sn_credentials s))))))"

section \<open>Restore\<close>

record TableCounts =
  tc_inserted :: nat
  tc_skipped :: nat

record RestoreReport =
  rp_nodes :: TableCounts
  rp_routes :: TableCounts
  rp_domains :: TableCounts
  rp_acl_rules :: TableCounts
  rp_credentials :: TableCounts
  rp_certificates :: TableCounts

definition no_counts :: TableCounts where "no_counts = \<lparr>tc_inserted = 0, tc_skipped = 0\<rparr>"

definition insert_node :: "NodeRow \<Rightarrow> Db \<Rightarrow> (DbError, Db) result" where
  "insert_node n db =
     (if list_ex (\<lambda>m. node_id m = node_id n \<or> node_name m = node_name n) (t_nodes db) then Err UniqueViolation
      else Ok (db\<lparr>t_nodes := t_nodes db @ [n]\<rparr>))"

definition insert_route :: "RouteDetailRow \<Rightarrow> Db \<Rightarrow> (DbError, Db) result" where
  "insert_route r db =
     (if list_ex (\<lambda>q. route_id q = route_id r \<or> route_name q = route_name r) (t_routes db) then Err UniqueViolation
      else if \<not> list_ex (\<lambda>n. node_id n = route_node_id r) (t_nodes db) then Err ForeignKeyViolation
      else Ok (db\<lparr>t_routes := t_routes db @ [r]\<rparr>))"

definition insert_domain :: "DomainRow \<Rightarrow> Db \<Rightarrow> (DbError, Db) result" where
  "insert_domain d db =
     (if list_ex (\<lambda>c. dom_id c = dom_id d \<or> dom_hostname c = dom_hostname d) (t_domains db) then Err UniqueViolation
      else if (case dom_route_id d of Some r \<Rightarrow> \<not> list_ex (\<lambda>x. route_id x = r) (t_routes db) | None \<Rightarrow> False)
      then Err ForeignKeyViolation
      else Ok (db\<lparr>t_domains := t_domains db @ [d]\<rparr>))"

definition insert_acl_rule :: "SnapAclRule \<Rightarrow> Db \<Rightarrow> (DbError, Db) result" where
  "insert_acl_rule a db =
     (if list_ex (\<lambda>b. aclr_id b = sa_id a) (t_acl_rules db) then Err UniqueViolation
      else if (case sa_route_id a of Some r \<Rightarrow> \<not> list_ex (\<lambda>x. route_id x = r) (t_routes db) | None \<Rightarrow> False)
      then Err ForeignKeyViolation
      else Ok (db\<lparr>t_acl_rules := t_acl_rules db @ [write_acl a]\<rparr>))"

definition insert_credential :: "CredentialRow \<Rightarrow> Db \<Rightarrow> (DbError, Db) result" where
  "insert_credential c db =
     (if list_ex (\<lambda>d. cred_id d = cred_id c) (t_credentials db) then Err UniqueViolation
      else if \<not> list_ex (\<lambda>n. node_id n = cred_node_id c) (t_nodes db) then Err ForeignKeyViolation
      else Ok (db\<lparr>t_credentials := t_credentials db @ [c]\<rparr>))"

definition insert_certificate :: "CertificateTableRow \<Rightarrow> Db \<Rightarrow> (DbError, Db) result" where
  "insert_certificate c db =
     (if list_ex (\<lambda>d. cert_id d = cert_id c) (t_certificates db) then Err UniqueViolation
      else Ok (db\<lparr>t_certificates := t_certificates db @ [c]\<rparr>))"

definition table_ids :: "string \<Rightarrow> Db \<Rightarrow> string list option" where
  "table_ids table db =
     (if table = ''nodes'' then Some (map node_id (t_nodes db))
      else if table = ''routes'' then Some (map route_id (t_routes db))
      else if table = ''domains'' then Some (map dom_id (t_domains db))
      else if table = ''acl_rules'' then Some (map aclr_id (t_acl_rules db))
      else if table = ''credentials'' then Some (map cred_id (t_credentials db))
      else if table = ''certificates'' then Some (map cert_id (t_certificates db))
      else None)"

definition id_exists :: "string \<Rightarrow> string \<Rightarrow> Db \<Rightarrow> (RestoreError, bool) result" where
  "id_exists table i db =
     (case table_ids table db of
        None \<Rightarrow> Err (UnknownTable table)
      | Some keys \<Rightarrow> Ok (length (filter (\<lambda>j. j = i) keys) > 0))"

text \<open>One of the six loops: skip, count (preview) or insert each row.\<close>

fun restore_rows :: "string \<Rightarrow> ('r \<Rightarrow> string) \<Rightarrow> ('r \<Rightarrow> Db \<Rightarrow> (DbError, Db) result) \<Rightarrow> bool \<Rightarrow> 'r list \<Rightarrow> TableCounts \<Rightarrow> Db
    \<Rightarrow> (RestoreError, TableCounts) result \<times> Db" where
  "restore_rows table key ins do_apply [] n db = (Ok n, db)"
| "restore_rows table key ins do_apply (r # rs) n db =
     (case id_exists table (key r) db of
        Inl e \<Rightarrow> (Err e, db)
      | Inr True \<Rightarrow> restore_rows table key ins do_apply rs (n\<lparr>tc_skipped := tc_skipped n + 1\<rparr>) db
      | Inr False \<Rightarrow>
          if do_apply
          then (case ins r db of
                  Inl e \<Rightarrow> (Err (Statement e), db)
                | Inr db' \<Rightarrow> restore_rows table key ins do_apply rs (n\<lparr>tc_inserted := tc_inserted n + 1\<rparr>) db')
          else restore_rows table key ins do_apply rs (n\<lparr>tc_inserted := tc_inserted n + 1\<rparr>) db)"

definition rbind :: "(Db \<Rightarrow> (RestoreError, 'a) result \<times> Db) \<Rightarrow> ('a \<Rightarrow> Db \<Rightarrow> (RestoreError, 'b) result \<times> Db)
    \<Rightarrow> Db \<Rightarrow> (RestoreError, 'b) result \<times> Db" where
  "rbind m f = (\<lambda>db. case m db of (Inl e, db1) \<Rightarrow> (Err e, db1) | (Inr x, db1) \<Rightarrow> f x db1)"

definition restore :: "Snapshot \<Rightarrow> bool \<Rightarrow> Db \<Rightarrow> (RestoreError, RestoreReport) result \<times> Db" where
  "restore s do_apply =
     rbind (\<lambda>db. (validate s, db)) (\<lambda>_.
     rbind (restore_rows ''nodes'' node_id insert_node do_apply (sn_nodes s) no_counts) (\<lambda>nodes.
     rbind (restore_rows ''certificates'' cert_id insert_certificate do_apply (sn_certificates s) no_counts) (\<lambda>certificates.
     rbind (restore_rows ''routes'' route_id insert_route do_apply (sn_routes s) no_counts) (\<lambda>routes.
     rbind (restore_rows ''acl_rules'' sa_id insert_acl_rule do_apply (sn_acl_rules s) no_counts) (\<lambda>acl.
     rbind (restore_rows ''domains'' dom_id insert_domain do_apply (sn_domains s) no_counts) (\<lambda>domains.
     rbind (restore_rows ''credentials'' cred_id insert_credential do_apply (sn_credentials s) no_counts) (\<lambda>credentials db.
       (Ok \<lparr>rp_nodes = nodes, rp_routes = routes, rp_domains = domains, rp_acl_rules = acl,
            rp_credentials = credentials, rp_certificates = certificates\<rparr>, db))))))))"

section \<open>Endpoints\<close>

record yaml =
  y_to_yaml :: "Snapshot \<Rightarrow> string option"
  y_from_yaml :: "string \<Rightarrow> Snapshot option"

function utf8_valid :: "nat list \<Rightarrow> bool" where
  "utf8_valid [] = True"
| "utf8_valid (b # bs) = (case utf8_first b bs of (ok, n) \<Rightarrow> ok \<and> utf8_valid (drop n bs))"
  by pat_completeness auto
termination by (relation "measure length") auto

definition from_utf8 :: "bytes \<Rightarrow> string option" where
  "from_utf8 bs = (if utf8_valid (map unat bs) then Some (map (\<lambda>b. chr (unat b)) bs) else None)"

definition parse_snapshot :: "yaml \<Rightarrow> bytes \<Rightarrow> (ApiError, Snapshot) result" where
  "parse_snapshot G body =
     (case from_utf8 body of
        None \<Rightarrow> Err (unprocessable ''INVALID_BODY'' ''request body must be UTF-8 YAML'')
      | Some text \<Rightarrow> ok_or (y_from_yaml G text) (unprocessable ''INVALID_SNAPSHOT'' ''parse snapshot YAML''))"

record Download =
  dl_body :: string
  dl_content_type :: string
  dl_content_disposition :: string

definition yaml_response :: "yaml \<Rightarrow> Snapshot \<Rightarrow> string \<Rightarrow> (ApiError, Download) result" where
  "yaml_response G s filename =
     and_then (ok_or (y_to_yaml G s) (internal_error ''serialize snapshot to YAML'')) (\<lambda>text.
     Ok \<lparr>dl_body = text, dl_content_type = ''application/yaml'',
         dl_content_disposition = ''attachment; filename='' @ [chr 34] @ filename @ [chr 34]\<rparr>)"

definition api_backup :: "yaml \<Rightarrow> User \<Rightarrow> Download handler" where
  "api_backup G user =
     hbind (hlift (require_permission user SettingsWrite)) (\<lambda>_.
     hbind (hget (\<lambda>s. snapshot_from_db (a_db s) True)) (\<lambda>snap.
     hlift (yaml_response G snap ''tunnel-backup.yaml'')))"

definition api_export :: "yaml \<Rightarrow> User \<Rightarrow> Download handler" where
  "api_export G user =
     hbind (hlift (require_permission user SettingsWrite)) (\<lambda>_.
     hbind (hget (\<lambda>s. snapshot_from_db (a_db s) False)) (\<lambda>snap.
     hlift (yaml_response G snap ''tunnel-config.yaml'')))"

text \<open>The call of \<open>snapshot::restore\<close>; what it wrote before an error stays in the database.\<close>

definition hrestore :: "Snapshot \<Rightarrow> bool \<Rightarrow> RestoreReport handler" where
  "hrestore snap do_apply = (\<lambda>s. case restore snap do_apply (a_db s) of
     (r, db) \<Rightarrow> (map_err (\<lambda>_. internal_error ''restore'') r, s\<lparr>a_db := db\<rparr>))"

definition audit_applied :: "env \<Rightarrow> User \<Rightarrow> bool \<Rightarrow> string \<Rightarrow> unit handler" where
  "audit_applied E user do_apply action =
     (if do_apply then write_audit E 0 (Some (u_id user)) action ''snapshot'' action None else hlift (Ok ()))"

definition api_restore :: "yaml \<Rightarrow> env \<Rightarrow> User \<Rightarrow> bool \<Rightarrow> bytes \<Rightarrow> RestoreReport handler" where
  "api_restore G E user do_apply body =
     hbind (hlift (require_permission user SettingsWrite)) (\<lambda>_.
     hbind (hlift (parse_snapshot G body)) (\<lambda>snap.
     hbind (hrestore snap do_apply) (\<lambda>report.
     hbind (audit_applied E user do_apply ''restore'') (\<lambda>_.
     hlift (Ok report)))))"

definition api_import :: "yaml \<Rightarrow> env \<Rightarrow> User \<Rightarrow> bool \<Rightarrow> bytes \<Rightarrow> RestoreReport handler" where
  "api_import G E user do_apply body =
     hbind (hlift (require_permission user SettingsWrite)) (\<lambda>_.
     hbind (hlift (parse_snapshot G body)) (\<lambda>snap.
     hbind (hlift (if sn_credentials snap \<noteq> [] \<or> sn_certificates snap \<noteq> []
                   then Err (unprocessable ''CONTAINS_SECRETS''
                          ''import rejects snapshots with credentials/certificates; use restore'')
                   else Ok ())) (\<lambda>_.
     hbind (hrestore snap do_apply) (\<lambda>report.
     hbind (audit_applied E user do_apply ''import'') (\<lambda>_.
     hlift (Ok report))))))"

section \<open>The restore loop over one table\<close>

text \<open>\<open>preserves P m\<close>: whatever its result, \<open>m\<close> leads from a database with property \<open>P\<close> to one with it.\<close>

definition preserves :: "(Db \<Rightarrow> bool) \<Rightarrow> (Db \<Rightarrow> 'a \<times> Db) \<Rightarrow> bool" where
  "preserves P m \<longleftrightarrow> (\<forall>db. P db \<longrightarrow> P (snd (m db)))"

lemma preserves_rbind: "preserves P m \<Longrightarrow> (\<And>x. preserves P (f x)) \<Longrightarrow> preserves P (rbind m f)"
  unfolding preserves_def rbind_def by (auto split: prod.split sum.split)

text \<open>What a table promises to the loop: its identifiers are looked up by its name, a successful insertion appends the
  row and nothing else, and an insertion into a consistent database succeeds exactly if the result is consistent.\<close>

locale restore_table =
  fixes table :: string and key :: "'r \<Rightarrow> string" and ins :: "'r \<Rightarrow> Db \<Rightarrow> (DbError, Db) result"
    and rows :: "Db \<Rightarrow> 'r list" and add :: "'r list \<Rightarrow> Db \<Rightarrow> Db"
  assumes ids: "table_ids table db = Some (map key (rows db))"
    and ins_adds: "ins r db = Ok db' \<Longrightarrow> db' = add [r] db"
    and ins_iff: "db_ok db \<Longrightarrow> ins r db = Ok (add [r] db) \<longleftrightarrow> db_ok (add [r] db)"
    and rows_add: "rows (add rs db) = rows db @ rs"
    and add_add: "add rs (add qs db) = add (qs @ rs) db" and add_nil: "add [] db = db"
    and ok_prefix: "db_ok db \<Longrightarrow> db_ok (add (qs @ rs) db) \<Longrightarrow> db_ok (add qs db)"
    and key_distinct: "db_ok db \<Longrightarrow> distinct (map key (rows db))"
begin

abbreviation loop :: "bool \<Rightarrow> 'r list \<Rightarrow> TableCounts \<Rightarrow> Db \<Rightarrow> (RestoreError, TableCounts) result \<times> Db" where
  "loop \<equiv> restore_rows table key ins"

lemma exists_iff: "id_exists table i db = Ok (i \<in> key ` set (rows db))"
  by (auto simp: id_exists_def ids filter_empty_conv)

lemma ok_insert: "db_ok db \<Longrightarrow> ins r db = Ok db' \<Longrightarrow> db_ok db'"
  using ins_iff ins_adds by metis

definition absent :: "Db \<Rightarrow> 'r list \<Rightarrow> 'r list" where
  "absent db rs = filter (\<lambda>r. key r \<notin> key ` set (rows db)) rs"

text \<open>Preview: nothing is written, and the rows whose identifier is absent are counted.\<close>

lemma loop_preview:
  "loop False rs n db = (Ok \<lparr>tc_inserted = tc_inserted n + length (absent db rs),
     tc_skipped = tc_skipped n + length (filter (\<lambda>r. key r \<in> key ` set (rows db)) rs)\<rparr>, db)"
  by (induction rs arbitrary: n) (simp_all add: exists_iff absent_def)

text \<open>Whatever the outcome, the table has only grown, by rows of the snapshot whose identifiers were absent.\<close>

lemma loop_grows:
  "loop do_apply rs n db = (res, db') \<Longrightarrow>
     \<exists>new. db' = add new db \<and> set new \<subseteq> set rs \<and> key ` set new \<inter> key ` set (rows db) = {}
        \<and> (\<not> do_apply \<longrightarrow> new = []) \<and> (db_ok db \<longrightarrow> db_ok db')"
proof (induction rs arbitrary: n db)
  case Nil
  then show ?case by (auto simp: add_nil intro!: exI [of _ "[]"])
next
  case (Cons r rs)
  consider (skip) n' where "loop do_apply rs n' db = (res, db')"
    | (stop) "db' = db"
    | (ins) n' db1 where "do_apply" "key r \<notin> key ` set (rows db)" "ins r db = Ok db1" "loop do_apply rs n' db1 = (res, db')"
    using Cons.prems by (auto simp: exists_iff split: if_splits sum.splits bool.splits)
  then show ?case
  proof cases
    case skip
    from Cons.IH [OF this] obtain new where "db' = add new db" "set new \<subseteq> set rs" "key ` set new \<inter> key ` set (rows db) = {}"
        "\<not> do_apply \<longrightarrow> new = []" "db_ok db \<longrightarrow> db_ok db'" by blast
    then show ?thesis by (intro exI [of _ new]) auto
  next
    case stop
    then show ?thesis by (auto simp: add_nil intro!: exI [of _ "[]"])
  next
    case ins
    then have db1: "db1 = add [r] db" "db_ok db \<Longrightarrow> db_ok db1" using ins_adds ok_insert by auto
    from Cons.IH [OF ins(4)] obtain new where new: "db' = add new db1" "set new \<subseteq> set rs"
        "key ` set new \<inter> key ` set (rows db1) = {}" "db_ok db1 \<longrightarrow> db_ok db'" by blast
    show ?thesis
      using new db1 ins(1,2) by (intro exI [of _ "r # new"]) (auto simp: add_add rows_add)
  qed
qed

lemma loop_preserves:
  assumes "\<And>db new. P db \<Longrightarrow> set new \<subseteq> set rs \<Longrightarrow> key ` set new \<inter> key ` set (rows db) = {} \<Longrightarrow> (\<not> do_apply \<longrightarrow> new = [])
      \<Longrightarrow> (db_ok db \<longrightarrow> db_ok (add new db)) \<Longrightarrow> P (add new db)"
  shows "preserves P (loop do_apply rs n)"
  unfolding preserves_def using loop_grows [OF surjective_pairing] assms by metis

text \<open>If all absent rows fit into the database, they are inserted.\<close>

lemma loop_complete:
  assumes "db_ok db" "db_ok (add rs db)"
  shows "loop True rs n db = (Ok (n\<lparr>tc_inserted := tc_inserted n + length rs\<rparr>), add rs db)"
  using assms
proof (induction rs arbitrary: n db)
  case (Cons r rs)
  have ok: "db_ok (add [r] db)" using ok_prefix [of db "[r]" rs] Cons.prems by simp
  have "key r \<notin> key ` set (rows db)" using key_distinct [OF ok] by (auto simp: rows_add)
  moreover have "ins r db = Ok (add [r] db)" using ins_iff Cons.prems(1) ok by blast
  ultimately show ?case
    using Cons.IH [OF ok] Cons.prems(2) by (simp add: exists_iff add_add)
qed (simp add: add_nil)

text \<open>A preview predicts the report of an application that succeeds, for distinct identifiers.\<close>

lemma loop_report:
  "loop True rs n db = (Ok n', db') \<Longrightarrow> distinct (map key rs) \<Longrightarrow> fst (loop False rs n db) = Ok n'"
proof (induction rs arbitrary: n db)
  case (Cons r rs)
  show ?case
  proof (cases "key r \<in> key ` set (rows db)")
    case False
    then obtain db1 where db1: "ins r db = Ok db1" "loop True rs (n\<lparr>tc_inserted := tc_inserted n + 1\<rparr>) db1 = (Ok n', db')"
      using Cons.prems(1) by (auto simp: exists_iff split: sum.splits)
    have "absent db1 rs = absent db rs"
      using Cons.prems(2) ins_adds [OF db1(1)] unfolding absent_def by (intro filter_cong) (auto simp: rows_add image_iff)
    moreover have "filter (\<lambda>r. key r \<in> key ` set (rows db1)) rs = filter (\<lambda>r. key r \<in> key ` set (rows db)) rs"
      using Cons.prems(2) ins_adds [OF db1(1)] by (intro filter_cong) (auto simp: rows_add image_iff)
    ultimately show ?thesis
      using False Cons.IH [OF db1(2)] Cons.prems(2) by (simp add: loop_preview exists_iff)
  qed (use Cons in \<open>simp add: exists_iff\<close>)
qed simp

end

section \<open>The six tables\<close>

definition add_nodes :: "NodeRow list \<Rightarrow> Db \<Rightarrow> Db" where
  "add_nodes rs db = db\<lparr>t_nodes := t_nodes db @ rs\<rparr>"

definition add_certificates :: "CertificateTableRow list \<Rightarrow> Db \<Rightarrow> Db" where
  "add_certificates rs db = db\<lparr>t_certificates := t_certificates db @ rs\<rparr>"

definition add_routes :: "RouteDetailRow list \<Rightarrow> Db \<Rightarrow> Db" where
  "add_routes rs db = db\<lparr>t_routes := t_routes db @ rs\<rparr>"

definition add_acl_rules :: "SnapAclRule list \<Rightarrow> Db \<Rightarrow> Db" where
  "add_acl_rules rs db = db\<lparr>t_acl_rules := t_acl_rules db @ map write_acl rs\<rparr>"

definition add_domains :: "DomainRow list \<Rightarrow> Db \<Rightarrow> Db" where
  "add_domains rs db = db\<lparr>t_domains := t_domains db @ rs\<rparr>"

definition add_credentials :: "CredentialRow list \<Rightarrow> Db \<Rightarrow> Db" where
  "add_credentials rs db = db\<lparr>t_credentials := t_credentials db @ rs\<rparr>"

lemmas add_defs = add_nodes_def add_certificates_def add_routes_def add_acl_rules_def add_domains_def add_credentials_def

lemma read_write_acl [simp]: "read_acl (write_acl a) = a" "aclr_id (write_acl a) = sa_id a" "aclr_route_id (write_acl a) = sa_route_id a"
  by (simp_all add: read_acl_def write_acl_def)

lemma read_acl_sel [simp]: "sa_id (read_acl a) = aclr_id a" "sa_route_id (read_acl a) = aclr_route_id a" "sa_id \<circ> read_acl = aclr_id"
  by (simp_all add: read_acl_def fun_eq_iff)

text \<open>When an insertion succeeds, and when a table may be extended.\<close>

lemma insert_Ok:
  "insert_node n db = Ok db' \<longleftrightarrow>
     node_id n \<notin> node_id ` set (t_nodes db) \<and> node_name n \<notin> node_name ` set (t_nodes db) \<and> db' = add_nodes [n] db"
  "insert_certificate c db = Ok db' \<longleftrightarrow> cert_id c \<notin> cert_id ` set (t_certificates db) \<and> db' = add_certificates [c] db"
  "insert_route r db = Ok db' \<longleftrightarrow> route_id r \<notin> route_id ` set (t_routes db) \<and> route_name r \<notin> route_name ` set (t_routes db)
     \<and> route_node_id r \<in> node_id ` set (t_nodes db) \<and> db' = add_routes [r] db"
  "insert_acl_rule a db = Ok db' \<longleftrightarrow> sa_id a \<notin> aclr_id ` set (t_acl_rules db)
     \<and> (\<forall>i. sa_route_id a = Some i \<longrightarrow> i \<in> route_id ` set (t_routes db)) \<and> db' = add_acl_rules [a] db"
  "insert_domain d db = Ok db' \<longleftrightarrow> dom_id d \<notin> dom_id ` set (t_domains db) \<and> dom_hostname d \<notin> dom_hostname ` set (t_domains db)
     \<and> (\<forall>i. dom_route_id d = Some i \<longrightarrow> i \<in> route_id ` set (t_routes db)) \<and> db' = add_domains [d] db"
  "insert_credential k db = Ok db' \<longleftrightarrow> cred_id k \<notin> cred_id ` set (t_credentials db)
     \<and> cred_node_id k \<in> node_id ` set (t_nodes db) \<and> db' = add_credentials [k] db"
  by (auto simp: insert_node_def insert_certificate_def insert_route_def insert_acl_rule_def insert_domain_def insert_credential_def
      list_ex_disj list_ex_key add_defs split: option.splits)

lemma ok_add:
  assumes "db_ok db"
  shows "db_ok (add_nodes ns db) \<longleftrightarrow> distinct (map node_id (t_nodes db @ ns)) \<and> distinct (map node_name (t_nodes db @ ns))"
    and "db_ok (add_certificates cs db) \<longleftrightarrow> distinct (map cert_id (t_certificates db @ cs))"
    and "db_ok (add_routes rs db) \<longleftrightarrow> distinct (map route_id (t_routes db @ rs)) \<and> distinct (map route_name (t_routes db @ rs))
      \<and> route_node_id ` set rs \<subseteq> node_id ` set (t_nodes db)"
    and "db_ok (add_acl_rules as db) \<longleftrightarrow> distinct (map aclr_id (t_acl_rules db) @ map sa_id as)
      \<and> (\<forall>a\<in>set as. \<forall>i. sa_route_id a = Some i \<longrightarrow> i \<in> route_id ` set (t_routes db))"
    and "db_ok (add_domains ds db) \<longleftrightarrow> distinct (map dom_id (t_domains db @ ds)) \<and> distinct (map dom_hostname (t_domains db @ ds))
      \<and> (\<forall>d\<in>set ds. \<forall>i. dom_route_id d = Some i \<longrightarrow> i \<in> route_id ` set (t_routes db))"
    and "db_ok (add_credentials ks db) \<longleftrightarrow> distinct (map cred_id (t_credentials db @ ks))
      \<and> cred_node_id ` set ks \<subseteq> node_id ` set (t_nodes db)"
proof -
  note u = users_ok_def and n = nodes_ok_def and r = routes_ok_def and d = domains_ok_def
  show "db_ok (add_nodes ns db) \<longleftrightarrow> distinct (map node_id (t_nodes db @ ns)) \<and> distinct (map node_name (t_nodes db @ ns))"
    using assms by (simp add: db_ok_def u n r d add_nodes_def image_Un)
  show "db_ok (add_certificates cs db) \<longleftrightarrow> distinct (map cert_id (t_certificates db @ cs))"
    using assms by (simp add: db_ok_def u n r d add_certificates_def)
  show "db_ok (add_routes rs db) \<longleftrightarrow> distinct (map route_id (t_routes db @ rs)) \<and> distinct (map route_name (t_routes db @ rs))
      \<and> route_node_id ` set rs \<subseteq> node_id ` set (t_nodes db)"
    using assms by (simp add: db_ok_def u n r d add_routes_def image_Un ball_Un image_subset_iff)
  show "db_ok (add_acl_rules as db) \<longleftrightarrow> distinct (map aclr_id (t_acl_rules db) @ map sa_id as)
      \<and> (\<forall>a\<in>set as. \<forall>i. sa_route_id a = Some i \<longrightarrow> i \<in> route_id ` set (t_routes db))"
    using assms by (simp add: db_ok_def u n r d add_acl_rules_def ball_Un comp_def image_image)
  show "db_ok (add_domains ds db) \<longleftrightarrow> distinct (map dom_id (t_domains db @ ds)) \<and> distinct (map dom_hostname (t_domains db @ ds))
      \<and> (\<forall>d\<in>set ds. \<forall>i. dom_route_id d = Some i \<longrightarrow> i \<in> route_id ` set (t_routes db))"
    using assms by (simp add: db_ok_def u n r d add_domains_def ball_Un)
  show "db_ok (add_credentials ks db) \<longleftrightarrow> distinct (map cred_id (t_credentials db @ ks))
      \<and> cred_node_id ` set ks \<subseteq> node_id ` set (t_nodes db)"
    using assms by (simp add: db_ok_def u n r d add_credentials_def ball_Un image_subset_iff)
qed

lemma db_ok_keys:
  assumes "db_ok db"
  shows "distinct (map node_id (t_nodes db))" "distinct (map node_name (t_nodes db))" "distinct (map cert_id (t_certificates db))"
    "distinct (map route_id (t_routes db))" "distinct (map route_name (t_routes db))" "distinct (map aclr_id (t_acl_rules db))"
    "distinct (map dom_id (t_domains db))" "distinct (map dom_hostname (t_domains db))" "distinct (map cred_id (t_credentials db))"
  using assms by (simp_all add: db_ok_defs)

lemma add_simps [simp]:
  "t_nodes (add_nodes ns db) = t_nodes db @ ns" "t_certificates (add_certificates cs db) = t_certificates db @ cs"
  "t_routes (add_routes rs db) = t_routes db @ rs" "t_acl_rules (add_acl_rules as db) = t_acl_rules db @ map write_acl as"
  "t_domains (add_domains ds db) = t_domains db @ ds" "t_credentials (add_credentials ks db) = t_credentials db @ ks"
  by (simp_all add: add_defs)

lemma add_twice:
  "add_nodes ns (add_nodes ms db) = add_nodes (ms @ ns) db" "add_certificates cs (add_certificates bs db) = add_certificates (bs @ cs) db"
  "add_routes rs (add_routes qs db) = add_routes (qs @ rs) db" "add_acl_rules as (add_acl_rules bs' db) = add_acl_rules (bs' @ as) db"
  "add_domains ds (add_domains es db) = add_domains (es @ ds) db" "add_credentials ks (add_credentials js db) = add_credentials (js @ ks) db"
  "add_nodes [] db = db" "add_certificates [] db = db" "add_routes [] db = db" "add_acl_rules [] db = db" "add_domains [] db = db"
  "add_credentials [] db = db"
  by (simp_all add: add_defs)

lemmas table_facts = insert_Ok ok_add db_ok_keys add_twice

interpretation node_table: restore_table "''nodes''" node_id insert_node t_nodes add_nodes
  by unfold_locales (auto simp: table_ids_def table_facts)

interpretation certificate_table: restore_table "''certificates''" cert_id insert_certificate t_certificates add_certificates
  by unfold_locales (auto simp: table_ids_def table_facts)

interpretation route_table: restore_table "''routes''" route_id insert_route t_routes add_routes
  by unfold_locales (auto simp: table_ids_def table_facts)

interpretation acl_table: restore_table "''acl_rules''" sa_id insert_acl_rule "\<lambda>db. map read_acl (t_acl_rules db)" add_acl_rules
  by unfold_locales (auto simp: table_ids_def table_facts comp_def)

interpretation domain_table: restore_table "''domains''" dom_id insert_domain t_domains add_domains
  by unfold_locales (auto simp: table_ids_def table_facts)

interpretation credential_table: restore_table "''credentials''" cred_id insert_credential t_credentials add_credentials
  by unfold_locales (auto simp: table_ids_def table_facts)

section \<open>Restoring a snapshot\<close>

lemma restore_preserves:
  assumes "preserves P (restore_rows ''nodes'' node_id insert_node do_apply (sn_nodes s) no_counts)"
    "preserves P (restore_rows ''certificates'' cert_id insert_certificate do_apply (sn_certificates s) no_counts)"
    "preserves P (restore_rows ''routes'' route_id insert_route do_apply (sn_routes s) no_counts)"
    "preserves P (restore_rows ''acl_rules'' sa_id insert_acl_rule do_apply (sn_acl_rules s) no_counts)"
    "preserves P (restore_rows ''domains'' dom_id insert_domain do_apply (sn_domains s) no_counts)"
    "preserves P (restore_rows ''credentials'' cred_id insert_credential do_apply (sn_credentials s) no_counts)"
  shows "preserves P (restore s do_apply)"
  unfolding restore_def by (intro preserves_rbind assms) (simp_all add: preserves_def)

lemmas restore_loops = restore_preserves node_table.loop_preserves certificate_table.loop_preserves
  route_table.loop_preserves acl_table.loop_preserves domain_table.loop_preserves credential_table.loop_preserves

text \<open>A table has grown by rows of the snapshot with new identifiers.\<close>

definition grew :: "('r \<Rightarrow> string) \<Rightarrow> 'r list \<Rightarrow> 'r list \<Rightarrow> 'r list \<Rightarrow> bool" where
  "grew key snap old new \<longleftrightarrow> (\<exists>xs. new = old @ xs \<and> set xs \<subseteq> set snap \<and> key ` set xs \<inter> key ` set old = {})"

lemma grew_refl [simp]: "grew key snap old old"
  by (simp add: grew_def)

lemma grew_add:
  assumes "grew key snap old new" "set xs \<subseteq> set snap" "key ` set xs \<inter> key ` set new = {}"
  shows "grew key snap old (new @ xs)"
proof -
  from assms(1) obtain ys where "new = old @ ys" "set ys \<subseteq> set snap" "key ` set ys \<inter> key ` set old = {}"
    by (auto simp: grew_def)
  with assms(2,3) show ?thesis
    unfolding grew_def by (intro exI [of _ "ys @ xs"]) auto
qed

definition grown :: "Snapshot \<Rightarrow> Db \<Rightarrow> Db \<Rightarrow> bool" where
  "grown s old db \<longleftrightarrow>
     grew node_id (sn_nodes s) (t_nodes old) (t_nodes db)
     \<and> grew cert_id (sn_certificates s) (t_certificates old) (t_certificates db)
     \<and> grew route_id (sn_routes s) (t_routes old) (t_routes db)
     \<and> grew aclr_id (map write_acl (sn_acl_rules s)) (t_acl_rules old) (t_acl_rules db)
     \<and> grew dom_id (sn_domains s) (t_domains old) (t_domains db)
     \<and> grew cred_id (sn_credentials s) (t_credentials old) (t_credentials db)
     \<and> t_users db = t_users old \<and> t_roles db = t_roles old \<and> t_user_roles db = t_user_roles old
     \<and> t_audit_logs db = t_audit_logs old"

lemma restore_grows: "grown s db (snd (restore s do_apply db))"
proof -
  have "preserves (grown s db) (restore s do_apply)"
    by (intro restore_loops) (simp_all add: grown_def add_defs image_image image_mono grew_add)
  then show ?thesis by (simp add: preserves_def grown_def)
qed

lemma restore_ok:
  assumes "db_ok db"
  shows "db_ok (snd (restore s do_apply db))"
proof -
  have "preserves db_ok (restore s do_apply)"
    by (intro restore_loops) simp_all
  with assms show ?thesis by (simp add: preserves_def)
qed

lemma restore_preview: "snd (restore s False db) = db"
proof -
  have "preserves (\<lambda>d. d = db) (restore s False)"
    by (intro restore_loops) (simp_all add: add_twice)
  then show ?thesis by (simp add: preserves_def)
qed

lemma rbind_Ok: "rbind m f db = (Ok y, db') \<longleftrightarrow> (\<exists>x db1. m db = (Ok x, db1) \<and> f x db1 = (Ok y, db'))"
  by (auto simp: rbind_def split: prod.splits sum.splits)

definition distinct_ids :: "Snapshot \<Rightarrow> bool" where
  "distinct_ids s \<longleftrightarrow> distinct (map node_id (sn_nodes s)) \<and> distinct (map cert_id (sn_certificates s))
     \<and> distinct (map route_id (sn_routes s)) \<and> distinct (map sa_id (sn_acl_rules s)) \<and> distinct (map dom_id (sn_domains s))
     \<and> distinct (map cred_id (sn_credentials s))"

lemmas loop_previews = node_table.loop_preview certificate_table.loop_preview route_table.loop_preview acl_table.loop_preview
  domain_table.loop_preview credential_table.loop_preview

lemmas absents = node_table.absent_def certificate_table.absent_def route_table.absent_def acl_table.absent_def
  domain_table.absent_def credential_table.absent_def

text \<open>The preview predicts the report.\<close>

lemma restore_report:
  assumes "restore s True db = (Ok rep, db')" "distinct_ids s"
  shows "restore s False db = (Ok rep, db)"
proof -
  obtain n1 d1 n2 d2 n3 d3 n4 d4 n5 d5 n6 d6 where st:
    "validate s = Ok ()"
    "restore_rows ''nodes'' node_id insert_node True (sn_nodes s) no_counts db = (Ok n1, d1)"
    "restore_rows ''certificates'' cert_id insert_certificate True (sn_certificates s) no_counts d1 = (Ok n2, d2)"
    "restore_rows ''routes'' route_id insert_route True (sn_routes s) no_counts d2 = (Ok n3, d3)"
    "restore_rows ''acl_rules'' sa_id insert_acl_rule True (sn_acl_rules s) no_counts d3 = (Ok n4, d4)"
    "restore_rows ''domains'' dom_id insert_domain True (sn_domains s) no_counts d4 = (Ok n5, d5)"
    "restore_rows ''credentials'' cred_id insert_credential True (sn_credentials s) no_counts d5 = (Ok n6, d6)"
    "rep = \<lparr>rp_nodes = n1, rp_routes = n3, rp_domains = n5, rp_acl_rules = n4, rp_credentials = n6, rp_certificates = n2\<rparr>"
    using assms(1) by (auto simp: restore_def rbind_Ok)
  obtain x1 where "d1 = add_nodes x1 db" using node_table.loop_grows [OF st(2)] by blast
  moreover obtain x2 where "d2 = add_certificates x2 d1" using certificate_table.loop_grows [OF st(3)] by blast
  moreover obtain x3 where "d3 = add_routes x3 d2" using route_table.loop_grows [OF st(4)] by blast
  moreover obtain x4 where "d4 = add_acl_rules x4 d3" using acl_table.loop_grows [OF st(5)] by blast
  moreover obtain x5 where "d5 = add_domains x5 d4" using domain_table.loop_grows [OF st(6)] by blast
  ultimately have same: "t_certificates d1 = t_certificates db" "t_routes d2 = t_routes db" "t_acl_rules d3 = t_acl_rules db"
      "t_domains d4 = t_domains db" "t_credentials d5 = t_credentials db"
    by (simp_all add: add_defs)
  have "fst (restore_rows ''nodes'' node_id insert_node False (sn_nodes s) no_counts db) = Ok n1"
    "fst (restore_rows ''certificates'' cert_id insert_certificate False (sn_certificates s) no_counts d1) = Ok n2"
    "fst (restore_rows ''routes'' route_id insert_route False (sn_routes s) no_counts d2) = Ok n3"
    "fst (restore_rows ''acl_rules'' sa_id insert_acl_rule False (sn_acl_rules s) no_counts d3) = Ok n4"
    "fst (restore_rows ''domains'' dom_id insert_domain False (sn_domains s) no_counts d4) = Ok n5"
    "fst (restore_rows ''credentials'' cred_id insert_credential False (sn_credentials s) no_counts d5) = Ok n6"
    using assms(2) node_table.loop_report [OF st(2)] certificate_table.loop_report [OF st(3)] route_table.loop_report [OF st(4)]
      acl_table.loop_report [OF st(5)] domain_table.loop_report [OF st(6)] credential_table.loop_report [OF st(7)]
    by (simp_all only: distinct_ids_def)
  then show ?thesis
    unfolding restore_def rbind_def st(1,8) by (simp add: loop_previews absents same)
qed

text \<open>When the backup of a consistent database passes the validation.\<close>

definition restorable :: "Db \<Rightarrow> bool" where
  "restorable db \<longleftrightarrow>
     list_all (\<lambda>n. \<not> blank (node_id n) \<and> \<not> blank (node_name n)) (t_nodes db)
     \<and> list_all (\<lambda>r. \<not> blank (route_id r) \<and> \<not> blank (route_name r) \<and> \<not> blank (route_target_host r)) (t_routes db)
     \<and> list_all (\<lambda>a. \<not> blank (aclr_id a) \<and> \<not> blank (aclr_action a)) (t_acl_rules db)
     \<and> list_all (\<lambda>d. \<not> blank (dom_id d) \<and> \<not> blank (dom_hostname d)
         \<and> set_option (dom_certificate_id d) \<subseteq> set (map cert_id (t_certificates db))) (t_domains db)
     \<and> list_all (\<lambda>c. \<not> blank (cred_id c) \<and> \<not> blank (cred_secret_hash c)) (t_credentials db)"

lemma check_each_Ok: "check_each check rs = Ok () \<longleftrightarrow> (\<forall>r\<in>set rs. check r = None)"
  by (induction rs) (auto split: option.splits)

lemma check_None:
  "check_node n = None \<longleftrightarrow> \<not> blank (node_id n) \<and> \<not> blank (node_name n)"
  "check_route known r = None \<longleftrightarrow>
     \<not> blank (route_id r) \<and> \<not> blank (route_name r) \<and> \<not> blank (route_target_host r) \<and> route_node_id r \<in> set known"
  "check_acl known a = None \<longleftrightarrow> \<not> blank (sa_id a) \<and> \<not> blank (sa_action a) \<and> (\<forall>i. sa_route_id a = Some i \<longrightarrow> i \<in> set known)"
  "check_domain known cids d = None \<longleftrightarrow> \<not> blank (dom_id d) \<and> \<not> blank (dom_hostname d)
     \<and> (\<forall>i. dom_route_id d = Some i \<longrightarrow> i \<in> set known)
     \<and> set_option (dom_certificate_id d) \<subseteq> set cids"
  "check_credential known c = None \<longleftrightarrow>
     \<not> blank (cred_id c) \<and> \<not> blank (cred_node_id c) \<and> \<not> blank (cred_secret_hash c) \<and> cred_node_id c \<in> set known"
  by (auto simp: check_node_def check_route_def check_acl_def check_domain_def check_credential_def split: option.splits)

lemma validate_Ok:
  "validate s = Ok () \<longleftrightarrow> (\<forall>n\<in>set (sn_nodes s). check_node n = None)
     \<and> (\<forall>r\<in>set (sn_routes s). check_route (map node_id (sn_nodes s)) r = None)
     \<and> (\<forall>a\<in>set (sn_acl_rules s). check_acl (map route_id (sn_routes s)) a = None)
     \<and> (\<forall>d\<in>set (sn_domains s). check_domain (map route_id (sn_routes s)) (map cert_id (sn_certificates s)) d = None)
     \<and> (\<forall>c\<in>set (sn_credentials s). check_credential (map node_id (sn_nodes s)) c = None)"
  by (auto simp: validate_def Let_def check_each_Ok)

lemma validate_backup:
  assumes "db_ok db"
  shows "validate (snapshot_from_db db True) = Ok () \<longleftrightarrow> restorable db"
proof -
  have fk: "\<forall>r\<in>set (t_routes db). route_node_id r \<in> node_id ` set (t_nodes db)"
    "\<forall>a\<in>set (t_acl_rules db). \<forall>r. aclr_route_id a = Some r \<longrightarrow> r \<in> route_id ` set (t_routes db)"
    "\<forall>d\<in>set (t_domains db). \<forall>r. dom_route_id d = Some r \<longrightarrow> r \<in> route_id ` set (t_routes db)"
    "\<forall>c\<in>set (t_credentials db). cred_node_id c \<in> node_id ` set (t_nodes db)"
    using assms by (simp_all add: db_ok_defs)
  have acl: "sa_action (read_acl a) = aclr_action a" for a by (simp add: read_acl_def)
  have "(\<forall>n\<in>set (t_nodes db). \<not> blank (node_id n) \<and> \<not> blank (node_name n)) \<Longrightarrow>
      \<forall>c\<in>set (t_credentials db). \<not> blank (cred_node_id c)"
    using fk(4) by fastforce
  with fk show ?thesis
    unfolding restorable_def list_all_iff validate_Ok check_None snapshot_from_db_def by (simp add: acl) blast
qed

lemma distinct_map_sort [simp]: "distinct (map k (sort_key f xs)) \<longleftrightarrow> distinct (map k xs)"
  by (simp add: distinct_map)

text \<open>A database whose configuration tables are empty, such as one that has just been migrated.\<close>

definition unconfigured :: "Db \<Rightarrow> bool" where
  "unconfigured db \<longleftrightarrow> t_nodes db = [] \<and> t_credentials db = [] \<and> t_routes db = [] \<and> t_acl_rules db = [] \<and> t_domains db = []
     \<and> t_certificates db = []"

text \<open>Two databases hold the same configuration (the snapshot does not carry the tenant of an ACL rule).\<close>

definition same_configuration :: "Db \<Rightarrow> Db \<Rightarrow> bool" where
  "same_configuration db db' \<longleftrightarrow> mset (t_nodes db') = mset (t_nodes db) \<and> mset (t_credentials db') = mset (t_credentials db)
     \<and> mset (t_routes db') = mset (t_routes db) \<and> mset (map read_acl (t_acl_rules db')) = mset (map read_acl (t_acl_rules db))
     \<and> mset (t_domains db') = mset (t_domains db) \<and> mset (t_certificates db') = mset (t_certificates db)"

lemma restore_backup:
  assumes db: "db_ok db" "restorable db" and db0: "db_ok db0" "unconfigured db0"
  shows "\<exists>rep db'. restore (snapshot_from_db db True) True db0 = (Ok rep, db') \<and> same_configuration db db'
    \<and> t_audit_logs db' = t_audit_logs db0"
proof -
  let ?s = "snapshot_from_db db True"
  define d1 where "d1 = add_nodes (sn_nodes ?s) db0"
  define d2 where "d2 = add_certificates (sn_certificates ?s) d1"
  define d3 where "d3 = add_routes (sn_routes ?s) d2"
  define d4 where "d4 = add_acl_rules (sn_acl_rules ?s) d3"
  define d5 where "d5 = add_domains (sn_domains ?s) d4"
  define d6 where "d6 = add_credentials (sn_credentials ?s) d5"
  note ds = d1_def d2_def d3_def d4_def d5_def d6_def
  note keys = db_ok_keys [OF db(1)]
  have fk: "\<forall>r\<in>set (t_routes db). route_node_id r \<in> node_id ` set (t_nodes db)"
    "\<forall>a\<in>set (t_acl_rules db). \<forall>r. aclr_route_id a = Some r \<longrightarrow> r \<in> route_id ` set (t_routes db)"
    "\<forall>d\<in>set (t_domains db). \<forall>r. dom_route_id d = Some r \<longrightarrow> r \<in> route_id ` set (t_routes db)"
    "\<forall>c\<in>set (t_credentials db). cred_node_id c \<in> node_id ` set (t_nodes db)"
    using db(1) by (simp_all add: db_ok_defs)
  have o1: "db_ok d1" using db0 keys unfolding d1_def by (subst ok_add) (simp_all add: unconfigured_def snapshot_from_db_def)
  have o2: "db_ok d2" using db0 keys o1 unfolding d2_def
    by (subst ok_add) (simp_all add: unconfigured_def snapshot_from_db_def d1_def add_defs)
  have o3: "db_ok d3" using db0 keys o2 fk(1) unfolding d3_def
    by (subst ok_add) (auto simp: unconfigured_def snapshot_from_db_def d1_def d2_def add_defs)
  have o4: "db_ok d4" using db0 keys o3 fk(2) unfolding d4_def
    by (subst ok_add) (auto simp: unconfigured_def snapshot_from_db_def d1_def d2_def d3_def add_defs)
  have o5: "db_ok d5" using db0 keys o4 fk(3) unfolding d5_def
    by (subst ok_add) (auto simp: unconfigured_def snapshot_from_db_def d1_def d2_def d3_def d4_def add_defs)
  have o6: "db_ok d6" using db0 keys o5 fk(4) unfolding d6_def
    by (subst ok_add) (auto simp: unconfigured_def snapshot_from_db_def d1_def d2_def d3_def d4_def d5_def add_defs)
  have "\<exists>rep. restore ?s True db0 = (Ok rep, d6)"
    unfolding restore_def rbind_def validate_backup [OF db(1), THEN iffD2, OF db(2)]
    using node_table.loop_complete [OF db0(1) o1 [unfolded d1_def]] certificate_table.loop_complete [OF o1 o2 [unfolded d2_def]]
      route_table.loop_complete [OF o2 o3 [unfolded d3_def]] acl_table.loop_complete [OF o3 o4 [unfolded d4_def]]
      domain_table.loop_complete [OF o4 o5 [unfolded d5_def]] credential_table.loop_complete [OF o5 o6 [unfolded d6_def]]
    by (simp add: ds)
  moreover have "same_configuration db d6" "t_audit_logs d6 = t_audit_logs db0"
    using db0(2) by (simp_all add: same_configuration_def ds add_defs snapshot_from_db_def unconfigured_def comp_def)
  ultimately show ?thesis by blast
qed

section \<open>The endpoints\<close>

lemma hrestore_db: "a_db (snd (hrestore snap do_apply s)) = snd (restore snap do_apply (a_db s))"
  by (simp add: hrestore_def split: prod.split)

text \<open>An import can neither add a credential nor a certificate.\<close>

theorem import_adds_no_secrets:
  "t_credentials (a_db (snd (api_import G E u do_apply body s))) = t_credentials (a_db s)
   \<and> t_certificates (a_db (snd (api_import G E u do_apply body s))) = t_certificates (a_db s)"
proof -
  have keep: "keeps (\<lambda>s. (t_credentials (a_db s), t_certificates (a_db s))) (hbind (hrestore snap do_apply) (\<lambda>report.
      hbind (audit_applied E u do_apply ''import'') (\<lambda>_. hlift (Ok report))))"
    if "sn_credentials snap = []" "sn_certificates snap = []" for snap
  proof (intro keeps_bind)
    show "keeps (\<lambda>s. (t_credentials (a_db s), t_certificates (a_db s))) (hrestore snap do_apply)"
      using restore_grows [of snap] that by (auto simp: keeps_def hrestore_db grown_def grew_def)
  qed (auto simp: keeps_def audit_applied_def write_audit_def hdb_def insert_audit_log_def hlift_def split: sum.splits if_splits)
  show ?thesis
    using keepsD [OF keep] unfolding api_import_def by (auto simp: hbind_lift split: sum.splits)
qed

text \<open>An export that contains a domain with a certificate is never accepted by an import: it lacks the certificate.\<close>

theorem export_of_tls_domain_rejected:
  assumes "d \<in> set (t_domains db)" "dom_certificate_id d = Some c"
  shows "validate (snapshot_from_db db False) \<noteq> Ok ()"
  using assms unfolding validate_Ok check_None by (force simp: snapshot_from_db_def)

section \<open>Properties\<close>

text \<open>C13. A restore never overwrites.  Whatever the snapshot holds, whether it is applied or previewed, and whether it succeeds
  or stops with an error half way: every table keeps all its rows, unchanged and in their order, and has only
  grown by rows of the snapshot with new identifiers; users, roles and the audit log are untouched; a
  preview changes nothing at all; and a consistent database stays consistent.  If the identifiers in the
  snapshot are distinct, the preview announces exactly the report of a successful application.\<close>

theorem restore_never_overwrites:
  "grown s db (snd (restore s do_apply db)) \<and> snd (restore s False db) = db
   \<and> (db_ok db \<longrightarrow> db_ok (snd (restore s do_apply db)))
   \<and> (distinct_ids s \<and> restore s True db = (Ok rep, db') \<longrightarrow> restore s False db = (Ok rep, db))"
  using restore_grows restore_preview restore_ok restore_report by blast

text \<open>The handler of a restore on the file of a backup.\<close>

lemma api_restore_of_backup:
  assumes backup: "api_backup G u s = (Ok file, s1)" and body: "from_utf8 body = Some (dl_body file)"
    and yaml: "\<forall>snap text. y_to_yaml G snap = Some text \<longrightarrow> y_from_yaml G text = Some snap"
    and source: "db_ok (a_db s)" "restorable (a_db s)"
    and target: "db_ok (a_db t)" "unconfigured (a_db t)" "\<forall>a\<in>set (t_audit_logs (a_db t)). audit_id a \<noteq> e_uuid E 0"
    and user: "user_has_permission v SettingsWrite"
  shows "\<exists>report t'. api_restore G E v True body t = (Ok report, t') \<and> same_configuration (a_db s) (a_db t')"
proof -
  let ?snap = "snapshot_from_db (a_db s) True"
  have "y_to_yaml G ?snap = Some (dl_body file)"
    using backup by (cases "y_to_yaml G ?snap") (auto simp: api_backup_def hbind_Ok yaml_response_def)
  then have parsed: "parse_snapshot G body = Ok ?snap"
    using body yaml by (simp add: parse_snapshot_def)
  obtain report db' where r: "restore ?snap True (a_db t) = (Ok report, db')" "same_configuration (a_db s) db'"
      "t_audit_logs db' = t_audit_logs (a_db t)"
    using restore_backup [OF source target(1,2)] by blast
  have "api_restore G E v True body t
      = (Ok report, t\<lparr>a_db := db'\<lparr>t_audit_logs := t_audit_logs db' @ [audit_row E 0 (Some (u_id v)) ''restore'' ''snapshot'' ''restore'' None]\<rparr>\<rparr>)"
    using user parsed r(1,3) target(3)
    by (simp add: api_restore_def require_permission_def hrestore_def audit_applied_def write_audit_def hbind_def hlift_def hdb_def
        insert_audit_log_def audit_row_def list_ex_iff)
  then show ?thesis using r(2) by (simp add: same_configuration_def)
qed

text \<open>Concrete snapshots: the sample database, restored into an empty one.\<close>

definition sample_yaml :: yaml where
  "sample_yaml = \<lparr>y_to_yaml = (\<lambda>s. if s = snapshot_from_db sample_db True then Some ''y'' else None),
     y_from_yaml = (\<lambda>_. Some (snapshot_from_db sample_db True))\<rparr>"

lemma sample_db_facts: "db_ok sample_db" "restorable sample_db" "unconfigured empty_db"
  by (simp_all add: sample_db_eval db_ok_defs restorable_def unconfigured_def trim_graphic graphic_def code_numeral_simps)

theorem restore_never_overwrites_witness:
  "\<exists>rep db'. restore (snapshot_from_db sample_db True) True empty_db = (Ok rep, db') \<and> db_ok db'
     \<and> restore (snapshot_from_db sample_db True) False empty_db = (Ok rep, empty_db)"
proof -
  let ?s = "snapshot_from_db sample_db True"
  obtain rep db' where r: "restore ?s True empty_db = (Ok rep, db')"
    using restore_backup [OF sample_db_facts(1,2) empty_db_ok sample_db_facts(3)] by blast
  moreover have "distinct_ids ?s"
    using db_ok_keys [OF sample_db_facts(1)] by (simp add: distinct_ids_def snapshot_from_db_def)
  ultimately show ?thesis
    using restore_never_overwrites [of ?s empty_db True rep db'] empty_db_ok by auto
qed

end
