(* ===== verification/Certs.thy ===== *)
theory Certs
  imports TcpProxy
begin

text \<open>
  Certificates: the store of the TLS entry point, which selects a certificate by host name
  (\<open>server/src/certificate.rs\<close>), the persistent identity of the QUIC endpoint (\<open>server/src/tls.rs\<close>), and the
  trust-on-first-use verifier of the agent, which pins the certificate of each server in a file
  (\<open>agent/src/tls.rs\<close>).

  The PEM, X.509 and JSON parsers and the signing key types are parameters; instants are integers.  The file
  operations of the verifier may fail, as its environment record says.
\<close>

section \<open>The certificate store\<close>

record 'k CertEntry =
  ce_hostnames :: "string list"
  ce_expires_at :: "int option"
  ce_certified_key :: "bytes list \<times> 'k"

datatype CertError =
    ParseCertificate
  | NoCertificates
  | ParsePrivateKey
  | UnsupportedKey
  | ParseX509
  | ParseHostnames string
  | NoPrivateKey string
  | DuplicateHostname string

record 'k pem =
  pm_certs :: "string \<Rightarrow> bytes list option"
  pm_private_key :: "string \<Rightarrow> bytes option"
  pm_signing_key :: "bytes \<Rightarrow> 'k option"
  pm_not_after :: "bytes \<Rightarrow> int option"
  pm_hostnames :: "string \<Rightarrow> string list option"

definition parse_cert_chain :: "'k pem \<Rightarrow> string \<Rightarrow> (CertError, bytes list) result" where
  "parse_cert_chain P text = ok_or (pm_certs P text) ParseCertificate"

definition parse_private_key :: "'k pem \<Rightarrow> string \<Rightarrow> (CertError, bytes) result" where
  "parse_private_key P text = ok_or (pm_private_key P text) ParsePrivateKey"

definition cert_not_after :: "'k pem \<Rightarrow> bytes \<Rightarrow> (CertError, int option) result" where
  "cert_not_after P der = and_then (ok_or (pm_not_after P der) ParseX509) (\<lambda>t. Ok (Some t))"

definition from_pem :: "'k pem \<Rightarrow> string list \<Rightarrow> string \<Rightarrow> string \<Rightarrow> (CertError, 'k CertEntry) result" where
  "from_pem P hostnames cert_pem key_pem =
     and_then (parse_cert_chain P cert_pem) (\<lambda>chain.
     if chain = [] then Err NoCertificates
     else
       and_then (parse_private_key P key_pem) (\<lambda>key.
       and_then (ok_or (pm_signing_key P key) UnsupportedKey) (\<lambda>signing_key.
       and_then (cert_not_after P (hd chain)) (\<lambda>expires_at.
       Ok \<lparr>ce_hostnames = map to_ascii_lowercase hostnames, ce_expires_at = expires_at,
           ce_certified_key = (chain, signing_key)\<rparr>))))"

record 'k CertStore =
  by_hostname :: "string \<rightharpoonup> 'k CertEntry"
  cs_entries :: "'k CertEntry list"

definition new_cert_store :: "'k CertStore" where
  "new_cert_store = \<lparr>by_hostname = (\<lambda>_. None), cs_entries = []\<rparr>"

definition cert_insert :: "'k CertEntry \<Rightarrow> 'k CertStore \<Rightarrow> (CertError, 'k CertStore) result" where
  "cert_insert e st =
     (case find (\<lambda>h. by_hostname st h \<noteq> None) (ce_hostnames e) of
        Some h \<Rightarrow> Err (DuplicateHostname h)
      | None \<Rightarrow> Ok \<lparr>by_hostname = foldl (\<lambda>m h. m(h \<mapsto> e)) (by_hostname st) (ce_hostnames e),
                    cs_entries = cs_entries st @ [e]\<rparr>)"

definition load_cert_row :: "'k pem \<Rightarrow> CertificateRow \<Rightarrow> (CertError, 'k CertEntry) result" where
  "load_cert_row P row =
     and_then (ok_or (pm_hostnames P (cert_hostnames row)) (ParseHostnames (cert_name row))) (\<lambda>hostnames.
     let key_pem = (case cert_private_key_encrypted row of Some k \<Rightarrow> k | None \<Rightarrow> []) in
     if key_pem = [] then Err (NoPrivateKey (cert_name row))
     else from_pem P hostnames (cert_certificate row) key_pem)"

fun load_cert_rows :: "'k pem \<Rightarrow> CertificateRow list \<Rightarrow> 'k CertStore \<Rightarrow> (CertError, 'k CertStore) result" where
  "load_cert_rows P [] st = Ok st"
| "load_cert_rows P (row # rows) st =
     and_then (load_cert_row P row) (\<lambda>e. and_then (cert_insert e st) (load_cert_rows P rows))"

definition cert_from_rows :: "'k pem \<Rightarrow> CertificateRow list \<Rightarrow> (CertError, 'k CertStore) result" where
  "cert_from_rows P rows = load_cert_rows P rows new_cert_store"

definition cert_lookup :: "string \<Rightarrow> 'k CertStore \<Rightarrow> 'k CertEntry option" where
  "cert_lookup sni st = by_hostname st (to_ascii_lowercase sni)"

definition cert_resolve :: "string option \<Rightarrow> 'k CertStore \<Rightarrow> (bytes list \<times> 'k) option" where
  "cert_resolve server_name st =
     (case server_name of None \<Rightarrow> None | Some sni \<Rightarrow> map_option ce_certified_key (cert_lookup sni st))"

definition expiring :: "int \<Rightarrow> int \<Rightarrow> 'k CertStore \<Rightarrow> (string \<times> int) list" where
  "expiring now warn_before st =
     List.map_filter (\<lambda>e. case ce_expires_at e of
         Some t \<Rightarrow> if t \<le> now + warn_before then Some (join '','' (ce_hostnames e), t) else None
       | None \<Rightarrow> None) (cs_entries st)"

section \<open>Trust on first use\<close>

definition is_ascii_alphanumeric :: "char \<Rightarrow> bool" where
  "is_ascii_alphanumeric c \<longleftrightarrow>
     48 \<le> code c \<and> code c \<le> 57 \<or> 65 \<le> code c \<and> code c \<le> 90 \<or> 97 \<le> code c \<and> code c \<le> 122"

definition safe_char :: "char \<Rightarrow> char" where
  "safe_char c = (if is_ascii_alphanumeric c \<or> c = CHR ''.'' \<or> c = CHR ''-'' then c else CHR ''_'')"

text \<open>The name of the pin file in the pin directory, and of the file that is renamed to it.\<close>

definition pin_path :: "string \<Rightarrow> string" where
  "pin_path server_name = map safe_char server_name @ ''.der''"

definition tmp_path :: "string \<Rightarrow> string" where
  "tmp_path server_name = pin_path server_name @ ''.tmp''"

datatype TlsError = ReadPin | CreatePinDir | WritePin | CommitPin | CertificateChanged

text \<open>How the file operations of one call end; a failing write may leave any bytes in the temporary file.\<close>

record pin_io =
  io_read_fails :: bool
  io_mkdir_fails :: bool
  io_write_fails :: "bytes option option"
  io_rename_fails :: bool

type_synonym pin_dir = "string \<rightharpoonup> bytes"

definition verify_server_cert :: "pin_io \<Rightarrow> string \<Rightarrow> bytes \<Rightarrow> pin_dir \<Rightarrow> (TlsError, unit) result \<times> pin_dir" where
  "verify_server_cert io server_name der fs =
     (let path = pin_path server_name; tmp = tmp_path server_name in
      if io_read_fails io then (Err ReadPin, fs)
      else case fs path of
        Some existing \<Rightarrow> if existing = der then (Ok (), fs) else (Err CertificateChanged, fs)
      | None \<Rightarrow>
          if io_mkdir_fails io then (Err CreatePinDir, fs)
          else (case io_write_fails io of
                  Some junk \<Rightarrow> (Err WritePin, fs(tmp := junk))
                | None \<Rightarrow>
                    if io_rename_fails io then (Err CommitPin, fs(tmp \<mapsto> der))
                    else (Ok (), fs(tmp := None, path \<mapsto> der))))"

record verify_call =
  vc_io :: pin_io
  vc_name :: string
  vc_der :: bytes

text \<open>The results of a sequence of connections that share a pin directory.\<close>

fun verify_all :: "verify_call list \<Rightarrow> pin_dir \<Rightarrow> bool list \<times> pin_dir" where
  "verify_all [] fs = ([], fs)"
| "verify_all (c # cs) fs =
     (let (r, fs1) = verify_server_cert (vc_io c) (vc_name c) (vc_der c) fs; (rs, fs2) = verify_all cs fs1
      in (is_ok r # rs, fs2))"

section \<open>The identity of the server\<close>

text \<open>The self-signed certificate of the QUIC endpoint (\<open>server/src/tls.rs\<close>).  Generation is a parameter, fresh at
  every start; the file operations on the two configured paths may fail,
  and a failing write may leave any bytes in its file.\<close>

record SelfSignedCert =
  ssc_cert_der :: bytes
  ssc_key_der :: bytes

record identity_io =
  id_generate :: "string list \<Rightarrow> SelfSignedCert option"
  id_read_ok :: "string \<Rightarrow> bool"
  id_write_fails :: "string \<Rightarrow> bytes option option"

datatype IdentityError = Generate | ReadCert | ReadKey | WriteCert | WriteKey

definition load_or_generate :: "identity_io \<Rightarrow> string option \<Rightarrow> string option \<Rightarrow> string list \<Rightarrow> (string \<rightharpoonup> bytes)
    \<Rightarrow> (IdentityError, SelfSignedCert) result \<times> (string \<rightharpoonup> bytes)" where
  "load_or_generate io cert_path key_path subject_names fs =
     (case (cert_path, key_path) of
        (Some c, Some k) \<Rightarrow>
          (case (fs c, fs k) of
             (Some cert, Some key) \<Rightarrow>
               if \<not> id_read_ok io c then (Err ReadCert, fs)
               else if \<not> id_read_ok io k then (Err ReadKey, fs)
               else (Ok \<lparr>ssc_cert_der = cert, ssc_key_der = key\<rparr>, fs)
           | _ \<Rightarrow>
               (case id_generate io subject_names of
                  None \<Rightarrow> (Err Generate, fs)
                | Some cert \<Rightarrow>
                    (case id_write_fails io c of
                       Some junk \<Rightarrow> (Err WriteCert, fs(c := junk))
                     | None \<Rightarrow>
                         let fs1 = fs(c \<mapsto> ssc_cert_der cert) in
                         (case id_write_fails io k of
                            Some junk \<Rightarrow> (Err WriteKey, fs1(k := junk))
                          | None \<Rightarrow> (Ok cert, fs1(k \<mapsto> ssc_key_der cert))))))
      | _ \<Rightarrow> (ok_or (id_generate io subject_names) Generate, fs))"

section \<open>Facts on the store\<close>

lemma foldl_upd_apply: "foldl (\<lambda>m h. m(h \<mapsto> e)) m hs = (\<lambda>h. if h \<in> set hs then Some e else m h)"
  by (induction hs arbitrary: m) (auto simp: fun_eq_iff)

lemma cert_insert_Ok:
  "cert_insert e st = Ok st' \<longleftrightarrow> (\<forall>h\<in>set (ce_hostnames e). by_hostname st h = None)
     \<and> st' = \<lparr>by_hostname = (\<lambda>h. if h \<in> set (ce_hostnames e) then Some e else by_hostname st h), cs_entries = cs_entries st @ [e]\<rparr>"
  by (auto simp: cert_insert_def foldl_upd_apply find_None_iff find_Some_iff split: option.splits)

text \<open>The index of a store: a host name leads to the entry that covers it.\<close>

definition indexed :: "'k CertStore \<Rightarrow> bool" where
  "indexed st \<longleftrightarrow> (\<forall>h e. by_hostname st h = Some e \<longleftrightarrow> e \<in> set (cs_entries st) \<and> h \<in> set (ce_hostnames e))"

lemma indexed_insert:
  assumes "indexed st" "cert_insert e st = Ok st'"
  shows "indexed st'"
proof -
  have free: "\<forall>h\<in>set (ce_hostnames e). by_hostname st h = None" using assms(2) by (simp add: cert_insert_Ok)
  have "h \<notin> set (ce_hostnames e)" if "f \<in> set (cs_entries st)" "h \<in> set (ce_hostnames f)" for f h
    using assms(1) free that unfolding indexed_def by (metis option.distinct(1))
  then show ?thesis
    using assms unfolding indexed_def cert_insert_Ok by auto
qed

lemma load_cert_rows_Ok:
  "load_cert_rows P rows st = Ok st' \<Longrightarrow> indexed st \<Longrightarrow> indexed st' \<and> (\<exists>es. cs_entries st' = cs_entries st @ es
     \<and> list_all2 (\<lambda>row e. load_cert_row P row = Ok e) rows es)"
proof (induction rows arbitrary: st)
  case (Cons row rows)
  then obtain e st1 where e: "load_cert_row P row = Ok e" "cert_insert e st = Ok st1" "load_cert_rows P rows st1 = Ok st'" by auto
  from Cons.IH [OF e(3) indexed_insert [OF Cons.prems(2) e(2)]] obtain es where
    "indexed st'" "cs_entries st' = cs_entries st1 @ es" "list_all2 (\<lambda>row e. load_cert_row P row = Ok e) rows es" by blast
  then show ?case
    using e(1,2) by (intro conjI exI [of _ "e # es"]) (auto simp: cert_insert_Ok)
qed auto

section \<open>Facts on pins\<close>

lemma pin_not_tmp: "pin_path a \<noteq> tmp_path b"
proof
  assume "pin_path a = tmp_path b"
  then have "last (pin_path a) = last (tmp_path b)" by simp
  then show False by (simp add: pin_path_def tmp_path_def)
qed

text \<open>Names of letters, digits, dots and hyphens have pin files of their own.\<close>

definition plain_name :: "string \<Rightarrow> bool" where
  "plain_name s \<longleftrightarrow> list_all (\<lambda>c. safe_char c = c) s"

lemma pin_path_inj: "plain_name a \<Longrightarrow> plain_name b \<Longrightarrow> pin_path a = pin_path b \<Longrightarrow> a = b"
proof -
  have "map safe_char s = s" if "plain_name s" for s
    using that by (induction s) (auto simp: plain_name_def)
  then show "plain_name a \<Longrightarrow> plain_name b \<Longrightarrow> pin_path a = pin_path b \<Longrightarrow> a = b"
    by (simp add: pin_path_def)
qed

lemma verify_keeps_pin:
  "verify_server_cert io n der fs = (r, fs') \<Longrightarrow> fs (pin_path m) = Some d \<Longrightarrow> fs' (pin_path m) = Some d"
  using pin_not_tmp [of m n] pin_not_tmp [of n n]
  by (auto simp: verify_server_cert_def Let_def split: if_splits option.splits)

lemma verify_accepts:
  "verify_server_cert io n der fs = (Ok (), fs') \<Longrightarrow>
     fs' (pin_path n) = Some der \<and> (\<forall>d. fs (pin_path n) = Some d \<longrightarrow> d = der)"
  by (auto simp: verify_server_cert_def Let_def split: if_splits option.splits)

lemma verify_all_keeps_pin:
  "verify_all cs fs = (rs, fs') \<Longrightarrow> fs (pin_path m) = Some d \<Longrightarrow> fs' (pin_path m) = Some d"
  by (induction cs arbitrary: fs rs) (auto simp: Let_def split: prod.splits dest: verify_keeps_pin)

lemma pinned_accepts_only:
  "fs (pin_path n) = Some d \<Longrightarrow> i < length cs \<Longrightarrow> fst (verify_all cs fs) ! i \<Longrightarrow> pin_path (vc_name (cs ! i)) = pin_path n
     \<Longrightarrow> vc_der (cs ! i) = d"
proof (induction cs arbitrary: fs i)
  case (Cons c cs)
  obtain r fs1 where v: "verify_server_cert (vc_io c) (vc_name c) (vc_der c) fs = (r, fs1)" by force
  show ?case
  proof (cases i)
    case 0
    then obtain u where "r = Ok u" using Cons.prems(3) v by (cases r) (auto simp: Let_def split: prod.splits)
    then show ?thesis using verify_accepts v Cons.prems(1,4) 0 by force
  next
    case (Suc j)
    have "fs1 (pin_path n) = Some d" using verify_keeps_pin [OF v Cons.prems(1)] .
    moreover have "fst (verify_all cs fs1) ! j" using Cons.prems(3) v Suc by (auto simp: Let_def split: prod.splits)
    ultimately show ?thesis using Cons.IH [of fs1 j] Cons.prems Suc by simp
  qed
qed simp

lemma verify_all_foreign:
  "verify_all cs fs = (rs, fs') \<Longrightarrow> \<forall>c\<in>set cs. pin_path (vc_name c) \<noteq> pin_path n \<Longrightarrow> fs' (pin_path n) = fs (pin_path n)"
proof (induction cs arbitrary: fs rs)
  case (Cons c cs)
  obtain r fs1 where v: "verify_server_cert (vc_io c) (vc_name c) (vc_der c) fs = (r, fs1)" by force
  have "fs1 (pin_path n) = fs (pin_path n)"
    using v Cons.prems(2) pin_not_tmp [of n "vc_name c"]
    by (auto simp: verify_server_cert_def Let_def split: if_splits option.splits)
  with Cons v show ?case by (auto simp: Let_def split: prod.splits)
qed simp

lemma two_accepted:
  "i < j \<Longrightarrow> j < length cs \<Longrightarrow> fst (verify_all cs fs) ! i \<Longrightarrow> fst (verify_all cs fs) ! j
     \<Longrightarrow> pin_path (vc_name (cs ! i)) = pin_path (vc_name (cs ! j)) \<Longrightarrow> vc_der (cs ! i) = vc_der (cs ! j)"
proof (induction cs arbitrary: fs i j)
  case (Cons c cs)
  obtain r fs1 where v: "verify_server_cert (vc_io c) (vc_name c) (vc_der c) fs = (r, fs1)" by force
  obtain k where k: "j = Suc k" using Cons.prems(1) by (cases j) auto
  have later: "fst (verify_all cs fs1) ! k" using Cons.prems(4) v k by (auto simp: Let_def split: prod.splits)
  show ?case
  proof (cases i)
    case 0
    then obtain u where "r = Ok u" using Cons.prems(3) v by (cases r) (auto simp: Let_def split: prod.splits)
    then have "fs1 (pin_path (vc_name c)) = Some (vc_der c)" using verify_accepts v by force
    from pinned_accepts_only [of fs1 "vc_name c" "vc_der c" k cs, OF this] show ?thesis using later Cons.prems(2,5) 0 k by simp
  next
    case (Suc l)
    then have "fst (verify_all cs fs1) ! l" using Cons.prems(3) v by (auto simp: Let_def split: prod.splits)
    with later Cons.IH [of l k fs1] Cons.prems Suc k show ?thesis by simp
  qed
qed simp

section \<open>Properties\<close>

text \<open>Selection of certificates.  In a store loaded from the database the certificate found for a server name, in
  any mixture of cases, is the one certificate whose host names contain it.\<close>

theorem certificate_selection:
  assumes "cert_from_rows P rows = Ok st"
  shows "cert_lookup sni st = Some e \<longleftrightarrow>
     (\<exists>row\<in>set rows. load_cert_row P row = Ok e) \<and> to_ascii_lowercase sni \<in> set (ce_hostnames e)"
proof -
  have "indexed (new_cert_store :: 'a CertStore)" by (simp add: indexed_def new_cert_store_def)
  from load_cert_rows_Ok [OF assms [unfolded cert_from_rows_def] this] obtain es where
    st: "indexed st" "cs_entries st = es" "list_all2 (\<lambda>row e. load_cert_row P row = Ok e) rows es"
    by (auto simp: new_cert_store_def)
  have "e \<in> set es \<longleftrightarrow> (\<exists>row\<in>set rows. load_cert_row P row = Ok e)"
    using st(3) by (force simp: list_all2_conv_all_nth in_set_conv_nth)
  then show ?thesis using st(1,2) unfolding indexed_def cert_lookup_def by blast
qed

text \<open>C32. Trust on first use.  Over any number of connections, with any failures of the file operations, an agent never accepts
  two different certificates for the same server name: once one was accepted, every other one is refused.  The
  pins of different servers do not interfere: for a name of letters, digits, dots and hyphens that has no pin
  yet, a certificate is accepted whatever was pinned for other such names in between, if the files can
  be read and written.\<close>

theorem tofu_first_certificate_only:
  "(i < length cs \<and> j < length cs \<and> fst (verify_all cs fs) ! i \<and> fst (verify_all cs fs) ! j \<and> vc_name (cs ! i) = vc_name (cs ! j)
      \<longrightarrow> vc_der (cs ! i) = vc_der (cs ! j))
   \<and> (plain_name n \<and> list_all (\<lambda>c. plain_name (vc_name c) \<and> vc_name c \<noteq> n) cs \<and> fs (pin_path n) = None
        \<and> \<not> io_read_fails io \<and> \<not> io_mkdir_fails io \<and> io_write_fails io = None \<and> \<not> io_rename_fails io
      \<longrightarrow> fst (verify_server_cert io n der (snd (verify_all cs fs))) = Ok ())"
proof (intro conjI impI)
  assume a: "i < length cs \<and> j < length cs \<and> fst (verify_all cs fs) ! i \<and> fst (verify_all cs fs) ! j \<and> vc_name (cs ! i) = vc_name (cs ! j)"
  show "vc_der (cs ! i) = vc_der (cs ! j)"
  proof (cases rule: linorder_cases [of i j])
    case less
    then show ?thesis using two_accepted [of i j cs fs] a by simp
  next
    case greater
    then show ?thesis using two_accepted [of j i cs fs] a by simp
  qed simp
next
  assume a: "plain_name n \<and> list_all (\<lambda>c. plain_name (vc_name c) \<and> vc_name c \<noteq> n) cs \<and> fs (pin_path n) = None
        \<and> \<not> io_read_fails io \<and> \<not> io_mkdir_fails io \<and> io_write_fails io = None \<and> \<not> io_rename_fails io"
  then have "\<forall>c\<in>set cs. pin_path (vc_name c) \<noteq> pin_path n"
    using pin_path_inj by (auto simp: list_all_iff)
  from verify_all_foreign [OF surjective_pairing this] a have "snd (verify_all cs fs) (pin_path n) = None"
    by simp
  then show "fst (verify_server_cert io n der (snd (verify_all cs fs))) = Ok ()"
    using a by (simp add: verify_server_cert_def Let_def)
qed

text \<open>A restart does not break the trust of the agents: if both files are configured (and are different), a server that
  once started presents the same certificate at every later start, whatever the generator produces, so an agent
  that has pinned it accepts it again.\<close>

theorem restart_keeps_trust:
  assumes "c \<noteq> k" "load_or_generate io (Some c) (Some k) names fs = (Ok cert, fs1)"
    and "load_or_generate io' (Some c) (Some k) names' fs1 = (Ok cert', fs2)"
    and "verify_server_cert a n (ssc_cert_der cert) pins = (Ok (), pins1)" "\<not> io_read_fails b"
  shows "cert' = cert \<and> fs2 = fs1 \<and> verify_server_cert b n (ssc_cert_der cert') pins1 = (Ok (), pins1)"
proof -
  have "fs1 c = Some (ssc_cert_der cert) \<and> fs1 k = Some (ssc_key_der cert)"
    using assms(1,2) by (auto simp: load_or_generate_def Let_def split: option.splits if_splits)
  then have "cert' = cert \<and> fs2 = fs1"
    using assms(3) by (auto simp: load_or_generate_def split: if_splits)
  then show ?thesis
    using verify_accepts [OF assms(4)] assms(5) by (simp add: verify_server_cert_def Let_def)
qed

definition io_good :: pin_io where
  "io_good = \<lparr>io_read_fails = False, io_mkdir_fails = False, io_write_fails = None, io_rename_fails = False\<rparr>"

definition sample_calls :: "verify_call list" where
  "sample_calls = [\<lparr>vc_io = io_good, vc_name = ''a.io'', vc_der = [1]\<rparr>, \<lparr>vc_io = io_good, vc_name = ''a.io'', vc_der = [2]\<rparr>,
     \<lparr>vc_io = io_good, vc_name = ''a.io'', vc_der = [1]\<rparr>]"

theorem tofu_first_certificate_only_witness:
  "fst (verify_all sample_calls (\<lambda>_. None)) = [True, False, True]
   \<and> fst (verify_server_cert io_good ''b.io'' [2] (snd (verify_all sample_calls (\<lambda>_. None)))) = Ok ()"
proof
  show all: "fst (verify_all sample_calls (\<lambda>_. None)) = [True, False, True]"
    by (simp add: sample_calls_def verify_server_cert_def io_good_def Let_def)
  have "plain_name ''b.io'' \<and> list_all (\<lambda>c. plain_name (vc_name c) \<and> vc_name c \<noteq> ''b.io'') sample_calls"
    by (simp add: sample_calls_def plain_name_def safe_char_def is_ascii_alphanumeric_def code_numeral_simps)
  then show "fst (verify_server_cert io_good ''b.io'' [2] (snd (verify_all sample_calls (\<lambda>_. None)))) = Ok ()"
    using tofu_first_certificate_only [of 0 sample_calls 2 "\<lambda>_. None" "''b.io''" io_good "[2]"] by (simp add: io_good_def)
qed

end
