(* ===== verification/HttpProxy.thy ===== *)
theory HttpProxy
  imports TcpProxy
begin

text \<open>
  The HTTP and HTTPS entry points \<open>server/src/http_proxy.rs\<close> and \<open>server/src/https_proxy.rs\<close>: reading a
  request head, choosing the route by host, admission, rewriting the head, and the choice between TLS
  passthrough and termination.

  The HTTP parser (crate \<open>httparse\<close>) and the TLS acceptor (crate \<open>rustls\<close>) are parameters.  Incoming
  bytes are a list of read results, as for the ClientHello.  What is counted is in \<open>Metrics\<close>.
\<close>

section \<open>Reading a request head\<close>

definition MAX_HEAD_BYTES :: nat where "MAX_HEAD_BYTES = 64 * 1024"

definition as_bytes :: "string \<Rightarrow> bytes" where
  "as_bytes s = map (\<lambda>c. of_nat (code c)) s"

definition CRLF :: bytes where "CRLF = [13, 10]"

text \<open>The position of the first window of a byte string that equals \<open>w\<close>, for a non-empty \<open>w\<close>.\<close>

fun window_position :: "bytes \<Rightarrow> bytes \<Rightarrow> nat option" where
  "window_position w [] = None"
| "window_position w (x # xs) =
     (if take (length w) (x # xs) = w then Some 0 else map_option Suc (window_position w xs))"

definition find_header_end :: "bytes \<Rightarrow> nat option" where
  "find_header_end buf =
     (case map_option (\<lambda>i. i + 4) (window_position (CRLF @ CRLF) buf) of
        Some n \<Rightarrow> Some n
      | None \<Rightarrow> map_option (\<lambda>i. i + 2) (window_position [10, 10] buf))"

datatype head_error = HeadTooLarge | HeadIo io_error

fun read_head :: "bytes \<Rightarrow> reads \<Rightarrow> (head_error, nat option) result \<times> bytes \<times> reads" where
  "read_head buf rs =
     (case find_header_end buf of
        Some pos \<Rightarrow> (Ok (Some pos), buf, rs)
      | None \<Rightarrow>
          if length buf \<ge> MAX_HEAD_BYTES then (Err HeadTooLarge, buf, rs)
          else (case rs of
              [] \<Rightarrow> (Ok None, buf, [])
            | Inl e # rs' \<Rightarrow> (Err (HeadIo e), buf, rs')
            | Inr chunk # rs' \<Rightarrow>
                if chunk = [] then (Ok None, buf, rs') else read_head (buf @ chunk) rs'))"

declare read_head.simps [simp del]

section \<open>Host and header rewriting\<close>

definition host_for_lookup :: "string \<Rightarrow> string" where
  "host_for_lookup host =
     (case rsplit_once CHR '':'' host of
        Some (head, tail) \<Rightarrow> if tail \<noteq> [] \<and> list_all is_digit tail then head else host
      | None \<Rightarrow> host)"

type_synonym header = "string \<times> bytes"

record http_request =
  rq_method :: "string option"
  rq_path :: "string option"
  rq_version :: "u8 option"
  rq_headers :: "header list"

definition host_header :: "header list \<Rightarrow> string" where
  "host_header hs =
     (case find (\<lambda>(name, _). eq_ignore_ascii_case name ''host'') hs of
        Some (_, v) \<Rightarrow> from_utf8_lossy v
      | None \<Rightarrow> [])"

text \<open>One turn of the header loop: the output so far and the last host value.\<close>

definition head_step :: "header \<Rightarrow> bytes \<times> bytes \<Rightarrow> bytes \<times> bytes" where
  "head_step h st =
     (let (name, value) = h; (out, host) = st; low = to_ascii_lowercase name in
      if low \<in> {''x-forwarded-for'', ''x-forwarded-proto'', ''x-forwarded-host''} then (out, host)
      else if low = ''host'' then (out @ as_bytes ''Host: '' @ value @ CRLF, value)
      else (out @ as_bytes name @ as_bytes '': '' @ value @ CRLF, host))"

definition build_head :: "string \<Rightarrow> string \<Rightarrow> u8 \<Rightarrow> header list \<Rightarrow> SocketAddr \<Rightarrow> string \<Rightarrow> bytes" where
  "build_head meth path version headers peer proto =
     (let out0 = as_bytes meth @ [32] @ as_bytes path @ as_bytes '' HTTP/1.'' @ [48 + version] @ CRLF;
          (out, host) = fold head_step headers (out0, [])
      in out @ as_bytes ''X-Forwarded-For: '' @ as_bytes (show_ip (sa_ip peer)) @ CRLF
         @ as_bytes ''X-Forwarded-Proto: '' @ as_bytes proto @ CRLF
         @ as_bytes ''X-Forwarded-Host: '' @ host @ CRLF @ CRLF)"

section \<open>Handling a request\<close>

definition status_response :: "string \<Rightarrow> bytes" where
  "status_response st =
     as_bytes ''HTTP/1.1 '' @ as_bytes st @ CRLF @ as_bytes ''Content-Length: 0'' @ CRLF
     @ as_bytes ''Connection: close'' @ CRLF @ CRLF"

definition BAD_REQUEST :: bytes where "BAD_REQUEST = status_response ''400 Bad Request''"
definition NOT_FOUND :: bytes where "NOT_FOUND = status_response ''404 Not Found''"
definition BAD_GATEWAY :: bytes where "BAD_GATEWAY = status_response ''502 Bad Gateway''"
definition FORBIDDEN :: bytes where "FORBIDDEN = status_response ''403 Forbidden''"
definition TOO_MANY :: bytes where "TOO_MANY = status_response ''429 Too Many Requests''"

text \<open>What a connection task does: answer the client itself, act on the agent stream, write bytes to it.\<close>

datatype http_action = Respond bytes | Agent stream_action | Forward bytes

definition release_guard :: "ServerRoute \<Rightarrow> ConnLimiter \<Rightarrow> ConnLimiter" where
  "release_guard r lim = (case route_limit r of Some _ \<Rightarrow> guard_drop (sr_id r) lim | None \<Rightarrow> lim)"

text \<open>Steps 4 to 6 of the handler, with the guard held.  The flag says that the connection is being relayed.\<close>

definition relay_http :: "serde_json \<Rightarrow> agent_link \<Rightarrow> ServerRoute \<Rightarrow> SocketAddr \<Rightarrow> bytes \<Rightarrow> bytes
    \<Rightarrow> http_action list \<times> bool" where
  "relay_http J link route peer head body =
     (if \<not> lk_open link then ([Respond BAD_GATEWAY], False)
      else
        let msg = open_tcp route (show_socket peer); sent = Agent (SendMessage msg 0) in
        if \<not> lk_send_ok link msg then ([sent], False)
        else if lk_late link then ([sent, Respond BAD_GATEWAY], False)
        else case fst (read_frame (lk_recv link)) of
          Inl _ \<Rightarrow> ([sent, Respond BAD_GATEWAY], False)
        | Inr None \<Rightarrow> ([sent, Respond BAD_GATEWAY], False)
        | Inr (Some frame) \<Rightarrow>
            (case from_frame J frame of
               Inr (MOpenOk _) \<Rightarrow>
                 if \<not> lk_write_ok link head then ([sent, Forward head], False)
                 else if body = [] then ([sent, Forward head, Agent CopyDuplex], True)
                 else if \<not> lk_write_ok link body then ([sent, Forward head, Forward body], False)
                 else ([sent, Forward head, Forward body, Agent CopyDuplex], True)
             | _ \<Rightarrow> ([sent, Respond BAD_GATEWAY], False)))"

text \<open>The handler once the route is known: admission, then the relay, with the guard given back on an early return.\<close>

definition serve_http :: "serde_json \<Rightarrow> (nat \<Rightarrow> agent_link) \<Rightarrow> data_plane \<Rightarrow> ServerRoute \<Rightarrow> SocketAddr \<Rightarrow> ConnLimiter
    \<Rightarrow> bytes \<Rightarrow> bytes \<Rightarrow> http_action list \<times> ConnLimiter" where
  "serve_http J links dp route peer lim head body =
     (if \<not> acl_admits dp route peer then ([Respond FORBIDDEN], lim)
      else case take_guard route lim of
        (False, lim1) \<Rightarrow> ([Respond TOO_MANY], lim1)
      | (True, lim1) \<Rightarrow>
          (case cr_get (sr_node_id route) (dp_conns dp) of
             None \<Rightarrow> ([Respond BAD_GATEWAY], release_guard route lim1)
           | Some conn \<Rightarrow>
               let (acts, relaying) = relay_http J (links conn) route peer head body
               in (acts, if relaying then lim1 else release_guard route lim1)))"

text \<open>The handler of a connection up to its return or to the start of relaying; the limiter is the one at that
  moment, so the guard is given back on every early return.\<close>

definition handle_http :: "serde_json \<Rightarrow> (bytes \<Rightarrow> http_request option) \<Rightarrow> (nat \<Rightarrow> agent_link) \<Rightarrow> data_plane \<Rightarrow> HostTable
    \<Rightarrow> reads \<Rightarrow> SocketAddr \<Rightarrow> string \<Rightarrow> ConnLimiter \<Rightarrow> http_action list \<times> ConnLimiter" where
  "handle_http J parse links dp table rs peer proto lim =
     (case read_head [] rs of
        (Inl _, _) \<Rightarrow> ([], lim)
      | (Inr None, _) \<Rightarrow> ([], lim)
      | (Inr (Some head_end), buf, _) \<Rightarrow>
          (case parse (take head_end buf) of
             None \<Rightarrow> ([Respond BAD_REQUEST], lim)
           | Some req \<Rightarrow>
               (case (rq_method req, rq_path req) of
                  (Some meth, Some path) \<Rightarrow>
                    let version = (case rq_version req of Some v \<Rightarrow> v | None \<Rightarrow> 1);
                        host = host_header (rq_headers req) in
                    (case ht_lookup (host_for_lookup host) table of
                       None \<Rightarrow> ([Respond NOT_FOUND], lim)
                     | Some route \<Rightarrow>
                         serve_http J links dp route peer lim
                           (build_head meth path version (rq_headers req) peer proto) (drop head_end buf))
                | _ \<Rightarrow> ([Respond BAD_REQUEST], lim))))"

section \<open>HTTPS\<close>

text \<open>A passthrough connection after admission.  It is relayed when the agent answers OPEN_OK.\<close>

definition https_passthrough :: "serde_json \<Rightarrow> (nat \<Rightarrow> agent_link) \<Rightarrow> data_plane \<Rightarrow> ServerRoute \<Rightarrow> SocketAddr \<Rightarrow> ConnLimiter
    \<Rightarrow> http_action list \<times> ConnLimiter" where
  "https_passthrough J links dp route peer lim =
     (if \<not> acl_admits dp route peer then ([], lim)
      else case cr_get (sr_node_id route) (dp_conns dp) of
        None \<Rightarrow> ([], lim)
      | Some conn \<Rightarrow>
          (case take_guard route lim of
             (False, lim1) \<Rightarrow> ([], lim1)
           | (True, lim1) \<Rightarrow>
               let link = links conn;
                   acts = forward_passthrough J (lk_open link) (lk_send_ok link) (lk_recv link) route (show_socket peer)
               in (map Agent acts, if CopyDuplex \<in> set acts then lim1 else release_guard route lim1)))"

definition handle_https :: "serde_json \<Rightarrow> (bytes \<Rightarrow> http_request option) \<Rightarrow> (Prefixed \<Rightarrow> reads option) \<Rightarrow> (nat \<Rightarrow> agent_link)
    \<Rightarrow> data_plane \<Rightarrow> HostTable \<Rightarrow> reads \<Rightarrow> SocketAddr \<Rightarrow> ConnLimiter \<Rightarrow> (http_action list \<times> ConnLimiter) option" where
  "handle_https J parse tls links dp table rs peer lim =
     (case peek_sni rs of
        (None, _) \<Rightarrow> None
      | (Some (Inl _), _) \<Rightarrow> Some ([], lim)
      | (Some (Inr (sni, prefix)), rest) \<Rightarrow>
          (case Option.bind (Option.bind sni (\<lambda>s. ht_lookup s table)) (\<lambda>r. if tls_passthrough r then Some r else None) of
             Some route \<Rightarrow> Some (https_passthrough J links dp route peer lim)
           | None \<Rightarrow>
               (case tls \<lparr>px_prefix = prefix, px_inner = rest\<rparr> of
                  None \<Rightarrow> Some ([], lim)
                | Some plain \<Rightarrow> Some (handle_http J parse links dp table plain peer ''https'' lim))))"

section \<open>Where a head ends\<close>

definition occurs_at :: "bytes \<Rightarrow> nat \<Rightarrow> bytes \<Rightarrow> bool" where
  "occurs_at w i xs \<longleftrightarrow> take (length w) (drop i xs) = w"

lemma window_position_Some:
  "window_position w xs = Some i \<Longrightarrow> occurs_at w i xs \<and> i + length w \<le> length xs \<and> (\<forall>j<i. \<not> occurs_at w j xs)"
proof (induction xs arbitrary: i)
  case (Cons x xs)
  show ?case
  proof (cases "take (length w) (x # xs) = w")
    case True
    then show ?thesis using Cons.prems by (simp add: occurs_at_def) (metis length_take min.cobounded1 length_Cons)
  next
    case False
    then obtain k where k: "window_position w xs = Some k" "i = Suc k" using Cons.prems by auto
    show ?thesis using Cons.IH [OF k(1)] False k(2) by (auto simp: occurs_at_def less_Suc_eq_0_disj)
  qed
qed simp

lemma window_position_None: "window_position w xs = None \<Longrightarrow> w \<noteq> [] \<Longrightarrow> \<not> occurs_at w i xs"
proof (induction xs arbitrary: i)
  case (Cons x xs)
  then show ?case by (cases i) (auto simp: occurs_at_def split: if_splits)
qed (simp add: occurs_at_def)

definition no_terminator :: "bytes \<Rightarrow> bool" where
  "no_terminator buf \<longleftrightarrow> (\<forall>i. \<not> occurs_at (CRLF @ CRLF) i buf \<and> \<not> occurs_at [10, 10] i buf)"

definition head_terminated :: "bytes \<Rightarrow> nat \<Rightarrow> bool" where
  "head_terminated buf pos \<longleftrightarrow>
     (4 \<le> pos \<and> occurs_at (CRLF @ CRLF) (pos - 4) buf \<and> (\<forall>j<pos - 4. \<not> occurs_at (CRLF @ CRLF) j buf))
     \<or> (2 \<le> pos \<and> occurs_at [10, 10] (pos - 2) buf \<and> (\<forall>j<pos - 2. \<not> occurs_at [10, 10] j buf)
        \<and> (\<forall>j. \<not> occurs_at (CRLF @ CRLF) j buf))"

lemma find_header_end_Some: "find_header_end buf = Some pos \<Longrightarrow> pos \<le> length buf \<and> head_terminated buf pos"
  unfolding find_header_end_def head_terminated_def
  by (auto split: option.splits simp: CRLF_def dest!: window_position_Some dest: window_position_None)

lemma find_header_end_None: "find_header_end buf = None \<Longrightarrow> no_terminator buf"
  unfolding find_header_end_def no_terminator_def
  by (auto split: option.splits simp: CRLF_def dest: window_position_None)

definition small_reads :: "reads \<Rightarrow> bool" where
  "small_reads rs \<longleftrightarrow> list_all (\<lambda>r. case r of Inr c \<Rightarrow> length c \<le> 8192 | Inl _ \<Rightarrow> True) rs"

lemma small_reads_simps [simp]:
  "small_reads []" "small_reads (Inr c # rs) \<longleftrightarrow> length c \<le> 8192 \<and> small_reads rs" "small_reads (Inl e # rs) \<longleftrightarrow> small_reads rs"
  by (simp_all add: small_reads_def)

text \<open>What a finished read of the head has established.\<close>

definition head_result_ok :: "(head_error, nat option) result \<Rightarrow> bytes \<Rightarrow> bool" where
  "head_result_ok res buf \<longleftrightarrow>
     (case res of
        Inr (Some pos) \<Rightarrow> pos \<le> length buf \<and> head_terminated buf pos
      | Inr None \<Rightarrow> no_terminator buf \<and> length buf < MAX_HEAD_BYTES
      | Inl HeadTooLarge \<Rightarrow> no_terminator buf \<and> MAX_HEAD_BYTES \<le> length buf
      | Inl (HeadIo _) \<Rightarrow> no_terminator buf \<and> length buf < MAX_HEAD_BYTES)"

lemma read_head_inv:
  assumes "read_head buf rs = (res, buf', rest)" "small_reads rs" "length buf < MAX_HEAD_BYTES + 8192"
  shows "length buf' < MAX_HEAD_BYTES + 8192 \<and> buf' @ client_bytes rest = buf @ client_bytes rs \<and> head_result_ok res buf'"
  using assms
proof (induction buf rs rule: read_head.induct)
  case (1 buf rs)
  show ?case
  proof (cases "find_header_end buf")
    case (Some pos)
    then show ?thesis using 1(2,4) find_header_end_Some [OF Some]
      by (subst (asm) read_head.simps) (auto simp: head_result_ok_def)
  next
    case None
    note nt = find_header_end_None [OF None]
    show ?thesis
    proof (cases "MAX_HEAD_BYTES \<le> length buf")
      case True
      then show ?thesis using 1(2,4) None nt by (subst (asm) read_head.simps) (auto simp: head_result_ok_def)
    next
      case short: False
      show ?thesis
      proof (cases "\<exists>chunk rs'. rs = Inr chunk # rs' \<and> chunk \<noteq> []")
        case True
        then obtain chunk rs' where rs: "rs = Inr chunk # rs'" "chunk \<noteq> []" by blast
        have "read_head (buf @ chunk) rs' = (res, buf', rest)"
          using 1(2) None short rs by (subst (asm) read_head.simps) simp
        from "1.IH" [OF None short rs(1) refl rs(2) this] show ?thesis
          using 1(3) short rs(1) by (simp add: client_bytes_def)
      next
        case False
        then show ?thesis using 1(2,4) None nt short
          by (subst (asm) read_head.simps) (auto simp: head_result_ok_def client_bytes_def split: list.splits sum.splits if_splits)
      qed
    qed
  qed
qed

section \<open>The rewritten head\<close>

text \<open>A reader of the head: lines that end in CR LF.\<close>

fun crlf_lines :: "bytes \<Rightarrow> bytes list" where
  "crlf_lines [] = [[]]"
| "crlf_lines (x # xs) =
     (if x = 13 \<and> xs \<noteq> [] \<and> hd xs = 10 then [] # crlf_lines (tl xs)
      else (case crlf_lines xs of l # ls \<Rightarrow> (x # l) # ls | [] \<Rightarrow> [[x]]))"

lemma crlf_lines_line: "13 \<notin> set l \<Longrightarrow> crlf_lines (l @ CRLF @ xs) = l # crlf_lines xs"
  by (induction l) (simp_all add: CRLF_def)

text \<open>The headers that are sent on: those of the client except the overridden ones, then three of our own.\<close>

definition overridden :: "string list" where
  "overridden = [''x-forwarded-for'', ''x-forwarded-proto'', ''x-forwarded-host'']"

definition kept_headers :: "header list \<Rightarrow> header list" where
  "kept_headers hs =
     map (\<lambda>(n, v). (if to_ascii_lowercase n = ''host'' then ''Host'' else n, v))
       (filter (\<lambda>(n, _). to_ascii_lowercase n \<notin> set overridden) hs)"

definition is_host :: "header \<Rightarrow> bool" where
  "is_host h \<longleftrightarrow> to_ascii_lowercase (fst h) = ''host''"

definition last_host :: "header list \<Rightarrow> bytes" where
  "last_host hs =
     (case find is_host (rev hs) of Some h \<Rightarrow> snd h | None \<Rightarrow> [])"

definition forwarded_headers :: "header list \<Rightarrow> SocketAddr \<Rightarrow> string \<Rightarrow> header list" where
  "forwarded_headers hs peer proto = kept_headers hs @
     [(''X-Forwarded-For'', as_bytes (show_ip (sa_ip peer))), (''X-Forwarded-Proto'', as_bytes proto),
      (''X-Forwarded-Host'', last_host hs)]"

definition header_line :: "header \<Rightarrow> bytes" where
  "header_line h = as_bytes (fst h) @ as_bytes '': '' @ snd h"

lemma as_bytes_append [simp]: "as_bytes (a @ b) = as_bytes a @ as_bytes b"
  by (simp add: as_bytes_def)

lemma find_SomeD: "find P xs = Some x \<Longrightarrow> x \<in> set xs \<and> P x"
  by (induction xs) (auto split: if_splits)

lemma head_step_eq:
  "head_step h (out, host) =
     (out @ concat (map (\<lambda>h. header_line h @ CRLF) (kept_headers [h])), if is_host h then snd h else host)"
  by (cases h) (simp add: head_step_def kept_headers_def overridden_def header_line_def is_host_def as_bytes_def Let_def)

lemma kept_headers_Cons: "kept_headers (h # hs) = kept_headers [h] @ kept_headers hs"
  by (simp add: kept_headers_def)

lemma last_host_Cons:
  "last_host (h # hs) = (if \<exists>h\<in>set hs. is_host h then last_host hs else if is_host h then snd h else [])"
proof -
  have "(\<exists>h\<in>set hs. is_host h) \<longleftrightarrow> find is_host (rev hs) \<noteq> None" by (auto simp: find_None_iff)
  then show ?thesis by (cases "find is_host (rev hs)") (simp_all add: last_host_def find_append)
qed

lemma fold_head_step:
  "fold head_step hs (out, host) =
     (out @ concat (map (\<lambda>h. header_line h @ CRLF) (kept_headers hs)),
      if \<exists>h\<in>set hs. is_host h then last_host hs else host)"
proof (induction hs arbitrary: out host)
  case (Cons h hs)
  show ?case unfolding fold_Cons comp_def head_step_eq Cons.IH
    by (subst kept_headers_Cons) (auto simp: last_host_Cons)
qed (simp add: kept_headers_def)

lemma last_host_none: "\<forall>h\<in>set hs. \<not> is_host h \<Longrightarrow> last_host hs = []"
  by (auto simp: last_host_def split: option.splits dest!: find_SomeD)

definition request_line :: "string \<Rightarrow> string \<Rightarrow> u8 \<Rightarrow> bytes" where
  "request_line meth path version = as_bytes (meth @ '' '' @ path @ '' HTTP/1.'') @ [48 + version]"

lemma build_head_lines:
  "build_head meth path version hs peer proto =
     concat (map (\<lambda>l. l @ CRLF) (request_line meth path version # map header_line (forwarded_headers hs peer proto) @ [[]]))"
  using last_host_none [of hs]
  by (auto simp: build_head_def fold_head_step request_line_def forwarded_headers_def header_line_def as_bytes_def
      code_numeral_simps comp_def Let_def split: prod.splits)

lemma crlf_lines_concat:
  "\<forall>l\<in>set ls. 13 \<notin> set l \<Longrightarrow> crlf_lines (concat (map (\<lambda>l. l @ CRLF) ls)) = ls @ [[]]"
  by (induction ls) (simp_all add: crlf_lines_line)

text \<open>Printed addresses hold no control characters.\<close>

definition printable :: "string \<Rightarrow> bool" where
  "printable s \<longleftrightarrow> (\<forall>c\<in>set s. 32 < code c)"

lemma printable_simps [simp]:
  "printable []" "printable (c # s) \<longleftrightarrow> 32 < code c \<and> printable s" "printable (s @ t) \<longleftrightarrow> printable s \<and> printable t"
  by (auto simp: printable_def)

lemma show_digits_printable: "base \<le> 16 \<Longrightarrow> 0 < base \<Longrightarrow> printable (show_digits fuel base n)"
proof (induction fuel base n rule: show_digits.induct)
  case (2 fuel base n)
  have "n mod base < 16" using 2(2,3) by (meson mod_less_divisor order_less_le_trans)
  then show ?case using 2 by (simp add: printable_def)
qed simp

lemma join_printable: "printable sep \<Longrightarrow> \<forall>x\<in>set xs. printable x \<Longrightarrow> printable (join sep xs)"
  by (induction sep xs rule: join.induct) simp_all

lemma show_v4_printable: "a < 256 \<Longrightarrow> b < 256 \<Longrightarrow> c < 256 \<Longrightarrow> d < 256 \<Longrightarrow> printable (show_v4 a b c d)"
  by (auto simp: show_v4_def show_u8_def digit_char_def code_numeral_simps)

lemma show_ip_printable: "printable (show_ip ip)"
proof -
  have v4: "printable (show_ipv4 a)" for a
  proof -
    have "unat (drop_bit 24 a) < 256" using unsigned_less [of a, where 'a = nat]
      by (simp add: drop_bit_eq_div unat_div less_mult_imp_div_less)
    moreover have "unat (take_bit 8 x) < 256" for x :: u32
      by (simp add: take_bit_eq_mod unat_mod)
    ultimately show ?thesis unfolding show_ipv4_def by (intro show_v4_printable)
  qed
  have hex: "printable (show_u16 16 n)" for n unfolding show_u16_def by (rule show_digits_printable) simp_all
  have colon: "printable '':''" "printable ''::''" "printable ''::ffff:''" by (simp_all add: code_numeral_simps)
  have "printable (show_ipv6 a)" for a
    unfolding show_ipv6_def using v4 hex colon
    by (auto simp: Let_def intro!: join_printable split: option.splits prod.splits if_splits dest!: in_set_takeD in_set_dropD)
  with v4 show ?thesis by (simp add: show_ip_def split: IpAddr.split)
qed

lemma printable_no_cr: "printable s \<Longrightarrow> 13 \<notin> set (as_bytes s)"
proof
  assume "printable s" "13 \<in> set (as_bytes s)"
  then obtain c where c: "32 < code c" "of_nat (code c) = (13 :: 8 word)" by (auto simp: printable_def as_bytes_def)
  have "code c < 256" by (simp add: code_def)
  then have "unat (of_nat (code c) :: 8 word) = code c" by (simp add: unat_of_nat)
  with c show False by simp
qed

definition clean :: "bytes \<Rightarrow> bool" where
  "clean bs \<longleftrightarrow> 13 \<notin> set bs"

text \<open>What \<open>httparse\<close> guarantees of a parsed request: no carriage return in the method, the path, the names or
  the values.\<close>

definition clean_request :: "string \<Rightarrow> string \<Rightarrow> header list \<Rightarrow> bool" where
  "clean_request meth path hs \<longleftrightarrow>
     clean (as_bytes meth) \<and> clean (as_bytes path) \<and> list_all (\<lambda>(n, v). clean (as_bytes n) \<and> clean v) hs"

lemma clean_simps [simp]: "clean []" "clean (x # xs) \<longleftrightarrow> x \<noteq> 13 \<and> clean xs" "clean (xs @ ys) \<longleftrightarrow> clean xs \<and> clean ys"
  by (auto simp: clean_def)

lemma clean_kept: "list_all (\<lambda>(n, v). clean (as_bytes n) \<and> clean v) hs \<Longrightarrow> h \<in> set (kept_headers hs) \<Longrightarrow> clean (header_line h)"
  by (auto simp: kept_headers_def header_line_def list_all_iff as_bytes_def code_numeral_simps split: if_splits)

lemma clean_last_host: "list_all (\<lambda>(n, v). clean (as_bytes n) \<and> clean v) hs \<Longrightarrow> clean (last_host hs)"
  by (auto simp: last_host_def list_all_iff split: option.splits dest!: find_SomeD)

lemma clean_forwarded:
  assumes "clean_request meth path hs" "printable proto" "h \<in> set (forwarded_headers hs peer proto)"
  shows "clean (header_line h)"
  using assms printable_no_cr [OF assms(2)] printable_no_cr [OF show_ip_printable [of "sa_ip peer"]]
    clean_kept [of hs h] clean_last_host [of hs]
  by (auto simp: forwarded_headers_def clean_request_def header_line_def)
    (auto simp: clean_def as_bytes_def code_numeral_simps)

lemma kept_not_overridden: "name \<in> set overridden \<Longrightarrow> filter (\<lambda>(n, _). to_ascii_lowercase n = name) (kept_headers hs) = []"
  by (auto simp: kept_headers_def filter_empty_conv overridden_def lowercase_eval)

lemma own_names:
  "to_ascii_lowercase ''X-Forwarded-For'' = ''x-forwarded-for''" "to_ascii_lowercase ''X-Forwarded-Proto'' = ''x-forwarded-proto''"
  "to_ascii_lowercase ''X-Forwarded-Host'' = ''x-forwarded-host''"
  by (simp_all add: lowercase_eval)

section \<open>Admission\<close>

definition http_messages :: "http_action list \<Rightarrow> Message list" where
  "http_messages acts = agent_messages (concat (map (\<lambda>a. case a of Agent s \<Rightarrow> [s] | _ \<Rightarrow> []) acts))"

lemma http_messages_simps [simp]:
  "http_messages [] = []" "http_messages (Respond b # as) = http_messages as" "http_messages (Forward b # as) = http_messages as"
  "http_messages (Agent (SendMessage m r) # as) = m # http_messages as" "http_messages (Agent CopyDuplex # as) = http_messages as"
  "http_messages (map Agent ss) = agent_messages ss"
  by (simp_all add: http_messages_def comp_def)

text \<open>The route a request is addressed to.\<close>

definition http_select :: "(bytes \<Rightarrow> http_request option) \<Rightarrow> HostTable \<Rightarrow> reads \<Rightarrow> ServerRoute option" where
  "http_select parse table rs =
     (case read_head [] rs of
        (Inr (Some n), buf, _) \<Rightarrow>
          Option.bind (parse (take n buf)) (\<lambda>req.
            if rq_method req = None \<or> rq_path req = None then None
            else ht_lookup (host_for_lookup (host_header (rq_headers req))) table)
      | _ \<Rightarrow> None)"

text \<open>The bytes written to the agent stream.\<close>

definition forwarded :: "http_action list \<Rightarrow> bytes" where
  "forwarded acts = concat (map (\<lambda>a. case a of Forward b \<Rightarrow> b | _ \<Rightarrow> []) acts)"

definition responses :: "http_action list \<Rightarrow> bytes list" where
  "responses acts = concat (map (\<lambda>a. case a of Respond b \<Rightarrow> [b] | _ \<Rightarrow> []) acts)"

definition relays :: "http_action list \<Rightarrow> bool" where
  "relays acts \<longleftrightarrow> Agent CopyDuplex \<in> set acts"

lemma relay_http_outcome:
  assumes "relay_http J link route peer head body = (acts, relaying)"
  shows "relaying = relays acts"
    "m \<in> set (http_messages acts) \<Longrightarrow> m = open_tcp route (show_socket peer)"
    "relays acts \<Longrightarrow> responses acts = [] \<and> forwarded acts = head @ body
       \<and> (\<exists>frame p. fst (read_frame (lk_recv link)) = Ok (Some frame) \<and> from_frame J frame = Ok (MOpenOk p))"
    "responses acts \<in> {[], [BAD_GATEWAY]}"
  using assms
  by (auto simp: relay_http_def relays_def responses_def forwarded_def Let_def
      split: if_splits sum.splits option.splits Message.splits)

lemma handle_http_cases:
  obtains (unreadable) "http_select parse table rs = None"
      "handle_http J parse links dp table rs peer proto lim = ([], lim)"
  | (refused) st where "http_select parse table rs = None" "st = BAD_REQUEST \<or> st = NOT_FOUND"
      "handle_http J parse links dp table rs peer proto lim = ([Respond st], lim)"
  | (served) route n buf rest req meth path where "http_select parse table rs = Some route"
      "read_head [] rs = (Ok (Some n), buf, rest)" "parse (take n buf) = Some req"
      "rq_method req = Some meth" "rq_path req = Some path"
      "handle_http J parse links dp table rs peer proto lim = serve_http J links dp route peer lim
         (build_head meth path (case rq_version req of Some v \<Rightarrow> v | None \<Rightarrow> 1) (rq_headers req) peer proto) (drop n buf)"
proof -
  obtain res buf rest where rh: "read_head [] rs = (res, buf, rest)" by (cases "read_head [] rs")
  show ?thesis
  proof (cases "\<exists>n req meth path. res = Ok (Some n) \<and> parse (take n buf) = Some req \<and> rq_method req = Some meth
      \<and> rq_path req = Some path")
    case bad: False
    show ?thesis
    proof (cases "\<exists>n. res = Ok (Some n)")
      case True
      then obtain n where "res = Ok (Some n)" by blast
      with bad rh show ?thesis
        by (intro refused [of BAD_REQUEST])
          (auto simp: http_select_def handle_http_def Let_def split: option.split bind_split)
    next
      case False
      with rh show ?thesis
        by (intro unreadable) (auto simp: http_select_def handle_http_def split: sum.split option.split)
    qed
  next
    case True
    then obtain n req meth path where r: "res = Ok (Some n)" "parse (take n buf) = Some req"
      "rq_method req = Some meth" "rq_path req = Some path" by blast
    show ?thesis
    proof (cases "ht_lookup (host_for_lookup (host_header (rq_headers req))) table")
      case None
      then show ?thesis using refused [of NOT_FOUND] rh r by (simp add: http_select_def handle_http_def Let_def)
    next
      case (Some route)
      then show ?thesis
        using served [of route n buf rest req meth path] rh r
        by (simp add: http_select_def handle_http_def Let_def)
    qed
  qed
qed

lemma conn_active_guard:
  "take_guard route lim = (True, lim1) \<Longrightarrow> conn_active rid (release_guard route lim1) = conn_active rid lim"
  "take_guard route lim = (True, lim1) \<Longrightarrow> conn_active rid lim1
     = (if rid = sr_id route \<and> route_limit route \<noteq> None then conn_active rid lim + 1 else conn_active rid lim)"
  by (auto simp: take_guard_def release_guard_def try_acquire_def guard_drop_def fetch_add_def fetch_sub_def
      conn_active_def Let_def split: option.splits if_splits)

lemma serve_http_denied:
  "\<not> acl_admits dp route peer \<Longrightarrow> serve_http J links dp route peer lim head body = ([Respond FORBIDDEN], lim)"
  "acl_admits dp route peer \<Longrightarrow> \<not> fst (take_guard route lim) \<Longrightarrow>
     fst (serve_http J links dp route peer lim head body) = [Respond TOO_MANY]"
  "acl_admits dp route peer \<Longrightarrow> fst (take_guard route lim) \<Longrightarrow> cr_get (sr_node_id route) (dp_conns dp) = None \<Longrightarrow>
     fst (serve_http J links dp route peer lim head body) = [Respond BAD_GATEWAY]"
  by (auto simp: serve_http_def split: prod.splits bool.splits)

lemma serve_http_relays:
  assumes "serve_http J links dp route peer lim head body = (acts, lim')"
  obtains (refused) st where "acts = [Respond st]" "\<And>rid. conn_active rid lim' = conn_active rid lim"
  | (tried) conn lim1 relaying where "admits dp lim route peer" "cr_get (sr_node_id route) (dp_conns dp) = Some conn"
      "take_guard route lim = (True, lim1)"
      "relay_http J (links conn) route peer head body = (acts, relaying)"
      "lim' = (if relaying then lim1 else release_guard route lim1)"
proof -
  obtain g lim1 where g: "take_guard route lim = (g, lim1)" by (cases "take_guard route lim")
  show ?thesis
  proof (cases "acl_admits dp route peer \<and> g")
    case False
    with assms g show ?thesis
      by (intro refused [of "if acl_admits dp route peer then TOO_MANY else FORBIDDEN"])
        (auto simp: serve_http_def take_guard_refused split: if_splits)
  next
    case True
    then have "fst (take_guard route lim)" using g by simp
    note adm = this [unfolded take_guard_iff]
    show ?thesis
    proof (cases "cr_get (sr_node_id route) (dp_conns dp)")
      case None
      with assms g True show ?thesis by (intro refused) (auto simp: serve_http_def conn_active_guard)
    next
      case (Some conn)
      obtain acts1 relaying where rl: "relay_http J (links conn) route peer head body = (acts1, relaying)"
        by (cases "relay_http J (links conn) route peer head body")
      show ?thesis
        by (rule tried [of conn lim1 relaying])
          (use assms g True Some rl adm in \<open>auto simp: serve_http_def admits_def Let_def\<close>)
    qed
  qed
qed

lemma serve_http_messages:
  "m \<in> set (http_messages (fst (serve_http J links dp route peer lim head body))) \<Longrightarrow>
     admits dp lim route peer \<and> m = open_tcp route (show_socket peer)"
proof (cases "serve_http J links dp route peer lim head body")
  case (Pair acts lim')
  assume "m \<in> set (http_messages (fst (serve_http J links dp route peer lim head body)))"
  then have "m \<in> set (http_messages acts)" using Pair by simp
  with Pair show ?thesis by (cases rule: serve_http_relays) (auto dest: relay_http_outcome(2))
qed

definition http_opens :: "data_plane \<Rightarrow> ConnLimiter \<Rightarrow> SocketAddr
    \<Rightarrow> serde_json \<times> (bytes \<Rightarrow> http_request option) \<times> (nat \<Rightarrow> agent_link) \<times> HostTable \<times> reads \<times> string \<Rightarrow> Message list" where
  "http_opens dp lim peer = (\<lambda>(J, parse, links, table, rs, proto).
     http_messages (fst (handle_http J parse links dp table rs peer proto lim)))"

interpretation http_entry: data_plane_entry http_opens "\<lambda>(J, parse, links, table, rs, proto). http_select parse table rs"
proof (unfold_locales, goal_cases)
  case (1 m dp lim peer req)
  obtain J parse links table rs proto where req: "req = (J, parse, links, table, rs, proto)" by (cases req)
  show ?case
    using 1 unfolding req http_opens_def
    by (cases rule: handle_http_cases [of parse table rs J links dp peer proto lim])
      (auto dest: serve_http_messages)
qed

text \<open>The route a TLS connection is addressed to: by SNI for passthrough, by host after termination.\<close>

definition https_select :: "(bytes \<Rightarrow> http_request option) \<Rightarrow> (Prefixed \<Rightarrow> reads option) \<Rightarrow> HostTable \<Rightarrow> reads \<Rightarrow> ServerRoute option" where
  "https_select parse tls table rs =
     (case peek_sni rs of
        (Some (Inr (sni, prefix)), rest) \<Rightarrow>
          (case Option.bind (Option.bind sni (\<lambda>s. ht_lookup s table)) (\<lambda>r. if tls_passthrough r then Some r else None) of
             Some route \<Rightarrow> Some route
           | None \<Rightarrow> Option.bind (tls \<lparr>px_prefix = prefix, px_inner = rest\<rparr>) (http_select parse table))
      | _ \<Rightarrow> None)"

definition https_opens :: "data_plane \<Rightarrow> ConnLimiter \<Rightarrow> SocketAddr
    \<Rightarrow> serde_json \<times> (bytes \<Rightarrow> http_request option) \<times> (Prefixed \<Rightarrow> reads option) \<times> (nat \<Rightarrow> agent_link) \<times> HostTable \<times> reads
    \<Rightarrow> Message list" where
  "https_opens dp lim peer = (\<lambda>(J, parse, tls, links, table, rs).
     case handle_https J parse tls links dp table rs peer lim of Some (acts, _) \<Rightarrow> http_messages acts | None \<Rightarrow> [])"

lemma forward_passthrough_messages:
  "m \<in> set (agent_messages (forward_passthrough J ob so recv route peer)) \<Longrightarrow> m = open_tcp route peer"
  by (auto simp: forward_passthrough_def Let_def split: if_splits sum.splits option.splits Message.splits)

lemma https_passthrough_messages:
  "m \<in> set (http_messages (fst (https_passthrough J links dp route peer lim))) \<Longrightarrow>
     admits dp lim route peer \<and> m = open_tcp route (show_socket peer)"
  using take_guard_iff [of route lim]
  by (auto simp: https_passthrough_def admits_def Let_def split: if_splits option.splits prod.splits bool.splits
      dest: forward_passthrough_messages)

interpretation https_entry: data_plane_entry https_opens "\<lambda>(J, parse, tls, links, table, rs). https_select parse tls table rs"
proof (unfold_locales, goal_cases)
  case (1 m dp lim peer req)
  obtain J parse tls links table rs where req: "req = (J, parse, tls, links, table, rs)" by (cases req)
  from 1 obtain sni prefix rest where p: "peek_sni rs = (Some (Ok (sni, prefix)), rest)"
    unfolding req https_opens_def handle_https_def by (auto split: prod.splits option.splits sum.splits)
  let ?pass = "Option.bind (Option.bind sni (\<lambda>s. ht_lookup s table)) (\<lambda>r. if tls_passthrough r then Some r else None)"
  show ?case
  proof (cases ?pass)
    case (Some route)
    have "m \<in> set (http_messages (fst (https_passthrough J links dp route peer lim)))"
      using 1 p Some unfolding req https_opens_def handle_https_def
      by (cases "https_passthrough J links dp route peer lim") simp
    from https_passthrough_messages [OF this] show ?thesis using p Some by (simp add: req https_select_def)
  next
    case None
    obtain plain where plain: "tls \<lparr>px_prefix = prefix, px_inner = rest\<rparr> = Some plain"
      using 1 p None unfolding req https_opens_def handle_https_def by (auto split: option.splits)
    have "m \<in> set (http_opens dp lim peer (J, parse, links, table, plain, ''https''))"
      using 1 p None plain unfolding req https_opens_def handle_https_def http_opens_def
      by (cases "handle_http J parse links dp table plain peer ''https'' lim") simp
    from http_entry.only_admitted [OF this] show ?thesis using p None plain by (simp add: req https_select_def)
  qed
qed

section \<open>Properties\<close>

text \<open>Reading a request head is bounded and loses nothing.  Whatever arrives in reads of at most 8192 bytes,
  the buffer stays below 64 KiB + 8 KiB, buffer and unread rest are exactly the bytes of the client, and the
  result says the truth about the buffer: a position is the end of a blank line inside it, no position means
  that it holds none, and the size error comes only at 64 KiB or more.\<close>

theorem read_head_bounded:
  assumes "small_reads rs" "read_head [] rs = (res, buf, rest)"
  shows "length buf < MAX_HEAD_BYTES + 8192 \<and> buf @ client_bytes rest = client_bytes rs \<and> head_result_ok res buf"
  using read_head_inv [OF assms(2,1)] by (simp add: MAX_HEAD_BYTES_def)

theorem read_head_bounded_witness:
  "small_reads [Inr [71, 13, 10], Inr [13, 10, 7]]
   \<and> read_head [] [Inr [71, 13, 10], Inr [13, 10, 7]] = (Ok (Some 5), [71, 13, 10, 13, 10, 7], [])
   \<and> head_result_ok (Ok (Some 5)) [71, 13, 10, 13, 10, 7]"
proof -
  have s: "small_reads [Inr [71, 13, 10], Inr [13, 10, 7]]" by simp
  have "read_head [] [Inr [71, 13, 10], Inr [13, 10, 7]] = (Ok (Some 5), [71, 13, 10, 13, 10, 7], [])"
    by (simp add: read_head.simps find_header_end_def CRLF_def MAX_HEAD_BYTES_def)
  with read_head_bounded [OF s this] s show ?thesis by blast
qed

text \<open>C22. The rewritten head is the rendering of the forwarded headers, and a client cannot forge the forwarding
  headers.  For a request without carriage returns, as the parser delivers it, the lines of the head that is
  sent to the agent are the request line, the client's headers except X-Forwarded-For, -Proto and -Host in
  order, and exactly one of each of these three with the values of this connection.\<close>

theorem build_head_rendering:
  assumes "clean_request meth path hs" "version \<in> {0, 1}" "printable proto"
  shows "crlf_lines (build_head meth path version hs peer proto) =
       request_line meth path version # map header_line (forwarded_headers hs peer proto) @ [[], []]
     \<and> (\<forall>(name, value) \<in> {(''x-forwarded-for'', as_bytes (show_ip (sa_ip peer))), (''x-forwarded-proto'', as_bytes proto),
           (''x-forwarded-host'', last_host hs)}.
          map snd (filter (\<lambda>(n, _). to_ascii_lowercase n = name) (forwarded_headers hs peer proto)) = [value])"
proof
  have v: "48 + version \<noteq> 13" using assms(2) by auto
  have "clean (request_line meth path version)"
    using assms(1) v by (auto simp: request_line_def clean_request_def) (simp add: as_bytes_def code_numeral_simps)
  then show "crlf_lines (build_head meth path version hs peer proto) =
      request_line meth path version # map header_line (forwarded_headers hs peer proto) @ [[], []]"
    unfolding build_head_lines
    by (subst crlf_lines_concat) (auto simp: clean_def [symmetric] dest: clean_forwarded [OF assms(1,3)])
  show "\<forall>(name, value) \<in> {(''x-forwarded-for'', as_bytes (show_ip (sa_ip peer))), (''x-forwarded-proto'', as_bytes proto),
         (''x-forwarded-host'', last_host hs)}.
      map snd (filter (\<lambda>(n, _). to_ascii_lowercase n = name) (forwarded_headers hs peer proto)) = [value]"
    by (auto simp: forwarded_headers_def kept_not_overridden own_names) (simp_all add: kept_not_overridden overridden_def)
qed

theorem build_head_rendering_witness:
  "map snd (filter (\<lambda>(n, _). to_ascii_lowercase n = ''x-forwarded-proto'')
      (forwarded_headers [(''X-Forwarded-Proto'', [120]), (''Host'', [97])] \<lparr>sa_ip = V4 1, sa_port = 9\<rparr> ''http'')) = [as_bytes ''http'']"
proof -
  have "clean_request ''GET'' ''/'' [(''X-Forwarded-Proto'', [120]), (''Host'', [97])]" "printable ''http''"
    by (simp_all add: clean_request_def as_bytes_def code_numeral_simps)
  from build_head_rendering [OF this(1) _ this(2), of 1 "\<lparr>sa_ip = V4 1, sa_port = 9\<rparr>"] show ?thesis by auto
qed

text \<open>C23. The outcome of an HTTP request.  If the connection is relayed then the request was admitted, the agent
  had answered OPEN_OK, the client got no answer from the server itself, and the agent stream got the
  rewritten head followed by all bytes read beyond the head.  If it is not relayed then the client gets at
  most one answer and all connection counters are as before.  Requests that are denied by the ACL, above
  the limit, or for a node that is not connected get 403, 429 and 502.\<close>

theorem http_outcome:
  assumes "handle_http J parse links dp table rs peer proto lim = (acts, lim')"
  shows "(relays acts \<longrightarrow> responses acts = [] \<and>
       (\<exists>route n buf rest req meth path conn frame p.
          http_select parse table rs = Some route \<and> admits dp lim route peer
          \<and> cr_get (sr_node_id route) (dp_conns dp) = Some conn
          \<and> fst (read_frame (lk_recv (links conn))) = Ok (Some frame) \<and> from_frame J frame = Ok (MOpenOk p)
          \<and> read_head [] rs = (Ok (Some n), buf, rest) \<and> parse (take n buf) = Some req
          \<and> rq_method req = Some meth \<and> rq_path req = Some path
          \<and> forwarded acts = build_head meth path (case rq_version req of Some v \<Rightarrow> v | None \<Rightarrow> 1)
              (rq_headers req) peer proto @ drop n buf))
    \<and> (\<not> relays acts \<longrightarrow> length (responses acts) \<le> 1 \<and> (\<forall>rid. conn_active rid lim' = conn_active rid lim))
    \<and> (\<forall>route. http_select parse table rs = Some route \<longrightarrow>
         (if \<not> acl_admits dp route peer then acts = [Respond FORBIDDEN]
          else if \<not> fst (take_guard route lim) then acts = [Respond TOO_MANY]
          else cr_get (sr_node_id route) (dp_conns dp) = None \<longrightarrow> acts = [Respond BAD_GATEWAY]))"
proof (cases rule: handle_http_cases [of parse table rs J links dp peer proto lim])
  case unreadable
  then show ?thesis using assms by (simp add: relays_def responses_def)
next
  case (refused st)
  then have "acts = [Respond st]" "lim' = lim" using assms by simp_all
  with refused(1) show ?thesis by (simp add: relays_def responses_def)
next
  case (served route n buf rest req meth path)
  let ?head = "build_head meth path (case rq_version req of Some v \<Rightarrow> v | None \<Rightarrow> 1) (rq_headers req) peer proto"
  have sv: "serve_http J links dp route peer lim ?head (drop n buf) = (acts, lim')" using assms served(6) by simp
  have denied: "\<forall>r. http_select parse table rs = Some r \<longrightarrow>
      (if \<not> acl_admits dp r peer then acts = [Respond FORBIDDEN]
       else if \<not> fst (take_guard r lim) then acts = [Respond TOO_MANY]
       else cr_get (sr_node_id r) (dp_conns dp) = None \<longrightarrow> acts = [Respond BAD_GATEWAY])"
  proof -
    have "acts = fst (serve_http J links dp route peer lim ?head (drop n buf))" using sv by simp
    then show ?thesis using served(1) by (simp add: serve_http_denied)
  qed
  from sv show ?thesis
  proof (cases rule: serve_http_relays)
    case (refused st)
    then have "\<not> relays acts" "length (responses acts) \<le> 1" by (simp_all add: relays_def responses_def)
    with refused(2) denied show ?thesis by blast
  next
    case (tried conn lim1 relaying)
    note out = relay_http_outcome [OF tried(4)]
    have "length (responses acts) \<le> 1" using out(4) by auto
    moreover have "\<not> relays acts \<Longrightarrow> conn_active rid lim' = conn_active rid lim" for rid
      using tried(3,5) out(1) by (simp add: conn_active_guard)
    ultimately show ?thesis using out(3) tried(1,2) served(1-5) denied by blast
  qed
qed

definition sample_plane :: data_plane where
  "sample_plane = \<lparr>dp_conns = [], dp_acl = empty_snapshot\<rparr>"

definition sample_request :: http_request where
  "sample_request = \<lparr>rq_method = Some ''GET'', rq_path = Some ''/'', rq_version = Some 1, rq_headers = [(''Host'', [97, 98])]\<rparr>"

lemma sample_select: "http_select (\<lambda>_. Some sample_request) [(''ab'', sample_route)] [Inr [71, 13, 10, 13, 10]] = Some sample_route"
  by (simp add: http_select_def read_head.simps find_header_end_def CRLF_def MAX_HEAD_BYTES_def sample_request_def host_header_def
      eq_ignore_ascii_case_def lowercase_eval from_utf8_lossy_ab host_for_lookup_def rsplit_once_def split_once_def ht_lookup_def)

theorem http_outcome_witness:
  "\<forall>J links. fst (handle_http J (\<lambda>_. Some sample_request) links sample_plane [(''ab'', sample_route)]
      [Inr [71, 13, 10, 13, 10]] \<lparr>sa_ip = V4 1, sa_port = 9\<rparr> ''http'' Map.empty) = [Respond BAD_GATEWAY]"
proof (intro allI)
  fix J links
  let ?h = "handle_http J (\<lambda>_. Some sample_request) links sample_plane [(''ab'', sample_route)]
      [Inr [71, 13, 10, 13, 10]] \<lparr>sa_ip = V4 1, sa_port = 9\<rparr> ''http'' Map.empty"
  have "acl_admits sample_plane sample_route \<lparr>sa_ip = V4 1, sa_port = 9\<rparr>"
    by (simp add: acl_admits_def acl_allows_def sample_plane_def empty_snapshot_def)
  moreover have "fst (take_guard sample_route Map.empty)"
    by (simp add: take_guard_def route_limit_def sample_route_def)
  moreover have "cr_get (sr_node_id sample_route) (dp_conns sample_plane) = None"
    by (simp add: sample_plane_def cr_get_def)
  ultimately show "fst ?h = [Respond BAD_GATEWAY]"
    using http_outcome [of J "\<lambda>_. Some sample_request" links sample_plane "[(''ab'', sample_route)]" "[Inr [71, 13, 10, 13, 10]]"
        "\<lparr>sa_ip = V4 1, sa_port = 9\<rparr>" "''http''" Map.empty "fst ?h" "snd ?h"] sample_select by simp
qed

text \<open>With a bare LF LF inside the head, where the head ends depends on how the bytes were split into reads: the search
  prefers a later CR LF CR LF to an earlier LF LF.\<close>

lemma head_end_depends_on_reads:
  "fst (read_head [] [Inr [65, 10, 10], Inr [66, 13, 10, 13, 10]]) = Ok (Some 3)"
  "fst (read_head [] [Inr [65, 10, 10, 66, 13, 10, 13, 10]]) = Ok (Some 8)"
  by (simp_all add: read_head.simps find_header_end_def CRLF_def MAX_HEAD_BYTES_def)

end
