(* ===== verification/Startup.thy ===== *)
theory Startup
  imports Backup Certs HttpProxy Agent
begin

text \<open>
  Configuration files and start-up: \<open>crates/tunnel-config\<close> (defaults and validation), the start-up sequence and the demo
  data of \<open>server/src/main.rs\<close>, the readiness flags and health endpoints (\<open>readiness.rs\<close>, \<open>api/health.rs\<close>), and the
  resolution of the server addresses in \<open>agent/src/main.rs\<close>.

  The TOML reader, files, sockets, name resolution, the database connection and the QUIC set-up are parameters,
  collected in the record \<open>startup_io\<close>.  What the server spawns (accept loops, the reconcile task, the API server)
  is modelled in the theories of those components; here the state they start from is built.
\<close>

section \<open>Server configuration\<close>

datatype ConfigInvalid = Invalid string

record HttpConfig = http_bind :: string
record HttpsConfig = https_bind :: string

record TlsConfig =
  tls_subjects :: "string list"
  tls_cert_der_path :: "string option"
  tls_key_der_path :: "string option"

record QuicConfig =
  quic_bind :: string
  max_concurrent_bidi_streams :: u64
  max_concurrent_uni_streams :: u64
  idle_timeout_seconds :: u64

record InternalConfig =
  internal_bind :: string
  web_dir :: "string option"

record DatabaseConfig = database_url :: string
record LoggingConfig = logging_level :: string

record DemoConfig =
  demo_enabled :: bool
  demo_token :: string
  demo_hostname :: string
  demo_target_host :: string
  demo_target_port :: u16

record ServerSecurityConfig =
  max_login_attempts :: u32
  login_window_seconds :: u64
  allow_unsafe_targets :: bool

record ServerConfig =
  cfg_http :: HttpConfig
  cfg_https :: HttpsConfig
  cfg_quic :: QuicConfig
  cfg_internal :: InternalConfig
  cfg_database :: DatabaseConfig
  cfg_logging :: LoggingConfig
  cfg_security :: ServerSecurityConfig
  cfg_tls :: TlsConfig
  cfg_demo :: DemoConfig

definition default_tls :: TlsConfig where
  "default_tls = \<lparr>tls_subjects = [''localhost''], tls_cert_der_path = None, tls_key_der_path = None\<rparr>"

definition default_demo :: DemoConfig where
  "default_demo = \<lparr>demo_enabled = False, demo_token = [], demo_hostname = ''app.example.com'',
     demo_target_host = ''target'', demo_target_port = 5678\<rparr>"

definition default_server_security :: ServerSecurityConfig where
  "default_server_security = \<lparr>max_login_attempts = 5, login_window_seconds = 300, allow_unsafe_targets = False\<rparr>"

definition default_http :: HttpConfig where "default_http = \<lparr>http_bind = ''0.0.0.0:443''\<rparr>"
definition default_https :: HttpsConfig where "default_https = \<lparr>https_bind = ''0.0.0.0:443''\<rparr>"

definition default_quic :: QuicConfig where
  "default_quic = \<lparr>quic_bind = ''0.0.0.0:443'', max_concurrent_bidi_streams = 10000, max_concurrent_uni_streams = 1000,
     idle_timeout_seconds = 60\<rparr>"

definition default_internal :: InternalConfig where
  "default_internal = \<lparr>internal_bind = ''127.0.0.1:8080'', web_dir = None\<rparr>"

definition default_database :: DatabaseConfig where "default_database = \<lparr>database_url = ''sqlite://tunnel.db''\<rparr>"
definition default_logging :: LoggingConfig where "default_logging = \<lparr>logging_level = ''info''\<rparr>"

definition default_server_config :: ServerConfig where
  "default_server_config =
     \<lparr>cfg_http = default_http, cfg_https = default_https, cfg_quic = default_quic, cfg_internal = default_internal,
      cfg_database = default_database, cfg_logging = default_logging, cfg_security = default_server_security,
      cfg_tls = default_tls, cfg_demo = default_demo\<rparr>"

definition server_validate :: "ServerConfig \<Rightarrow> (ConfigInvalid, unit) result" where
  "server_validate c =
     (if list_ex (\<lambda>bind. bind = [])
           [http_bind (cfg_http c), https_bind (cfg_https c), quic_bind (cfg_quic c), internal_bind (cfg_internal c)]
      then Err (Invalid ''empty bind address'')
      else if database_url (cfg_database c) = [] then Err (Invalid ''empty database url'')
      else if max_login_attempts (cfg_security c) = 0 then Err (Invalid ''max_login_attempts must be at least 1'')
      else if demo_enabled (cfg_demo c) \<and> demo_token (cfg_demo c) = []
      then Err (Invalid ''demo.enabled requires a non-empty demo.token'')
      else Ok ())"

section \<open>Agent configuration\<close>

record ServerEntry = entry_address :: string

record ServerListConfig =
  endpoints :: "string list"
  server_ca :: "string option"

record AuthConfig = auth_token :: string
record AgentInfoConfig = agent_name :: string
record DataConfig = data_directory :: string
record HealthConfig = health_bind :: string

record AgentConfig =
  acfg_servers :: "ServerEntry list"
  acfg_server :: ServerListConfig
  acfg_auth :: AuthConfig
  acfg_agent :: AgentInfoConfig
  acfg_data :: DataConfig
  acfg_health :: HealthConfig
  acfg_security :: SecurityConfig

definition default_agent_config :: AgentConfig where
  "default_agent_config =
     \<lparr>acfg_servers = [], acfg_server = \<lparr>endpoints = [], server_ca = None\<rparr>, acfg_auth = \<lparr>auth_token = []\<rparr>,
      acfg_agent = \<lparr>agent_name = ''agent''\<rparr>, acfg_data = \<lparr>data_directory = ''/var/lib/tunnel-agent''\<rparr>,
      acfg_health = \<lparr>health_bind = ''127.0.0.1:9090''\<rparr>, acfg_security = default_security\<rparr>"

definition server_addresses :: "AgentConfig \<Rightarrow> string list" where
  "server_addresses c =
     (if acfg_servers c \<noteq> [] then map entry_address (acfg_servers c) else endpoints (acfg_server c))"

definition agent_validate :: "AgentConfig \<Rightarrow> (ConfigInvalid, unit) result" where
  "agent_validate c =
     (let addresses = server_addresses c in
      if addresses = [] then Err (Invalid ''no server endpoints'')
      else if list_ex (\<lambda>a. trim a = []) addresses then Err (Invalid ''empty server address'')
      else if auth_token (acfg_auth c) = [] then Err (Invalid ''empty auth token'')
      else if agent_name (acfg_agent c) = [] then Err (Invalid ''empty agent name'')
      else if health_bind (acfg_health c) = [] then Err (Invalid ''empty health bind address'')
      else case find (\<lambda>cidr. parse_cidr cidr = None) (allow_targets (acfg_security c) @ deny_targets (acfg_security c)) of
        Some cidr \<Rightarrow> Err (Invalid (''invalid target CIDR: '' @ cidr))
      | None \<Rightarrow> Ok ())"

text \<open>Resolution of the configured addresses; an address that does not resolve is skipped.\<close>

definition resolve_endpoint :: "(string \<Rightarrow> SocketAddr list option) \<Rightarrow> string \<Rightarrow> (SocketAddr \<times> string) option" where
  "resolve_endpoint lookup_host endpoint =
     (case rsplit_once CHR '':'' endpoint of
        None \<Rightarrow> None
      | Some (host, port) \<Rightarrow>
          (case lookup_host endpoint of
             Some (addr # _) \<Rightarrow> Some (addr, host)
           | _ \<Rightarrow> None))"

definition resolve_endpoints :: "(string \<Rightarrow> SocketAddr list option) \<Rightarrow> string list \<Rightarrow> (SocketAddr \<times> string) list option" where
  "resolve_endpoints lookup_host addresses =
     (let resolved = List.map_filter (resolve_endpoint lookup_host) addresses in
      if resolved = [] then None else Some resolved)"

section \<open>Readiness\<close>

record Readiness =
  rd_db :: bool
  rd_config :: bool
  rd_quic :: bool
  rd_http :: bool

definition readiness_new :: Readiness where
  "readiness_new = \<lparr>rd_db = False, rd_config = False, rd_quic = False, rd_http = False\<rparr>"

definition mark_db :: "Readiness \<Rightarrow> Readiness" where "mark_db r = r\<lparr>rd_db := True\<rparr>"
definition mark_config :: "Readiness \<Rightarrow> Readiness" where "mark_config r = r\<lparr>rd_config := True\<rparr>"
definition mark_quic :: "Readiness \<Rightarrow> Readiness" where "mark_quic r = r\<lparr>rd_quic := True\<rparr>"
definition mark_http :: "Readiness \<Rightarrow> Readiness" where "mark_http r = r\<lparr>rd_http := True\<rparr>"

definition all_ready :: "Readiness \<Rightarrow> bool" where
  "all_ready r \<longleftrightarrow> rd_db r \<and> rd_config r \<and> rd_quic r \<and> rd_http r"

text \<open>The answer of \<open>/ready\<close>: status, text and the four components.\<close>

definition ready :: "bool \<Rightarrow> Readiness \<Rightarrow> nat \<times> string \<times> bool \<times> bool \<times> bool \<times> bool" where
  "ready db_ping r =
     (let database = db_ping \<and> rd_db r; all = (database \<and> rd_config r \<and> rd_quic r \<and> rd_http r) in
      (if all then 200 else 503, if all then ''ready'' else ''not_ready'', database, rd_config r, rd_quic r, rd_http r))"

section \<open>Demo data\<close>

definition DEMO_NODE_ID :: string where "DEMO_NODE_ID = ''aaaaaaaa-aaaa-4aaa-8aaa-aaaaaaaaaa01''"
definition DEMO_CRED_ID :: string where "DEMO_CRED_ID = ''aaaaaaaa-aaaa-4aaa-8aaa-aaaaaaaaaa02''"
definition DEMO_ROUTE_ID :: string where "DEMO_ROUTE_ID = ''aaaaaaaa-aaaa-4aaa-8aaa-aaaaaaaaaa03''"

definition demo_columns :: "DemoConfig \<Rightarrow> RouteColumns" where
  "demo_columns demo =
     \<lparr>col_name = ''demo-web'', col_node_id = DEMO_NODE_ID, col_route_type = ''http'', col_enabled = True,
      col_listen_host = None, col_listen_port = None, col_hostname = Some (demo_hostname demo),
      col_target_host = demo_target_host demo, col_target_port = uint (demo_target_port demo),
      col_tls_mode = ''none'', col_limits = None\<rparr>"

text \<open>The statements are not one transaction: what was written before an error stays.\<close>

definition seed_demo :: "externals \<Rightarrow> string \<Rightarrow> DemoConfig \<Rightarrow> Db \<Rightarrow> (DbError, unit) result \<times> Db" where
  "seed_demo X ts demo db =
     (if node_name_exists ''demo-node'' None db then (Ok (), db)
      else case create_node DEMO_NODE_ID ''demo-node'' None ts db of
        Inl e \<Rightarrow> (Err e, db)
      | Inr db1 \<Rightarrow>
          (case create_credential DEMO_CRED_ID DEMO_NODE_ID ''token'' (x_hash_token X (demo_token demo)) None ts db1 of
             Inl e \<Rightarrow> (Err e, db1)
           | Inr db2 \<Rightarrow>
               (case create_route DEMO_ROUTE_ID (demo_columns demo) ts db2 of
                  Inl e \<Rightarrow> (Err e, db2)
                | Inr db3 \<Rightarrow> (Ok (), db3))))"

section \<open>The start-up sequence\<close>

text \<open>\<open>str::parse::<SocketAddr>\<close>: an IPv4 address and a port, or an IPv6 address in brackets with an optional scope.\<close>

definition read_port :: "string \<Rightarrow> (nat \<times> string) option" where
  "read_port s = Option.bind (read_given_char CHR '':'' s) (\<lambda>t. read_number 10 (length t) True 65536 t)"

definition skip_scope_id :: "string \<Rightarrow> string" where
  "skip_scope_id s =
     (case Option.bind (read_given_char (CHR ''%'') s) (\<lambda>t. read_number 10 (length t) True (2 ^ 32) t) of
        Some (_, rest) \<Rightarrow> rest | None \<Rightarrow> s)"

definition parse_socket :: "string \<Rightarrow> SocketAddr option" where
  "parse_socket s =
     (case Option.bind (read_ipv4_addr s) (\<lambda>(gs, t). map_option (\<lambda>(p, r). (\<lparr>sa_ip = V4 (of_nat (octets_val 256 gs)), sa_port = of_nat p\<rparr>, r)) (read_port t)) of
        Some (addr, rest) \<Rightarrow> if rest = [] then Some addr else None
      | None \<Rightarrow>
          (case Option.bind (read_given_char (CHR ''['') s) (\<lambda>t.
                Option.bind (read_ipv6_addr t) (\<lambda>(gs, u).
                Option.bind (read_given_char (CHR '']'') (skip_scope_id u)) (\<lambda>v.
                map_option (\<lambda>(p, r). (\<lparr>sa_ip = V6 (of_nat (octets_val 65536 gs)), sa_port = of_nat p\<rparr>, r)) (read_port v)))) of
             Some (addr, rest) \<Rightarrow> if rest = [] then Some addr else None
           | None \<Rightarrow> None))"

text \<open>The start of the agent, up to its reconnection loop.  Without a configured certificate the verifier of the
  connection is trust-on-first-use in a directory below the data directory.\<close>

datatype ClientTrust = RootCert bytes | Tofu string

record agent_io =
  ag_read_config :: "string option"
  ag_from_toml :: "string \<Rightarrow> (string, AgentConfig) result"
  ag_lookup_host :: "string \<Rightarrow> SocketAddr list option"
  ag_read_file :: "string \<Rightarrow> bytes option"
  ag_client_config_ok :: "ClientTrust \<Rightarrow> bool"
  ag_endpoint_ok :: bool
  ag_health_bind :: "SocketAddr \<Rightarrow> SocketAddr option"

datatype AgentError =
    AgentReadConfig
  | AgentConfigError ConfigInvalid
  | NoEndpointResolved
  | ReadCA string
  | ClientConfig
  | AgentEndpoint
  | ParseHealthBind string
  | BindHealth

record agent_run_args =
  ar_endpoints :: "(SocketAddr \<times> string) list"
  ar_trust :: ClientTrust
  ar_server_name :: string
  ar_auth :: AuthPayload
  ar_security :: SecurityConfig

definition join_path :: "string \<Rightarrow> string \<Rightarrow> string" where
  "join_path dir name = (if dir = [] \<or> last dir = CHR ''/'' then dir @ name else dir @ ''/'' @ name)"

definition build_client_config :: "agent_io \<Rightarrow> string option \<Rightarrow> string \<Rightarrow> (AgentError, ClientTrust) result" where
  "build_client_config io ca pin_dir =
     and_then (case ca of
         Some path \<Rightarrow> and_then (ok_or (ag_read_file io path) (ReadCA path)) (\<lambda>der. Ok (RootCert der))
       | None \<Rightarrow> Ok (Tofu pin_dir)) (\<lambda>trust.
     if ag_client_config_ok io trust then Ok trust else Err ClientConfig)"

definition agent_start :: "agent_io \<Rightarrow> (AgentError, agent_run_args) result" where
  "agent_start io =
     and_then (ok_or (ag_read_config io) AgentReadConfig) (\<lambda>text.
     and_then (map_err (\<lambda>m. AgentConfigError (Invalid m)) (ag_from_toml io text)) (\<lambda>cfg.
     and_then (map_err AgentConfigError (agent_validate cfg)) (\<lambda>_.
     and_then (ok_or (resolve_endpoints (ag_lookup_host io) (server_addresses cfg)) NoEndpointResolved) (\<lambda>eps.
     and_then (build_client_config io (server_ca (acfg_server cfg)) (join_path (data_directory (acfg_data cfg)) ''server-pins'')) (\<lambda>trust.
     if \<not> ag_endpoint_ok io then Err AgentEndpoint
     else
     and_then (ok_or (parse_socket (health_bind (acfg_health cfg))) (ParseHealthBind (health_bind (acfg_health cfg)))) (\<lambda>addr.
     and_then (ok_or (ag_health_bind io addr) BindHealth) (\<lambda>_.
     Ok \<lparr>ar_endpoints = eps, ar_trust = trust, ar_server_name = snd (hd eps),
         ar_auth = \<lparr>auth_node_id = None, auth_credential = Some (auth_token (acfg_auth cfg))\<rparr>,
         ar_security = acfg_security cfg\<rparr>)))))))"

record 'k startup_io =
  su_read_config :: "string option"
  su_from_toml :: "string \<Rightarrow> (string, ServerConfig) result"
  su_register_metrics :: bool
  su_connect :: "string \<Rightarrow> Db option"
  su_now :: string
  su_ext :: externals
  su_identity :: identity_io
  su_files :: "string \<rightharpoonup> bytes"
  su_server_config_ok :: "SelfSignedCert \<Rightarrow> bool"
  su_quic_bind :: "SocketAddr \<Rightarrow> SocketAddr option"
  su_tcp_bind :: "SocketAddr \<Rightarrow> SocketAddr option"
  su_udp_bind :: "SocketAddr \<Rightarrow> SocketAddr option"
  su_http_bind :: "SocketAddr \<Rightarrow> SocketAddr option"
  su_https_bind :: "SocketAddr \<Rightarrow> SocketAddr option"
  su_internal_bind :: "SocketAddr \<Rightarrow> SocketAddr option"
  su_pem :: "'k pem"

datatype RunError =
    ReadConfig
  | ConfigError ConfigInvalid
  | RegisterMetrics
  | ConnectDatabase
  | SeedDemo DbError
  | ParseBind string
  | Identity IdentityError
  | QuicSetUp
  | LoadConfig ConfigError
  | InsertRoute StartupError
  | TcpSetUp TcpProxyError
  | UdpSetUp TcpProxyError
  | BindListener string
  | LoadCertificates CertError

record 'k server =
  rs_config :: ServerConfig
  rs_readiness :: Readiness
  rs_hosts :: HostTable
  rs_tcp :: TcpProxy
  rs_udp :: UdpProxy
  rs_certs :: "'k CertStore"
  rs_app :: app

definition load_server_config :: "'k startup_io \<Rightarrow> (RunError, ServerConfig) result" where
  "load_server_config io =
     and_then (ok_or (su_read_config io) ReadConfig) (\<lambda>text.
     and_then (map_err (\<lambda>m. ConfigError (Invalid m)) (su_from_toml io text)) (\<lambda>cfg.
     and_then (map_err ConfigError (server_validate cfg)) (\<lambda>_. Ok cfg)))"

definition open_database :: "'k startup_io \<Rightarrow> ServerConfig \<Rightarrow> (RunError, Db) result" where
  "open_database io cfg =
     and_then (ok_or (su_connect io (database_url (cfg_database cfg))) ConnectDatabase) (\<lambda>db.
     if demo_enabled (cfg_demo cfg)
     then (case seed_demo (su_ext io) (su_now io) (cfg_demo cfg) db of
             (Inl e, _) \<Rightarrow> Err (SeedDemo e) | (Inr _, db') \<Rightarrow> Ok db')
     else Ok db)"

definition bind_quic :: "'k startup_io \<Rightarrow> ServerConfig \<Rightarrow> (RunError, SocketAddr) result" where
  "bind_quic io cfg =
     and_then (ok_or (parse_socket (quic_bind (cfg_quic cfg))) (ParseBind ''quic'')) (\<lambda>addr.
     and_then (map_err Identity (fst (load_or_generate (su_identity io) (tls_cert_der_path (cfg_tls cfg))
         (tls_key_der_path (cfg_tls cfg)) (tls_subjects (cfg_tls cfg)) (su_files io)))) (\<lambda>cert.
     if su_server_config_ok io cert then ok_or (su_quic_bind io addr) QuicSetUp else Err QuicSetUp))"

definition bind_entry :: "string \<Rightarrow> string \<Rightarrow> (SocketAddr \<Rightarrow> SocketAddr option) \<Rightarrow> (RunError, SocketAddr) result" where
  "bind_entry what text os_bind =
     and_then (ok_or (parse_socket text) (ParseBind what)) (\<lambda>addr. ok_or (os_bind addr) (BindListener what))"

definition server_run :: "'k startup_io \<Rightarrow> (RunError, 'k server) result" where
  "server_run io =
     and_then (load_server_config io) (\<lambda>cfg.
     if \<not> su_register_metrics io then Err RegisterMetrics
     else
     and_then (open_database io cfg) (\<lambda>db.
     and_then (bind_quic io cfg) (\<lambda>_.
     let r2 = mark_quic (mark_db readiness_new) in
     case cm_reload (x_parse_uuid (su_ext io)) (x_parse_limits (su_ext io)) (Ok (list_routes db)) new_config_manager of
       (Inl e, _) \<Rightarrow> Err (LoadConfig e)
     | (Inr _, config) \<Rightarrow>
     let acl = acl_reload (x_parse_uuid (su_ext io)) (Ok (list_acl_rules db)) empty_snapshot in
     and_then (map_err InsertRoute (build_tables (cm_snapshot config) [] [])) (\<lambda>(routes, hosts).
     and_then (map_err TcpSetUp (tp_bind (su_tcp_bind io) routes)) (\<lambda>tcp.
     and_then (map_err UdpSetUp (bind_with_limits (su_udp_bind io) routes [] cs_new UDP_IDLE_TIMEOUT default_rate_limits)) (\<lambda>udp.
     and_then (bind_entry ''http'' (http_bind (cfg_http cfg)) (su_http_bind io)) (\<lambda>_.
     and_then (map_err LoadCertificates (cert_from_rows (su_pem io) (list_certificates db))) (\<lambda>certs.
     and_then (bind_entry ''https'' (https_bind (cfg_https cfg)) (su_https_bind io)) (\<lambda>_.
     and_then (bind_entry ''internal'' (internal_bind (cfg_internal cfg)) (su_internal_bind io)) (\<lambda>_.
     Ok \<lparr>rs_config = cfg, rs_readiness = mark_http (mark_config r2), rs_hosts = hosts, rs_tcp = tcp, rs_udp = udp, rs_certs = certs,
         rs_app = \<lparr>a_db = db, a_sessions = new_store,
                   a_limiter = ll_new (max_login_attempts (cfg_security cfg)) (login_window_seconds (cfg_security cfg)),
                   a_acl = acl, a_config = config, a_sync = cs_new, a_events = [],
                   a_allow_unsafe_targets = allow_unsafe_targets (cfg_security cfg)\<rparr>\<rparr>))))))))))"

text \<open>The task that follows the configuration: one round after a change was broadcast.\<close>

definition follow_config :: "(SocketAddr \<Rightarrow> SocketAddr option) \<Rightarrow> (SocketAddr list \<Rightarrow> SocketAddr list) \<Rightarrow> 'k server \<Rightarrow> 'k server" where
  "follow_config os_bind order st =
     (let routes = cm_snapshot (a_config (rs_app st)) in
      st\<lparr>rs_hosts := ht_reconcile routes (rs_hosts st), rs_tcp := snd (tp_reconcile os_bind order routes (rs_tcp st))\<rparr>)"

section \<open>What a started server has\<close>

lemma find_key:
  "distinct (map f xs) \<Longrightarrow> find (\<lambda>x. f x = y) xs = Some x \<longleftrightarrow> x \<in> set xs \<and> f x = y"
  by (induction xs) (auto simp: image_iff)

context keyed_table begin

lemma load_look_iff:
  assumes "\<forall>r\<in>set rs. key r \<noteq> None" "ins_all rs empty = Ok t"
  shows "look k t = Some r \<longleftrightarrow> r \<in> set rs \<and> key r = Some (norm k)"
proof -
  have "distinct (map key rs)" using load_distinct [OF assms(1)] assms(2) by blast
  then show ?thesis unfolding load_look [OF assms] by (rule find_key)
qed

end

lemma tables_of_valid:
  assumes "routes_valid rs" "build_tables rs [] [] = Ok (rt, ht)"
  shows "ht_lookup h ht = Some r \<longleftrightarrow> r \<in> set rs \<and> host_key r = Some (to_ascii_lowercase h)"
    and "rt_lookup a rt = Some r \<longleftrightarrow> r \<in> set rs \<and> \<not> is_http r \<and> listen_addr r = Ok a"
proof -
  note keys = routes_valid_keys [OF assms(1)]
  show "ht_lookup h ht = Some r \<longleftrightarrow> r \<in> set rs \<and> host_key r = Some (to_ascii_lowercase h)"
    using host_table.load_look_iff [OF keys(1)] assms(2) host_key_is_http [of r] by (auto simp: build_tables_split)
  show "rt_lookup a rt = Some r \<longleftrightarrow> r \<in> set rs \<and> \<not> is_http r \<and> listen_addr r = Ok a"
    using route_table.load_look_iff [OF keys(3)] assms(2) by (auto simp: build_tables_split listen_key_def split: sum.splits)
qed

text \<open>The steps of a start-up that succeeded.\<close>

lemma case_result_Ok:
  "(case p of (Inl e, c) \<Rightarrow> Err (f e) | (Inr u, c) \<Rightarrow> g c) = Ok y \<longleftrightarrow> (\<exists>u c. p = (Ok u, c) \<and> g c = Ok y)"
  by (auto split: prod.splits sum.splits)

lemma server_run_Ok:
  assumes "server_run io = Ok st"
  shows "\<exists>toml rt. su_read_config io = Some toml
     \<and> su_from_toml io toml = Ok (rs_config st)
     \<and> server_validate (rs_config st) = Ok ()
     \<and> open_database io (rs_config st) = Ok (a_db (rs_app st))
     \<and> cm_reload (x_parse_uuid (su_ext io)) (x_parse_limits (su_ext io)) (Ok (list_routes (a_db (rs_app st)))) new_config_manager
       = (Ok (), a_config (rs_app st))
     \<and> build_tables (cm_snapshot (a_config (rs_app st))) [] [] = Ok (rt, rs_hosts st)
     \<and> tp_bind (su_tcp_bind io) rt = Ok (rs_tcp st)
     \<and> rs_readiness st = \<lparr>rd_db = True, rd_config = True, rd_quic = True, rd_http = True\<rparr>
     \<and> a_limiter (rs_app st) = ll_new (max_login_attempts (cfg_security (rs_config st))) (login_window_seconds (cfg_security (rs_config st)))
     \<and> a_allow_unsafe_targets (rs_app st) = allow_unsafe_targets (cfg_security (rs_config st))
     \<and> a_acl (rs_app st) = acl_reload (x_parse_uuid (su_ext io)) (Ok (list_acl_rules (a_db (rs_app st)))) empty_snapshot
     \<and> cert_from_rows (su_pem io) (list_certificates (a_db (rs_app st))) = Ok (rs_certs st)"
  using assms unfolding server_run_def load_server_config_def
  by (auto simp: Let_def case_result_Ok readiness_new_def mark_db_def mark_quic_def mark_config_def mark_http_def split: if_splits)

lemma cm_reload_Ok:
  "cm_reload pu pl rows new_config_manager = (Ok (), m) \<Longrightarrow>
     cm_load pu pl rows = Ok (cm_snapshot m) \<and> routes_valid (cm_snapshot m)"
  by (auto simp: cm_reload_def cm_replace_def validate_routes_iff split: sum.splits)

text \<open>A valid configuration never fails in the construction of the tables.\<close>

lemma reload_then_build:
  assumes "cm_reload pu pl rows new_config_manager = (Ok u, m)"
  shows "build_tables (cm_snapshot m) [] [] \<noteq> Err e"
proof -
  have valid: "routes_valid (cm_snapshot m)" using cm_reload_Ok assms by (cases u) blast
  then have "\<forall>r\<in>set (cm_snapshot m). is_http r \<longrightarrow> sr_hostname r \<noteq> None"
    using routes_valid_keys(1) [OF valid] by (fastforce simp: host_key_def is_http_def)
  with valid build_tables_iff show ?thesis by (metis sum.distinct(1))
qed

lemma case_result_Err:
  "(case p of (Inl e, c) \<Rightarrow> Err (f e) | (Inr u, c) \<Rightarrow> g c) = Err y \<longleftrightarrow>
     (\<exists>e. fst p = Err e \<and> y = f e) \<or> (\<exists>u c. p = (Ok u, c) \<and> g c = Err y)"
  by (auto split: prod.splits sum.splits)

lemma map_err_Inl_iff: "map_err f r = Inl e \<longleftrightarrow> (\<exists>d. r = Inl d \<and> e = f d)"
  by (cases r) auto

lemma server_run_InsertRoute: "server_run io \<noteq> Err (InsertRoute e)"
proof
  assume "server_run io = Err (InsertRoute e)"
  then show False
    using reload_then_build
    by (auto simp: server_run_def load_server_config_def open_database_def bind_quic_def bind_entry_def Let_def case_result_Err
        and_then_Inl_iff map_err_Inl_iff ok_or_Inl_iff split: if_splits option.splits prod.splits sum.splits)
qed

lemma fresh_limiter_allows: "server_validate cfg = Ok () \<Longrightarrow>
    fst (ll_allows now user (ll_new (max_login_attempts (cfg_security cfg)) w))"
  by (auto simp: server_validate_def ll_allows_def ll_new_def recent_def entry_or_default_def unat_gt_0 Let_def split: if_splits)

section \<open>Properties\<close>

lemma cm_reload_fails:
  "(\<exists>e m'. cm_reload pu pl rows m = (Inl e, m')) \<longleftrightarrow> \<not> (\<exists>rs. cm_load pu pl rows = Ok rs \<and> routes_valid rs)"
proof (cases "cm_load pu pl rows")
  case (Inr rs)
  then show ?thesis
    by (cases "validate_routes rs") (auto simp: cm_reload_def validate_routes_iff [symmetric])
qed (simp add: cm_reload_def)

text \<open>The step at which routes that cannot be read or that clash stop the server.\<close>

lemma server_run_LoadConfig:
  assumes "load_server_config io = Ok cfg" "su_register_metrics io" "open_database io cfg = Ok db" "is_ok (bind_quic io cfg)"
  shows "(\<exists>e. server_run io = Err (LoadConfig e)) \<longleftrightarrow>
     \<not> (\<exists>rs. cm_load (x_parse_uuid (su_ext io)) (x_parse_limits (su_ext io)) (Ok (list_routes db)) = Ok rs \<and> routes_valid rs)"
proof -
  let ?r = "cm_reload (x_parse_uuid (su_ext io)) (x_parse_limits (su_ext io)) (Ok (list_routes db)) new_config_manager"
  obtain q where q: "bind_quic io cfg = Ok q" using assms(4) by (cases "bind_quic io cfg") auto
  have "(\<exists>e. server_run io = Err (LoadConfig e)) \<longleftrightarrow> (\<exists>e m. ?r = (Inl e, m))"
  proof (cases "fst ?r")
    case (Inl e)
    then show ?thesis using assms q by (cases ?r) (auto simp: server_run_def Let_def)
  next
    case (Inr u)
    then show ?thesis
      using assms q
      by (cases ?r) (auto simp: server_run_def Let_def and_then_Inl_iff map_err_Inl_iff ok_or_Inl_iff bind_entry_def
          split: prod.splits)
  qed
  then show ?thesis unfolding cm_reload_fails .
qed

text \<open>C34. Start-up is refused for bad routes, and a started server is consistent.  Once the configuration is valid, the
  database open and the QUIC endpoint bound, start-up stops with the error of the configuration step exactly if the routes in the
  database cannot all be read, or one has no place in the data plane, or two have the same one (the same host name
  up to case, or the same parsed address and port); the later construction of the listen table and the host table
  therefore never fails.  When start-up
  succeeds, the configuration file was valid; the readiness endpoint reports all components ready as long as
  the database answers; the snapshot in force is valid and consists of the routes in the database; the entry points
  find, by host name in any case and by listen address, exactly the routes of that snapshot; the access rules
  in force are those in the database; and no user is locked out before a first attempt.\<close>

theorem startup_sound:
  "(\<forall>cfg db. load_server_config io = Ok cfg \<and> su_register_metrics io \<and> open_database io cfg = Ok db
        \<and> is_ok (bind_quic io cfg) \<longrightarrow>
      ((\<exists>e. server_run io = Err (LoadConfig e)) \<longleftrightarrow>
       \<not> (\<exists>rs. cm_load (x_parse_uuid (su_ext io)) (x_parse_limits (su_ext io)) (Ok (list_routes db)) = Ok rs
            \<and> (\<forall>r\<in>set rs. slot r \<noteq> None) \<and> distinct (map slot rs))))
   \<and> (\<forall>e. server_run io \<noteq> Err (InsertRoute e))
   \<and> (server_run io = Ok st \<longrightarrow>
       server_validate (rs_config st) = Ok ()
     \<and> ready True (rs_readiness st) = (200, ''ready'', True, True, True, True) \<and> fst (ready False (rs_readiness st)) = 503
     \<and> validate_routes (cm_snapshot (a_config (rs_app st))) = Ok ()
     \<and> cm_load (x_parse_uuid (su_ext io)) (x_parse_limits (su_ext io)) (Ok (list_routes (a_db (rs_app st))))
         = Ok (cm_snapshot (a_config (rs_app st)))
     \<and> (ht_lookup h (rs_hosts st) = Some r \<longleftrightarrow> r \<in> set (cm_snapshot (a_config (rs_app st))) \<and> host_key r = Some (to_ascii_lowercase h))
     \<and> (rt_lookup a (tp_routes (rs_tcp st)) = Some r
          \<longleftrightarrow> r \<in> set (cm_snapshot (a_config (rs_app st))) \<and> \<not> is_http r \<and> listen_addr r = Ok a)
     \<and> a_acl (rs_app st) = acl_reload (x_parse_uuid (su_ext io)) (Ok (list_acl_rules (a_db (rs_app st)))) empty_snapshot
     \<and> fst (ll_allows now user (a_limiter (rs_app st))))"
proof (rule conjI [OF _ conjI], goal_cases)
  case 1
  show ?case using server_run_LoadConfig [of io] unfolding routes_valid_def by blast
next
  case 2
  show ?case using server_run_InsertRoute by blast
next
  case 3
  show ?case
  proof
    assume "server_run io = Ok st"
    from server_run_Ok [OF this] obtain rt where st: "server_validate (rs_config st) = Ok ()"
      "cm_reload (x_parse_uuid (su_ext io)) (x_parse_limits (su_ext io)) (Ok (list_routes (a_db (rs_app st)))) new_config_manager
         = (Ok (), a_config (rs_app st))"
      "build_tables (cm_snapshot (a_config (rs_app st))) [] [] = Ok (rt, rs_hosts st)" "tp_bind (su_tcp_bind io) rt = Ok (rs_tcp st)"
      and ready: "rs_readiness st = \<lparr>rd_db = True, rd_config = True, rd_quic = True, rd_http = True\<rparr>"
      and rest: "a_limiter (rs_app st)
          = ll_new (max_login_attempts (cfg_security (rs_config st))) (login_window_seconds (cfg_security (rs_config st)))"
        "a_acl (rs_app st) = acl_reload (x_parse_uuid (su_ext io)) (Ok (list_acl_rules (a_db (rs_app st)))) empty_snapshot"
      by auto
    note loaded = cm_reload_Ok [OF st(2)]
    have "tp_routes (rs_tcp st) = rt" using st(4) unfolding tp_bind_def and_then_Inr_iff by (metis TcpProxy.select_convs(1) sum.inject(2))
    then show "server_validate (rs_config st) = Ok ()
       \<and> ready True (rs_readiness st) = (200, ''ready'', True, True, True, True) \<and> fst (ready False (rs_readiness st)) = 503
       \<and> validate_routes (cm_snapshot (a_config (rs_app st))) = Ok ()
       \<and> cm_load (x_parse_uuid (su_ext io)) (x_parse_limits (su_ext io)) (Ok (list_routes (a_db (rs_app st))))
           = Ok (cm_snapshot (a_config (rs_app st)))
       \<and> (ht_lookup h (rs_hosts st) = Some r \<longleftrightarrow> r \<in> set (cm_snapshot (a_config (rs_app st))) \<and> host_key r = Some (to_ascii_lowercase h))
       \<and> (rt_lookup a (tp_routes (rs_tcp st)) = Some r
            \<longleftrightarrow> r \<in> set (cm_snapshot (a_config (rs_app st))) \<and> \<not> is_http r \<and> listen_addr r = Ok a)
       \<and> a_acl (rs_app st) = acl_reload (x_parse_uuid (su_ext io)) (Ok (list_acl_rules (a_db (rs_app st)))) empty_snapshot
       \<and> fst (ll_allows now user (a_limiter (rs_app st)))"
      using st(1) loaded rest fresh_limiter_allows [OF st(1)] tables_of_valid [OF conjunct2 [OF loaded] st(3)]
      by (simp add: validate_routes_iff ready_def ready all_ready_def)
  qed
qed

text \<open>The demo data.  Seeding a database that has no demo node (and no credential with the hash of the demo
  token) makes the demo work: the demo token authenticates an agent as the demo node, a route leads from the
  demo host name to the demo target through this node, and seeding again changes nothing.\<close>

lemma seed_demo_Ok:
  assumes "seed_demo X ts demo db = (Ok (), db')" "\<not> node_name_exists ''demo-node'' None db"
  obtains db1 db2 where "create_node DEMO_NODE_ID ''demo-node'' None ts db = Ok db1"
    "create_credential DEMO_CRED_ID DEMO_NODE_ID ''token'' (x_hash_token X (demo_token demo)) None ts db1 = Ok db2"
    "create_route DEMO_ROUTE_ID (demo_columns demo) ts db2 = Ok db'"
  using assms by (auto simp: seed_demo_def split: sum.splits)

theorem demo_works:
  assumes "seed_demo X ts demo db = (Ok (), db')" "\<not> node_name_exists ''demo-node'' None db"
    and "\<forall>c\<in>set (t_credentials db). cred_secret_hash c \<noteq> x_hash_token X (demo_token demo)"
    and "x_parse_uuid X DEMO_NODE_ID = Some nid" "auth_credential p = Some (demo_token demo)" "demo_token demo \<noteq> []"
    and "auth_node_id p \<in> {None, Some nid}"
  shows "authenticate X (db_query db') p now = AuthDecision.Success \<lparr>as_node_id = nid, as_config_version = 0\<rparr>"
    and "\<exists>r\<in>set (list_routes db'). rr_node_id r = DEMO_NODE_ID \<and> rr_route_type r = ''http'' \<and> rr_enabled r
      \<and> rr_hostname r = Some (demo_hostname demo) \<and> rr_target_host r = demo_target_host demo
      \<and> rr_target_port r = uint (demo_target_port demo)"
    and "seed_demo X ts' demo db' = (Ok (), db')"
proof -
  from seed_demo_Ok [OF assms(1,2)] obtain db1 db2 where steps: "create_node DEMO_NODE_ID ''demo-node'' None ts db = Ok db1"
    "create_credential DEMO_CRED_ID DEMO_NODE_ID ''token'' (x_hash_token X (demo_token demo)) None ts db1 = Ok db2"
    "create_route DEMO_ROUTE_ID (demo_columns demo) ts db2 = Ok db'" .
  have others: "filter (\<lambda>n. node_id n = DEMO_NODE_ID) (t_nodes db) = []" "\<not> list_ex (\<lambda>n. node_name n = ''demo-node'') (t_nodes db)"
    using steps(1) by (auto simp: create_node_def list_ex_iff filter_empty_conv split: if_splits)
  obtain n c where rows: "t_nodes db' = t_nodes db @ [n]" "t_credentials db' = t_credentials db @ [c]"
    and n: "node_id n = DEMO_NODE_ID" "node_name n = ''demo-node''" "node_status n = ''pending''" "node_config_version n = 0"
    and c: "cred_node_id c = DEMO_NODE_ID" "cred_credential_type c = ''token''" "cred_secret_hash c = x_hash_token X (demo_token demo)"
      "cred_revoked_at c = None" "cred_expires_at c = None"
    using steps by (fastforce simp: create_node_def create_credential_def create_route_def split: if_splits)
  have creds: "concat (map (\<lambda>k. if cred_secret_hash k = x_hash_token X (demo_token demo) \<and> P k then f k else []) (t_credentials db)) = []" for P f
    using assms(3) by auto
  have "find_node_credential (x_hash_token X (demo_token demo)) db'
      = Some \<lparr>ncr_node_id = DEMO_NODE_ID, ncr_node_status = ''pending'', ncr_config_version = 0, ncr_revoked_at = None, ncr_expires_at = None\<rparr>"
    unfolding find_node_credential_def rows(2) map_append concat_append creds by (simp add: n c others(1) rows(1))
  then show "authenticate X (db_query db') p now = AuthDecision.Success \<lparr>as_node_id = nid, as_config_version = 0\<rparr>"
    using assms(4-7) by (auto simp: authenticate_def db_query_def evaluate_def max0_u64_def)
  show "\<exists>r\<in>set (list_routes db'). rr_node_id r = DEMO_NODE_ID \<and> rr_route_type r = ''http'' \<and> rr_enabled r
      \<and> rr_hostname r = Some (demo_hostname demo) \<and> rr_target_host r = demo_target_host demo
      \<and> rr_target_port r = uint (demo_target_port demo)"
    using steps(3) by (auto simp: create_route_def list_routes_def demo_columns_def route_row_def split: if_splits)
  show "seed_demo X ts' demo db' = (Ok (), db')"
    using rows(1) n(2) by (simp add: seed_demo_def node_name_exists_def)
qed

text \<open>The endpoints an agent tries are those configured addresses that resolve, in order; there is none only if no
  address resolves.\<close>

lemma resolve_endpoints_iff:
  "resolve_endpoints lookup_host addresses = (if \<forall>a\<in>set addresses. resolve_endpoint lookup_host a = None then None
     else Some (map (\<lambda>a. the (resolve_endpoint lookup_host a)) (filter (\<lambda>a. resolve_endpoint lookup_host a \<noteq> None) addresses)))"
  by (auto simp: resolve_endpoints_def Let_def List.map_filter_def filter_empty_conv comp_def)

text \<open>An agent that starts has endpoints to try, a token to present, a target policy whose CIDR patterns are all well
  formed (so none of its rules is silently ignored), and, unless a certificate file is configured, verifies its
  server by trust on first use.\<close>

theorem agent_start_sound:
  assumes "agent_start io = Ok a"
  shows "\<exists>toml cfg. ag_read_config io = Some toml \<and> ag_from_toml io toml = Ok cfg
    \<and> ar_endpoints a \<noteq> [] \<and> (\<forall>(addr, host)\<in>set (ar_endpoints a). \<exists>e\<in>set (server_addresses cfg).
          resolve_endpoint (ag_lookup_host io) e = Some (addr, host))
    \<and> ar_server_name a = snd (hd (ar_endpoints a))
    \<and> (\<exists>tok. tok \<noteq> [] \<and> ar_auth a = \<lparr>auth_node_id = None, auth_credential = Some tok\<rparr>)
    \<and> (\<forall>d\<in>set (allow_targets (ar_security a) @ deny_targets (ar_security a)). \<exists>net. parse_cidr d = Some net)
    \<and> (case server_ca (acfg_server cfg) of
         Some path \<Rightarrow> \<exists>der. ag_read_file io path = Some der \<and> ar_trust a = RootCert der
       | None \<Rightarrow> ar_trust a = Tofu (join_path (data_directory (acfg_data cfg)) ''server-pins''))"
proof -
  from assms obtain toml cfg eps where a: "ag_read_config io = Some toml" "ag_from_toml io toml = Ok cfg" "agent_validate cfg = Ok ()"
    and eps: "resolve_endpoints (ag_lookup_host io) (server_addresses cfg) = Some eps"
    and trust: "build_client_config io (server_ca (acfg_server cfg)) (join_path (data_directory (acfg_data cfg)) ''server-pins'') = Ok (ar_trust a)"
    and args: "ar_endpoints a = eps" "ar_server_name a = snd (hd eps)" "ar_security a = acfg_security cfg"
      "ar_auth a = \<lparr>auth_node_id = None, auth_credential = Some (auth_token (acfg_auth cfg))\<rparr>"
    by (auto simp: agent_start_def split: if_splits)
  have "eps \<noteq> [] \<and> (\<forall>(addr, host)\<in>set eps. \<exists>e\<in>set (server_addresses cfg). resolve_endpoint (ag_lookup_host io) e = Some (addr, host))"
    using eps by (auto simp: resolve_endpoints_def Let_def List.map_filter_def split: if_splits) blast
  moreover have "auth_token (acfg_auth cfg) \<noteq> []
      \<and> (\<forall>d\<in>set (allow_targets (acfg_security cfg) @ deny_targets (acfg_security cfg)). \<exists>net. parse_cidr d = Some net)"
    using a(3) by (auto simp: agent_validate_def Let_def find_None_iff split: if_splits option.splits)
  moreover have "case server_ca (acfg_server cfg) of
         Some path \<Rightarrow> \<exists>der. ag_read_file io path = Some der \<and> ar_trust a = RootCert der
       | None \<Rightarrow> ar_trust a = Tofu (join_path (data_directory (acfg_data cfg)) ''server-pins'')"
    using trust by (auto simp: build_client_config_def split: option.splits if_splits)
  ultimately show ?thesis using a(1,2) args by (intro exI [of _ toml] exI [of _ cfg]) simp
qed

section \<open>The demo server\<close>

definition demo_ext :: externals where
  "demo_ext = (sample_ext sample_ok sample_snap)\<lparr>x_parse_uuid := map_of [(DEMO_NODE_ID, 1), (DEMO_ROUTE_ID, 3)]\<rparr>"

definition demo_config :: ServerConfig where
  "demo_config = default_server_config\<lparr>cfg_http := \<lparr>http_bind = ''0.0.0.0:80''\<rparr>, cfg_demo := default_demo\<lparr>demo_enabled := True, demo_token := ''secret''\<rparr>\<rparr>"

definition demo_io :: "unit startup_io" where
  "demo_io =
     \<lparr>su_read_config = Some ''toml'', su_from_toml = (\<lambda>_. Ok demo_config), su_register_metrics = True,
      su_connect = (\<lambda>_. Some empty_db), su_now = ''t0'', su_ext = demo_ext,
      su_identity = \<lparr>id_generate = (\<lambda>_. Some \<lparr>ssc_cert_der = [1], ssc_key_der = [2]\<rparr>), id_read_ok = (\<lambda>_. True),
        id_write_fails = (\<lambda>_. None)\<rparr>,
      su_files = Map.empty, su_server_config_ok = (\<lambda>_. True), su_quic_bind = Some, su_tcp_bind = Some, su_udp_bind = Some,
      su_http_bind = Some, su_https_bind = Some, su_internal_bind = Some,
      su_pem = \<lparr>pm_certs = (\<lambda>_. None), pm_private_key = (\<lambda>_. None), pm_signing_key = (\<lambda>_. None),
        pm_not_after = (\<lambda>_. None), pm_hostnames = (\<lambda>_. None)\<rparr>\<rparr>"

definition demo_route :: ServerRoute where
  "demo_route = \<lparr>sr_id = 3, sr_name = ''demo-web'', sr_route_type = Http, sr_enabled = True,
     sr_node_id = 1, sr_listen_host = ''0.0.0.0'', sr_listen_port = 0, sr_target_host = ''target'', sr_target_port = 5678,
     sr_hostname = Some ''app.example.com'', sr_tls_mode = Some ''none'', sr_limits = None\<rparr>"

lemma demo_configured: "load_server_config demo_io = Ok demo_config"
  by (simp add: load_server_config_def demo_io_def server_validate_def demo_config_def default_server_config_def
      default_http_def default_https_def default_quic_def default_internal_def default_database_def
      default_server_security_def default_demo_def)

lemma demo_loaded:
  "case open_database demo_io demo_config of
     Inr db \<Rightarrow> cm_load (x_parse_uuid demo_ext) (x_parse_limits demo_ext) (Ok (list_routes db)) = Ok [demo_route]
       \<and> list_certificates db = []
   | Inl _ \<Rightarrow> False"
  by code_simp

lemma demo_sockets:
  "parse_socket ''0.0.0.0:80'' = Some \<lparr>sa_ip = V4 0, sa_port = 80\<rparr>"
  "parse_socket ''0.0.0.0:443'' = Some \<lparr>sa_ip = V4 0, sa_port = 443\<rparr>"
  "parse_socket ''127.0.0.1:8080'' = Some \<lparr>sa_ip = V4 0x7F000001, sa_port = 8080\<rparr>"
  by (simp_all add: parse_socket_def read_port_def skip_scope_id_def parse_eval)

lemma demo_starts: "\<exists>st. server_run demo_io = Ok st \<and> cm_snapshot (a_config (rs_app st)) = [demo_route]"
proof -
  obtain db where db: "open_database demo_io demo_config = Ok db" "list_certificates db = []"
    "cm_load (x_parse_uuid demo_ext) (x_parse_limits demo_ext) (Ok (list_routes db)) = Ok [demo_route]"
    using demo_loaded by (cases "open_database demo_io demo_config") auto
  have quic: "bind_quic demo_io demo_config = Ok \<lparr>sa_ip = V4 0, sa_port = 443\<rparr>"
    by (simp add: bind_quic_def demo_io_def demo_config_def default_server_config_def default_quic_def default_tls_def
        demo_sockets load_or_generate_def)
  have valid: "validate_routes [demo_route] = Ok ()" by code_simp
  have tables: "build_tables [demo_route] [] [] = Ok ([], [(''app.example.com'', demo_route)])" by code_simp
  have none: "bind_all b (filter tcp_enabled (rt_routes [])) [] = Ok []" "bind_udp_all b (filter udp_enabled (rt_routes [])) [] = Ok []" for b
    by (simp_all add: rt_routes_def)
  have ext: "su_ext demo_io = demo_ext" "su_register_metrics demo_io" by (simp_all add: demo_io_def)
  have reload: "cm_reload (x_parse_uuid demo_ext) (x_parse_limits demo_ext) (Ok (list_routes db)) new_config_manager
      = (Ok (), cm_replace [demo_route] new_config_manager)"
    using db(3) valid by (simp add: cm_reload_def)
  have entries: "bind_entry what (http_bind (cfg_http demo_config)) (su_http_bind demo_io) = Ok \<lparr>sa_ip = V4 0, sa_port = 80\<rparr>"
    "bind_entry what (https_bind (cfg_https demo_config)) (su_https_bind demo_io) = Ok \<lparr>sa_ip = V4 0, sa_port = 443\<rparr>"
    "bind_entry what (internal_bind (cfg_internal demo_config)) (su_internal_bind demo_io) = Ok \<lparr>sa_ip = V4 0x7F000001, sa_port = 8080\<rparr>" for what
    by (simp_all add: bind_entry_def demo_io_def demo_config_def default_server_config_def default_http_def default_https_def
        default_internal_def demo_sockets)
  show ?thesis
    by (simp add: server_run_def demo_configured quic db ext reload entries cm_replace_def tables tp_bind_def bind_with_limits_def
        none cert_from_rows_def Let_def del: build_tables.simps)
qed

theorem startup_sound_witness:
  "\<exists>st. server_run demo_io = Ok st \<and> ht_lookup ''APP.example.com'' (rs_hosts st) = Some demo_route
     \<and> fst (ready True (rs_readiness st)) = 200"
proof -
  obtain st where st: "server_run demo_io = Ok st" "cm_snapshot (a_config (rs_app st)) = [demo_route]"
    using demo_starts by blast
  have "host_key demo_route = Some (to_ascii_lowercase ''APP.example.com'')"
    by code_simp
  then have "ht_lookup ''APP.example.com'' (rs_hosts st) = Some demo_route"
    "fst (ready True (rs_readiness st)) = 200"
    using startup_sound [of demo_io st "''APP.example.com''" demo_route undefined 0 "[]"] st by simp_all
  with st show ?thesis by blast
qed

end
