(* ===== verification/Bench.thy ===== *)
theory Bench
  imports Startup
begin

text \<open>
  The benchmark program \<open>bench/src/main.rs\<close>: the data it seeds, the loops that drive a tunnel and what it reports of the
  measured times.  The server and the agents it starts are those of the other theories; here is the
  program's own logic.  Reads, polls, clocks, the tunnel and floating-point rounding are parameters.
\<close>

section \<open>Seeding\<close>

text \<open>The formats \<open>{i}\<close> and \<open>{i:08x}\<close> of a 64-bit index.\<close>

definition show_index :: "nat \<Rightarrow> string" where
  "show_index i = show_digits 20 10 i"

definition show_hex8 :: "nat \<Rightarrow> string" where
  "show_hex8 i = (let s = show_digits 16 16 i in replicate (8 - length s) CHR ''0'' @ s)"

definition bench_node_id :: "nat \<Rightarrow> string" where
  "bench_node_id i = show_hex8 i @ ''-0000-4000-8000-000000000000''"

definition bench_cred_id :: "nat \<Rightarrow> string" where
  "bench_cred_id i = show_hex8 i @ ''-0000-4000-8000-000000000001''"

definition bench_token :: "nat \<Rightarrow> string" where
  "bench_token i = ''token-'' @ show_index i"

definition NOW :: string where "NOW = ''2026-08-27T00:00:00Z''"

text \<open>The statement \<open>INSERT INTO nodes\<close> of the program, which sets the configuration version.\<close>

definition insert_bench_node :: "string \<Rightarrow> string \<Rightarrow> Db \<Rightarrow> (DbError, Db) result" where
  "insert_bench_node nid name db =
     (if list_ex (\<lambda>n. node_id n = nid \<or> node_name n = name) (t_nodes db) then Err UniqueViolation
      else Ok (db\<lparr>t_nodes := t_nodes db @
        [\<lparr>node_id = nid, node_name = name, node_description = None, node_status = ''pending'',
          node_hostname = None, node_platform = None, node_architecture = None, node_agent_version = None,
          node_remote_addr = None, node_last_seen_at = None, node_connected_at = None, node_config_version = 7,
          node_applied_config_version = 0, node_config_status = ''pending'', node_created_at = NOW, node_updated_at = NOW\<rparr>]\<rparr>))"

definition seed_agent :: "(string \<Rightarrow> string) \<Rightarrow> nat \<Rightarrow> Db \<Rightarrow> (DbError, Db) result" where
  "seed_agent hash_token i db =
     and_then (insert_bench_node (bench_node_id i) (''node-'' @ show_index i) db) (\<lambda>db1.
     create_credential (bench_cred_id i) (bench_node_id i) ''token'' (hash_token (bench_token i)) None NOW db1)"

fun seed_from :: "(string \<Rightarrow> string) \<Rightarrow> nat list \<Rightarrow> Db \<Rightarrow> (DbError, Db) result" where
  "seed_from hash_token [] db = Ok db"
| "seed_from hash_token (i # is) db = and_then (seed_agent hash_token i db) (seed_from hash_token is)"

definition seed_agent_nodes :: "(string \<Rightarrow> string) \<Rightarrow> nat \<Rightarrow> Db \<Rightarrow> (DbError, Db) result" where
  "seed_agent_nodes hash_token n db = seed_from hash_token [0..<n] db"

section \<open>Driving a tunnel\<close>

text \<open>The writer: full chunks and a last partial one.  The sizes of the writes; a failing write ends it.\<close>

definition CHUNK :: nat where "CHUNK = 65536"

function write_sizes :: "nat \<Rightarrow> nat \<Rightarrow> nat list" where
  "write_sizes goal sent =
     (if sent < goal then let n = min (goal - sent) CHUNK in n # write_sizes goal (sent + n) else [])"
  by pat_completeness auto
termination by (relation "measure (\<lambda>(goal, sent). goal - sent)") (auto simp: CHUNK_def)

declare write_sizes.simps [simp del]

text \<open>The reader: until enough bytes are there, the stream ends, or a read fails.\<close>

fun read_back :: "nat \<Rightarrow> nat \<Rightarrow> reads \<Rightarrow> (io_error, nat) result" where
  "read_back goal got [] = Ok got"
| "read_back goal got (r # rs) =
     (if got < goal
      then (case r of Inl e \<Rightarrow> Err e | Inr chunk \<Rightarrow> if chunk = [] then Ok got else read_back goal (got + length chunk) rs)
      else Ok got)"

text \<open>\<open>wait_until\<close> polls a condition 400 times and panics then.\<close>

definition wait_until :: "(nat \<Rightarrow> bool) \<Rightarrow> nat option" where
  "wait_until cond = find cond [0..<400]"

text \<open>Eight attempts to bind a free port: an occupied address is tried again, another error panics.\<close>

datatype bind_result = Bound | AddressInUse | BindPanic

fun bind_attempts :: "bind_result list \<Rightarrow> nat option" where
  "bind_attempts [] = None"
| "bind_attempts (r # rs) =
     (case r of Bound \<Rightarrow> Some 0 | AddressInUse \<Rightarrow> map_option Suc (bind_attempts rs) | BindPanic \<Rightarrow> None)"

definition spawn_tunnel :: "bind_result list \<Rightarrow> nat option" where
  "spawn_tunnel rs = bind_attempts (take 8 rs)"

text \<open>The report of \<open>bench tcp\<close>: how many connections succeeded and how many bytes they got back.\<close>

definition tcp_totals :: "(io_error, nat) result list \<Rightarrow> nat \<times> nat" where
  "tcp_totals results =
     (length (filter (\<lambda>r. case r of Inr _ \<Rightarrow> True | Inl _ \<Rightarrow> False) results),
      sum_list (List.map_filter (\<lambda>r. case r of Inr n \<Rightarrow> Some n | Inl _ \<Rightarrow> None) results))"

section \<open>Latencies\<close>

text \<open>The index \<open>((len - 1) as f64 * q) as usize\<close>; the cast truncates.\<close>

definition percentile :: "(real \<Rightarrow> real) \<Rightarrow> real \<Rightarrow> nat list \<Rightarrow> nat" where
  "percentile rnd q lats = lats ! nat \<lfloor>rnd (rnd (real (length lats - 1)) * q)\<rfloor>"

record latencies =
  lt_min :: nat
  lt_p50 :: nat
  lt_p90 :: nat
  lt_p99 :: nat
  lt_max :: nat

definition latency_report :: "(real \<Rightarrow> real) \<Rightarrow> nat list \<Rightarrow> latencies option" where
  "latency_report rnd lats =
     (if lats = [] then None
      else let s = sort lats in
        Some \<lparr>lt_min = s ! 0, lt_p50 = percentile rnd (1 / 2) s, lt_p90 = percentile rnd (rnd (9 / 10)) s,
              lt_p99 = percentile rnd (rnd (99 / 100)) s, lt_max = s ! (length s - 1)\<rparr>)"

section \<open>Memory in use\<close>

text \<open>\<open>rss_kb\<close>: the number in the first line of \<open>/proc/self/status\<close> that has one after \<open>VmRSS:\<close>, zero if there is none.
  A line is its list of words.\<close>

definition rss_line :: "string list \<Rightarrow> nat option" where
  "rss_line ws = (case ws of w # v # _ \<Rightarrow> if w = ''VmRSS:'' then parse_unsigned (2 ^ 64) v else None | _ \<Rightarrow> None)"

definition rss_kb :: "string list list option \<Rightarrow> nat" where
  "rss_kb status = (case Option.bind status (find_map rss_line) of Some n \<Rightarrow> n | None \<Rightarrow> 0)"

datatype bench_command = BenchAgents nat | BenchThroughput nat | BenchTcp nat | BenchUsage

definition bench_main :: "string list \<Rightarrow> bench_command" where
  "bench_main args =
     (let n = (\<lambda>d. case Option.bind (if length args > 2 then Some (args ! 2) else None) (parse_unsigned (2 ^ 64)) of Some n \<Rightarrow> n | None \<Rightarrow> d) in
      if length args < 2 then BenchUsage
      else if args ! 1 = ''agents'' then BenchAgents (n 1000)
      else if args ! 1 = ''throughput'' then BenchThroughput (n 64)
      else if args ! 1 = ''tcp'' then BenchTcp (n 1000)
      else BenchUsage)"

section \<open>The loops\<close>

theorem write_sizes_exact: "sum_list (write_sizes goal sent) = goal - sent"
    and "\<forall>n\<in>set (write_sizes goal sent). 0 < n \<and> n \<le> CHUNK"
proof -
  have "sum_list (write_sizes goal sent) = goal - sent \<and> (\<forall>n\<in>set (write_sizes goal sent). 0 < n \<and> n \<le> CHUNK)"
  proof (induction goal sent rule: write_sizes.induct)
    case (1 goal sent)
    show ?case
    proof (cases "sent < goal")
      case True
      with 1 [OF True refl] show ?thesis
        by (simp add: write_sizes.simps [of goal sent] Let_def CHUNK_def)
    qed (simp add: write_sizes.simps [of goal sent])
  qed
  then show "sum_list (write_sizes goal sent) = goal - sent" "\<forall>n\<in>set (write_sizes goal sent). 0 < n \<and> n \<le> CHUNK"
    by simp_all
qed

text \<open>If the tunnel gives back what was sent, however it is split into reads, the reader counts all of it.\<close>

lemma read_back_all:
  assumes "\<forall>r\<in>set rs. \<exists>c. r = Ok c \<and> c \<noteq> []" "got + sum_list (map (\<lambda>r. case r of Inr c \<Rightarrow> length c | Inl _ \<Rightarrow> 0) rs) = goal"
  shows "read_back goal got rs = Ok goal"
  using assms
proof (induction rs arbitrary: got)
  case (Cons r rs)
  then obtain c where c: "r = Ok c" "c \<noteq> []" by auto
  with Cons.prems have "got < goal" by (cases c) auto
  with Cons c show ?case by simp
qed simp

section \<open>Percentiles\<close>

definition sane_rounding :: "(real \<Rightarrow> real) \<Rightarrow> bool" where
  "sane_rounding rnd \<longleftrightarrow> mono rnd \<and> rnd (1 / 2) = 1 / 2 \<and> (\<forall>n::int. \<bar>n\<bar> \<le> 2 ^ 53 \<longrightarrow> rnd (of_int n) = of_int n)"

lemma percentile_index:
  assumes "sane_rounding rnd" "0 \<le> q" "q \<le> 1" "n \<le> 2 ^ 53"
  shows "nat \<lfloor>rnd (rnd (real n) * q)\<rfloor> \<le> n"
proof -
  have n: "rnd (real n) = real n"
    using assms(1) [unfolded sane_rounding_def, THEN conjunct2, THEN conjunct2, rule_format, of "int n"] assms(4) by simp
  have "rnd (real n * q) \<le> rnd (real n)"
    using assms(1,3) by (intro monoD [of rnd]) (simp_all add: sane_rounding_def mult_left_le)
  then show ?thesis by (simp add: n) linarith
qed

lemma index_mono:
  assumes "sane_rounding rnd" "q \<le> q'" "n \<le> 2 ^ 53"
  shows "nat \<lfloor>rnd (rnd (real n) * q)\<rfloor> \<le> nat \<lfloor>rnd (rnd (real n) * q')\<rfloor>"
proof -
  have n: "rnd (real n) = real n"
    using assms(1) [unfolded sane_rounding_def, THEN conjunct2, THEN conjunct2, rule_format, of "int n"] assms(3) by simp
  have "rnd (real n * q) \<le> rnd (real n * q')"
    using assms(1,2) by (intro monoD [of rnd]) (simp_all add: sane_rounding_def mult_left_mono)
  then show ?thesis unfolding n by (intro nat_mono floor_mono)
qed

text \<open>The reported latencies are latencies that were measured, in the right order, and never an access out of bounds, for up to
  \<open>2 ^ 53\<close> connections.\<close>

theorem latency_report_ordered:
  assumes "sane_rounding rnd" "latency_report rnd lats = Some r" "length lats \<le> 2 ^ 53"
  shows "lt_min r = Min (set lats) \<and> lt_max r = Max (set lats)
    \<and> lt_min r \<le> lt_p50 r \<and> lt_p50 r \<le> lt_p90 r \<and> lt_p90 r \<le> lt_p99 r \<and> lt_p99 r \<le> lt_max r
    \<and> {lt_p50 r, lt_p90 r, lt_p99 r} \<subseteq> set lats"
proof -
  have ne: "lats \<noteq> []" using assms(2) by (auto simp: latency_report_def)
  let ?s = "sort lats" and ?i = "\<lambda>q. nat \<lfloor>rnd (rnd (real (length lats - 1)) * q)\<rfloor>"
  have len: "length lats - 1 < length ?s" "length lats - 1 \<le> 2 ^ 53" using ne assms(3) by (cases lats; simp)+
  have m: "mono rnd" and one: "rnd 1 = 1" and zero: "rnd 0 = 0" and half: "rnd (1 / 2) = 1 / 2"
    using assms(1) [unfolded sane_rounding_def, THEN conjunct2, THEN conjunct2, rule_format, of 1]
      assms(1) [unfolded sane_rounding_def, THEN conjunct2, THEN conjunct2, rule_format, of 0] assms(1)
    by (simp_all add: sane_rounding_def)
  have q: "1 / 2 \<le> rnd (9 / 10)" "rnd (9 / 10) \<le> rnd (99 / 100)" "rnd (99 / 100) \<le> 1"
    using monoD [OF m, of "1 / 2" "9 / 10"] monoD [OF m, of "9 / 10" "99 / 100"] monoD [OF m, of "99 / 100" 1]
    by (simp_all add: one half)
  have i: "?i (1 / 2) \<le> ?i (rnd (9 / 10))" "?i (rnd (9 / 10)) \<le> ?i (rnd (99 / 100))" "?i (rnd (99 / 100)) \<le> length lats - 1"
    using index_mono [OF assms(1) q(1) len(2)] index_mono [OF assms(1) q(2) len(2)]
      percentile_index [OF assms(1) _ q(3) len(2)] q by simp_all
  have r: "r = \<lparr>lt_min = ?s ! 0, lt_p50 = ?s ! ?i (1 / 2), lt_p90 = ?s ! ?i (rnd (9 / 10)), lt_p99 = ?s ! ?i (rnd (99 / 100)),
      lt_max = ?s ! (length lats - 1)\<rparr>"
    using assms(2) ne by (simp add: latency_report_def percentile_def Let_def)
  have le_at: "?s ! j \<le> ?s ! k" if "j \<le> k" "k \<le> length lats - 1" for j k
    using that len(1) by (intro sorted_nth_mono) simp_all
  have mem: "?s ! k \<in> set lats" if "k \<le> length lats - 1" for k
    using that len(1) nth_mem [of k ?s] by simp
  have bounds: "?s ! 0 \<le> x \<and> x \<le> ?s ! (length lats - 1)" if "x \<in> set lats" for x
  proof -
    from that have "x \<in> set ?s" by simp
    then obtain k where "k < length ?s" "x = ?s ! k" unfolding in_set_conv_nth by blast
    then show ?thesis using le_at [of 0 k] le_at [of k "length lats - 1"] by simp
  qed
  have "lt_min r = Min (set lats)" "lt_max r = Max (set lats)"
    unfolding r using bounds mem [of 0] mem [of "length lats - 1"]
    by (auto intro!: Min_eqI [symmetric] Max_eqI [symmetric])
  moreover have "lt_min r \<le> lt_p50 r \<and> lt_p50 r \<le> lt_p90 r \<and> lt_p90 r \<le> lt_p99 r \<and> lt_p99 r \<le> lt_max r"
    unfolding r using i by (simp add: le_at)
  moreover have "{lt_p50 r, lt_p90 r, lt_p99 r} \<subseteq> set lats"
    unfolding r using i by (simp add: mem)
  ultimately show ?thesis by simp
qed

section \<open>Seeded agents\<close>

text \<open>The value of a printed number.\<close>

definition digit_val :: "char \<Rightarrow> nat" where
  "digit_val c = (if code c < 58 then code c - 48 else code c - 87)"

definition digits_value :: "nat \<Rightarrow> string \<Rightarrow> nat" where
  "digits_value base s = foldl (\<lambda>v c. v * base + digit_val c) 0 s"

lemma digit_val_chr: "d < 16 \<Longrightarrow> digit_val (if d < 10 then chr (48 + d) else chr (87 + d)) = d"
  by (simp add: digit_val_def)

lemma digits_value_show: "1 < base \<Longrightarrow> base \<le> 16 \<Longrightarrow> n < base ^ fuel \<Longrightarrow> digits_value base (show_digits fuel base n) = n"
proof (induction fuel arbitrary: n)
  case (Suc fuel)
  have "n mod base < 16" using Suc.prems by (meson less_le_trans mod_less_divisor not_less not_less_zero neq0_conv le_less_trans)
  moreover have "n div base < base ^ fuel" using Suc.prems by (simp add: div_less_iff_less_mult mult.commute)
  ultimately show ?case
    using Suc digit_val_chr [of "n mod base"] by (auto simp: digits_value_def)
qed (simp add: digits_value_def)

lemma digits_value_pad: "digits_value base (replicate k CHR ''0'' @ s) = digits_value base s"
  by (induction k) (simp_all add: digits_value_def digit_val_def code_numeral_simps)

lemma show_index_inj: "i < 2 ^ 64 \<Longrightarrow> j < 2 ^ 64 \<Longrightarrow> show_index i = show_index j \<longleftrightarrow> i = j"
proof -
  assume *: "i < 2 ^ 64" "j < 2 ^ 64"
  have "digits_value 10 (show_index k) = k" if "k < 2 ^ 64" for k
    using digits_value_show [of 10 k 20] that unfolding show_index_def by simp
  with * show ?thesis by metis
qed

lemma show_hex8_inj: "i < 2 ^ 64 \<Longrightarrow> j < 2 ^ 64 \<Longrightarrow> show_hex8 i = show_hex8 j \<longleftrightarrow> i = j"
proof -
  assume *: "i < 2 ^ 64" "j < 2 ^ 64"
  have "digits_value 16 (show_hex8 k) = k" if "k < 2 ^ 64" for k
    using digits_value_show [of 16 k 16] that unfolding show_hex8_def Let_def digits_value_pad by simp
  with * show ?thesis by metis
qed

lemmas seed_inj = show_index_inj show_hex8_inj

definition bench_node :: "nat \<Rightarrow> NodeRow" where
  "bench_node i =
     \<lparr>node_id = bench_node_id i, node_name = ''node-'' @ show_index i, node_description = None, node_status = ''pending'',
      node_hostname = None, node_platform = None, node_architecture = None, node_agent_version = None,
      node_remote_addr = None, node_last_seen_at = None, node_connected_at = None, node_config_version = 7,
      node_applied_config_version = 0, node_config_status = ''pending'', node_created_at = NOW, node_updated_at = NOW\<rparr>"

definition bench_credential :: "(string \<Rightarrow> string) \<Rightarrow> nat \<Rightarrow> CredentialRow" where
  "bench_credential h i =
     \<lparr>cred_id = bench_cred_id i, cred_node_id = bench_node_id i, cred_credential_type = ''token'', cred_secret_hash = h (bench_token i),
      cred_expires_at = None, cred_revoked_at = None, cred_last_used_at = None, cred_created_at = NOW\<rparr>"

lemma seed_from_snoc: "seed_from h (is @ [i]) db = and_then (seed_from h is db) (seed_agent h i)"
proof (induction "is" arbitrary: db)
  case Nil
  show ?case by (cases "seed_agent h i db") simp_all
next
  case (Cons a "is")
  then show ?case by (cases "seed_agent h a db") simp_all
qed

lemma seed_tables:
  assumes "t_nodes db = []" "t_credentials db = []" "n \<le> 2 ^ 64"
  shows "seed_agent_nodes h n db = Ok (db\<lparr>t_nodes := map bench_node [0..<n], t_credentials := map (bench_credential h) [0..<n]\<rparr>)"
  using assms(3)
proof (induction n)
  case 0
  then show ?case using assms(1,2) by (simp add: seed_agent_nodes_def)
next
  case (Suc n)
  then have new: "bench_node_id i \<noteq> bench_node_id n" "show_index i \<noteq> show_index n" "bench_cred_id i \<noteq> bench_cred_id n" if "i < n" for i
    using that by (simp_all add: bench_node_id_def bench_cred_id_def seed_inj)
  have "seed_agent_nodes h (Suc n) db = and_then (seed_agent_nodes h n db) (seed_agent h n)"
    by (simp add: seed_agent_nodes_def seed_from_snoc)
  with Suc show ?case
    by (auto simp: seed_agent_def insert_bench_node_def create_credential_def list_ex_iff bench_node_def bench_credential_def
        new)
qed

lemma find_node_credential_found:
  assumes "c \<in> set (t_credentials db)" "n \<in> set (t_nodes db)" "cred_secret_hash c = h" "cred_credential_type c = ''token''"
    "node_id n = cred_node_id c"
  shows "find_node_credential h db \<noteq> None"
proof
  let ?f = "\<lambda>c. if cred_secret_hash c = h \<and> cred_credential_type c = ''token''
     then map (\<lambda>n. \<lparr>ncr_node_id = node_id n, ncr_node_status = node_status n, ncr_config_version = node_config_version n,
                    ncr_revoked_at = cred_revoked_at c, ncr_expires_at = cred_expires_at c\<rparr>)
            (filter (\<lambda>n. node_id n = cred_node_id c) (t_nodes db))
     else []"
  assume "find_node_credential h db = None"
  then have "concat (map ?f (t_credentials db)) = []" by (simp add: find_node_credential_def split: list.splits)
  then have "?f c = []" using assms(1) by (simp only: concat_eq_Nil_conv set_map) blast
  then show False using assms(2-5) by (simp add: filter_empty_conv)
qed

text \<open>Every agent of \<open>bench agents\<close> can authenticate: after seeding, the token with number \<open>i\<close> is the credential of
  the node with number \<open>i\<close> and of no other one, if hashing keeps the tokens apart and the identifiers parse.\<close>

theorem seeded_agents_authenticate:
  assumes "t_nodes db = []" "t_credentials db = []" "n \<le> 2 ^ 64" "i < n"
    and "inj (x_hash_token X)" "x_parse_uuid X (bench_node_id i) = Some nid"
  shows "\<exists>db'. seed_agent_nodes (x_hash_token X) n db = Ok db'
    \<and> authenticate X (db_query db') \<lparr>auth_node_id = None, auth_credential = Some (bench_token i)\<rparr> now
        = AuthDecision.Success \<lparr>as_node_id = nid, as_config_version = 7\<rparr>"
proof -
  let ?h = "x_hash_token X"
  let ?db = "db\<lparr>t_nodes := map bench_node [0..<n], t_credentials := map (bench_credential ?h) [0..<n]\<rparr>"
  let ?row = "\<lparr>ncr_node_id = bench_node_id i, ncr_node_status = ''pending'', ncr_config_version = 7, ncr_revoked_at = None, ncr_expires_at = None\<rparr>"
  have same: "bench_token j = bench_token i \<longleftrightarrow> j = i" "bench_node_id j = bench_node_id i \<longleftrightarrow> j = i" if "j < n" for j
    using that assms(3,4) by (simp_all add: bench_token_def bench_node_id_def seed_inj)
  have "find_node_credential (?h (bench_token i)) ?db \<noteq> None"
    using assms(4) by (intro find_node_credential_found [of "bench_credential ?h i" _ "bench_node i"])
      (simp_all add: bench_credential_def bench_node_def)
  then obtain row where row: "find_node_credential (?h (bench_token i)) ?db = Some row" by blast
  moreover from row obtain c m where "c \<in> set (t_credentials ?db)" "m \<in> set (t_nodes ?db)" "cred_secret_hash c = ?h (bench_token i)"
      "node_id m = cred_node_id c" and r: "row = \<lparr>ncr_node_id = node_id m, ncr_node_status = node_status m,
       ncr_config_version = node_config_version m, ncr_revoked_at = cred_revoked_at c, ncr_expires_at = cred_expires_at c\<rparr>"
    by (rule find_node_credential_Some)
  then have "row = ?row"
    using same by (auto simp: inj_eq [OF assms(5)] bench_credential_def bench_node_def)
  ultimately have "authenticate X (db_query ?db) \<lparr>auth_node_id = None, auth_credential = Some (bench_token i)\<rparr> now
      = AuthDecision.Success \<lparr>as_node_id = nid, as_config_version = 7\<rparr>"
    using assms(6) by (simp add: authenticate_def db_query_def evaluate_def bench_token_def max0_u64_def)
  then show ?thesis using seed_tables [OF assms(1-3)] by blast
qed

end
