(* ===== verification/Events.thy ===== *)
theory Events
  imports Startup
begin

text \<open>
  Events: the event bus \<open>server/src/event.rs\<close>, its WebSocket endpoint \<open>server/src/api/ws.rs\<close>, and the task of
  \<open>server/src/main.rs\<close> that follows the configuration broadcasts.

  A broadcast channel belongs to a third-party library.  What a receiver is handed is a list of results, a
  parameter; \<open>explains\<close> states the documented behaviour: a receiver gets the values sent after it subscribed, in
  order, and is told how many it missed when it fell behind.  The published events are the list \<open>a_events\<close>
  of the application state.
\<close>

section \<open>Broadcast receivers\<close>

datatype 'a recv_result = Received 'a | Lagged u64 | Closed

fun explains :: "'a list \<Rightarrow> 'a recv_result list \<Rightarrow> bool" where
  "explains evs [] \<longleftrightarrow> True"
| "explains evs (Received x # rs) \<longleftrightarrow> (case evs of [] \<Rightarrow> False | y # evs' \<Rightarrow> x = y \<and> explains evs' rs)"
| "explains evs (Lagged n # rs) \<longleftrightarrow> unat n \<le> length evs \<and> explains (drop (unat n) evs) rs"
| "explains evs (Closed # rs) \<longleftrightarrow> evs = [] \<and> explains evs rs"

section \<open>The WebSocket endpoint\<close>

text \<open>One turn of the loop: the result of the receiver, with the fate of the frame that may be sent for it, or a message
  of the client.\<close>

datatype client_message = ClientClose | ClientGone | ClientOther | ClientError

datatype ws_turn = BusTurn "event recv_result" bool | ClientTurn client_message

definition lagged_hint :: "u64 \<Rightarrow> string" where
  "lagged_hint n = ''{\"type\":\"ws.lagged\",\"data\":{\"skipped\":'' @ show_digits 20 10 (unat n) @ ''}}''"

fun forward_events :: "(event \<Rightarrow> string option) \<Rightarrow> ws_turn list \<Rightarrow> string list" where
  "forward_events to_string [] = []"
| "forward_events to_string (BusTurn (Received ev) sends # ts) =
     (case to_string ev of
        None \<Rightarrow> forward_events to_string ts
      | Some text \<Rightarrow> if sends then text # forward_events to_string ts else [])"
| "forward_events to_string (BusTurn (Lagged n) sends # ts) =
     (if sends then lagged_hint n # forward_events to_string ts else [])"
| "forward_events to_string (BusTurn Closed sends # ts) = []"
| "forward_events to_string (ClientTurn ClientClose # ts) = []"
| "forward_events to_string (ClientTurn ClientGone # ts) = []"
| "forward_events to_string (ClientTurn ClientOther # ts) = forward_events to_string ts"
| "forward_events to_string (ClientTurn ClientError # ts) = []"

text \<open>Only a request of a known user is upgraded; the events are those published from then on.\<close>

definition ws_handler :: "env \<Rightarrow> HeaderMap \<Rightarrow> (event \<Rightarrow> string option) \<Rightarrow> ws_turn list \<Rightarrow> string list handler" where
  "ws_handler E hs to_string turns = hbind (require_user E hs) (\<lambda>_. hlift (Ok (forward_events to_string turns)))"

section \<open>The task that follows the configuration\<close>

text \<open>Each turn has the result of the receiver, the state in which the task finds the configuration, and how the operating
  system answers the binding of listeners.\<close>

record follow_turn =
  ft_recv :: "unit recv_result"
  ft_config :: ConfigManager
  ft_bind :: "SocketAddr \<Rightarrow> SocketAddr option"
  ft_order :: "SocketAddr list \<Rightarrow> SocketAddr list"

fun follow_task :: "follow_turn list \<Rightarrow> 'k server \<Rightarrow> 'k server" where
  "follow_task [] st = st"
| "follow_task (t # ts) st =
     (case ft_recv t of
        Received _ \<Rightarrow> follow_task ts (follow_config (ft_bind t) (ft_order t) (st\<lparr>rs_app := (rs_app st)\<lparr>a_config := ft_config t\<rparr>\<rparr>))
      | _ \<Rightarrow> st)"

section \<open>What a client sees\<close>

fun bus_results :: "ws_turn list \<Rightarrow> event recv_result list" where
  "bus_results [] = []"
| "bus_results (BusTurn r sends # ts) = r # bus_results ts"
| "bus_results (ClientTurn m # ts) = bus_results ts"

text \<open>The view of a client: an event, or a notice that a number of events was skipped.  A view \<open>accounts\<close> for a list of
  events if it shows them all in order, but for the noticed gaps.\<close>

datatype shown = Shown event | Gap u64

fun accounts :: "event list \<Rightarrow> shown list \<Rightarrow> bool" where
  "accounts evs [] \<longleftrightarrow> evs = []"
| "accounts evs (Shown e # vs) \<longleftrightarrow> (case evs of [] \<Rightarrow> False | f # evs' \<Rightarrow> e = f \<and> accounts evs' vs)"
| "accounts evs (Gap n # vs) \<longleftrightarrow> unat n \<le> length evs \<and> accounts (drop (unat n) evs) vs"

fun frame_text :: "(event \<Rightarrow> string option) \<Rightarrow> shown \<Rightarrow> string" where
  "frame_text to_string (Shown e) = the (to_string e)"
| "frame_text to_string (Gap n) = lagged_hint n"

lemma forward_events_accounts:
  assumes "explains evs (bus_results ts)" "\<forall>e. to_string e \<noteq> None"
  shows "\<exists>vs k. k \<le> length evs \<and> forward_events to_string ts = map (frame_text to_string) vs \<and> accounts (take k evs) vs"
  using assms
proof (induction to_string ts arbitrary: evs rule: forward_events.induct)
  case (2 J ev sends ts)
  then obtain evs' str where evs: "evs = ev # evs'" "explains evs' (bus_results ts)" and str: "J ev = Some str"
    by (auto split: list.splits)
  show ?case
  proof (cases sends)
    case True
    from 2(2) [OF str True evs(2) 2(4)] obtain vs k where
      "k \<le> length evs'" "forward_events J ts = map (frame_text J) vs" "accounts (take k evs') vs" by blast
    then show ?thesis
      using evs(1) str True by (intro exI [of _ "Shown ev # vs"] exI [of _ "Suc k"]) simp
  qed (use str in \<open>auto intro: exI [of _ "[]"] exI [of _ 0]\<close>)
next
  case (3 J n sends ts)
  then have n: "unat n \<le> length evs" "explains (drop (unat n) evs) (bus_results ts)" by simp_all
  show ?case
  proof (cases sends)
    case True
    from 3(1) [OF True n(2) 3(3)] obtain vs k where
      "k \<le> length (drop (unat n) evs)" "forward_events J ts = map (frame_text J) vs"
      "accounts (take k (drop (unat n) evs)) vs" by blast
    then show ?thesis
      using n(1) True by (intro exI [of _ "Gap n # vs"] exI [of _ "unat n + k"]) (simp add: drop_take)
  qed (auto intro: exI [of _ "[]"] exI [of _ 0])
qed (auto intro: exI [of _ "[]"] exI [of _ 0])

lemma accounts_no_gap: "accounts evs vs \<Longrightarrow> \<forall>n. Gap n \<notin> set vs \<Longrightarrow> vs = map Shown evs"
  by (induction evs vs rule: accounts.induct) (auto split: list.splits)

lemma current_user_require:
  "require_user E hs s = (case fst (current_user (session_now E) hs (a_sessions s)) of
      None \<Rightarrow> Err (unauthorized ''not authenticated'') | Some u \<Rightarrow> Ok u, snd (require_user E hs s))"
  by (auto simp: require_user_def split: prod.splits option.splits)

section \<open>What the data plane follows\<close>

lemma follow_task_append:
  "\<forall>t\<in>set ts. \<exists>u. ft_recv t = Received u \<Longrightarrow> follow_task (ts @ us) st = follow_task us (follow_task ts st)"
  by (induction ts arbitrary: st) (auto split: recv_result.splits)

section \<open>Properties\<close>

text \<open>The live view of the web interface.  A WebSocket request without a valid session is refused.  Otherwise the client
  is sent the events published since it connected, each once and in order, up to the point where the connection ended;
  where it was too slow, a notice takes the place of the events it missed and says how many they were.\<close>

theorem websocket_accounts:
  assumes "explains evs (bus_results ts)" "\<forall>e. to_string e \<noteq> None"
  shows "case ws_handler E hs to_string ts s of
      (Inl e, s') \<Rightarrow> e = unauthorized ''not authenticated'' \<and> fst (current_user (session_now E) hs (a_sessions s)) = None
    | (Inr texts, s') \<Rightarrow> fst (current_user (session_now E) hs (a_sessions s)) \<noteq> None \<and> a_db s' = a_db s
        \<and> (\<exists>vs k. k \<le> length evs \<and> texts = map (frame_text to_string) vs \<and> accounts (take k evs) vs)"
proof (cases "fst (current_user (session_now E) hs (a_sessions s))")
  case None
  then obtain s1 where "require_user E hs s = (Err (unauthorized ''not authenticated''), s1)"
    using current_user_require [of E hs s] by simp
  then have "ws_handler E hs to_string ts s = (Err (unauthorized ''not authenticated''), s1)"
    by (simp add: ws_handler_def hbind_def)
  then show ?thesis using None by simp
next
  case (Some u)
  then obtain s1 where r: "require_user E hs s = (Ok u, s1)"
    using current_user_require [of E hs s] by simp
  then have "ws_handler E hs to_string ts s = (Ok (forward_events to_string ts), s1)"
    by (simp add: ws_handler_def hbind_def hlift_def)
  moreover have "a_db s1 = a_db s"
    using r by (auto simp: require_user_def split: prod.splits option.splits)
  ultimately show ?thesis using Some forward_events_accounts [OF assms] by simp
qed

text \<open>The data plane follows the configuration, until it falls behind.  As long as the task that follows the broadcasts
  is handed every one of them, the HTTP entry points find after each turn exactly the enabled routes of the
  configuration at that moment.  If it ever misses a broadcast, it ends, and no later change of the
  configuration reaches the data plane.\<close>

theorem data_plane_follows_config:
  "(ts \<noteq> [] \<and> list_all (\<lambda>t. ft_recv t = Received ()) ts \<and> validate_routes (cm_snapshot (ft_config (last ts))) = Ok ()
      \<longrightarrow> (ht_lookup h (rs_hosts (follow_task ts st)) = Some r
           \<longleftrightarrow> r \<in> set (cm_snapshot (ft_config (last ts))) \<and> sr_enabled r \<and> host_key r = Some (to_ascii_lowercase h)))
   \<and> (list_all (\<lambda>t. ft_recv t = Received ()) ts \<and> ft_recv t = Lagged n \<longrightarrow> follow_task (ts @ t # later) st = follow_task ts st)"
proof (intro conjI impI)
  assume a: "ts \<noteq> [] \<and> list_all (\<lambda>t. ft_recv t = Received ()) ts \<and> validate_routes (cm_snapshot (ft_config (last ts))) = Ok ()"
  then have split: "follow_task ts st = follow_task [last ts] (follow_task (butlast ts) st)"
    using follow_task_append [of "butlast ts" "[last ts]" st] by (auto simp: list_all_iff dest: in_set_butlastD)
  have "ft_recv (last ts) = Received ()" using a by (simp add: list_all_iff)
  then show "ht_lookup h (rs_hosts (follow_task ts st)) = Some r
           \<longleftrightarrow> r \<in> set (cm_snapshot (ft_config (last ts))) \<and> sr_enabled r \<and> host_key r = Some (to_ascii_lowercase h)"
    unfolding split using a by (simp add: follow_config_def Let_def ht_lookup_reconcile validate_routes_iff)
next
  assume "list_all (\<lambda>t. ft_recv t = Received ()) ts \<and> ft_recv t = Lagged n"
  then show "follow_task (ts @ t # later) st = follow_task ts st"
    using follow_task_append [of ts "t # later" st] by (auto simp: list_all_iff)
qed

section \<open>Witnesses\<close>

definition sample_turns :: "ws_turn list" where
  "sample_turns = [BusTurn (Received (NodeOnline ''n1'')) True, ClientTurn ClientOther, BusTurn (Lagged 2) True,
     BusTurn (Received (ConfigChanged ''n1'')) True, ClientTurn ClientClose, BusTurn (Received (NodeOffline ''n1'')) True]"

lemma sample_forwarded: "forward_events (\<lambda>e. Some ''event'') sample_turns = [''event'', lagged_hint 2, ''event'']"
  by (simp add: sample_turns_def)

definition follow_sample :: "unit recv_result \<Rightarrow> ServerRoute list \<Rightarrow> follow_turn" where
  "follow_sample r routes = \<lparr>ft_recv = r, ft_config = \<lparr>cm_snapshot = routes, cm_broadcasts = 1\<rparr>, ft_bind = Some, ft_order = (\<lambda>xs. xs)\<rparr>"

theorem data_plane_follows_config_witness:
  "\<exists>st :: unit server. ht_lookup ''APP.example.com'' (rs_hosts (follow_task [follow_sample (Received ()) [demo_route],
       follow_sample (Lagged 3) [], follow_sample (Received ()) []] st)) = Some demo_route"
proof -
  have valid: "validate_routes [demo_route] = Ok ()" "host_key demo_route = Some (to_ascii_lowercase ''APP.example.com'')" "sr_enabled demo_route"
    by code_simp+
  fix st :: "unit server"
  have "ht_lookup ''APP.example.com'' (rs_hosts (follow_task [follow_sample (Received ()) [demo_route]] st)) = Some demo_route"
    using data_plane_follows_config [of "[follow_sample (Received ()) [demo_route]]" "''APP.example.com''" st demo_route
        "follow_sample (Lagged 3) []" 3 "[]"] valid
    by (simp add: follow_sample_def)
  then show ?thesis
    using data_plane_follows_config [of "[follow_sample (Received ()) [demo_route]]" "''APP.example.com''" st demo_route
        "follow_sample (Lagged 3) []" 3 "[follow_sample (Received ()) []]"]
    by (intro exI [of _ st]) (simp add: follow_sample_def)
qed

definition signed_in :: app where
  "signed_in = (sample_app empty_db)\<lparr>a_sessions := snd (ss_create 1000 ''sid'' ''tok'' (sample_account ''viewer'') new_store)\<rparr>"

lemma bearer_tok: "bearer_token [(''authorization'', ''Bearer tok'')] = Some ''tok''"
  by code_simp

lemma signed_in_user: "fst (current_user (session_now sample_env) [(''authorization'', ''Bearer tok'')] (a_sessions signed_in)) = Some (sample_account ''viewer'')"
proof -
  have "fst (user_by_access_token 1000 ''tok'' (a_sessions signed_in)) = Some (sample_account ''viewer'')"
    by (simp add: signed_in_def store_defs ttl_defs)
  then show ?thesis
    by (auto simp: current_user_def bearer_tok session_now_def sample_env_def split: prod.splits)
qed

theorem websocket_accounts_witness:
  "\<exists>texts s'. ws_handler sample_env [(''authorization'', ''Bearer tok'')] (\<lambda>e. Some ''event'') sample_turns signed_in = (Ok texts, s')
     \<and> texts = [''event'', lagged_hint 2, ''event'']
     \<and> (\<exists>vs k. k \<le> 6 \<and> texts = map (frame_text (\<lambda>e. Some ''event'')) vs
          \<and> accounts (take k [NodeOnline ''n1'', NodeOffline ''n1'', NodeOnline ''n1'', ConfigChanged ''n1'', NodeOffline ''n1'', NodeOnline ''n2'']) vs)"
proof -
  let ?evs = "[NodeOnline ''n1'', NodeOffline ''n1'', NodeOnline ''n1'', ConfigChanged ''n1'', NodeOffline ''n1'', NodeOnline ''n2'']"
  let ?run = "ws_handler sample_env [(''authorization'', ''Bearer tok'')] (\<lambda>e. Some ''event'') sample_turns signed_in"
  have explained: "explains ?evs (bus_results sample_turns)" by (simp add: sample_turns_def)
  obtain r s' where run: "?run = (r, s')" by force
  obtain texts where r: "r = Ok texts"
    using websocket_accounts [OF explained, of "\<lambda>e. Some ''event''" sample_env "[(''authorization'', ''Bearer tok'')]" signed_in]
      signed_in_user run by (cases r) auto
  have shown: "\<exists>vs k. k \<le> length ?evs \<and> texts = map (frame_text (\<lambda>e. Some ''event'')) vs \<and> accounts (take k ?evs) vs"
    using websocket_accounts [OF explained, of "\<lambda>e. Some ''event''" sample_env "[(''authorization'', ''Bearer tok'')]" signed_in] run
    unfolding r by simp
  have len: "length ?evs = 6" by simp
  have "texts = [''event'', lagged_hint 2, ''event'']"
    using run r by (auto simp: ws_handler_def hbind_Ok sample_forwarded)
  then show ?thesis using shown [unfolded len] run [unfolded r] by (intro exI [of _ texts] exI [of _ s'] conjI) assumption+
qed

end
