(* ===== verification/RouteReload.thy ===== *)
theory RouteReload
  imports RouteApi
begin

text \<open>
  From the stored routes to the running configuration: when the reload of the configuration
  (\<open>server/src/config.rs\<close>) succeeds on the rows the route endpoints (\<open>server/src/api/routes.rs\<close>) store.
\<close>

text \<open>The place in the data plane a stored row asks for: a host name in lower case, or a parsed listen address.\<close>

definition row_slot :: "RouteDetailRow \<Rightarrow> slot option" where
  "row_slot r =
     (if route_route_type r = ''http'' \<or> route_route_type r = ''https''
      then map_option (\<lambda>h. HostSlot (to_ascii_lowercase h)) (route_hostname r)
      else (case (route_listen_host r, route_listen_port r) of
              (Some h, Some p) \<Rightarrow> map_option (\<lambda>ip. ListenSlot \<lparr>sa_ip = ip, sa_port = of_int p\<rparr>) (parse_ip h)
            | _ \<Rightarrow> None))"

lemma typed_row_slot:
  assumes "row_typed Y r" "try_from_row pu pl (route_row r) = Ok sr"
  shows "slot sr = row_slot r"
proof -
  obtain ty where ty: "route_route_type r = route_type_str ty"
    and addr: "if ty = Tcp \<or> ty = Udp
     then (\<exists>h p. route_listen_host r = Some h \<and> parse_ip h \<noteq> None \<and> route_listen_port r = Some p \<and> 0 < p \<and> p < 65536)
        \<and> route_hostname r = None
     else route_listen_host r = None \<and> route_listen_port r = None \<and> (\<exists>h. route_hostname r = Some h \<and> h \<noteq> [])"
    using assms(1) unfolding row_typed_def by blast
  show ?thesis
  proof (cases "ty = Tcp \<or> ty = Udp")
    case True
    then obtain h p where h: "route_listen_host r = Some h" "parse_ip h \<noteq> None" "route_listen_port r = Some p" "0 < p" "p < 65536"
      using addr by auto
    then show ?thesis
      using True assms(2) u16_typed [OF h(4,5)]
      by (auto simp: try_from_row_def route_row_def Let_def ty slot_def is_http_def listen_key_def listen_addr_def row_slot_def)
  next
    case False
    then have "ty = Http \<or> ty = Https" by (cases ty) auto
    then show ?thesis
      using addr assms(2) by (auto simp: try_from_row_def route_row_def Let_def ty slot_def is_http_def host_key_def row_slot_def)
  qed
qed

lemma collect_rows_map: "collect_rows f (map g rs) = collect_rows (\<lambda>r. f (g r)) rs"
  by (induction rs) simp_all

lemma collect_rows_Ok:
  assumes "\<forall>r\<in>set rs. \<exists>s. f r = Ok s \<and> P r s"
  shows "\<exists>ss. collect_rows f rs = Ok ss \<and> list_all2 P rs ss"
  using assms by (induction rs) auto

text \<open>C37. A reload fails only on a clash.  If the stored rows are well typed (as the route endpoints keep them), have readable
  identifiers and limits that can be read again, then the reload of the configuration, at start-up or after a
  change, succeeds exactly if no two of them ask for the same place: the same host name up to case, or the
  same address and port after parsing.\<close>

theorem reload_succeeds_iff:
  assumes "rows_typed Y (t_routes db)"
    and "\<forall>r\<in>set (t_routes db). pu (route_id r) \<noteq> None \<and> pu (route_node_id r) \<noteq> None"
    and "\<forall>l t. y_show_limits Y l = Some t \<longrightarrow> t \<noteq> [] \<and> pl t = Some l"
  shows "is_ok (fst (cm_reload pu pl (Ok (list_routes db)) m)) \<longleftrightarrow> distinct (map row_slot (t_routes db))"
proof -
  let ?rows = "sort_key route_name (t_routes db)"
  have row: "\<exists>s. try_from_row pu pl (route_row r) = Ok s \<and> slot s = row_slot r \<and> slot s \<noteq> None" if "r \<in> set ?rows" for r
  proof -
    have typed: "row_typed Y r" using that assms(1) by (simp add: rows_typed_def list_all_iff)
    from that assms(2) obtain rid nid where "pu (route_id r) = Some rid" "pu (route_node_id r) = Some nid" by auto
    from typed_row_parses [of Y r pu rid nid pl, OF typed this assms(3)] show ?thesis
      using typed_row_slot [OF typed] by blast
  qed
  have "\<exists>ss. collect_rows (\<lambda>r. try_from_row pu pl (route_row r)) ?rows = Ok ss
      \<and> list_all2 (\<lambda>r s. slot s = row_slot r \<and> slot s \<noteq> None) ?rows ss"
    by (rule collect_rows_Ok) (intro ballI row)
  then obtain ss where ss: "collect_rows (\<lambda>r. try_from_row pu pl (route_row r)) ?rows = Ok ss"
    "list_all2 (\<lambda>r s. slot s = row_slot r \<and> slot s \<noteq> None) ?rows ss"
    by (elim exE conjE)
  have load: "cm_load pu pl (Ok (list_routes db)) = Ok ss"
    using ss(1) by (simp add: cm_load_def list_routes_def collect_rows_map)
  have slots: "map slot ss = map row_slot ?rows" "\<forall>s\<in>set ss. slot s \<noteq> None"
    using ss(2) by (auto simp: list_all2_conv_all_nth in_set_conv_nth intro: nth_equalityI)
  have "validate_routes ss = Ok () \<longleftrightarrow> distinct (map row_slot (t_routes db))"
    unfolding validate_routes_iff routes_valid_def slots(1) using slots(2) by (simp add: distinct_map)
  then show ?thesis
    by (auto simp: cm_reload_def load split: sum.splits)
qed

theorem reload_succeeds_iff_witness:
  "\<forall>l0. is_ok (fst (cm_reload (\<lambda>_. Some 1) (\<lambda>_. Some l0) (Ok (list_routes (empty_db\<lparr>t_routes := [sample_row]\<rparr>))) new_config_manager))
     \<and> \<not> is_ok (fst (cm_reload (\<lambda>_. Some 1) (\<lambda>_. Some l0)
           (Ok (list_routes (empty_db\<lparr>t_routes := [sample_row, sample_row\<lparr>route_id := ''r2''\<rparr>]\<rparr>))) new_config_manager))"
proof
  fix l0
  have "parse_ip ''127.0.0.1'' \<noteq> None" by (simp add: parse_eval)
  then have "row_typed (limits_api l0) (sample_row\<lparr>route_id := i\<rparr>)" for i
    by (auto simp: row_typed_def sample_row_def limits_api_def intro!: exI [of _ Udp] exI [of _ Disabled])
  from this [of "''r1''"] this [of "''r2''"] have typed: "row_typed (limits_api l0) sample_row" "row_typed (limits_api l0) (sample_row\<lparr>route_id := ''r2''\<rparr>)"
    by (simp_all add: sample_row_def)
  have lims: "\<forall>l t. y_show_limits (limits_api l0) l = Some t \<longrightarrow> t \<noteq> [] \<and> Some l0 = Some l"
    by (auto simp: limits_api_def split: if_splits)
  show "is_ok (fst (cm_reload (\<lambda>_. Some 1) (\<lambda>_. Some l0) (Ok (list_routes (empty_db\<lparr>t_routes := [sample_row]\<rparr>))) new_config_manager))
     \<and> \<not> is_ok (fst (cm_reload (\<lambda>_. Some 1) (\<lambda>_. Some l0)
           (Ok (list_routes (empty_db\<lparr>t_routes := [sample_row, sample_row\<lparr>route_id := ''r2''\<rparr>]\<rparr>))) new_config_manager))"
    using reload_succeeds_iff [of "limits_api l0" "empty_db\<lparr>t_routes := [sample_row]\<rparr>" "\<lambda>_. Some 1" "\<lambda>_. Some l0" new_config_manager]
      reload_succeeds_iff [of "limits_api l0" "empty_db\<lparr>t_routes := [sample_row, sample_row\<lparr>route_id := ''r2''\<rparr>]\<rparr>" "\<lambda>_. Some 1" "\<lambda>_. Some l0" new_config_manager]
      typed lims
    by (simp add: rows_typed_def row_slot_def)
qed

end
