(* ===== verification/Metrics.thy ===== *)
theory Metrics
  imports HttpProxy Connection Relay
begin

text \<open>
  Metrics: the registry of \<open>crates/tunnel-metrics\<close>, the page of \<open>server/src/api/metrics.rs\<close>, and what the data
  plane and the control side report.

  The registry proper belongs to a third-party library.  Constructing and registering a metric are parameters that
  say whether the call succeeds, and \<open>registry_ok\<close> is their documented behaviour.  What a handler reports is a list of updates,
  in the order of the code.  A counter is a 64-bit integer that wraps; a gauge is a float, and \<open>rnd\<close> is the
  rounding of its arithmetic.
\<close>

section \<open>The registry\<close>

datatype MetricType = Gauge | IntCounter

definition metric_table :: "(string \<times> MetricType) list" where
  "metric_table =
     [(''tunnel_nodes_online'', Gauge), (''tunnel_nodes_total'', Gauge), (''tunnel_sessions_active'', Gauge),
      (''tunnel_streams_active'', Gauge), (''tunnel_connections_total'', IntCounter),
      (''tunnel_connections_failed'', IntCounter), (''tunnel_bytes_received_total'', IntCounter),
      (''tunnel_bytes_sent_total'', IntCounter), (''tunnel_udp_packets_total'', IntCounter),
      (''tunnel_route_errors_total'', IntCounter), (''tunnel_agent_rtt_seconds'', Gauge),
      (''tunnel_agent_reconnect_total'', IntCounter)]"

text \<open>A cell is written once: \<open>Some False\<close> stands for a metric that could not be made or registered.\<close>

record registry =
  rg_cells :: "string \<rightharpoonup> bool"
  rg_names :: "string list"

record prometheus =
  pr_new :: "string \<Rightarrow> bool"
  pr_register :: "string \<Rightarrow> string list \<Rightarrow> bool"

definition metric :: "prometheus \<Rightarrow> string \<Rightarrow> registry \<Rightarrow> bool \<times> registry" where
  "metric P name r =
     (case rg_cells r name of
        Some m \<Rightarrow> (m, r)
      | None \<Rightarrow>
          if pr_new P name \<and> pr_register P name (rg_names r)
          then (True, r\<lparr>rg_cells := (rg_cells r)(name \<mapsto> True), rg_names := rg_names r @ [name]\<rparr>)
          else (False, r\<lparr>rg_cells := (rg_cells r)(name \<mapsto> False)\<rparr>))"

definition register_all :: "prometheus \<Rightarrow> registry \<Rightarrow> registry" where
  "register_all P r = fold (\<lambda>(name, _) r. snd (metric P name r)) metric_table r"

text \<open>The documented behaviour: the metrics of the table are well-formed, and a name is refused exactly if it is taken.\<close>

definition registry_ok :: "prometheus \<Rightarrow> bool" where
  "registry_ok P \<longleftrightarrow> list_all (\<lambda>(name, _). pr_new P name) metric_table
     \<and> list_all (\<lambda>(name, _). \<forall>names. pr_register P name names \<longleftrightarrow> name \<notin> set names) metric_table"

section \<open>Updates\<close>

datatype metric_op = Inc string | IncBy string u64 | Raise string | Lower string | SetTo string real

record meter =
  mv_counter :: "string \<Rightarrow> u64"
  mv_gauge :: "string \<Rightarrow> real"

text \<open>\<open>if let Some(c) = ...\<close>: without the metric nothing happens.\<close>

fun apply_op :: "(real \<Rightarrow> real) \<Rightarrow> (string \<Rightarrow> bool) \<Rightarrow> metric_op \<Rightarrow> meter \<Rightarrow> meter" where
  "apply_op rnd known (Inc m) v = (if known m then v\<lparr>mv_counter := (mv_counter v)(m := mv_counter v m + 1)\<rparr> else v)"
| "apply_op rnd known (IncBy m n) v = (if known m then v\<lparr>mv_counter := (mv_counter v)(m := mv_counter v m + n)\<rparr> else v)"
| "apply_op rnd known (Raise m) v = (if known m then v\<lparr>mv_gauge := (mv_gauge v)(m := rnd (mv_gauge v m + 1))\<rparr> else v)"
| "apply_op rnd known (Lower m) v = (if known m then v\<lparr>mv_gauge := (mv_gauge v)(m := rnd (mv_gauge v m - 1))\<rparr> else v)"
| "apply_op rnd known (SetTo m x) v = (if known m then v\<lparr>mv_gauge := (mv_gauge v)(m := x)\<rparr> else v)"

definition apply_ops :: "(real \<Rightarrow> real) \<Rightarrow> (string \<Rightarrow> bool) \<Rightarrow> metric_op list \<Rightarrow> meter \<Rightarrow> meter" where
  "apply_ops rnd known ops v = fold (apply_op rnd known) ops v"

section \<open>What the data plane reports\<close>

abbreviation "m_total \<equiv> ''tunnel_connections_total''"
abbreviation "m_failed \<equiv> ''tunnel_connections_failed''"
abbreviation "m_route_errors \<equiv> ''tunnel_route_errors_total''"
abbreviation "m_streams \<equiv> ''tunnel_streams_active''"

definition forward_tcp_report :: "serde_json \<Rightarrow> agent_link \<Rightarrow> ServerRoute \<Rightarrow> SocketAddr \<Rightarrow> metric_op list" where
  "forward_tcp_report J link route peer =
     (if \<not> lk_open link then [Inc m_failed]
      else if \<not> lk_send_ok link (open_tcp route (show_socket peer)) then [Inc m_failed]
      else case fst (read_frame (lk_recv link)) of
        Inr (Some frame) \<Rightarrow>
          (case from_frame J frame of
             Inr (MOpenOk _) \<Rightarrow> []
           | Inr (MOpenFail _) \<Rightarrow> [Inc m_failed, Inc m_route_errors]
           | Inr _ \<Rightarrow> [Inc m_failed]
           | Inl _ \<Rightarrow> [Inc m_failed])
      | Inr None \<Rightarrow> [Inc m_failed]
      | Inl _ \<Rightarrow> [Inc m_failed])"

text \<open>One accepted connection, up to the end of its forwarding task but for the relayed bytes: the guard of
  the task lowers the gauge when it is dropped.\<close>

definition accept_tcp_report :: "serde_json \<Rightarrow> (nat \<Rightarrow> agent_link) \<Rightarrow> data_plane \<Rightarrow> SocketAddr \<Rightarrow> SocketAddr
    \<Rightarrow> TcpProxy \<times> ConnLimiter \<Rightarrow> metric_op list" where
  "accept_tcp_report J links dp addr peer = (\<lambda>(tp, limiter).
     case rt_lookup addr (tp_routes tp) of
       None \<Rightarrow> [Inc m_route_errors]
     | Some route \<Rightarrow>
         if \<not> acl_admits dp route peer then []
         else
           Inc m_total #
           (case cr_get (sr_node_id route) (dp_conns dp) of
              None \<Rightarrow> [Inc m_failed, Inc m_route_errors]
            | Some conn \<Rightarrow>
                if fst (take_guard route limiter)
                then Raise m_streams # forward_tcp_report J (links conn) route peer @ [Lower m_streams]
                else []))"

text \<open>The byte counters at the end of \<open>copy_duplex\<close>; a direction that ended with an error counts nothing.\<close>

definition copy_report :: "(io_error, u64) result \<Rightarrow> (io_error, u64) result \<Rightarrow> metric_op list" where
  "copy_report a b =
     (case a of Inr n \<Rightarrow> [IncBy ''tunnel_bytes_received_total'' n] | Inl _ \<Rightarrow> [])
     @ (case b of Inr n \<Rightarrow> [IncBy ''tunnel_bytes_sent_total'' n] | Inl _ \<Rightarrow> [])"

definition relay_http_report :: "serde_json \<Rightarrow> agent_link \<Rightarrow> ServerRoute \<Rightarrow> SocketAddr \<Rightarrow> metric_op list" where
  "relay_http_report J link route peer =
     (if \<not> lk_open link then [Inc m_failed]
      else if \<not> lk_send_ok link (open_tcp route (show_socket peer)) then [Inc m_failed]
      else if lk_late link then [Inc m_failed]
      else case fst (read_frame (lk_recv link)) of
        Inl _ \<Rightarrow> [Inc m_failed]
      | Inr None \<Rightarrow> [Inc m_failed]
      | Inr (Some frame) \<Rightarrow>
          (case from_frame J frame of
             Inr (MOpenOk _) \<Rightarrow> []
           | Inr (MOpenFail _) \<Rightarrow> [Inc m_failed, Inc m_route_errors]
           | _ \<Rightarrow> [Inc m_failed]))"

definition serve_http_report :: "serde_json \<Rightarrow> (nat \<Rightarrow> agent_link) \<Rightarrow> data_plane \<Rightarrow> ServerRoute \<Rightarrow> SocketAddr \<Rightarrow> ConnLimiter
    \<Rightarrow> metric_op list" where
  "serve_http_report J links dp route peer limiter =
     (if \<not> acl_admits dp route peer then []
      else if \<not> fst (take_guard route limiter) then []
      else case cr_get (sr_node_id route) (dp_conns dp) of
        None \<Rightarrow> [Inc m_failed, Inc m_route_errors]
      | Some conn \<Rightarrow> relay_http_report J (links conn) route peer)"

definition handle_http_report :: "serde_json \<Rightarrow> (bytes \<Rightarrow> http_request option) \<Rightarrow> (nat \<Rightarrow> agent_link) \<Rightarrow> data_plane \<Rightarrow> HostTable
    \<Rightarrow> reads \<Rightarrow> SocketAddr \<Rightarrow> ConnLimiter \<Rightarrow> metric_op list" where
  "handle_http_report J parse links dp table rs peer limiter =
     (case read_head [] rs of
        (Inr (Some head_end), buf, _) \<Rightarrow>
          (case parse (take head_end buf) of
             Some req \<Rightarrow>
               if rq_method req = None \<or> rq_path req = None then []
               else (case ht_lookup (host_for_lookup (host_header (rq_headers req))) table of
                       None \<Rightarrow> [Inc m_route_errors]
                     | Some route \<Rightarrow> serve_http_report J links dp route peer limiter)
           | None \<Rightarrow> [])
      | _ \<Rightarrow> [])"

text \<open>The accept loop of the HTTP entry point counts the connection before it hands it over; that of the HTTPS entry
  point does not, and passed-through connections report nothing at all.\<close>

definition http_report :: "serde_json \<Rightarrow> (bytes \<Rightarrow> http_request option) \<Rightarrow> (nat \<Rightarrow> agent_link) \<Rightarrow> data_plane \<Rightarrow> HostTable
    \<Rightarrow> reads \<Rightarrow> SocketAddr \<Rightarrow> ConnLimiter \<Rightarrow> metric_op list" where
  "http_report J parse links dp table rs peer limiter = Inc m_total # handle_http_report J parse links dp table rs peer limiter"

definition https_report :: "serde_json \<Rightarrow> (bytes \<Rightarrow> http_request option) \<Rightarrow> (Prefixed \<Rightarrow> reads option) \<Rightarrow> (nat \<Rightarrow> agent_link)
    \<Rightarrow> data_plane \<Rightarrow> HostTable \<Rightarrow> reads \<Rightarrow> SocketAddr \<Rightarrow> ConnLimiter \<Rightarrow> metric_op list" where
  "https_report J parse tls links dp table rs peer limiter =
     (case peek_sni rs of
        (Some (Inr (sni, prefix)), rest) \<Rightarrow>
          (case Option.bind (Option.bind sni (\<lambda>s. ht_lookup s table)) (\<lambda>r. if tls_passthrough r then Some r else None) of
             Some route \<Rightarrow> []
           | None \<Rightarrow>
               (case tls \<lparr>px_prefix = prefix, px_inner = rest\<rparr> of
                  None \<Rightarrow> []
                | Some plain \<Rightarrow> handle_http_report J parse links dp table plain peer limiter))
      | _ \<Rightarrow> [])"

section \<open>What the control side reports\<close>

text \<open>After a successful handshake, and when the connection has been cleaned up.\<close>

definition online_report :: "metric_op list" where
  "online_report = [Raise ''tunnel_nodes_online'', Raise ''tunnel_sessions_active'']"

definition offline_report :: "metric_op list" where
  "offline_report = [Lower ''tunnel_nodes_online'', Lower ''tunnel_sessions_active'']"

text \<open>The page: the number of nodes is taken from the database, then everything is printed.  Printing belongs to the library.\<close>

definition metrics_page :: "(meter \<Rightarrow> string) \<Rightarrow> (int \<Rightarrow> real) \<Rightarrow> (string \<Rightarrow> bool) \<Rightarrow> Db \<Rightarrow> meter \<Rightarrow> string \<times> meter" where
  "metrics_page render to_f64 known db v =
     (let v1 = apply_op id known (SetTo ''tunnel_nodes_total'' (to_f64 (int (length (t_nodes db))))) v in (render v1, v1))"

text \<open>Runs of the hub with the gauges of the control side.\<close>

inductive metered :: "(real \<Rightarrow> real) \<Rightarrow> externals \<Rightarrow> Db \<Rightarrow> hub \<Rightarrow> meter \<Rightarrow> bool" for rnd X db where
  metered_init: "metered rnd X db (hub_init db) \<lparr>mv_counter = (\<lambda>_. 0), mv_gauge = (\<lambda>_. 0)\<rparr>"
| metered_connect: "metered rnd X db h v \<Longrightarrow> h_live h conn = None \<Longrightarrow>
     card {c. h_live h c \<noteq> None} < 2 ^ 53 \<Longrightarrow>
     metered rnd X db (accept_node X now remote version conn nid h) (apply_ops rnd (\<lambda>_. True) online_report v)"
| metered_leave: "metered rnd X db h v \<Longrightarrow> h_live h conn = Some (nid, ch) \<Longrightarrow>
     metered rnd X db (cleanup X now conn nid h) (apply_ops rnd (\<lambda>_. True) offline_report v)"

section \<open>The registry registers each metric once\<close>

lemma metric_known [simp]: "rg_cells r name = Some m \<Longrightarrow> metric P name r = (m, r)"
  by (simp add: metric_def)

lemma metric_cell: "fst (metric P name r) = m \<Longrightarrow> rg_cells (snd (metric P name r)) name = Some m"
  by (auto simp: metric_def split: option.splits if_splits)

lemma metric_keeps: "rg_cells r other = Some m \<Longrightarrow> rg_cells (snd (metric P name r)) other = Some m"
  by (auto simp: metric_def split: option.splits if_splits)

lemma register_fold_keeps:
  "rg_cells r other = Some m \<Longrightarrow> rg_cells (fold (\<lambda>(name, _) r. snd (metric P name r)) ms r) other = Some m"
  by (induction ms arbitrary: r) (auto intro: metric_keeps)

lemma register_fold_cells:
  "(name, ty) \<in> set ms \<Longrightarrow> \<exists>m. rg_cells (fold (\<lambda>(name, _) r. snd (metric P name r)) ms r) name = Some m"
proof (induction ms arbitrary: r)
  case (Cons nm ms)
  show ?case
  proof (cases "nm = (name, ty)")
    case True
    with metric_cell [OF refl, of P name r] show ?thesis by (auto intro: register_fold_keeps)
  next
    case False
    with Cons.prems have "(name, ty) \<in> set ms" by simp
    from Cons.IH [OF this] show ?thesis by simp
  qed
qed simp

lemma register_fold_done:
  "list_all (\<lambda>(name, _). rg_cells r name \<noteq> None) ms \<Longrightarrow> fold (\<lambda>(name, _) r. snd (metric P name r)) ms r = r"
  by (induction ms) auto

text \<open>Registering again changes nothing, whatever happened the first time.\<close>

theorem register_all_idempotent: "register_all P (register_all P r) = register_all P r"
proof -
  have "list_all (\<lambda>(name, _). rg_cells (register_all P r) name \<noteq> None) metric_table"
    unfolding register_all_def list_all_iff by (auto dest: register_fold_cells)
  then show ?thesis unfolding register_all_def [of P "register_all P r"] by (rule register_fold_done)
qed

lemma register_fold_names:
  assumes "list_all (\<lambda>(n, _). pr_new P n) ms"
    and "list_all (\<lambda>(n, _). \<forall>names. pr_register P n names \<longleftrightarrow> n \<notin> set names) ms"
    and "distinct (map fst ms)" "\<forall>n\<in>fst ` set ms. rg_cells r n = None \<and> n \<notin> set (rg_names r)"
  shows "rg_names (fold (\<lambda>(name, _) r. snd (metric P name r)) ms r) = rg_names r @ map fst ms
    \<and> (\<forall>n\<in>fst ` set ms. rg_cells (fold (\<lambda>(name, _) r. snd (metric P name r)) ms r) n = Some True)"
  using assms
proof (induction ms arbitrary: r)
  case (Cons nm ms)
  obtain n ty where nm: "nm = (n, ty)" by force
  let ?r = "snd (metric P n r)"
  have r: "?r = r\<lparr>rg_cells := (rg_cells r)(n \<mapsto> True), rg_names := rg_names r @ [n]\<rparr>"
    using Cons.prems by (simp add: metric_def nm)
  have "\<forall>m\<in>fst ` set ms. rg_cells ?r m = None \<and> m \<notin> set (rg_names ?r)"
    using Cons.prems by (auto simp: r nm image_iff)
  with Cons show ?case
    using register_fold_keeps [of ?r n True P ms] by (auto simp: nm r)
qed simp

text \<open>On an empty registry every metric of the table is registered, once and in this order.\<close>

theorem register_all_complete:
  assumes "registry_ok P" "rg_cells r = Map.empty" "rg_names r = []"
  shows "rg_names (register_all P r) = map fst metric_table
    \<and> (\<forall>n\<in>fst ` set metric_table. fst (metric P n (register_all P r)))"
proof -
  have "distinct (map fst metric_table)" by (simp add: metric_table_def)
  with assms have "rg_names (register_all P r) = map fst metric_table
      \<and> (\<forall>n\<in>fst ` set metric_table. rg_cells (register_all P r) n = Some True)"
    using register_fold_names [of P metric_table r] by (simp add: registry_ok_def register_all_def)
  then show ?thesis by auto
qed

section \<open>The accounts of the entry points\<close>

text \<open>What a list of updates adds to a counter.\<close>

fun added :: "string \<Rightarrow> metric_op list \<Rightarrow> u64" where
  "added m [] = 0"
| "added m (Inc k # ops) = (if k = m then 1 else 0) + added m ops"
| "added m (IncBy k n # ops) = (if k = m then n else 0) + added m ops"
| "added m (_ # ops) = added m ops"

lemma added_append [simp]: "added m (xs @ ys) = added m xs + added m ys"
  by (induction m xs rule: added.induct) auto

lemma counter_after: "mv_counter (apply_ops rnd (\<lambda>_. True) ops v) m = mv_counter v m + added m ops"
  unfolding apply_ops_def by (induction m ops arbitrary: v rule: added.induct) auto

text \<open>A connection attempt on a TCP listener, with the state in which the accept loop finds it, and its outcomes.\<close>

record tcp_attempt =
  ta_links :: "nat \<Rightarrow> agent_link"
  ta_plane :: data_plane
  ta_addr :: SocketAddr
  ta_peer :: SocketAddr
  ta_proxy :: TcpProxy
  ta_limiter :: ConnLimiter

definition attempt_report :: "serde_json \<Rightarrow> tcp_attempt \<Rightarrow> metric_op list" where
  "attempt_report J t = accept_tcp_report J (ta_links t) (ta_plane t) (ta_addr t) (ta_peer t) (ta_proxy t, ta_limiter t)"

definition attempt_relayed :: "serde_json \<Rightarrow> tcp_attempt \<Rightarrow> bool" where
  "attempt_relayed J t \<longleftrightarrow>
     CopyDuplex \<in> set (fst (accept_tcp J (ta_links t) (ta_plane t) (ta_addr t) (ta_peer t) (ta_proxy t, ta_limiter t)))"

definition attempt_at_limit :: "tcp_attempt \<Rightarrow> bool" where
  "attempt_at_limit t \<longleftrightarrow>
     (\<exists>route. rt_lookup (ta_addr t) (tp_routes (ta_proxy t)) = Some route \<and> acl_admits (ta_plane t) route (ta_peer t)
        \<and> cr_get (sr_node_id route) (dp_conns (ta_plane t)) \<noteq> None \<and> \<not> fst (take_guard route (ta_limiter t)))"

lemma forward_accounts:
  "added m_failed (forward_tcp_report J link route peer) = (if CopyDuplex \<in> set (forward_tcp J link route peer) then 0 else 1)"
  "added m_total (forward_tcp_report J link route peer) = 0"
  by (auto simp: forward_tcp_report_def forward_tcp_def Let_def split: sum.splits option.splits Message.splits)

lemma attempt_accounts:
  "added m_total (attempt_report J t)
     = added m_failed (attempt_report J t) + of_bool (attempt_relayed J t) + of_bool (attempt_at_limit t)"
  by (cases "rt_lookup (ta_addr t) (tp_routes (ta_proxy t))")
    (auto simp: attempt_report_def attempt_relayed_def attempt_at_limit_def accept_tcp_report_def accept_tcp_def Let_def
      forward_accounts split: option.splits prod.splits bool.splits)

text \<open>The counters of the TCP entry point add up: over any sequence of connection attempts, in whatever states they were
  made, the accepted connections are the failed ones, the relayed ones and those turned away at the
  connection limit of their route, and nothing else.  (Counters wrap, so this is an equation of 64-bit integers.)\<close>

theorem tcp_counters_add_up:
  "let v' = apply_ops rnd (\<lambda>_. True) (concat (map (attempt_report J) ts)) v in
   mv_counter v' m_total - mv_counter v m_total
     = (mv_counter v' m_failed - mv_counter v m_failed)
       + of_nat (length (filter (attempt_relayed J) ts)) + of_nat (length (filter attempt_at_limit ts))"
proof -
  have "added m_total (concat (map (attempt_report J) ts))
      = added m_failed (concat (map (attempt_report J) ts))
        + of_nat (length (filter (attempt_relayed J) ts)) + of_nat (length (filter attempt_at_limit ts))"
    by (induction ts) (simp_all add: attempt_accounts)
  then show ?thesis by (simp add: counter_after)
qed

text \<open>The task of a connection lowers the gauge of streams exactly if it was raised for it.\<close>

lemma raise_lower_forward:
  "count_list (forward_tcp_report J link route peer) (Raise m) = 0"
  "count_list (forward_tcp_report J link route peer) (Lower m) = 0"
  by (simp_all add: forward_tcp_report_def split: sum.splits option.splits Message.splits)

theorem stream_gauge_balanced:
  "count_list (accept_tcp_report J links dp addr peer st) (Raise m_streams)
     = count_list (accept_tcp_report J links dp addr peer st) (Lower m_streams)"
  by (cases st) (auto simp: accept_tcp_report_def raise_lower_forward split: option.splits)

text \<open>A plain HTTP connection counts once, and as failed at most once; when it fails the bytes of its request were not relayed.\<close>

lemma relay_accounts:
  "added m_total (relay_http_report J link route peer) = 0"
  "added m_failed (relay_http_report J link route peer) = 0 \<or> added m_failed (relay_http_report J link route peer) = 1"
  "added m_failed (relay_http_report J link route peer) = 1 \<Longrightarrow> \<not> snd (relay_http J link route peer head body)"
  by (auto simp: relay_http_report_def relay_http_def Let_def split: sum.splits option.splits Message.splits)

lemma handle_http_accounts:
  "added m_total (handle_http_report J parse links dp table rs peer limiter) = 0"
  "added m_failed (handle_http_report J parse links dp table rs peer limiter) \<in> {0, 1}"
  using relay_accounts
  by (auto simp: handle_http_report_def serve_http_report_def split: sum.splits option.splits prod.splits)

text \<open>The HTTPS entry point counts failures of connections it has not counted, so the failed connections can outnumber all.\<close>

lemma https_counts_no_connection: "added m_total (https_report J parse tls links dp table rs peer limiter) = 0"
  by (auto simp: https_report_def handle_http_accounts split: option.splits sum.splits prod.splits)

lemma peek_not_tls: "peek_sni [Inr [71, 13, 10, 13, 10]] = (Some (Inr (None, [71, 13, 10, 13, 10])), [])"
  by code_simp

lemma report_selected:
  "http_select parse table rs = Some route \<Longrightarrow>
     handle_http_report J parse links dp table rs peer limiter = serve_http_report J links dp route peer limiter"
  by (auto simp: http_select_def handle_http_report_def split: sum.splits option.splits prod.splits if_splits)

theorem https_failures_uncounted:
  "\<exists>parse tls table rs. let ops = https_report J parse tls links \<lparr>dp_conns = [], dp_acl = empty_snapshot\<rparr> table rs peer Map.empty
     in added m_failed ops = 1 \<and> added m_total ops = 0"
proof (intro exI)
  let ?plain = "[Inr [71, 13, 10, 13, 10]] :: reads"
  have "handle_http_report J (\<lambda>_. Some sample_request) links \<lparr>dp_conns = [], dp_acl = empty_snapshot\<rparr> [(''ab'', sample_route)]
      ?plain peer Map.empty = [Inc m_failed, Inc m_route_errors]"
    unfolding report_selected [OF sample_select]
    by (simp add: serve_http_report_def acl_admits_def acl_allows_def empty_snapshot_def take_guard_def route_limit_def
        sample_route_def cr_get_def)
  then show "let ops = https_report J (\<lambda>_. Some sample_request) (\<lambda>_. Some ?plain) links \<lparr>dp_conns = [], dp_acl = empty_snapshot\<rparr>
       [(''ab'', sample_route)] ?plain peer Map.empty
     in added m_failed ops = 1 \<and> added m_total ops = 0"
    by (simp add: https_report_def peek_not_tls Let_def)
qed

section \<open>The gauges of the control side\<close>

definition live_conns :: "hub \<Rightarrow> nat set" where
  "live_conns h = {c. h_live h c \<noteq> None}"

text \<open>Adding and subtracting one is exact on integers that a float can represent with all their neighbours.\<close>

definition exact_integers :: "(real \<Rightarrow> real) \<Rightarrow> bool" where
  "exact_integers rnd \<longleftrightarrow> (\<forall>n::int. \<bar>n\<bar> \<le> 2 ^ 53 \<longrightarrow> rnd (of_int n) = of_int n)"

lemma live_conns_accept: "live_conns (accept_node X now remote version conn nid h) = insert conn (live_conns h)"
  by (auto simp: live_conns_def accept_node_def go_live_def Let_def split: prod.splits)

lemma live_conns_cleanup: "live_conns (cleanup X now conn nid h) = live_conns h - {conn}"
  by (auto simp: live_conns_def cleanup_def Let_def)

lemma metered_live: "metered rnd X db h v \<Longrightarrow> finite (live_conns h)"
  by (induction rule: metered.induct) (auto simp: live_conns_accept live_conns_cleanup, simp add: live_conns_def hub_init_def)

text \<open>The gauges of online nodes and active sessions are the number of live connections: also when a node connects a second
  time before its first connection is cleaned up, and it is then counted twice.\<close>

theorem online_gauges_count_connections:
  assumes "metered rnd X db h v" "exact_integers rnd"
  shows "mv_gauge v ''tunnel_nodes_online'' = real (card (live_conns h))
    \<and> mv_gauge v ''tunnel_sessions_active'' = real (card (live_conns h))
    \<and> card (live_conns h) \<le> 2 ^ 53"
  using assms(1)
proof (induction rule: metered.induct)
  case metered_init
  then show ?case by (simp add: live_conns_def hub_init_def)
next
  case (metered_connect h v conn now remote version nid)
  have "card (live_conns (accept_node X now remote version conn nid h)) = Suc (card (live_conns h))"
    unfolding live_conns_accept using metered_connect.hyps(2) metered_live [OF metered_connect.hyps(1)]
    by (intro card_insert_disjoint) (simp_all add: live_conns_def)
  moreover have "rnd (real (card (live_conns h)) + 1) = real (card (live_conns h)) + 1"
    using assms(2) [unfolded exact_integers_def, rule_format, of "int (card (live_conns h)) + 1"] metered_connect.hyps(3)
    by (simp add: live_conns_def)
  ultimately show ?case
    using metered_connect by (simp add: apply_ops_def online_report_def live_conns_def)
next
  case (metered_leave h v conn nid ch now)
  have in_live: "conn \<in> live_conns h" using metered_leave.hyps(2) by (simp add: live_conns_def)
  have fin: "finite (live_conns h)" by (rule metered_live [OF metered_leave.hyps(1)])
  have pos: "0 < card (live_conns h)" using in_live fin by (auto simp: card_gt_0_iff)
  have "card (live_conns (cleanup X now conn nid h)) = card (live_conns h) - 1"
    using in_live fin by (simp add: live_conns_cleanup)
  moreover have "rnd (real (card (live_conns h)) - 1) = real (card (live_conns h)) - 1"
    using assms(2) [unfolded exact_integers_def, rule_format, of "int (card (live_conns h)) - 1"] metered_leave.IH pos
    by simp
  ultimately show ?case
    using metered_leave.IH pos by (simp add: apply_ops_def offline_report_def of_nat_diff)
      (use diff_le_self le_trans in blast)
qed

end
