(* ===== verification/Router.thy ===== *)
theory Router
  imports Events RouteReload Metrics
begin

text \<open>
  The management interface as a whole: the routers of \<open>server/src/api\<close>, put together as \<open>api/mod.rs\<close> does, the
  extractors that run before a handler, and the dispatch of a request to the handlers of \<open>Api\<close>, \<open>RouteApi\<close>,
  \<open>NodeApi\<close>, \<open>Backup\<close>, \<open>Startup\<close>, \<open>Events\<close> and \<open>Metrics\<close>; the operations that \<open>api/openapi.rs\<close> documents.

  A router is the table of its routes.  Matching a path against the patterns, decoding bodies and
  queries, and the static files belong to third-party libraries and are parameters (\<open>framework\<close>); so is the
  text of a rejected extraction.
\<close>

section \<open>Operations and routers\<close>

datatype Method = GET | POST | PATCH | DELETE | OtherMethod

text \<open>One constructor for each handler function.\<close>

datatype operation =
    Login | Logout | Refresh | Me | Enroll | SetupStatus | Setup | Health | Ready | ScrapeMetrics | ApiDocJson | Docs | Ws
  | ListNodes | CreateNode | GetNode | UpdateNode | DeleteNode | CreateCredential | RevokeCredential
  | ListRoutes | CreateTheRoute | GetRoute | UpdateTheRoute | DeleteTheRoute | EnableTheRoute | DisableTheRoute
  | ListAclRules | CreateAclRule | DeleteAclRule | ListAuditLogs
  | BackupOp | ExportOp | RestoreOp | ImportOp

type_synonym router = "(string \<times> (Method \<times> operation) list) list"

definition auth_router :: router where
  "auth_router = [(''/auth/login'', [(POST, Login)]), (''/auth/logout'', [(POST, Logout)]),
     (''/auth/refresh'', [(POST, Refresh)]), (''/auth/me'', [(GET, Me)])]"

definition enroll_router :: router where
  "enroll_router = [(''/enroll'', [(POST, Enroll)])]"

definition setup_router :: router where
  "setup_router = [(''/api/v1/setup'', [(GET, SetupStatus), (POST, Setup)])]"

definition health_router :: router where
  "health_router = [(''/health'', [(GET, Health)]), (''/ready'', [(GET, Ready)])]"

definition metrics_router :: router where
  "metrics_router = [(''/metrics'', [(GET, ScrapeMetrics)])]"

definition openapi_router :: router where
  "openapi_router = [(''/docs'', [(GET, Docs)]), (''/openapi.json'', [(GET, ApiDocJson)])]"

definition ws_router :: router where
  "ws_router = [(''/ws'', [(GET, Ws)])]"

definition nodes_router :: router where
  "nodes_router =
     [(''/nodes'', [(GET, ListNodes), (POST, CreateNode)]),
      (''/nodes/:id'', [(GET, GetNode), (PATCH, UpdateNode), (DELETE, DeleteNode)]),
      (''/nodes/:id/credentials'', [(POST, CreateCredential)]),
      (''/nodes/:id/credentials/:credential_id/revoke'', [(POST, RevokeCredential)])]"

definition routes_router :: router where
  "routes_router =
     [(''/routes'', [(GET, ListRoutes), (POST, CreateTheRoute)]),
      (''/routes/:id'', [(GET, GetRoute), (PATCH, UpdateTheRoute), (DELETE, DeleteTheRoute)]),
      (''/routes/:id/enable'', [(POST, EnableTheRoute)]), (''/routes/:id/disable'', [(POST, DisableTheRoute)])]"

definition acl_router :: router where
  "acl_router = [(''/acl-rules'', [(GET, ListAclRules), (POST, CreateAclRule)]), (''/acl-rules/:id'', [(POST, DeleteAclRule)])]"

definition audit_router :: router where
  "audit_router = [(''/audit-logs'', [(GET, ListAuditLogs)])]"

definition admin_router :: router where
  "admin_router = [(''/backup'', [(GET, BackupOp)]), (''/export'', [(GET, ExportOp)]),
     (''/restore'', [(POST, RestoreOp)]), (''/import'', [(POST, ImportOp)])]"

definition nest :: "string \<Rightarrow> router \<Rightarrow> router" where
  "nest prefix r = map (\<lambda>(path, ms). (prefix @ path, ms)) r"

definition api_router :: router where
  "api_router =
     auth_router @ enroll_router @ setup_router @ health_router @ metrics_router @ openapi_router @ ws_router
     @ nest ''/api/v1'' (nodes_router @ routes_router @ acl_router @ audit_router @ admin_router)"

text \<open>The operations of the document, in its order, with the method and path that the attribute of the handler gives;
  a parameter is written in braces there.\<close>

definition openapi_paths :: "(Method \<times> string \<times> operation) list" where
  "openapi_paths =
     [(POST, ''/auth/login'', Login), (POST, ''/auth/logout'', Logout), (POST, ''/auth/refresh'', Refresh), (GET, ''/auth/me'', Me),
      (POST, ''/enroll'', Enroll), (GET, ''/api/v1/setup'', SetupStatus), (POST, ''/api/v1/setup'', Setup),
      (GET, ''/api/v1/nodes'', ListNodes), (GET, ''/api/v1/nodes/{id}'', GetNode), (POST, ''/api/v1/nodes'', CreateNode),
      (PATCH, ''/api/v1/nodes/{id}'', UpdateNode), (DELETE, ''/api/v1/nodes/{id}'', DeleteNode),
      (POST, ''/api/v1/nodes/{id}/credentials'', CreateCredential),
      (POST, ''/api/v1/nodes/{id}/credentials/{credential_id}/revoke'', RevokeCredential),
      (GET, ''/api/v1/routes'', ListRoutes), (GET, ''/api/v1/routes/{id}'', GetRoute), (POST, ''/api/v1/routes'', CreateTheRoute),
      (PATCH, ''/api/v1/routes/{id}'', UpdateTheRoute), (DELETE, ''/api/v1/routes/{id}'', DeleteTheRoute),
      (POST, ''/api/v1/routes/{id}/enable'', EnableTheRoute), (POST, ''/api/v1/routes/{id}/disable'', DisableTheRoute),
      (GET, ''/api/v1/backup'', BackupOp), (GET, ''/api/v1/export'', ExportOp),
      (POST, ''/api/v1/restore'', RestoreOp), (POST, ''/api/v1/import'', ImportOp)]"

section \<open>Requests and extractors\<close>

record http_call =
  hc_method :: Method
  hc_path :: string
  hc_query :: string
  hc_headers :: HeaderMap
  hc_body :: bytes
  hc_env :: env
  hc_db_ping :: bool
  hc_turns :: "ws_turn list"

text \<open>The bodies of requests.\<close>

record LoginRequest =
  lq_username :: string
  lq_password :: string

record SetupRequest =
  sq_username :: string
  sq_password :: string
  sq_email :: "string option"

record CreateNodeRequest =
  nq_name :: string
  nq_description :: "string option"

record UpdateNodeRequest =
  uq_name :: "string option"
  uq_description :: "string option"

record CreateCredentialRequest =
  kq_type :: string
  kq_expires_at :: "string option"

text \<open>An extractor gives the value or a rejection: the matching of paths with the decoded parameters, \<open>Path\<close>, \<open>Json\<close>,
  \<open>Query\<close>, and \<open>Bytes\<close> under a limit.\<close>

type_synonym 'a json_body = "HeaderMap \<Rightarrow> bytes \<Rightarrow> (ApiError, 'a) result"

record framework =
  fw_match :: "string list \<Rightarrow> string \<Rightarrow> (string \<times> string list) option"
  fw_bad_path :: ApiError
  fw_login :: "LoginRequest json_body"
  fw_enroll :: "EnrollRequest json_body"
  fw_setup :: "SetupRequest json_body"
  fw_node :: "CreateNodeRequest json_body"
  fw_node_patch :: "UpdateNodeRequest json_body"
  fw_credential :: "CreateCredentialRequest json_body"
  fw_route :: "RouteRequest json_body"
  fw_route_patch :: "RoutePatch json_body"
  fw_acl :: "AclRequest json_body"
  fw_audit :: "string \<Rightarrow> (ApiError, AuditQuery) result"
  fw_apply :: "string \<Rightarrow> (ApiError, bool) result"
  fw_too_large :: ApiError

definition SNAPSHOT_BODY_LIMIT :: nat where "SNAPSHOT_BODY_LIMIT = 10 * 1024 * 1024"

definition bytes_limited :: "framework \<Rightarrow> bytes \<Rightarrow> (ApiError, bytes) result" where
  "bytes_limited F body = (if length body \<le> SNAPSHOT_BODY_LIMIT then Ok body else Err (fw_too_large F))"

definition path1 :: "framework \<Rightarrow> string list \<Rightarrow> (ApiError, string) result" where
  "path1 F ps = (case ps of [i] \<Rightarrow> Ok i | _ \<Rightarrow> Err (fw_bad_path F))"

definition path2 :: "framework \<Rightarrow> string list \<Rightarrow> (ApiError, string \<times> string) result" where
  "path2 F ps = (case ps of [i, j] \<Rightarrow> Ok (i, j) | _ \<Rightarrow> Err (fw_bad_path F))"

section \<open>Dispatch\<close>

text \<open>What does not change between requests: the libraries, the readiness flags, the metrics and the page of static files.\<close>

record world =
  wd_framework :: framework
  wd_api :: api_externals
  wd_yaml :: yaml
  wd_event_json :: "event \<Rightarrow> string option"
  wd_readiness :: Readiness
  wd_metrics :: "Db \<Rightarrow> string"
  wd_docs :: string
  wd_asset :: "(string \<Rightarrow> string) option"

datatype reply =
    LoggedIn LoginResponse | SetCookie string | AccessToken string | TheUser User | Enrolled EnrollResponse | Initialized bool
  | Healthy | ReadyReply "nat \<times> string \<times> bool \<times> bool \<times> bool \<times> bool" | Page string | Frames "string list"
  | NodeList "Node list" | OneNode Node | NodeWithToken "Node \<times> string" | NewCredential "string \<times> string"
  | RouteList "Route list" | OneRoute Route | AclList "AclRuleView list" | OneAcl AclRuleView
  | AuditList "AuditRow list" | File Download | Report RestoreReport | NoContent

definition replying :: "('a \<Rightarrow> reply) \<Rightarrow> 'a handler \<Rightarrow> reply handler" where
  "replying c m = hbind m (\<lambda>x. hlift (Ok (c x)))"

text \<open>The extractor \<open>CurrentUser\<close> of the protected handlers comes before path, query and body.\<close>

definition with_user :: "http_call \<Rightarrow> (User \<Rightarrow> 'a handler) \<Rightarrow> 'a handler" where
  "with_user q f = hbind (require_user (hc_env q) (hc_headers q)) f"

definition extracted :: "(ApiError, 'a) result \<Rightarrow> ('a \<Rightarrow> 'b handler) \<Rightarrow> 'b handler" where
  "extracted r f = hbind (hlift r) f"

definition json :: "'a json_body \<Rightarrow> http_call \<Rightarrow> ('a \<Rightarrow> 'b handler) \<Rightarrow> 'b handler" where
  "json decode q f = extracted (decode (hc_headers q) (hc_body q)) f"

fun run_operation :: "world \<Rightarrow> http_call \<Rightarrow> string list \<Rightarrow> operation \<Rightarrow> reply handler" where
  "run_operation W q ps Login = json (fw_login (wd_framework W)) q (\<lambda>b.
     replying LoggedIn (login (wd_api W) (hc_env q) (lq_username b) (lq_password b)))"
| "run_operation W q ps Logout = replying SetCookie (logout (hc_env q) (hc_headers q))"
| "run_operation W q ps Refresh = replying AccessToken (refresh (hc_env q) (hc_headers q))"
| "run_operation W q ps Me = replying TheUser (require_user (hc_env q) (hc_headers q))"
| "run_operation W q ps Enroll = json (fw_enroll (wd_framework W)) q (\<lambda>b. replying Enrolled (enroll (wd_api W) (hc_env q) b))"
| "run_operation W q ps SetupStatus = hget (\<lambda>s. Initialized (count_users (a_db s) > 0))"
| "run_operation W q ps Setup = json (fw_setup (wd_framework W)) q (\<lambda>b.
     replying LoggedIn (setup_admin (wd_api W) (hc_env q) (sq_username b) (sq_password b) (sq_email b)))"
| "run_operation W q ps Health = hlift (Ok Healthy)"
| "run_operation W q ps Ready = hlift (Ok (ReadyReply (ready (hc_db_ping q) (wd_readiness W))))"
| "run_operation W q ps ScrapeMetrics = hget (\<lambda>s. Page (wd_metrics W (a_db s)))"
| "run_operation W q ps ApiDocJson = hlift (Ok (Page (wd_docs W)))"
| "run_operation W q ps Docs = hlift (Ok (Page (wd_docs W)))"
| "run_operation W q ps Ws = replying Frames (ws_handler (hc_env q) (hc_headers q) (wd_event_json W) (hc_turns q))"
| "run_operation W q ps ListNodes = with_user q (\<lambda>u. replying NodeList (api_list_nodes u))"
| "run_operation W q ps GetNode = with_user q (\<lambda>u. extracted (path1 (wd_framework W) ps) (\<lambda>i. replying OneNode (api_get_node u i)))"
| "run_operation W q ps CreateNode = with_user q (\<lambda>u. json (fw_node (wd_framework W)) q (\<lambda>b.
     replying NodeWithToken (api_create_node (wd_api W) (hc_env q) u (nq_name b) (nq_description b))))"
| "run_operation W q ps UpdateNode = with_user q (\<lambda>u. extracted (path1 (wd_framework W) ps) (\<lambda>i.
     json (fw_node_patch (wd_framework W)) q (\<lambda>b.
     replying OneNode (api_update_node (wd_api W) (hc_env q) u i (uq_name b) (uq_description b)))))"
| "run_operation W q ps DeleteNode = with_user q (\<lambda>u. extracted (path1 (wd_framework W) ps) (\<lambda>i.
     replying (\<lambda>_. NoContent) (api_delete_node (hc_env q) u i)))"
| "run_operation W q ps CreateCredential = with_user q (\<lambda>u. extracted (path1 (wd_framework W) ps) (\<lambda>i.
     json (fw_credential (wd_framework W)) q (\<lambda>b.
     replying NewCredential (api_create_credential (wd_api W) (hc_env q) u i (kq_type b) (kq_expires_at b)))))"
| "run_operation W q ps RevokeCredential = with_user q (\<lambda>u. extracted (path2 (wd_framework W) ps) (\<lambda>(i, c).
     replying (\<lambda>_. NoContent) (api_revoke_credential (hc_env q) u i c)))"
| "run_operation W q ps ListRoutes = with_user q (\<lambda>u. replying RouteList (api_list_routes (wd_api W) u))"
| "run_operation W q ps GetRoute = with_user q (\<lambda>u. extracted (path1 (wd_framework W) ps) (\<lambda>i.
     replying OneRoute (api_get_route (wd_api W) u i)))"
| "run_operation W q ps CreateTheRoute = with_user q (\<lambda>u. json (fw_route (wd_framework W)) q (\<lambda>b.
     replying OneRoute (api_create_route (wd_api W) (hc_env q) u b)))"
| "run_operation W q ps UpdateTheRoute = with_user q (\<lambda>u. extracted (path1 (wd_framework W) ps) (\<lambda>i.
     json (fw_route_patch (wd_framework W)) q (\<lambda>b. replying OneRoute (api_update_route (wd_api W) (hc_env q) u i b))))"
| "run_operation W q ps DeleteTheRoute = with_user q (\<lambda>u. extracted (path1 (wd_framework W) ps) (\<lambda>i.
     replying (\<lambda>_. NoContent) (api_delete_route (wd_api W) (hc_env q) u i)))"
| "run_operation W q ps EnableTheRoute = with_user q (\<lambda>u. extracted (path1 (wd_framework W) ps) (\<lambda>i.
     replying OneRoute (api_enable_route (wd_api W) (hc_env q) u i)))"
| "run_operation W q ps DisableTheRoute = with_user q (\<lambda>u. extracted (path1 (wd_framework W) ps) (\<lambda>i.
     replying OneRoute (api_disable_route (wd_api W) (hc_env q) u i)))"
| "run_operation W q ps ListAclRules = with_user q (\<lambda>u. replying AclList (api_list_acl_rules u))"
| "run_operation W q ps CreateAclRule = with_user q (\<lambda>u. json (fw_acl (wd_framework W)) q (\<lambda>b.
     replying OneAcl (api_create_acl_rule (wd_api W) (hc_env q) u b)))"
| "run_operation W q ps DeleteAclRule = with_user q (\<lambda>u. extracted (path1 (wd_framework W) ps) (\<lambda>i.
     replying (\<lambda>_. NoContent) (api_delete_acl_rule (wd_api W) (hc_env q) u i)))"
| "run_operation W q ps ListAuditLogs = with_user q (\<lambda>u. extracted (fw_audit (wd_framework W) (hc_query q)) (\<lambda>a.
     replying AuditList (api_list_audit_logs u a)))"
| "run_operation W q ps BackupOp = with_user q (\<lambda>u. replying File (api_backup (wd_yaml W) u))"
| "run_operation W q ps ExportOp = with_user q (\<lambda>u. replying File (api_export (wd_yaml W) u))"
| "run_operation W q ps RestoreOp = with_user q (\<lambda>u. extracted (fw_apply (wd_framework W) (hc_query q)) (\<lambda>a.
     extracted (bytes_limited (wd_framework W) (hc_body q)) (\<lambda>body. replying Report (api_restore (wd_yaml W) (hc_env q) u a body))))"
| "run_operation W q ps ImportOp = with_user q (\<lambda>u. extracted (fw_apply (wd_framework W) (hc_query q)) (\<lambda>a.
     extracted (bytes_limited (wd_framework W) (hc_body q)) (\<lambda>body. replying Report (api_import (wd_yaml W) (hc_env q) u a body))))"

datatype dispatch = Run operation "string list" | MethodNotAllowed | NoRoute

definition api_dispatch :: "framework \<Rightarrow> Method \<Rightarrow> string \<Rightarrow> dispatch" where
  "api_dispatch F m path =
     (case fw_match F (map fst api_router) path of
        None \<Rightarrow> NoRoute
      | Some (pattern, ps) \<Rightarrow>
          (case map_of api_router pattern of
             None \<Rightarrow> NoRoute
           | Some ms \<Rightarrow> (case map_of ms m of Some op \<Rightarrow> Run op ps | None \<Rightarrow> MethodNotAllowed)))"

text \<open>Unmatched paths go to the static files, if there are any.\<close>

definition serve :: "world \<Rightarrow> http_call \<Rightarrow> reply handler" where
  "serve W q =
     (case api_dispatch (wd_framework W) (hc_method q) (hc_path q) of
        Run op ps \<Rightarrow> run_operation W q ps op
      | MethodNotAllowed \<Rightarrow> hlift (Err (ApiError 405 '''' ''''))
      | NoRoute \<Rightarrow> (case wd_asset W of
          Some asset \<Rightarrow> hlift (Ok (Page (asset (hc_path q)))) | None \<Rightarrow> hlift (Err (ApiError 404 '''' ''''))))"

section \<open>The table of routes\<close>

definition table_operations :: "router \<Rightarrow> (string \<times> Method \<times> operation) list" where
  "table_operations r = concat (map (\<lambda>(path, ms). map (\<lambda>(m, op). (path, m, op)) ms) r)"

text \<open>The pattern of a documented path.\<close>

fun from_braces :: "string \<Rightarrow> string" where
  "from_braces [] = []"
| "from_braces (c # cs) = (if c = CHR ''{'' then CHR '':'' # from_braces cs else if c = CHR ''}'' then from_braces cs
     else c # from_braces cs)"

lemmas router_defs = api_router_def auth_router_def enroll_router_def setup_router_def health_router_def metrics_router_def
  openapi_router_def ws_router_def nodes_router_def routes_router_def acl_router_def audit_router_def admin_router_def nest_def

text \<open>No path occurs twice, so the routers can be merged; every handler is served under exactly one path and method; and
  the document names the path and method of each operation it describes, which is all of them but ten.\<close>

lemma paths_distinct: "distinct (map fst api_router)"
  by code_simp

lemma served_operations: "map (\<lambda>(path, m, op). op) (table_operations api_router) =
    [Login, Logout, Refresh, Me, Enroll, SetupStatus, Setup, Health, Ready, ScrapeMetrics, Docs, ApiDocJson, Ws,
     ListNodes, CreateNode, GetNode, UpdateNode, DeleteNode, CreateCredential, RevokeCredential, ListRoutes, CreateTheRoute,
     GetRoute, UpdateTheRoute, DeleteTheRoute, EnableTheRoute, DisableTheRoute, ListAclRules, CreateAclRule, DeleteAclRule,
     ListAuditLogs, BackupOp, ExportOp, RestoreOp, ImportOp]"
  by code_simp

lemma operations_distinct: "distinct (map (\<lambda>(path, m, op). op) (table_operations api_router))"
  by (simp add: served_operations)

lemma every_operation_served: "op \<in> (\<lambda>(path, m, op). op) ` set (table_operations api_router)"
  unfolding set_map [symmetric] served_operations by (cases op) simp_all

lemma documented_paths_served:
  assumes "(m, path, op) \<in> set openapi_paths"
  shows "(from_braces path, m, op) \<in> set (table_operations api_router)"
proof -
  have "list_all (\<lambda>(m, path, op). (from_braces path, m, op) \<in> set (table_operations api_router)) openapi_paths" by code_simp
  with assms show ?thesis by (auto simp: list_all_iff)
qed

lemma undocumented:
  "(\<exists>m path. (m, path, op) \<in> set openapi_paths) \<longleftrightarrow>
     op \<notin> {Health, Ready, ScrapeMetrics, ApiDocJson, Docs, Ws, ListAclRules, CreateAclRule, DeleteAclRule, ListAuditLogs}"
  by (cases op) (simp_all add: openapi_paths_def)

end
