(* ===== verification/ApiSafety.thy ===== *)
theory ApiSafety
  imports Router
begin

text \<open>
  What holds of the management interface as a whole, over any sequence of requests: who may do what, the integrity of
  the database, and the invariants of the stored routes.
\<close>

section \<open>Access control\<close>

text \<open>The rights an operation needs.\<close>

datatype access = Public | SignedIn | Requires Permission

fun required :: "operation \<Rightarrow> access" where
  "required Me = SignedIn" | "required Ws = SignedIn"
| "required ListNodes = Requires NodesRead" | "required GetNode = Requires NodesRead"
| "required CreateNode = Requires NodesWrite" | "required UpdateNode = Requires NodesWrite"
| "required DeleteNode = Requires NodesWrite" | "required CreateCredential = Requires NodesWrite"
| "required RevokeCredential = Requires NodesWrite"
| "required ListRoutes = Requires RoutesRead" | "required GetRoute = Requires RoutesRead"
| "required CreateTheRoute = Requires RoutesWrite" | "required UpdateTheRoute = Requires RoutesWrite"
| "required DeleteTheRoute = Requires RoutesWrite" | "required EnableTheRoute = Requires RoutesWrite"
| "required DisableTheRoute = Requires RoutesWrite"
| "required ListAclRules = Requires RoutesRead" | "required CreateAclRule = Requires RoutesWrite"
| "required DeleteAclRule = Requires RoutesWrite" | "required ListAuditLogs = Requires AuditRead"
| "required BackupOp = Requires SettingsWrite" | "required ExportOp = Requires SettingsWrite"
| "required RestoreOp = Requires SettingsWrite" | "required ImportOp = Requires SettingsWrite"
| "required _ = Public"

definition caller :: "http_call \<Rightarrow> app \<Rightarrow> User option" where
  "caller q s = fst (current_user (session_now (hc_env q)) (hc_headers q) (a_sessions s))"

text \<open>The lookup of the caller drops expired sessions and changes nothing else.\<close>

definition after_lookup :: "http_call \<Rightarrow> app \<Rightarrow> app" where
  "after_lookup q s = s\<lparr>a_sessions := snd (current_user (session_now (hc_env q)) (hc_headers q) (a_sessions s))\<rparr>"

definition may :: "User option \<Rightarrow> access \<Rightarrow> bool" where
  "may u a = (case a of Public \<Rightarrow> True | SignedIn \<Rightarrow> u \<noteq> None
     | Requires p \<Rightarrow> (case u of Some user \<Rightarrow> user_has_permission user p | None \<Rightarrow> False))"

text \<open>\<open>denies p m\<close>: without permission \<open>p\<close> the handler \<open>m\<close> of a user fails and changes nothing.\<close>

definition denies :: "Permission \<Rightarrow> (User \<Rightarrow> 'a handler) \<Rightarrow> bool" where
  "denies p m \<longleftrightarrow> (\<forall>u s. \<not> user_has_permission u p \<longrightarrow> (\<exists>e. m u s = (Err e, s)))"

named_theorems denying \<open>handlers that check a permission first\<close>

lemma denies_check [denying]: "denies p (\<lambda>u. hbind (hlift (require_permission u p)) (k u))"
  by (simp add: denies_def require_permission_def)

lemma replying_Err: "m s = (Err e, s') \<Longrightarrow> replying c m s = (Err e, s')"
  by (simp add: replying_def hbind_def)

lemma denies_replying [denying]: "denies p m \<Longrightarrow> denies p (\<lambda>u. replying c (m u))"
  unfolding denies_def by (blast intro: replying_Err)

lemma denies_extracted [denying]: "(\<And>x. denies p (\<lambda>u. m u x)) \<Longrightarrow> denies p (\<lambda>u. extracted r (m u))"
  by (cases r) (auto simp: denies_def extracted_def hlift_def hbind_def)

lemma denies_json [denying]: "(\<And>x. denies p (\<lambda>u. m u x)) \<Longrightarrow> denies p (\<lambda>u. json decode q (m u))"
  unfolding json_def by (rule denies_extracted)

lemma denies_pair [denying]: "(\<And>i j. denies p (\<lambda>u. m u i j)) \<Longrightarrow> denies p (\<lambda>u. (case x of (i, j) \<Rightarrow> m u i j))"
  by (cases x) simp

lemma denies_handlers [denying]:
  "denies NodesRead (\<lambda>u. api_list_nodes u)" "denies NodesRead (\<lambda>u. api_get_node u i)"
  "denies NodesWrite (\<lambda>u. api_create_node Y E u n d)" "denies NodesWrite (\<lambda>u. api_update_node Y E u i n2 d)"
  "denies NodesWrite (\<lambda>u. api_delete_node E u i)" "denies NodesWrite (\<lambda>u. api_create_credential Y E u i ty ex)"
  "denies NodesWrite (\<lambda>u. api_revoke_credential E u i c)"
  "denies RoutesRead (\<lambda>u. api_list_routes Y u)" "denies RoutesRead (\<lambda>u. api_get_route Y u i)"
  "denies RoutesWrite (\<lambda>u. api_create_route Y E u r)" "denies RoutesWrite (\<lambda>u. api_update_route Y E u i p)"
  "denies RoutesWrite (\<lambda>u. api_delete_route Y E u i)" "denies RoutesWrite (\<lambda>u. api_enable_route Y E u i)"
  "denies RoutesWrite (\<lambda>u. api_disable_route Y E u i)"
  "denies RoutesRead (\<lambda>u. api_list_acl_rules u)" "denies RoutesWrite (\<lambda>u. api_create_acl_rule Y E u a)"
  "denies RoutesWrite (\<lambda>u. api_delete_acl_rule Y E u i)" "denies AuditRead (\<lambda>u. api_list_audit_logs u aq)"
  "denies SettingsWrite (\<lambda>u. api_backup G u)" "denies SettingsWrite (\<lambda>u. api_export G u)"
  "denies SettingsWrite (\<lambda>u. api_restore G E u ap body)" "denies SettingsWrite (\<lambda>u. api_import G E u ap body)"
  by (simp_all only: api_list_nodes_def api_get_node_def api_create_node_def api_update_node_def api_delete_node_def
      api_create_credential_def api_revoke_credential_def api_list_routes_def api_get_route_def api_create_route_def
      api_update_route_def api_delete_route_def api_enable_route_def api_disable_route_def api_list_acl_rules_def
      api_create_acl_rule_def api_delete_acl_rule_def api_list_audit_logs_def api_backup_def api_export_def
      api_restore_def api_import_def denies_check)

lemma signed_in_unknown:
  "caller q s = None \<Longrightarrow> with_user q f s = (Err (unauthorized ''not authenticated''), after_lookup q s)"
  by (auto simp: with_user_def hbind_def require_user_def caller_def after_lookup_def split: prod.splits)

lemma signed_in_known: "caller q s = Some u \<Longrightarrow> with_user q f s = f u (after_lookup q s)"
  by (auto simp: with_user_def hbind_def require_user_def caller_def after_lookup_def split: prod.splits)

lemma signed_in_denied:
  assumes "denies p f" "\<not> may (caller q s) (Requires p)"
  shows "\<exists>e. with_user q f s = (Err e, after_lookup q s)"
  using assms by (cases "caller q s") (auto simp: signed_in_unknown signed_in_known may_def denies_def)

text \<open>Every operation that needs a permission is a signed-in handler that denies without it.\<close>

lemma operation_guarded: "required op = Requires p \<Longrightarrow> \<exists>f. run_operation W q ps op = with_user q f \<and> denies p f"
  by (cases op) (simp_all, (intro exI conjI, rule refl, (intro denying)?; blast intro: denying)+)

lemma session_operations:
  "run_operation W q ps Me = with_user q (\<lambda>u. hlift (Ok (TheUser u)))"
  "run_operation W q ps Ws = with_user q (\<lambda>u. hlift (Ok (Frames (forward_events (wd_event_json W) (hc_turns q)))))"
  by (auto simp: with_user_def replying_def ws_handler_def hbind_assoc hbind_def hlift_def fun_eq_iff split: prod.splits sum.splits)

lemma operation_signed_in: "required op \<noteq> Public \<Longrightarrow> \<exists>f. run_operation W q ps op = with_user q f"
  using session_operations operation_guarded by (cases "required op") (cases op; simp; blast)+

text \<open>The handlers that only need a right to read leave the database alone.\<close>

lemma keeps_replying: "keeps g m \<Longrightarrow> keeps g (replying c m)"
  unfolding replying_def by (intro keeps_bind keeps_pure)

lemma keeps_extracted: "(\<And>x. keeps g (m x)) \<Longrightarrow> keeps g (extracted r m)"
  unfolding extracted_def by (intro keeps_bind keeps_pure)

lemma keeps_fetch_node: "keeps g (fetch_node i e)"
  unfolding fetch_node_def by (intro keeps_bind keeps_pure)

lemmas reading = api_list_nodes_def api_get_node_def api_list_routes_def api_get_route_def api_list_acl_rules_def
  api_list_audit_logs_def

lemma read_operation:
  assumes "required op = Requires p" "is_read p" "caller q s = Some u"
  shows "a_db (snd (run_operation W q ps op s)) = a_db s"
proof -
  have db: "a_db (after_lookup q s) = a_db s" by (simp add: after_lookup_def)
  have "keeps a_db m \<Longrightarrow> a_db (snd (m (after_lookup q s))) = a_db s" for m :: "reply handler"
    by (simp add: keepsD db)
  note rule = this
  show ?thesis
    using assms
    by (cases op) (simp_all add: is_read_def signed_in_known,
      (intro rule keeps_replying keeps_extracted, simp only: reading, intro keeps_bind keeps_pure keeps_fetch_node)+)
qed

text \<open>C21. Access control over the whole management interface: whatever request comes in, an operation that is not public
  runs only for a signed-in caller whose role has the permission the operation needs; otherwise the request fails, with
  \<open>401\<close> if there is no caller, and nothing changes but that expired sessions are dropped.  And a caller
  who is neither administrator nor operator never changes the database through these operations.\<close>

theorem api_access_control:
  assumes "api_dispatch (wd_framework W) (hc_method q) (hc_path q) = Run op ps" "serve W q s = (r, s')" "required op \<noteq> Public"
  shows "(may (caller q s) (required op)
      \<or> (\<exists>e. r = Err e \<and> (caller q s = None \<longrightarrow> e = unauthorized ''not authenticated'')) \<and> s' = after_lookup q s)
    \<and> (\<forall>u. caller q s = Some u \<longrightarrow> u_role u \<notin> {''admin'', ''operator''} \<longrightarrow> a_db s' = a_db s)"
proof -
  have run: "run_operation W q ps op s = (r, s')" using assms(1,2) by (simp add: serve_def)
  have denied: "\<exists>e. (r, s') = (Err e, after_lookup q s) \<and> (caller q s = None \<longrightarrow> e = unauthorized ''not authenticated'')"
    if no: "\<not> may (caller q s) (required op)"
  proof (cases "caller q s")
    case None
    obtain f where "run_operation W q ps op = with_user q f" using operation_signed_in [OF assms(3)] by blast
    then show ?thesis using run None by (simp add: signed_in_unknown)
  next
    case (Some v)
    then obtain p where p: "required op = Requires p"
      using no assms(3) by (cases "required op") (auto simp: may_def)
    from operation_guarded [OF p] obtain f where "run_operation W q ps op = with_user q f" "denies p f" by blast
    then show ?thesis using run no p Some signed_in_denied [of p f q s] by auto
  qed
  have quiet: "a_db s' = a_db s" if u: "caller q s = Some u" "u_role u \<notin> {''admin'', ''operator''}" for u
  proof (cases "may (caller q s) (required op)")
    case False
    then show ?thesis using denied by (auto simp: after_lookup_def)
  next
    case True
    show ?thesis
    proof (cases "required op")
      case SignedIn
      then have "op = Me \<or> op = Ws" by (cases op) simp_all
      then have "s' = after_lookup q s"
        using run by (elim disjE) (simp_all only: session_operations signed_in_known [OF u(1)] hlift_def prod.inject)
      then show ?thesis by (simp add: after_lookup_def)
    next
      case (Requires p)
      then have "is_read p"
        using True u by (auto simp: may_def user_has_permission_def role_has_permission_def split: if_splits)
      then show ?thesis using read_operation [OF Requires _ u(1), of W ps] run by simp
    qed (use assms(3) in simp)
  qed
  show ?thesis
  proof (intro conjI allI impI)
    show "may (caller q s) (required op)
        \<or> (\<exists>e. r = Err e \<and> (caller q s = None \<longrightarrow> e = unauthorized ''not authenticated'')) \<and> s' = after_lookup q s"
      using denied by auto
  qed (rule quiet)
qed

definition anonymous_call :: http_call where
  "anonymous_call = \<lparr>hc_method = POST, hc_path = ''/api/v1/nodes'', hc_query = [], hc_headers = [], hc_body = [],
     hc_env = \<lparr>e_now = 0, e_ts = [], e_uuid = (\<lambda>_. []), e_token = (\<lambda>_. [])\<rparr>, hc_db_ping = True, hc_turns = []\<rparr>"

theorem api_access_control_witness:
  "\<forall>W::world. fst (serve (W\<lparr>wd_framework := (wd_framework W)\<lparr>fw_match := (\<lambda>ps path. Some (path, []))\<rparr>\<rparr>) anonymous_call online_app)
     = Err (unauthorized ''not authenticated'')"
proof
  fix W :: world
  let ?W = "W\<lparr>wd_framework := (wd_framework W)\<lparr>fw_match := (\<lambda>ps path. Some (path, []))\<rparr>\<rparr>"
  obtain r s' where rs: "serve ?W anonymous_call online_app = (r, s')" by force
  have op: "api_dispatch (wd_framework ?W) (hc_method anonymous_call) (hc_path anonymous_call) = Run CreateNode []"
    by (simp add: api_dispatch_def anonymous_call_def router_defs)
  have nobody: "caller anonymous_call online_app = None"
    by (simp add: caller_def anonymous_call_def current_user_def bearer_token_def cookie_value_def header_str_def)
  from api_access_control [OF op rs] nobody rs
  show "fst (serve ?W anonymous_call online_app) = Err (unauthorized ''not authenticated'')" by (simp add: may_def)
qed

section \<open>Properties of the database that requests keep\<close>

text \<open>\<open>db_keeps P m\<close>: whatever its result, \<open>m\<close> leads from a state with property \<open>P\<close> to one with it.  The property speaks of the
  database and of the setting that allows unsafe targets.\<close>

definition db_keeps :: "(bool \<Rightarrow> Db \<Rightarrow> bool) \<Rightarrow> 'a handler \<Rightarrow> bool" where
  "db_keeps P m \<longleftrightarrow> (\<forall>s. P (a_allow_unsafe_targets s) (a_db s)
     \<longrightarrow> P (a_allow_unsafe_targets (snd (m s))) (a_db (snd (m s))))"

named_theorems keeping \<open>handlers that keep a property of the database\<close>

lemma db_keepsD: "db_keeps P m \<Longrightarrow> P (a_allow_unsafe_targets s) (a_db s)
    \<Longrightarrow> P (a_allow_unsafe_targets (snd (m s))) (a_db (snd (m s)))"
  by (simp add: db_keeps_def)

lemma db_keeps_bind [keeping]:
  assumes "db_keeps P m" "\<And>x. db_keeps P (f x)"
  shows "db_keeps P (hbind m f)"
  unfolding db_keeps_def
proof (intro allI impI)
  fix s :: app
  assume P: "P (a_allow_unsafe_targets s) (a_db s)"
  obtain r s1 where m: "m s = (r, s1)" by force
  then have "P (a_allow_unsafe_targets s1) (a_db s1)" using db_keepsD [OF assms(1) P] by simp
  then show "P (a_allow_unsafe_targets (snd (hbind m f s))) (a_db (snd (hbind m f s)))"
    using db_keepsD [OF assms(2)] by (cases r) (simp_all add: hbind_def m)
qed

lemma db_keeps_pure [keeping]: "db_keeps P (hlift r)" "db_keeps P (hget g)" "db_keeps P (fetch_route i e)"
  "db_keeps P (fetch_node i e)" "db_keeps P (publish ev)" "db_keeps P (route_events k i n)"
  by (auto simp: db_keeps_def hlift_def hget_def fetch_route_def fetch_node_def publish_def route_events_def hmod_def hbind_def)

lemma db_keeps_mod [keeping]: "(\<And>s. P (a_allow_unsafe_targets s) (a_db s) \<Longrightarrow> P (a_allow_unsafe_targets (f s)) (a_db (f s)))
    \<Longrightarrow> db_keeps P (hmod f)"
  by (simp add: db_keeps_def hmod_def)

lemma db_keeps_db [keeping]: "(\<And>a db db'. P a db \<Longrightarrow> stmt db = Ok db' \<Longrightarrow> P a db') \<Longrightarrow> db_keeps P (hdb err stmt)"
  by (auto simp: db_keeps_def hdb_def split: sum.splits)

lemma db_keeps_lift: "(\<And>x. r = Ok x \<Longrightarrow> db_keeps P (f x)) \<Longrightarrow> db_keeps P (hbind (hlift r) f)"
  by (cases r) (simp_all add: db_keeps_def)

lemma db_keeps_require_user [keeping]: "db_keeps P (require_user E hs)"
  by (auto simp: db_keeps_def require_user_def split: prod.splits option.splits)

lemma db_keeps_wrappers [keeping]:
  "db_keeps P m \<Longrightarrow> db_keeps P (replying c m)"
  "(\<And>x. db_keeps P (f x)) \<Longrightarrow> db_keeps P (extracted r f)"
  "(\<And>x. db_keeps P (f x)) \<Longrightarrow> db_keeps P (json decode q f)"
  "(\<And>u. db_keeps P (g u)) \<Longrightarrow> db_keeps P (with_user q g)"
  unfolding replying_def json_def extracted_def with_user_def by (intro keeping; assumption?)+

lemma db_keeps_issue [keeping]: "db_keeps P (issue_session E u)"
  by (auto simp: db_keeps_def issue_session_def split: prod.splits)

text \<open>A property of the database that the statements of the handlers keep, those on routes and the restore apart, as long as
  the hashes of new secrets (and whether they are revoked) are as \<open>stored\<close> says.\<close>

locale db_property =
  fixes P :: "bool \<Rightarrow> Db \<Rightarrow> bool" and stored :: "string \<Rightarrow> string option \<Rightarrow> bool"
  assumes P_audit: "P a db \<Longrightarrow> insert_audit_log row db = Ok db' \<Longrightarrow> P a db'"
    and P_create_user: "P a db \<Longrightarrow> create_user i n em pw d db = Ok db' \<Longrightarrow> P a db'"
    and P_assign_role: "P a db \<Longrightarrow> assign_user_role i r db = Ok db' \<Longrightarrow> P a db'"
    and P_create_node: "P a db \<Longrightarrow> create_node i n de ts db = Ok db' \<Longrightarrow> P a db'"
    and P_update_node: "P a db \<Longrightarrow> update_node i n de ts db = Ok db' \<Longrightarrow> P a db'"
    and P_delete_node: "P a db \<Longrightarrow> P a (delete_node i db)"
    and P_agent_meta: "P a db \<Longrightarrow> P a (set_node_agent_meta i h pl ar ve ts db)"
    and P_create_credential: "P a db \<Longrightarrow> stored ha None \<Longrightarrow> create_credential i n ty ha ex ts db = Ok db' \<Longrightarrow> P a db'"
    and P_revoke: "P a db \<Longrightarrow> P a (revoke_credential i ts db)"
    and P_create_acl: "P a db \<Longrightarrow> create_acl_rule i ro ac ci sp th tp ts db = Ok db' \<Longrightarrow> P a db'"
    and P_delete_acl: "P a db \<Longrightarrow> P a (delete_acl_rule i db)"
begin

text \<open>The secrets that a request may generate.\<close>

definition may_generate :: "api_externals \<Rightarrow> env \<Rightarrow> bool" where
  "may_generate Y E \<longleftrightarrow> (\<forall>n. stored (x_hash_token (y_ext Y) (e_token E n)) None)"

lemmas fallible = P_audit P_create_user P_assign_role P_create_node P_update_node P_create_acl
lemmas total = P_delete_node P_agent_meta P_revoke P_delete_acl

lemma P_write_audit [keeping]: "db_keeps P (write_audit E i uid ac rt rid meta)"
  unfolding write_audit_def by (rule db_keeps_db) (rule P_audit)

lemma P_try_audit [keeping]: "db_keeps P (try_audit E i uid ac rt rid meta)"
  unfolding db_keeps_def try_audit_def by (simp add: db_keepsD [OF P_write_audit])

lemma P_login_failed: "db_keeps P (login_failed Y E u uid r)"
  unfolding login_failed_def by (intro keeping P_try_audit) simp

lemma P_login_success: "db_keeps P (login_success E u row)"
  unfolding login_success_def Let_def by (intro keeping P_write_audit) simp

lemma P_login: "db_keeps P (login Y E u pw)"
  by (auto simp: db_keeps_def login_def Let_def intro!: db_keepsD [OF P_login_failed] db_keepsD [OF P_login_success]
      split: prod.splits option.splits bool.splits)

lemma P_logout: "db_keeps P (logout E hs)"
  by (auto simp: db_keeps_def logout_def Let_def intro!: db_keepsD [OF P_try_audit] split: prod.splits option.splits)

lemma P_refresh: "db_keeps P (refresh E hs)"
  by (auto simp: db_keeps_def refresh_def split: prod.splits option.splits)

lemma P_setup: "db_keeps P (setup_admin Y E u pw em)"
proof -
  have "db_keeps P (if b then m else m')" if "db_keeps P m" "db_keeps P m'" for b and m m' :: "LoginResponse handler"
    using that by simp
  note split = this
  show ?thesis
    unfolding setup_admin_def Let_def
    by (intro keeping split P_write_audit; (erule (1) fallible | simp add: total))
qed

lemma P_generated: "may_generate Y E \<Longrightarrow> P a db \<Longrightarrow>
    create_credential i n ty (x_hash_token (y_ext Y) (e_token E k)) ex ts db = Ok db' \<Longrightarrow> P a db'"
  by (rule P_create_credential) (simp_all add: may_generate_def)

lemma P_enroll: "may_generate Y E \<Longrightarrow> db_keeps P (enroll Y E q)"
  unfolding enroll_def Let_def by (intro keeping P_write_audit; (erule (2) P_generated | erule (1) fallible | simp add: total))

lemma P_nodes:
  "db_keeps P (api_update_node Y E u i n2 d)" "db_keeps P (api_delete_node E u i)" "db_keeps P (api_revoke_credential E u i c)"
  unfolding api_update_node_def api_delete_node_def api_revoke_credential_def
  by (intro keeping P_write_audit; (erule (1) fallible | simp add: total))+

lemma P_secrets:
  assumes "may_generate Y E"
  shows "db_keeps P (api_create_node Y E u n d)" "db_keeps P (api_create_credential Y E u i ty ex)"
  unfolding api_create_node_def api_create_credential_def
  by (intro keeping P_write_audit; (erule (1) P_generated [OF assms] | erule (1) fallible | simp add: total))+

lemma P_acl: "db_keeps P (api_create_acl_rule Y E u a)" "db_keeps P (api_delete_acl_rule Y E u i)"
  unfolding api_create_acl_rule_def api_delete_acl_rule_def reload_acl_def Let_def
  by (intro keeping P_write_audit; (erule (1) fallible | simp add: total))+

lemma P_reads:
  "db_keeps P (api_list_nodes u)" "db_keeps P (api_get_node u i)" "db_keeps P (api_list_routes Y u)" "db_keeps P (api_get_route Y u i)"
  "db_keeps P (api_list_acl_rules u)" "db_keeps P (api_list_audit_logs u aq)"
  "db_keeps P (api_backup G u)" "db_keeps P (api_export G u)" "db_keeps P (ws_handler E hs js turns)"
  unfolding reading api_backup_def api_export_def ws_handler_def by (intro keeping)+

lemmas P_handlers = P_login P_logout P_refresh P_setup P_nodes P_acl P_reads

lemma P_operation:
  assumes "may_generate (wd_api W) (hc_env q)"
    and "op \<notin> {CreateTheRoute, UpdateTheRoute, DeleteTheRoute, EnableTheRoute, DisableTheRoute, RestoreOp, ImportOp}"
  shows "db_keeps P (run_operation W q ps op)"
proof -
  have pair: "db_keeps P (case x of (i, c) \<Rightarrow> m i c)" if "\<And>i c. db_keeps P (m i c)" for x and m :: "string \<Rightarrow> string \<Rightarrow> reply handler"
    using that by (cases x) simp
  show ?thesis
    using assms(2) by (cases op) (simp_all, (intro keeping pair P_handlers P_enroll [OF assms(1)] P_secrets [OF assms(1)])+)
qed

end

section \<open>Integrity of the database\<close>

text \<open>A request that restores or imports.\<close>

definition bulk_call :: "world \<Rightarrow> http_call \<Rightarrow> bool" where
  "bulk_call W q \<longleftrightarrow> (case api_dispatch (wd_framework W) (hc_method q) (hc_path q) of
     Run op _ \<Rightarrow> op = RestoreOp \<or> op = ImportOp | _ \<Rightarrow> False)"

text \<open>A property that the statements on routes, the change of a version and the restore keep as well survives every request.\<close>

locale whole_database = db_property +
  assumes P_create_route: "P a db \<Longrightarrow> create_route i cols ts db = Ok db' \<Longrightarrow> P a db'"
    and P_update_route: "P a db \<Longrightarrow> update_route i cols ts db = Ok db' \<Longrightarrow> P a db'"
    and P_delete_route: "P a db \<Longrightarrow> P a (delete_route i db)"
    and P_enable_route: "P a db \<Longrightarrow> P a (set_route_enabled i en ts db)"
    and P_bump: "P a db \<Longrightarrow> P a (snd (bump_config_version i ts db))"
    and P_restore: "P a db \<Longrightarrow> \<forall>c\<in>set (sn_credentials snap). stored (cred_secret_hash c) (cred_revoked_at c)
      \<Longrightarrow> P a (snd (restore snap ap db))"
begin

lemma P_push:
  "P (a_allow_unsafe_targets s) (a_db s)
     \<Longrightarrow> P (a_allow_unsafe_targets s) (a_db (bump_and_push Y E nid s))"
  using P_bump [of "a_allow_unsafe_targets s" "a_db s" nid "e_ts E"]
  by (auto simp: bump_and_push_def Let_def split: prod.splits sum.splits option.splits)

lemma P_push_twice:
  "P (a_allow_unsafe_targets s) (a_db s)
     \<Longrightarrow> P (a_allow_unsafe_targets s) (a_db (bump_and_push Y E n2 (bump_and_push Y E n1 s)))"
  using P_push [of "bump_and_push Y E n1 s" Y E n2] P_push by simp

lemmas route_statements = P_delete_route P_enable_route P_push P_push_twice

lemma P_routes:
  "db_keeps P (api_create_route Y E u r)" "db_keeps P (api_update_route Y E u i p)" "db_keeps P (api_delete_route Y E u i)"
  "db_keeps P (set_enabled Y E uid i en ac)"
  unfolding api_create_route_def api_update_route_def api_delete_route_def set_enabled_def
  by (intro keeping P_write_audit; (erule (1) P_create_route | erule (1) P_update_route | simp add: route_statements Let_def))+

lemma P_switch: "db_keeps P (api_enable_route Y E u i)" "db_keeps P (api_disable_route Y E u i)"
  unfolding api_enable_route_def api_disable_route_def by (intro keeping P_routes)+

text \<open>The secrets that the snapshot in the body of a request may bring.\<close>

definition may_bring :: "yaml \<Rightarrow> bytes \<Rightarrow> bool" where
  "may_bring G body \<longleftrightarrow> (\<forall>snap. parse_snapshot G body = Ok snap \<longrightarrow>
     (\<forall>c\<in>set (sn_credentials snap). stored (cred_secret_hash c) (cred_revoked_at c)))"

lemma P_hrestore:
  "\<forall>c\<in>set (sn_credentials snap). stored (cred_secret_hash c) (cred_revoked_at c) \<Longrightarrow> db_keeps P (hrestore snap ap)"
  using P_restore by (auto simp: db_keeps_def hrestore_def split: prod.splits) (metis snd_conv)

lemma P_parsed: "may_bring G body \<Longrightarrow> parse_snapshot G body = Ok snap \<Longrightarrow> db_keeps P (hrestore snap ap)"
  by (rule P_hrestore) (simp add: may_bring_def)

lemma P_audit_applied: "db_keeps P (audit_applied E u ap ac)"
  unfolding audit_applied_def using P_write_audit db_keeps_pure(1) by (cases ap) auto

lemma P_bulk:
  assumes "may_bring G body"
  shows "db_keeps P (api_restore G E u ap body)" "db_keeps P (api_import G E u ap body)"
  unfolding api_restore_def api_import_def
  by (rule db_keeps_bind [OF db_keeps_pure(1)], rule db_keeps_lift, intro keeping P_parsed [OF assms] P_audit_applied; assumption)+

lemma P_any_operation:
  assumes "may_generate (wd_api W) (hc_env q)" "op \<in> {RestoreOp, ImportOp} \<longrightarrow> may_bring (wd_yaml W) (hc_body q)"
  shows "db_keeps P (run_operation W q ps op)"
proof (cases "op \<in> {CreateTheRoute, UpdateTheRoute, DeleteTheRoute, EnableTheRoute, DisableTheRoute, RestoreOp, ImportOp}")
  case True
  have limited: "db_keeps P (extracted (bytes_limited F (hc_body q)) f)" if "db_keeps P (f (hc_body q))"
    for F and f :: "bytes \<Rightarrow> reply handler"
    unfolding extracted_def by (rule db_keeps_lift) (use that in \<open>simp add: bytes_limited_def split: if_splits\<close>)
  show ?thesis
    using True assms(2) by (elim insertE) (simp_all, (intro keeping limited P_routes P_switch P_bulk; assumption?)+)
qed (rule P_operation [OF assms(1)])

lemma P_serve:
  assumes "may_generate (wd_api W) (hc_env q)" "bulk_call W q \<longrightarrow> may_bring (wd_yaml W) (hc_body q)"
  shows "db_keeps P (serve W q)"
  unfolding serve_def using assms
  by (auto simp: bulk_call_def split: dispatch.splits option.splits intro!: P_any_operation db_keeps_pure)

end

interpretation integrity: whole_database "\<lambda>_. db_ok" "\<lambda>_ _. True"
  by unfold_locales (auto intro: db_ok_ops db_ok_plain_updates restore_ok)

text \<open>A server at work: it answers requests, and the control connections of the agents write to the database in between.\<close>

inductive server_runs :: "app \<Rightarrow> app \<Rightarrow> bool" for s0 where
  runs_start: "server_runs s0 s0"
| runs_request: "server_runs s0 s \<Longrightarrow> server_runs s0 (snd (serve W q s))"
| runs_statement: "server_runs s0 s \<Longrightarrow> db_step (a_db s) db \<Longrightarrow> server_runs s0 (s\<lparr>a_db := db\<rparr>)"

definition sample_state :: app where
  "sample_state = sample_app empty_db"

text \<open>C12. The integrity of the database survives everything that happens to a server: any sequence of requests to any
  of its endpoints, restores and imports included, whatever they contain and whoever sends them, interleaved with the
  statements of the control connections.\<close>

theorem server_keeps_integrity:
  assumes "server_runs s0 s" "db_ok (a_db s0)"
  shows "db_ok (a_db s)"
  using assms(1)
proof (induction rule: server_runs.induct)
  case (runs_request s W q)
  then show ?case using db_keepsD [OF integrity.P_serve [of W q], of s]
    by (simp add: integrity.may_generate_def integrity.may_bring_def)
qed (use assms(2) in \<open>auto intro: db_ok_step\<close>)

theorem server_keeps_integrity_witness:
  "\<forall>W. db_ok (a_db (snd (serve W anonymous_call sample_state)))"
  using server_keeps_integrity [OF runs_request [OF runs_start], of sample_state] empty_db_ok
  by (simp add: sample_state_def sample_app_def)

section \<open>Requests of a signed-in administrator\<close>

definition admin_app :: "Db \<Rightarrow> app" where
  "admin_app db = (sample_app db)\<lparr>a_sessions := snd (ss_create 1000 ''sid'' ''tok'' (sample_account ''admin'') new_store)\<rparr>"

definition admin_call :: "Method \<Rightarrow> string \<Rightarrow> bytes \<Rightarrow> http_call" where
  "admin_call m path body = anonymous_call\<lparr>hc_method := m, hc_path := path, hc_body := body,
     hc_headers := [(''authorization'', ''Bearer tok'')], hc_env := sample_env\<rparr>"

lemma admin_signed_in: "caller (admin_call m path body) (admin_app db) = Some (sample_account ''admin'')"
proof -
  have "fst (user_by_access_token 1000 ''tok'' (a_sessions (admin_app db))) = Some (sample_account ''admin'')"
    by (simp add: admin_app_def store_defs ttl_defs)
  then show ?thesis
    by (auto simp: caller_def admin_call_def current_user_def bearer_tok session_now_def sample_env_def split: prod.splits)
qed

lemma admin_permitted: "user_has_permission (sample_account ''admin'') p"
  by (simp add: sample_account_def user_has_permission_def role_has_permission_def)

lemma after_lookup_db [simp]:
  "a_db (after_lookup q s) = a_db s" "a_allow_unsafe_targets (after_lookup q s) = a_allow_unsafe_targets s"
  by (simp_all add: after_lookup_def)

lemma admin_app_sel [simp]: "a_db (admin_app db) = db" "a_allow_unsafe_targets (admin_app db) = False"
  by (simp_all add: admin_app_def sample_app_def)

section \<open>Disaster recovery\<close>

text \<open>C14. Disaster recovery over the management interface.  Take the file that the backup endpoint of one server delivers and
  post it, with the query that applies it, to the restore endpoint of another server, as a signed-in user with the right to
  write settings.  If the file is larger than the body limit of 10 MiB, the request is refused and nothing is
  restored.  Otherwise it is served, and the second database holds the same nodes, credentials, routes, ACL rules, domains and
  certificates as the first.  The first database is assumed to be consistent and \<open>restorable\<close>: no blank identifiers,
  names, targets, actions and hashes, and domains name existing certificates; the second one to be consistent with empty
  configuration tables and without an audit entry of the identifier drawn for this request; and the YAML text to be read back
  as the snapshot it was printed from.\<close>

theorem backup_restore_roundtrip:
  assumes backup: "api_dispatch (wd_framework W) (hc_method q) (hc_path q) = Run BackupOp ps" "serve W q s = (Ok (File file), s1)"
    and post: "api_dispatch (wd_framework W') (hc_method q') (hc_path q') = Run RestoreOp ps'"
      "fw_apply (wd_framework W') (hc_query q') = Ok True" "from_utf8 (hc_body q') = Some (dl_body file)"
    and user: "caller q' t = Some v" "user_has_permission v SettingsWrite"
    and yaml: "wd_yaml W' = wd_yaml W" "\<forall>snap text. y_to_yaml (wd_yaml W) snap = Some text \<longrightarrow> y_from_yaml (wd_yaml W) text = Some snap"
    and source: "db_ok (a_db s)" "restorable (a_db s)"
    and target: "db_ok (a_db t)" "unconfigured (a_db t)" "\<forall>a\<in>set (t_audit_logs (a_db t)). audit_id a \<noteq> e_uuid (hc_env q') 0"
  shows "if length (hc_body q') \<le> 10 * 1024 * 1024
     then \<exists>report t'. serve W' q' t = (Ok (Report report), t') \<and> same_configuration (a_db s) (a_db t')
     else serve W' q' t = (Err (fw_too_large (wd_framework W')), after_lookup q' t)"
proof -
  obtain u where u: "caller q s = Some u"
    using backup by (cases "caller q s") (simp_all add: serve_def signed_in_unknown)
  then have taken: "api_backup (wd_yaml W) u (after_lookup q s) = (Ok file, s1)"
    using backup by (auto simp: serve_def signed_in_known replying_def hbind_Ok)
  have post': "serve W' q' t = extracted (bytes_limited (wd_framework W') (hc_body q'))
      (\<lambda>body. replying Report (api_restore (wd_yaml W') (hc_env q') v True body)) (after_lookup q' t)"
    using post user(1) by (simp add: serve_def signed_in_known extracted_def)
  show ?thesis
  proof (cases "length (hc_body q') \<le> 10 * 1024 * 1024")
    case True
    obtain report t' where r: "api_restore (wd_yaml W) (hc_env q') v True (hc_body q') (after_lookup q' t) = (Ok report, t')"
      "same_configuration (a_db (after_lookup q s)) (a_db t')"
      using api_restore_of_backup [OF taken post(3) yaml(2), of "after_lookup q' t" "hc_env q'" v] source target user(2) by auto
    then have "serve W' q' t = (Ok (Report report), t')"
      unfolding post' using True by (simp add: yaml(1) extracted_def bytes_limited_def SNAPSHOT_BODY_LIMIT_def replying_def hbind_def hlift_def)
    with r(2) True show ?thesis by simp
  next
    case False
    then have "bytes_limited (wd_framework W') (hc_body q') = Err (fw_too_large (wd_framework W'))"
      by (simp only: bytes_limited_def SNAPSHOT_BODY_LIMIT_def if_False)
    then have "serve W' q' t = (Err (fw_too_large (wd_framework W')), after_lookup q' t)"
      unfolding post' by (simp add: extracted_def)
    with False show ?thesis by (simp only: if_False)
  qed
qed

definition recovery_world :: "world \<Rightarrow> world" where
  "recovery_world W = W\<lparr>wd_yaml := sample_yaml, wd_framework := (wd_framework W)\<lparr>fw_match := (\<lambda>ps path. Some (path, [])), fw_apply := (\<lambda>_. Ok True)\<rparr>\<rparr>"

lemma recovery_dispatch:
  "api_dispatch (wd_framework (recovery_world W)) GET ''/api/v1/backup'' = Run BackupOp []"
  "api_dispatch (wd_framework (recovery_world W)) POST ''/api/v1/restore'' = Run RestoreOp []"
  by (simp_all add: api_dispatch_def recovery_world_def router_defs)

theorem backup_restore_roundtrip_witness:
  "\<forall>W. \<exists>report t'. serve (recovery_world W) (admin_call POST ''/api/v1/restore'' [121]) (admin_app empty_db) = (Ok (Report report), t')
     \<and> same_configuration sample_db (a_db t')"
proof
  fix W :: world
  let ?W = "recovery_world W" and ?q = "admin_call GET ''/api/v1/backup'' []" and ?r = "admin_call POST ''/api/v1/restore'' [121]"
  have q: "hc_method ?q = GET" "hc_path ?q = ''/api/v1/backup''" "hc_method ?r = POST" "hc_path ?r = ''/api/v1/restore''" "hc_body ?r = [121]"
    by (simp_all add: admin_call_def)
  have yaml: "wd_yaml ?W = sample_yaml" by (simp add: recovery_world_def)
  obtain dl where dl: "api_backup sample_yaml (sample_account ''admin'') (after_lookup ?q (admin_app sample_db))
      = (Ok dl, after_lookup ?q (admin_app sample_db))" "dl_body dl = ''y''"
    by (auto simp: api_backup_def yaml_response_def sample_yaml_def require_permission_def admin_permitted)
  then have served: "serve ?W ?q (admin_app sample_db) = (Ok (File dl), after_lookup ?q (admin_app sample_db))"
    using recovery_dispatch(1) [of W] admin_signed_in [of GET "''/api/v1/backup''" "[]" sample_db]
    by (simp add: serve_def q signed_in_known yaml replying_def hbind_def hlift_def)
  have body: "from_utf8 [121] = Some ''y''"
    by (simp add: from_utf8_def utf8_first_def chr_def char_of_def bit_numeral_rec bit_Suc_0_iff)
  have "if length (hc_body ?r) \<le> 10 * 1024 * 1024
     then \<exists>report t'. serve ?W ?r (admin_app empty_db) = (Ok (Report report), t') \<and> same_configuration (a_db (admin_app sample_db)) (a_db t')
     else serve ?W ?r (admin_app empty_db) = (Err (fw_too_large (wd_framework ?W)), after_lookup ?r (admin_app empty_db))"
  proof (rule backup_restore_roundtrip [OF _ served])
    show "api_dispatch (wd_framework ?W) (hc_method ?q) (hc_path ?q) = Run BackupOp []"
      "api_dispatch (wd_framework ?W) (hc_method ?r) (hc_path ?r) = Run RestoreOp []"
      using recovery_dispatch by (simp_all add: q)
    show "caller ?r (admin_app empty_db) = Some (sample_account ''admin'')" by (rule admin_signed_in)
    show "\<forall>snap text. y_to_yaml (wd_yaml ?W) snap = Some text \<longrightarrow> y_from_yaml (wd_yaml ?W) text = Some snap"
      by (simp add: yaml sample_yaml_def)
  qed (use body dl(2) sample_db_facts empty_db_ok in \<open>simp_all add: q admin_permitted recovery_world_def empty_db_def\<close>)
  then show "\<exists>report t'. serve ?W ?r (admin_app empty_db) = (Ok (Report report), t') \<and> same_configuration sample_db (a_db t')"
    by (simp add: q)
qed

section \<open>Revoked secrets\<close>

text \<open>The requests that may store a further, unrevoked credential with this hash: one that generates a secret with it, or a
  restore or import of a snapshot that holds such a credential.\<close>

definition introduces :: "string \<Rightarrow> world \<Rightarrow> http_call \<Rightarrow> bool" where
  "introduces h W q \<longleftrightarrow>
     (\<exists>n. x_hash_token (y_ext (wd_api W)) (e_token (hc_env q) n) = h)
     \<or> (bulk_call W q \<and> (\<exists>snap. parse_snapshot (wd_yaml W) (hc_body q) = Ok snap
          \<and> (\<exists>c\<in>set (sn_credentials snap). cred_secret_hash c = h \<and> cred_revoked_at c = None)))"

text \<open>A server at work without such requests and statements.\<close>

inductive secret_runs :: "string \<Rightarrow> app \<Rightarrow> app \<Rightarrow> bool" for h s0 where
  secret_start: "secret_runs h s0 s0"
| secret_request: "secret_runs h s0 s \<Longrightarrow> \<not> introduces h W q \<Longrightarrow> secret_runs h s0 (snd (serve W q s))"
| secret_statement: "secret_runs h s0 s \<Longrightarrow> secret_step h (a_db s) db \<Longrightarrow> secret_runs h s0 (s\<lparr>a_db := db\<rparr>)"

lemma spent_restore:
  assumes "spent h db" "\<forall>c\<in>set (sn_credentials snap). cred_secret_hash c = h \<longrightarrow> cred_revoked_at c \<noteq> None"
  shows "spent h (snd (restore snap ap db))"
proof -
  obtain new where "t_credentials (snd (restore snap ap db)) = t_credentials db @ new" "set new \<subseteq> set (sn_credentials snap)"
    using restore_grows [of snap db ap] by (auto simp: grown_def grew_def)
  with assms show ?thesis by (auto simp: spent_def)
qed

lemma spent_statements:
  "spent h db \<Longrightarrow> create_credential i n ty ha ex ts db = Ok db' \<Longrightarrow> ha \<noteq> h \<Longrightarrow> spent h db'"
  "spent h db \<Longrightarrow> spent h (revoke_credential i ts db)"
  "spent h db \<Longrightarrow> spent h (delete_node i db)"
  by (auto simp: spent_def create_credential_Ok revoke_credential_def update_where_def delete_node_def delete_where_def Let_def)

lemma spent_cong: "t_credentials db' = t_credentials db \<Longrightarrow> spent h db \<Longrightarrow> spent h db'"
  by (simp add: spent_def)

lemma credentials_untouched:
  "insert_audit_log row db = Ok db' \<Longrightarrow> t_credentials db' = t_credentials db"
  "create_user i n em pw d db = Ok db' \<Longrightarrow> t_credentials db' = t_credentials db"
  "assign_user_role i r db = Ok db' \<Longrightarrow> t_credentials db' = t_credentials db"
  "create_node i n de ts db = Ok db' \<Longrightarrow> t_credentials db' = t_credentials db"
  "update_node i n de ts db = Ok db' \<Longrightarrow> t_credentials db' = t_credentials db"
  "create_acl_rule i ro ac ci sp th tp ts db = Ok db' \<Longrightarrow> t_credentials db' = t_credentials db"
  "create_route i cols ts db = Ok db' \<Longrightarrow> t_credentials db' = t_credentials db"
  "update_route i cols ts db = Ok db' \<Longrightarrow> t_credentials db' = t_credentials db"
  "t_credentials (set_node_agent_meta i h pl ar ve ts db) = t_credentials db" "t_credentials (delete_acl_rule i db) = t_credentials db"
  "t_credentials (delete_route i db) = t_credentials db" "t_credentials (set_route_enabled i en ts db) = t_credentials db"
  "t_credentials (snd (bump_config_version i ts db)) = t_credentials db"
  by (auto simp: insert_audit_log_def create_user_def assign_user_role_def create_node_def update_node_def create_acl_rule_def
      create_route_def update_route_def set_node_agent_meta_def delete_acl_rule_def delete_route_def set_route_enabled_def
      bump_config_version_def Let_def split: if_splits)

interpretation spent_secret: whole_database "\<lambda>_. spent h" "\<lambda>ha rv. ha = h \<longrightarrow> rv \<noteq> None" for h
  by unfold_locales (auto intro: spent_statements spent_restore spent_cong credentials_untouched)

lemma spent_runs: "secret_runs h s0 s \<Longrightarrow> spent h (a_db s0) \<Longrightarrow> spent h (a_db s)"
proof (induction rule: secret_runs.induct)
  case (secret_request s W q)
  then have "db_keeps (\<lambda>_. spent h) (serve W q)"
    by (intro spent_secret.P_serve; unfold introduces_def spent_secret.may_generate_def spent_secret.may_bring_def) auto
  from db_keepsD [OF this, of s] secret_request show ?case by blast
qed (auto intro: spent_step)

text \<open>C31. Revocation is final.  After a credential was revoked through the API, whatever requests to any endpoints are served,
  restores included, and whatever the control connections write: as long as no request or statement stores a further, unrevoked
  credential with the same hash (by generating the same secret, or by restoring a snapshot that was taken before the
  revocation and still holds it), no agent authenticates with that secret, at any
  time and whichever node it claims, and no enrollment with it succeeds or changes anything.\<close>

theorem revocation_final:
  assumes "api_revoke_credential E u nid cid s0 = (Ok (), s)"
    and "\<forall>c\<in>set (t_credentials (a_db s0)). cred_secret_hash c = x_hash_token (y_ext Y) tok \<longrightarrow> cred_id c = cid"
    and "secret_runs (x_hash_token (y_ext Y) tok) s s'"
  shows "(\<exists>code msg. authenticate (y_ext Y) (db_query (a_db s')) \<lparr>auth_node_id = claimed, auth_credential = Some tok\<rparr> now
           = AuthDecision.Failure code msg)
     \<and> (trim (er_bootstrap_token q) = tok \<longrightarrow>
          (\<exists>status code msg. enroll Y E' q s' = (Err (ApiError status code msg), s') \<and> status \<in> {401, 422}))"
proof -
  have "spent (x_hash_token (y_ext Y) tok) (a_db s)"
    using assms(2) api_revoke_credential_effect [OF assms(1)]
    by (auto simp: spent_def revoke_credential_def update_where_def)
  then have "spent (x_hash_token (y_ext Y) tok) (a_db s')"
    using spent_runs [OF assms(3)] by blast
  then show ?thesis
    using spent_not_authenticated [of "y_ext Y" tok "a_db s'"] spent_not_enrolled by auto
qed

text \<open>Concretely: a revocation, the request of a stranger and the deletion of another node.\<close>

definition matching :: "world \<Rightarrow> world" where
  "matching W = W\<lparr>wd_api := sample_api, wd_framework := (wd_framework W)\<lparr>fw_match := (\<lambda>ps path. Some (path, []))\<rparr>\<rparr>"

lemma stranger_not_bulk: "\<not> bulk_call (matching W) anonymous_call"
  by (simp add: bulk_call_def api_dispatch_def anonymous_call_def matching_def router_defs)

theorem revocation_final_witness:
  "\<forall>W. \<exists>s. api_revoke_credential sample_env (sample_account ''admin'') ''n1'' ''c1'' (sample_app sample_db) = (Ok (), s)
     \<and> (\<exists>code msg. authenticate (y_ext sample_api) (db_query (delete_node ''n2'' (a_db (snd (serve (matching W) anonymous_call s)))))
          \<lparr>auth_node_id = None, auth_credential = Some ''secret''\<rparr> 5 = AuthDecision.Failure code msg)"
proof
  fix W :: world
  obtain s where s: "api_revoke_credential sample_env (sample_account ''admin'') ''n1'' ''c1'' (sample_app sample_db) = (Ok (), s)"
    by (auto simp: api_revoke_credential_def require_permission_def get_credential_def sample_app_def sample_db_eval write_audit_def
        hdb_def insert_audit_log_def sample_account_def user_has_permission_def role_has_permission_def revoke_credential_def)
  define s' where "s' = snd (serve (matching W) anonymous_call s)"
  have secret: "x_hash_token (y_ext sample_api) t = CHR ''#'' # t" for t
    by (simp add: sample_api_def sample_ext_def)
  have "\<not> introduces ''#secret'' (matching W) anonymous_call"
    using stranger_not_bulk by (simp add: introduces_def secret anonymous_call_def matching_def)
  then have "secret_runs ''#secret'' s s'"
    unfolding s'_def by (intro secret_request secret_start)
  moreover have "secret_step ''#secret'' (a_db s') (delete_node ''n2'' (a_db s'))"
    unfolding secret_step_def by (rule conjI, rule db_step.intros) (auto simp: delete_node_def Let_def delete_where_def)
  ultimately have "secret_runs (x_hash_token (y_ext sample_api) ''secret'') s (s'\<lparr>a_db := delete_node ''n2'' (a_db s')\<rparr>)"
    by (auto simp: secret intro: secret_statement)
  from revocation_final [OF s _ this] s
  show "\<exists>s. api_revoke_credential sample_env (sample_account ''admin'') ''n1'' ''c1'' (sample_app sample_db) = (Ok (), s)
     \<and> (\<exists>code msg. authenticate (y_ext sample_api) (db_query (delete_node ''n2'' (a_db (snd (serve (matching W) anonymous_call s)))))
          \<lparr>auth_node_id = None, auth_credential = Some ''secret''\<rparr> 5 = AuthDecision.Failure code msg)"
    unfolding s'_def by (auto simp: sample_app_def sample_db_eval)
qed

text \<open>The exception is real.  A revoked credential that is deleted with its node comes back, unrevoked, with the
  restore of a backup from before the revocation: the secret authenticates again.\<close>

lemma older_backup_brings_secret_back:
  "\<exists>report db. restore (snapshot_from_db sample_db True) True (delete_node ''n1'' (revoke_credential ''c1'' ''t9'' sample_db)) = (Ok report, db)
     \<and> (\<exists>a. authenticate (sample_ext sample_ok sample_snap) (db_query db) \<lparr>auth_node_id = None, auth_credential = Some ''secret''\<rparr> 5
          = AuthDecision.Success a)"
proof -
  let ?db0 = "delete_node ''n1'' (revoke_credential ''c1'' ''t9'' sample_db)"
  have "db_ok ?db0" "unconfigured ?db0"
    by (simp_all add: sample_db_eval db_ok_defs unconfigured_def delete_node_def revoke_credential_def update_where_def delete_where_def
        unlink_domains_def Let_def)
  from restore_backup [OF sample_db_facts(1,2) this] obtain report db where
    r: "restore (snapshot_from_db sample_db True) True ?db0 = (Ok report, db)" "same_configuration sample_db db" by blast
  then have "t_nodes db = t_nodes sample_db" "t_credentials db = t_credentials sample_db"
    by (simp_all add: same_configuration_def sample_db_eval)
  then have "find_node_credential h db = find_node_credential h sample_db" for h
    by (simp add: find_node_credential_def cong: if_cong)
  then have "\<exists>a. authenticate (sample_ext sample_ok sample_snap) (db_query db) \<lparr>auth_node_id = None, auth_credential = Some ''secret''\<rparr> 5
      = AuthDecision.Success a"
    by (simp add: authenticate_def db_query_def find_node_credential_def sample_db_eval sample_ext_def evaluate_def)
  with r(1) show ?thesis by blast
qed

section \<open>The stored routes\<close>

text \<open>An invariant of the routes table that also survives the loss of rows (a deleted node takes its routes with it).\<close>

locale stored_routes = route_table_invariant +
  assumes inv_filter: "inv rows \<Longrightarrow> inv (filter keep rows)"

lemma routes_untouched:
  "insert_audit_log row db = Ok db' \<Longrightarrow> t_routes db' = t_routes db"
  "create_user i n em pw d db = Ok db' \<Longrightarrow> t_routes db' = t_routes db"
  "assign_user_role i r db = Ok db' \<Longrightarrow> t_routes db' = t_routes db"
  "create_node i n de ts db = Ok db' \<Longrightarrow> t_routes db' = t_routes db"
  "update_node i n de ts db = Ok db' \<Longrightarrow> t_routes db' = t_routes db"
  "create_credential i n ty ha ex ts db = Ok db' \<Longrightarrow> t_routes db' = t_routes db"
  "create_acl_rule i ro ac ci sp th tp ts db = Ok db' \<Longrightarrow> t_routes db' = t_routes db"
  by (auto simp: insert_audit_log_def create_user_def assign_user_role_def create_node_def update_node_def
      create_credential_def create_acl_rule_def split: if_splits)

lemma routes_kept [simp]:
  "t_routes (set_node_agent_meta i h pl ar ve ts db) = t_routes db" "t_routes (revoke_credential i ts db) = t_routes db"
  "t_routes (delete_acl_rule i db) = t_routes db"
  "t_routes (delete_node i db) = filter (\<lambda>r. route_node_id r \<noteq> i) (t_routes db)"
  by (simp_all add: set_node_agent_meta_def revoke_credential_def delete_acl_rule_def delete_node_def delete_where_def Let_def)

sublocale stored_routes < kept: db_property "\<lambda>a db. a = allow \<and> inv (t_routes db)" "\<lambda>_ _. True"
  by unfold_locales (auto simp: routes_untouched inv_filter)

context stored_routes
begin

abbreviation "holds \<equiv> \<lambda>a db. a = allow \<and> inv (t_routes db)"

lemma route_writes:
  "db_keeps holds (api_create_route Y E u r)" "db_keeps holds (api_update_route Y E u i p)"
  "db_keeps holds (api_delete_route Y E u i)" "db_keeps holds (api_enable_route Y E u i)" "db_keeps holds (api_disable_route Y E u i)"
  using inv_step [of _ "CreateRoute E u r"] inv_step [of _ "UpdateRoute E u i p"] inv_step [of _ "DeleteRoute E u i"]
    inv_step [of _ "EnableRoute E u i"] inv_step [of _ "DisableRoute E u i"]
    allow_flag_fixed [of Y "CreateRoute E u r"] allow_flag_fixed [of Y "UpdateRoute E u i p"] allow_flag_fixed [of Y "DeleteRoute E u i"]
    allow_flag_fixed [of Y "EnableRoute E u i"] allow_flag_fixed [of Y "DisableRoute E u i"]
  by (auto simp: db_keeps_def)

lemma operation_keeps:
  assumes "wd_api W = Y" "op \<noteq> RestoreOp" "op \<noteq> ImportOp"
  shows "db_keeps holds (run_operation W q ps op)"
proof (cases "op \<in> {CreateTheRoute, UpdateTheRoute, DeleteTheRoute, EnableTheRoute, DisableTheRoute}")
  case True
  then show ?thesis
    by (elim insertE) (simp_all add: assms(1), (intro keeping route_writes)+)
qed (use assms(2,3) in \<open>auto intro!: kept.P_operation simp: kept.may_generate_def\<close>)

lemma serve_keeps:
  assumes "wd_api W = Y" "\<not> bulk_call W q" "a_allow_unsafe_targets s = allow" "inv (routes_of s)"
  shows "a_allow_unsafe_targets (snd (serve W q s)) = allow" "inv (routes_of (snd (serve W q s)))"
proof -
  have "db_keeps holds (serve W q)"
    using assms(1,2) unfolding serve_def bulk_call_def
    by (auto split: dispatch.splits option.splits intro!: operation_keeps db_keeps_pure)
  from db_keepsD [OF this, of s] assms(3,4)
  show "a_allow_unsafe_targets (snd (serve W q s)) = allow" "inv (routes_of (snd (serve W q s)))" by simp_all
qed

end

interpretation all_safe: stored_routes Y False targets_safe for Y
  by unfold_locales (auto simp: targets_safe_def list_all_iff)

interpretation all_slots: stored_routes Y allow slots_unique for Y allow
  by unfold_locales (auto simp: slots_unique_def distinct_map_filter)

interpretation all_typed: stored_routes Y allow "rows_typed Y" for Y allow
  by unfold_locales (auto simp: rows_typed_def list_all_iff)

text \<open>A sequence of requests to a server without restores and imports.\<close>

definition requests_run :: "(world \<times> http_call) list \<Rightarrow> app \<Rightarrow> app" where
  "requests_run calls s = fold (\<lambda>(W, q) s. snd (serve W q s)) calls s"

text \<open>C10. No sequence of requests to any endpoints, restores and imports apart, gets a forbidden target address stored
  while unsafe targets are not allowed, nor two routes with the same stored listen host and port or the same stored host
  name, nor a row that is not well typed.  Stored texts are compared letter by letter, as the conflict check compares them: two
  spellings of one name or address are different here, which is how a later reload can still find a clash.\<close>

theorem requests_keep_routes_safe:
  assumes "\<forall>(W, q)\<in>set calls. \<not> bulk_call W q \<and> wd_api W = Y" "rows_typed Y (routes_of s)"
    and "\<not> a_allow_unsafe_targets s" "targets_safe (routes_of s)" "slots_unique (routes_of s)"
  shows "targets_safe (routes_of (requests_run calls s)) \<and> slots_unique (routes_of (requests_run calls s))
    \<and> rows_typed Y (routes_of (requests_run calls s))"
proof -
  have "\<not> a_allow_unsafe_targets (requests_run calls s) \<and> rows_typed Y (routes_of (requests_run calls s))
      \<and> targets_safe (routes_of (requests_run calls s)) \<and> slots_unique (routes_of (requests_run calls s))"
    using assms
  proof (induction calls arbitrary: s)
    case (Cons c calls)
    obtain W q where c: "c = (W, q)" by force
    have "requests_run (c # calls) s = requests_run calls (snd (serve W q s))" by (simp add: requests_run_def c)
    moreover have call: "\<not> bulk_call W q" "wd_api W = Y" using Cons.prems(1) by (simp_all add: c)
    ultimately show ?case
      using Cons.prems Cons.IH [of "snd (serve W q s)"] all_safe.serve_keeps [OF refl, of W q s] all_slots.serve_keeps [OF refl, of W q s False]
        all_typed.serve_keeps [OF call(2), of q s False]
      by simp
  qed (simp add: requests_run_def)
  then show ?thesis by simp
qed

text \<open>An administrator creates a route for a host name and then asks for a second one for the same name.\<close>

definition create_world :: "string \<Rightarrow> world \<Rightarrow> world" where
  "create_world name W = W\<lparr>wd_api := any_uuid_api, wd_framework := (wd_framework W)\<lparr>fw_match := (\<lambda>ps path. Some (path, [])),
     fw_route := (\<lambda>_ _. Ok (RouteApi.sample_request name ''a.io''))\<rparr>\<rparr>"

definition create_call :: http_call where
  "create_call = admin_call POST ''/api/v1/routes'' []"

lemma create_dispatch: "api_dispatch (wd_framework (create_world name W)) (hc_method create_call) (hc_path create_call) = Run CreateTheRoute []"
  by (simp add: api_dispatch_def create_world_def create_call_def admin_call_def router_defs)

lemma first_route_stored: "\<exists>row. routes_of (snd (serve (create_world ''web'' W) create_call (admin_app sample_db))) = [row]
    \<and> route_hostname row = Some ''a.io''"
proof -
  let ?s = "after_lookup create_call (admin_app sample_db)" and ?i = "sample_input ''web'' ''a.io''"
  obtain db where db: "create_route (e_uuid sample_env 0) (route_columns ?i None) (e_ts sample_env) sample_db = Ok db"
    by (simp add: create_route_def sample_input_def route_columns_def sample_db_eval)
  obtain v s' where c: "api_create_route any_uuid_api sample_env (sample_account ''admin'') (RouteApi.sample_request ''web'' ''a.io'') ?s = (Ok v, s')"
    and rows: "t_routes (a_db s') = t_routes db"
    using api_create_route_succeeds [OF admin_permitted normalize_sample, of ?s any_uuid_api None sample_env db] accepted_sample db
    by (auto simp: limits_json_def sample_input_def sample_db_eval)
  have env: "hc_env create_call = sample_env" by (simp add: create_call_def admin_call_def)
  have api: "wd_api (create_world ''web'' W) = any_uuid_api" by (simp add: create_world_def)
  have decode: "fw_route (wd_framework (create_world ''web'' W)) h b = Ok (RouteApi.sample_request ''web'' ''a.io'')" for h b
    by (simp add: create_world_def)
  have "serve (create_world ''web'' W) create_call (admin_app sample_db) = (Ok (OneRoute v), s')"
    using c admin_signed_in [of POST "''/api/v1/routes''" "[]" sample_db]
    by (simp add: serve_def create_dispatch signed_in_known create_call_def [symmetric] env api json_def extracted_def decode
        replying_def hbind_def hlift_def)
  then show ?thesis
    using rows db by (auto simp: create_route_def sample_input_def route_columns_def sample_db_eval split: if_splits)
qed

theorem requests_keep_routes_safe_witness:
  "\<forall>W. \<exists>row. routes_of (requests_run [(create_world ''web'' W, create_call)] (admin_app sample_db)) = [row]
     \<and> route_hostname row = Some ''a.io''
     \<and> slots_unique (routes_of (requests_run [(create_world ''web'' W, create_call), (create_world ''api'' W, create_call)] (admin_app sample_db)))"
proof
  fix W :: world
  let ?calls = "[(create_world ''web'' W, create_call), (create_world ''api'' W, create_call)]"
  have "\<forall>(V, q)\<in>set ?calls. \<not> bulk_call V q \<and> wd_api V = any_uuid_api"
    by (simp add: bulk_call_def create_dispatch) (simp add: create_world_def)
  then have "slots_unique (routes_of (requests_run ?calls (admin_app sample_db)))"
    using requests_keep_routes_safe [of ?calls any_uuid_api "admin_app sample_db"]
    by (simp add: sample_db_eval targets_safe_def slots_unique_def rows_typed_def)
  then show "\<exists>row. routes_of (requests_run [(create_world ''web'' W, create_call)] (admin_app sample_db)) = [row]
     \<and> route_hostname row = Some ''a.io'' \<and> slots_unique (routes_of (requests_run ?calls (admin_app sample_db)))"
    using first_route_stored [of W] by (simp add: requests_run_def)
qed

text \<open>Restores and imports are a way around these checks: whatever routes a snapshot has, a restore stores them.\<close>

theorem restore_stores_unchecked_routes:
  assumes "db_ok src" "restorable src" "db_ok db" "unconfigured db" "\<not> targets_safe (t_routes src)"
  shows "\<not> targets_safe (t_routes (snd (restore (snapshot_from_db src True) True db)))"
proof -
  obtain report db' where r: "restore (snapshot_from_db src True) True db = (Ok report, db')" "same_configuration src db'"
    using restore_backup [OF assms(1-4)] by blast
  then have "set (t_routes db') = set (t_routes src)"
    by (metis same_configuration_def set_mset_mset)
  then show ?thesis using assms(5) r(1) by (simp add: targets_safe_def list_all_iff)
qed

text \<open>And nothing but the database learns of them: the running configuration, the access rules in force and the connected
  agents stay as they were.\<close>

theorem restore_not_distributed:
  "keeps (\<lambda>s. (a_config s, a_acl s, a_sync s)) (api_restore G E u ap body)"
  "keeps (\<lambda>s. (a_config s, a_acl s, a_sync s)) (api_import G E u ap body)"
proof -
  have restores: "keeps (\<lambda>s. (a_config s, a_acl s, a_sync s)) (hrestore snap ap)" for snap
    by (auto simp: keeps_def hrestore_def split: prod.splits)
  have audits: "keeps (\<lambda>s. (a_config s, a_acl s, a_sync s)) (audit_applied E u ap ac)" for ac
    by (auto simp: keeps_def audit_applied_def write_audit_def hdb_def hlift_def split: sum.splits)
  show "keeps (\<lambda>s. (a_config s, a_acl s, a_sync s)) (api_restore G E u ap body)"
    "keeps (\<lambda>s. (a_config s, a_acl s, a_sync s)) (api_import G E u ap body)"
    unfolding api_restore_def api_import_def by (intro keeps_bind keeps_pure restores audits)+
qed

end
