(* ===== verification/Frames.thy ===== *)
theory Frames
  imports ApiSafety
begin

text \<open>
  What the requests of the management interface leave alone.  A component of the application state that the handlers reach only
  by name - the access rules in force, the configuration - is changed by the operations that are about it, and by
  no other: the locales say which updates the component does not notice, and prove the frame of every operation
  from that.
\<close>

named_theorems field_frame \<open>handlers that leave a component of the application state alone\<close>

lemmas frame_rules [field_frame] = keeps_bind keeps_pure keeps_fetch_node keeps_replying keeps_extracted keeps_mod

lemma frame_if: "keeps F m \<Longrightarrow> keeps F m' \<Longrightarrow> keeps F (if b then m else m')"
  by simp

section \<open>A component that the database, the accounts and the agents do not touch\<close>

locale untouched_field =
  fixes F :: "app \<Rightarrow> 'f"
  assumes untouched [simp]: "F (s\<lparr>a_db := db\<rparr>) = F s" "F (s\<lparr>a_sessions := st\<rparr>) = F s" "F (s\<lparr>a_limiter := lm\<rparr>) = F s"
      "F (s\<lparr>a_events := es\<rparr>) = F s" "F (s\<lparr>a_sync := cs\<rparr>) = F s"
begin

lemma frame_basic [field_frame]:
  "keeps F (hdb err stmt)" "keeps F (write_audit E i uid ac rt rid meta)" "keeps F (try_audit E i uid ac rt rid meta)"
  "keeps F (require_user E hs)" "keeps F (publish ev)" "keeps F (route_events k rd n)" "keeps F (issue_session E u)"
  by (auto simp: keeps_def hdb_def write_audit_def try_audit_def require_user_def publish_def route_events_def issue_session_def
      hmod_def hbind_def split: sum.splits prod.splits option.splits)

lemma frame_wrappers [field_frame]:
  "(\<And>x. keeps F (f x)) \<Longrightarrow> keeps F (json decode q f)" "(\<And>u. keeps F (g u)) \<Longrightarrow> keeps F (with_user q g)"
  unfolding json_def with_user_def by (intro field_frame; assumption?)+

lemma frame_push: "F (bump_and_push Y E n s) = F s"
  by (auto simp: bump_and_push_def Let_def split: prod.splits sum.splits option.splits)

lemma frame_login: "keeps F (login_failed Y E u uid r)" "keeps F (login_success E u row)"
  unfolding login_failed_def login_success_def Let_def by (intro field_frame; simp)+

lemma frame_sessions [field_frame]:
  "keeps F (login Y E u pw)" "keeps F (logout E hs)" "keeps F (refresh E hs)"
  by (auto simp: keeps_def login_def logout_def refresh_def Let_def keepsD [OF frame_login(1)] keepsD [OF frame_login(2)]
      keepsD [OF frame_basic(3)] split: prod.splits option.splits bool.splits)

lemma frame_accounts [field_frame]: "keeps F (setup_admin Y E u pw em)" "keeps F (enroll Y E q)"
  unfolding setup_admin_def enroll_def Let_def by (intro field_frame frame_if; simp)+

lemma frame_nodes [field_frame]:
  "keeps F (api_create_node Y E u n d)" "keeps F (api_update_node Y E u i n2 d)" "keeps F (api_delete_node E u i)"
  "keeps F (api_create_credential Y E u i ty ex)" "keeps F (api_revoke_credential E u i c)"
  unfolding api_create_node_def api_update_node_def api_delete_node_def api_create_credential_def api_revoke_credential_def
  by (intro field_frame; simp)+

lemma frame_reads [field_frame]:
  "keeps F (api_list_nodes u)" "keeps F (api_get_node u i)" "keeps F (api_list_routes Y u)" "keeps F (api_get_route Y u i)"
  "keeps F (api_list_acl_rules u)" "keeps F (api_list_audit_logs u aq)"
  "keeps F (api_backup G u)" "keeps F (api_export G u)" "keeps F (ws_handler E hs js turns)"
  unfolding reading api_backup_def api_export_def ws_handler_def by (intro field_frame)+

lemma frame_bulk [field_frame]: "keeps F (api_restore G E u ap body)" "keeps F (api_import G E u ap body)"
proof -
  have restores: "keeps F (hrestore snap ap)" for snap
    by (auto simp: keeps_def hrestore_def split: prod.splits)
  have audits: "keeps F (audit_applied E u ap ac)" for ac
    by (auto simp: keeps_def audit_applied_def write_audit_def hdb_def hlift_def split: sum.splits)
  show "keeps F (api_restore G E u ap body)" "keeps F (api_import G E u ap body)"
    unfolding api_restore_def api_import_def by (intro keeps_bind keeps_pure restores audits)+
qed

text \<open>Whatever the operation, it is enough to look at those on routes and on access rules.\<close>

lemma frame_operation:
  assumes "op \<in> {CreateAclRule, DeleteAclRule} \<Longrightarrow> keeps F (run_operation W q ps op)"
    and "op \<in> {CreateTheRoute, UpdateTheRoute, DeleteTheRoute, EnableTheRoute, DisableTheRoute} \<Longrightarrow> keeps F (run_operation W q ps op)"
  shows "keeps F (run_operation W q ps op)"
proof (cases "op \<in> {CreateAclRule, DeleteAclRule, CreateTheRoute, UpdateTheRoute, DeleteTheRoute, EnableTheRoute, DisableTheRoute}")
  case False
  have pair: "keeps F (case x of (i, c) \<Rightarrow> m i c)" if "\<And>i c. keeps F (m i c)" for x and m :: "string \<Rightarrow> string \<Rightarrow> reply handler"
    using that by (cases x) simp
  show ?thesis using False by (cases op) (simp_all, (intro field_frame pair)+)
qed (use assms in auto)

end

section \<open>The access rules in force and the configuration\<close>

locale apart_from_config = untouched_field +
  assumes config_untouched [simp]: "F (s\<lparr>a_config := m\<rparr>) = F s"
begin

lemma frame_reload: "F (reload_config Y s) = F s"
  by (auto simp: reload_config_def)

lemma frame_routes [field_frame]:
  "keeps F (api_create_route Y E u r)" "keeps F (api_update_route Y E u i p)" "keeps F (api_delete_route Y E u i)"
  "keeps F (set_enabled Y E uid i en ac)"
  unfolding api_create_route_def api_update_route_def api_delete_route_def set_enabled_def Let_def
  by (intro field_frame; simp add: frame_push frame_reload)+

lemma frame_switch [field_frame]: "keeps F (api_enable_route Y E u i)" "keeps F (api_disable_route Y E u i)"
  unfolding api_enable_route_def api_disable_route_def by (intro field_frame)+

lemma frame_but_acl: "op \<notin> {CreateAclRule, DeleteAclRule} \<Longrightarrow> keeps F (run_operation W q ps op)"
  by (rule frame_operation) (auto intro!: field_frame)

end

locale apart_from_acl = untouched_field +
  assumes acl_untouched [simp]: "F (s\<lparr>a_acl := r\<rparr>) = F s"
begin

lemma frame_rules_api [field_frame]: "keeps F (api_create_acl_rule Y E u a)" "keeps F (api_delete_acl_rule Y E u i)"
  unfolding api_create_acl_rule_def api_delete_acl_rule_def reload_acl_def Let_def by (intro field_frame; simp)+

lemma frame_but_routes: "op \<notin> {CreateTheRoute, UpdateTheRoute, DeleteTheRoute, EnableTheRoute, DisableTheRoute}
    \<Longrightarrow> keeps F (run_operation W q ps op)"
  by (rule frame_operation) (auto intro!: field_frame)

end

interpretation rules_in_force: apart_from_config a_acl
  by unfold_locales simp_all

interpretation configuration: apart_from_acl a_config
  by unfold_locales simp_all

text \<open>Which requests are about the one or the other.\<close>

definition acl_call :: "world \<Rightarrow> http_call \<Rightarrow> bool" where
  "acl_call W q \<longleftrightarrow> (case api_dispatch (wd_framework W) (hc_method q) (hc_path q) of
     Run op _ \<Rightarrow> op \<in> {CreateAclRule, DeleteAclRule} | _ \<Rightarrow> False)"

definition route_call :: "world \<Rightarrow> http_call \<Rightarrow> bool" where
  "route_call W q \<longleftrightarrow> (case api_dispatch (wd_framework W) (hc_method q) (hc_path q) of
     Run op _ \<Rightarrow> op \<in> {CreateTheRoute, UpdateTheRoute, DeleteTheRoute, EnableTheRoute, DisableTheRoute} | _ \<Rightarrow> False)"

lemma serve_frame:
  "\<not> acl_call W q \<Longrightarrow> keeps a_acl (serve W q)" "\<not> route_call W q \<Longrightarrow> keeps a_config (serve W q)"
  unfolding serve_def acl_call_def route_call_def
  by (auto split: dispatch.splits option.splits intro!: rules_in_force.frame_but_acl configuration.frame_but_routes keeps_pure)

end
