(* ===== verification/Wiring.thy ===== *)
theory Wiring
  imports Startup "HOL-Library.State_Monad"
begin

text \<open>
  Who shares what.  The components of the server refer to shared objects by \<open>Arc\<close>; here the objects live in an explicit
  store, and a constructor allocates them or is handed references.  The theory has the constructors of \<open>QuicServer\<close>, \<open>TcpProxy\<close>,
  \<open>UdpProxy\<close>, \<open>HttpProxy\<close>, \<open>HttpsProxy\<close> and \<open>AppState\<close>, and the wiring that \<open>run\<close> in \<open>server/src/main.rs\<close> does with them.

  \<open>production_wiring\<close> shows that this wiring refines the start-up of \<open>Startup\<close>, which works on values, and that
  all components share what they are meant to share.
\<close>

section \<open>Shared objects\<close>

type_synonym arc = nat

datatype object =
    ODb (obj_db: Db) | ORoutes (obj_routes: RouteTable) | OHosts (obj_hosts: HostTable) | OConns (obj_conns: ConnRegistry)
  | OAcl (obj_acl: AclSnapshot) | OLimiter (obj_limiter: ConnLimiter) | OSync (obj_sync: ConfigSync)
  | OConfig (obj_config: ConfigManager) | OEvents (obj_events: "event list") | ONodes (obj_nodes: SessionManager)
  | OStore (obj_store: SessionStore) | OLogin (obj_login: LoginLimiter) | OReady (obj_ready: Readiness)
  | OTcp (obj_tcp: TcpProxy) | OUdp (obj_udp: UdpProxy)

type_synonym 'a build = "(object list, 'a) state"

definition arc_new :: "object \<Rightarrow> arc build" where
  "arc_new ob = State (\<lambda>h. (length h, h @ [ob]))"

definition arc_get :: "arc \<Rightarrow> object build" where
  "arc_get r = State (\<lambda>h. (h ! r, h))"

definition arc_map :: "arc \<Rightarrow> (object \<Rightarrow> object) \<Rightarrow> unit build" where
  "arc_map r f = State (\<lambda>h. ((), h[r := f (h ! r)]))"

text \<open>The question mark operator in a constructor.\<close>

definition attempt :: "('e, 'a) result \<Rightarrow> ('a \<Rightarrow> ('e, 'b) result build) \<Rightarrow> ('e, 'b) result build" where
  "attempt r f = (case r of Inl e \<Rightarrow> State_Monad.return (Err e) | Inr x \<Rightarrow> f x)"

section \<open>The components\<close>

text \<open>A component is its references; the proxies with listeners have mutable parts of their own, also by reference.\<close>

record UdpRefs =
  ux_routes :: arc
  ux_conns :: arc
  ux_sync :: arc
  ux_own :: arc

record QuicServer =
  qs_db :: arc
  qs_sessions :: arc
  qs_conns :: arc
  qs_sync :: arc
  qs_events :: arc
  qs_heartbeat_timeout :: nat
  qs_udp :: "UdpRefs option"

record TcpRefs =
  tx_routes :: arc
  tx_conns :: arc
  tx_acl :: arc
  tx_limiter :: arc
  tx_own :: arc

record HttpRefs =
  hx_hosts :: arc
  hx_conns :: arc
  hx_acl :: arc
  hx_limiter :: arc
  hx_addr :: SocketAddr

record 'k HttpsRefs =
  sx_certs :: "'k CertStore"
  sx_hosts :: arc
  sx_conns :: arc
  sx_acl :: arc
  sx_limiter :: arc
  sx_addr :: SocketAddr

record AppState =
  as_db :: arc
  as_sessions :: arc
  as_events :: arc
  as_acl :: arc
  as_login :: arc
  as_allow_unsafe_targets :: bool
  as_readiness :: arc
  as_web_dir :: "string option"
  as_sync :: arc
  as_config :: arc

section \<open>Constructors\<close>

text \<open>The argument \<open>bound\<close> is the outcome of binding the socket.\<close>

definition DEFAULT_HEARTBEAT_TIMEOUT :: nat where "DEFAULT_HEARTBEAT_TIMEOUT = 45000"

definition quic_bind_full :: "('e, SocketAddr) result \<Rightarrow> arc \<Rightarrow> arc \<Rightarrow> nat \<Rightarrow> arc \<Rightarrow> ('e, QuicServer) result build" where
  "quic_bind_full bound db nodes timeout events =
     attempt bound (\<lambda>_. do {
       conns \<leftarrow> arc_new (OConns []);
       cs \<leftarrow> arc_new (OSync cs_new);
       State_Monad.return (Ok \<lparr>qs_db = db, qs_sessions = nodes, qs_conns = conns, qs_sync = cs, qs_events = events,
         qs_heartbeat_timeout = timeout, qs_udp = None\<rparr>) })"

definition quic_bind_with_events :: "('e, SocketAddr) result \<Rightarrow> arc \<Rightarrow> arc \<Rightarrow> arc \<Rightarrow> ('e, QuicServer) result build" where
  "quic_bind_with_events bound db nodes events = quic_bind_full bound db nodes DEFAULT_HEARTBEAT_TIMEOUT events"

definition quic_bind_with_timeout :: "('e, SocketAddr) result \<Rightarrow> arc \<Rightarrow> arc \<Rightarrow> nat \<Rightarrow> ('e, QuicServer) result build" where
  "quic_bind_with_timeout bound db nodes timeout =
     do { events \<leftarrow> arc_new (OEvents []); quic_bind_full bound db nodes timeout events }"

definition quic_bind :: "('e, SocketAddr) result \<Rightarrow> arc \<Rightarrow> arc \<Rightarrow> ('e, QuicServer) result build" where
  "quic_bind bound db nodes =
     do { events \<leftarrow> arc_new (OEvents []); quic_bind_with_events bound db nodes events }"

text \<open>Attaching the UDP proxy works once.\<close>

definition set_udp_proxy :: "UdpRefs \<Rightarrow> QuicServer \<Rightarrow> QuicServer" where
  "set_udp_proxy udp q = (case qs_udp q of None \<Rightarrow> q\<lparr>qs_udp := Some udp\<rparr> | Some _ \<Rightarrow> q)"

definition tcp_bind_full :: "(SocketAddr \<Rightarrow> SocketAddr option) \<Rightarrow> arc \<Rightarrow> arc \<Rightarrow> arc \<Rightarrow> arc \<Rightarrow> (TcpProxyError, TcpRefs) result build" where
  "tcp_bind_full os_bind routes conns acl limiter =
     do { ob \<leftarrow> arc_get routes;
          attempt (tp_bind os_bind (obj_routes ob)) (\<lambda>tp. do {
            own \<leftarrow> arc_new (OTcp tp);
            State_Monad.return (Ok \<lparr>tx_routes = routes, tx_conns = conns, tx_acl = acl, tx_limiter = limiter, tx_own = own\<rparr>) }) }"

definition tcp_bind_with_acl :: "(SocketAddr \<Rightarrow> SocketAddr option) \<Rightarrow> arc \<Rightarrow> arc \<Rightarrow> arc \<Rightarrow> (TcpProxyError, TcpRefs) result build" where
  "tcp_bind_with_acl os_bind routes conns acl =
     do { limiter \<leftarrow> arc_new (OLimiter Map.empty); tcp_bind_full os_bind routes conns acl limiter }"

definition tcp_bind_with_conns :: "(SocketAddr \<Rightarrow> SocketAddr option) \<Rightarrow> arc \<Rightarrow> arc \<Rightarrow> (TcpProxyError, TcpRefs) result build" where
  "tcp_bind_with_conns os_bind routes conns =
     do { acl \<leftarrow> arc_new (OAcl empty_snapshot); tcp_bind_with_acl os_bind routes conns acl }"

definition tcp_bind :: "(SocketAddr \<Rightarrow> SocketAddr option) \<Rightarrow> arc \<Rightarrow> (TcpProxyError, TcpRefs) result build" where
  "tcp_bind os_bind routes = do { conns \<leftarrow> arc_new (OConns []); tcp_bind_with_conns os_bind routes conns }"

definition udp_bind_with_limits :: "(SocketAddr \<Rightarrow> SocketAddr option) \<Rightarrow> arc \<Rightarrow> arc \<Rightarrow> arc \<Rightarrow> nat \<Rightarrow> UdpRateLimits
    \<Rightarrow> (TcpProxyError, UdpRefs) result build" where
  "udp_bind_with_limits os_bind routes conns cs idle limits =
     do { ob \<leftarrow> arc_get routes; oc \<leftarrow> arc_get conns; os \<leftarrow> arc_get cs;
          attempt (bind_with_limits os_bind (obj_routes ob) (obj_conns oc) (obj_sync os) idle limits) (\<lambda>up. do {
            own \<leftarrow> arc_new (OUdp up);
            State_Monad.return (Ok \<lparr>ux_routes = routes, ux_conns = conns, ux_sync = cs, ux_own = own\<rparr>) }) }"

definition udp_bind_with_timeout :: "(SocketAddr \<Rightarrow> SocketAddr option) \<Rightarrow> arc \<Rightarrow> arc \<Rightarrow> arc \<Rightarrow> nat
    \<Rightarrow> (TcpProxyError, UdpRefs) result build" where
  "udp_bind_with_timeout os_bind routes conns cs idle = udp_bind_with_limits os_bind routes conns cs idle default_rate_limits"

definition udp_bind :: "(SocketAddr \<Rightarrow> SocketAddr option) \<Rightarrow> arc \<Rightarrow> arc \<Rightarrow> arc \<Rightarrow> (TcpProxyError, UdpRefs) result build" where
  "udp_bind os_bind routes conns cs = udp_bind_with_timeout os_bind routes conns cs UDP_IDLE_TIMEOUT"

definition http_bind_full :: "('e, SocketAddr) result \<Rightarrow> arc \<Rightarrow> arc \<Rightarrow> arc \<Rightarrow> arc \<Rightarrow> ('e, HttpRefs) result build" where
  "http_bind_full bound hosts conns acl limiter =
     attempt bound (\<lambda>addr.
       State_Monad.return (Ok \<lparr>hx_hosts = hosts, hx_conns = conns, hx_acl = acl, hx_limiter = limiter, hx_addr = addr\<rparr>))"

definition http_bind_with_acl :: "('e, SocketAddr) result \<Rightarrow> arc \<Rightarrow> arc \<Rightarrow> arc \<Rightarrow> ('e, HttpRefs) result build" where
  "http_bind_with_acl bound hosts conns acl =
     do { limiter \<leftarrow> arc_new (OLimiter Map.empty); http_bind_full bound hosts conns acl limiter }"

definition http_bind_alone :: "('e, SocketAddr) result \<Rightarrow> arc \<Rightarrow> arc \<Rightarrow> ('e, HttpRefs) result build" where
  "http_bind_alone bound hosts conns =
     do { acl \<leftarrow> arc_new (OAcl empty_snapshot); http_bind_with_acl bound hosts conns acl }"

definition https_bind_full :: "('e, SocketAddr) result \<Rightarrow> arc \<Rightarrow> arc \<Rightarrow> 'k CertStore \<Rightarrow> arc \<Rightarrow> arc \<Rightarrow> ('e, 'k HttpsRefs) result build" where
  "https_bind_full bound hosts conns certs acl limiter =
     attempt bound (\<lambda>addr.
       State_Monad.return (Ok \<lparr>sx_certs = certs, sx_hosts = hosts, sx_conns = conns, sx_acl = acl, sx_limiter = limiter,
         sx_addr = addr\<rparr>))"

definition https_bind_with_acl :: "('e, SocketAddr) result \<Rightarrow> arc \<Rightarrow> arc \<Rightarrow> 'k CertStore \<Rightarrow> arc \<Rightarrow> ('e, 'k HttpsRefs) result build" where
  "https_bind_with_acl bound hosts conns certs acl =
     do { limiter \<leftarrow> arc_new (OLimiter Map.empty); https_bind_full bound hosts conns certs acl limiter }"

definition https_bind_alone :: "('e, SocketAddr) result \<Rightarrow> arc \<Rightarrow> arc \<Rightarrow> 'k CertStore \<Rightarrow> ('e, 'k HttpsRefs) result build" where
  "https_bind_alone bound hosts conns certs =
     do { acl \<leftarrow> arc_new (OAcl empty_snapshot); https_bind_with_acl bound hosts conns certs acl }"

definition readiness_ready :: Readiness where
  "readiness_ready = mark_http (mark_quic (mark_config (mark_db readiness_new)))"

definition app_state_full :: "arc \<Rightarrow> arc \<Rightarrow> arc \<Rightarrow> arc \<Rightarrow> AppState build" where
  "app_state_full db events acl attempts =
     do { store \<leftarrow> arc_new (OStore new_store);
          readiness \<leftarrow> arc_new (OReady readiness_new);
          cs \<leftarrow> arc_new (OSync cs_new);
          config \<leftarrow> arc_new (OConfig new_config_manager);
          State_Monad.return \<lparr>as_db = db, as_sessions = store, as_events = events, as_acl = acl, as_login = attempts,
            as_allow_unsafe_targets = False, as_readiness = readiness, as_web_dir = None, as_sync = cs, as_config = config\<rparr> }"

definition app_state_with_acl :: "arc \<Rightarrow> arc \<Rightarrow> arc \<Rightarrow> AppState build" where
  "app_state_with_acl db events acl = do { attempts \<leftarrow> arc_new (OLogin ll_default); app_state_full db events acl attempts }"

definition app_state_with_events :: "arc \<Rightarrow> arc \<Rightarrow> AppState build" where
  "app_state_with_events db events = do { acl \<leftarrow> arc_new (OAcl empty_snapshot); app_state_with_acl db events acl }"

definition with_allow_unsafe_targets :: "bool \<Rightarrow> AppState \<Rightarrow> AppState" where
  "with_allow_unsafe_targets allow a = a\<lparr>as_allow_unsafe_targets := allow\<rparr>"

definition with_readiness :: "arc \<Rightarrow> AppState \<Rightarrow> AppState" where
  "with_readiness r a = a\<lparr>as_readiness := r\<rparr>"

definition with_web_dir :: "string option \<Rightarrow> AppState \<Rightarrow> AppState" where
  "with_web_dir dir a = a\<lparr>as_web_dir := dir\<rparr>"

definition with_config_sync :: "arc \<Rightarrow> AppState \<Rightarrow> AppState" where
  "with_config_sync r a = a\<lparr>as_sync := r\<rparr>"

definition with_config :: "arc \<Rightarrow> AppState \<Rightarrow> AppState" where
  "with_config r a = a\<lparr>as_config := r\<rparr>"

definition app_state_new :: "arc \<Rightarrow> AppState build" where
  "app_state_new db =
     do { events \<leftarrow> arc_new (OEvents []);
          a \<leftarrow> app_state_with_events db events;
          r \<leftarrow> arc_new (OReady readiness_ready);
          State_Monad.return (with_readiness r a) }"

section \<open>The wiring of the server\<close>

record 'k wiring =
  w_config :: ServerConfig
  w_quic :: QuicServer
  w_tcp :: TcpRefs
  w_udp :: UdpRefs
  w_http :: HttpRefs
  w_https :: "'k HttpsRefs"
  w_app :: AppState

definition mark :: "(Readiness \<Rightarrow> Readiness) \<Rightarrow> arc \<Rightarrow> unit build" where
  "mark f r = arc_map r (\<lambda>ob. OReady (f (obj_ready ob)))"

text \<open>\<open>config.reload(&db)\<close>, \<open>acl.reload(&db)\<close>, and the loop that fills the two tables.\<close>

definition reload_config_arc :: "externals \<Rightarrow> arc \<Rightarrow> arc \<Rightarrow> (RunError, unit) result build" where
  "reload_config_arc X config db =
     do { od \<leftarrow> arc_get db; oc \<leftarrow> arc_get config;
          case cm_reload (x_parse_uuid X) (x_parse_limits X) (Ok (list_routes (obj_db od))) (obj_config oc) of
            (Inl e, _) \<Rightarrow> State_Monad.return (Err (LoadConfig e))
          | (Inr _, m) \<Rightarrow> do { arc_map config (\<lambda>_. OConfig m); State_Monad.return (Ok ()) } }"

definition reload_acl_arc :: "externals \<Rightarrow> arc \<Rightarrow> arc \<Rightarrow> unit build" where
  "reload_acl_arc X acl db =
     do { od \<leftarrow> arc_get db;
          arc_map acl (\<lambda>ob. OAcl (acl_reload (x_parse_uuid X) (Ok (list_acl_rules (obj_db od))) (obj_acl ob))) }"

definition fill_tables :: "arc \<Rightarrow> arc \<Rightarrow> arc \<Rightarrow> (RunError, unit) result build" where
  "fill_tables config routes hosts =
     do { oc \<leftarrow> arc_get config; rt \<leftarrow> arc_get routes; ht \<leftarrow> arc_get hosts;
          attempt (map_err InsertRoute (build_tables (cm_snapshot (obj_config oc)) (obj_routes rt) (obj_hosts ht))) (\<lambda>(rs, hs).
            do { arc_map routes (\<lambda>_. ORoutes rs); arc_map hosts (\<lambda>_. OHosts hs); State_Monad.return (Ok ()) }) }"

text \<open>The entry points of the data plane, and then the management interface.\<close>

definition wire_entries :: "'k startup_io \<Rightarrow> ServerConfig \<Rightarrow> arc \<Rightarrow> arc \<Rightarrow> arc \<Rightarrow> arc \<Rightarrow> arc \<Rightarrow> arc \<Rightarrow> arc \<Rightarrow> arc \<Rightarrow> QuicServer
    \<Rightarrow> (RunError, 'k wiring) result build" where
  "wire_entries io cfg db readiness events config acl limiter routes hosts server =
     do { t \<leftarrow> tcp_bind_full (su_tcp_bind io) routes (qs_conns server) acl limiter;
          attempt (map_err TcpSetUp t) (\<lambda>tcp. do {
          u \<leftarrow> udp_bind (su_udp_bind io) routes (qs_conns server) (qs_sync server);
          attempt (map_err UdpSetUp u) (\<lambda>udp. do {
          r \<leftarrow> http_bind_full (bind_entry ''http'' (http_bind (cfg_http cfg)) (su_http_bind io)) hosts (qs_conns server) acl limiter;
          attempt r (\<lambda>http. do {
          mark mark_http readiness;
          od \<leftarrow> arc_get db;
          attempt (map_err LoadCertificates (cert_from_rows (su_pem io) (list_certificates (obj_db od)))) (\<lambda>certs. do {
          r \<leftarrow> https_bind_full (bind_entry ''https'' (https_bind (cfg_https cfg)) (su_https_bind io)) hosts (qs_conns server)
                certs acl limiter;
          attempt r (\<lambda>https.
          attempt (bind_entry ''internal'' (internal_bind (cfg_internal cfg)) (su_internal_bind io)) (\<lambda>_. do {
          attempts \<leftarrow> arc_new (OLogin (ll_new (max_login_attempts (cfg_security cfg)) (login_window_seconds (cfg_security cfg))));
          app \<leftarrow> app_state_full db events acl attempts;
          State_Monad.return (Ok \<lparr>w_config = cfg, w_quic = set_udp_proxy udp server, w_tcp = tcp, w_udp = udp, w_http = http,
            w_https = https,
            w_app = with_config config (with_config_sync (qs_sync server) (with_web_dir (web_dir (cfg_internal cfg))
              (with_readiness readiness (with_allow_unsafe_targets (allow_unsafe_targets (cfg_security cfg)) app))))\<rparr>)
          })) }) }) }) }) }"

definition wire :: "'k startup_io \<Rightarrow> (RunError, 'k wiring) result build" where
  "wire io =
     attempt (load_server_config io) (\<lambda>cfg.
     if \<not> su_register_metrics io then State_Monad.return (Err RegisterMetrics)
     else do {
       readiness \<leftarrow> arc_new (OReady readiness_new);
       attempt (open_database io cfg) (\<lambda>rows. do {
       db \<leftarrow> arc_new (ODb rows);
       mark mark_db readiness;
       nodes \<leftarrow> arc_new (ONodes []);
       events \<leftarrow> arc_new (OEvents []);
       r \<leftarrow> quic_bind_with_events (bind_quic io cfg) db nodes events;
       attempt r (\<lambda>server. do {
       mark mark_quic readiness;
       config \<leftarrow> arc_new (OConfig new_config_manager);
       r \<leftarrow> reload_config_arc (su_ext io) config db;
       attempt r (\<lambda>_. do {
       mark mark_config readiness;
       acl \<leftarrow> arc_new (OAcl empty_snapshot);
       reload_acl_arc (su_ext io) acl db;
       limiter \<leftarrow> arc_new (OLimiter Map.empty);
       routes \<leftarrow> arc_new (ORoutes []);
       hosts \<leftarrow> arc_new (OHosts []);
       r \<leftarrow> fill_tables config routes hosts;
       attempt r (\<lambda>_. wire_entries io cfg db readiness events config acl limiter routes hosts server) }) }) }) })"

section \<open>Reading the components\<close>

definition tcp_view :: "object list \<Rightarrow> TcpRefs \<Rightarrow> TcpProxy" where
  "tcp_view h t = (obj_tcp (h ! tx_own t))\<lparr>tp_routes := obj_routes (h ! tx_routes t)\<rparr>"

definition udp_view :: "object list \<Rightarrow> UdpRefs \<Rightarrow> UdpProxy" where
  "udp_view h u = (obj_udp (h ! ux_own u))\<lparr>up_routes := obj_routes (h ! ux_routes u), up_conns := obj_conns (h ! ux_conns u),
     up_sync := obj_sync (h ! ux_sync u)\<rparr>"

definition app_view :: "object list \<Rightarrow> AppState \<Rightarrow> app" where
  "app_view h a =
     \<lparr>a_db = obj_db (h ! as_db a), a_sessions = obj_store (h ! as_sessions a), a_limiter = obj_login (h ! as_login a),
      a_acl = obj_acl (h ! as_acl a), a_config = obj_config (h ! as_config a), a_sync = obj_sync (h ! as_sync a),
      a_events = obj_events (h ! as_events a), a_allow_unsafe_targets = as_allow_unsafe_targets a\<rparr>"

definition server_view :: "object list \<Rightarrow> 'k wiring \<Rightarrow> 'k server" where
  "server_view h w =
     \<lparr>rs_config = w_config w, rs_readiness = obj_ready (h ! as_readiness (w_app w)), rs_hosts = obj_hosts (h ! hx_hosts (w_http w)),
      rs_tcp = tcp_view h (w_tcp w), rs_udp = udp_view h (w_udp w), rs_certs = sx_certs (w_https w), rs_app = app_view h (w_app w)\<rparr>"

text \<open>What the components are meant to share, and that nothing else is shared.\<close>

definition shares :: "'k wiring \<Rightarrow> bool" where
  "shares w \<longleftrightarrow>
     tx_acl (w_tcp w) = as_acl (w_app w) \<and> hx_acl (w_http w) = as_acl (w_app w) \<and> sx_acl (w_https w) = as_acl (w_app w)
   \<and> hx_limiter (w_http w) = tx_limiter (w_tcp w) \<and> sx_limiter (w_https w) = tx_limiter (w_tcp w)
   \<and> tx_conns (w_tcp w) = qs_conns (w_quic w) \<and> ux_conns (w_udp w) = qs_conns (w_quic w)
   \<and> hx_conns (w_http w) = qs_conns (w_quic w) \<and> sx_conns (w_https w) = qs_conns (w_quic w)
   \<and> sx_hosts (w_https w) = hx_hosts (w_http w) \<and> ux_routes (w_udp w) = tx_routes (w_tcp w)
   \<and> as_db (w_app w) = qs_db (w_quic w) \<and> as_events (w_app w) = qs_events (w_quic w)
   \<and> as_sync (w_app w) = qs_sync (w_quic w) \<and> ux_sync (w_udp w) = qs_sync (w_quic w)
   \<and> qs_udp (w_quic w) = Some (w_udp w)"

definition arcs :: "'k wiring \<Rightarrow> arc list" where
  "arcs w = [as_db (w_app w), as_sessions (w_app w), as_events (w_app w), as_acl (w_app w), as_login (w_app w),
     as_readiness (w_app w), as_sync (w_app w), as_config (w_app w), qs_sessions (w_quic w), qs_conns (w_quic w),
     tx_routes (w_tcp w), tx_limiter (w_tcp w), tx_own (w_tcp w), ux_own (w_udp w), hx_hosts (w_http w)]"

lemma run_arc [simp]:
  "run_state (arc_new ob) h = (length h, h @ [ob])" "run_state (arc_get r) h = (h ! r, h)"
  "run_state (arc_map r f) h = ((), h[r := f (h ! r)])" "run_state (mark m r) h = ((), h[r := OReady (m (obj_ready (h ! r)))])"
  by (simp_all add: arc_new_def arc_get_def arc_map_def mark_def)

lemma run_attempt [simp]:
  "run_state (attempt (Err e) f) h = (Err e, h)" "run_state (attempt (Ok x) f) h = run_state (f x) h"
  by (simp_all add: attempt_def)

lemmas entry_constructors = tcp_bind_full_def udp_bind_def udp_bind_with_timeout_def udp_bind_with_limits_def http_bind_full_def
  https_bind_full_def app_state_full_def set_udp_proxy_def with_config_def with_config_sync_def with_web_dir_def
  with_readiness_def with_allow_unsafe_targets_def

text \<open>The second half of the start-up on values, and the store when the entry points are wired: eleven objects.\<close>

definition start_entries :: "'k startup_io \<Rightarrow> ServerConfig \<Rightarrow> Readiness \<Rightarrow> Db \<Rightarrow> ConfigManager \<Rightarrow> AclSnapshot \<Rightarrow> RouteTable \<Rightarrow> HostTable
    \<Rightarrow> (RunError, 'k server) result" where
  "start_entries io cfg rd db m acl rt ht =
     and_then (map_err TcpSetUp (tp_bind (su_tcp_bind io) rt)) (\<lambda>tcp.
     and_then (map_err UdpSetUp (bind_with_limits (su_udp_bind io) rt [] cs_new UDP_IDLE_TIMEOUT default_rate_limits)) (\<lambda>udp.
     and_then (bind_entry ''http'' (http_bind (cfg_http cfg)) (su_http_bind io)) (\<lambda>_.
     and_then (map_err LoadCertificates (cert_from_rows (su_pem io) (list_certificates db))) (\<lambda>certs.
     and_then (bind_entry ''https'' (https_bind (cfg_https cfg)) (su_https_bind io)) (\<lambda>_.
     and_then (bind_entry ''internal'' (internal_bind (cfg_internal cfg)) (su_internal_bind io)) (\<lambda>_.
     Ok \<lparr>rs_config = cfg, rs_readiness = mark_http rd, rs_hosts = ht, rs_tcp = tcp, rs_udp = udp, rs_certs = certs,
         rs_app = \<lparr>a_db = db, a_sessions = new_store,
                   a_limiter = ll_new (max_login_attempts (cfg_security cfg)) (login_window_seconds (cfg_security cfg)),
                   a_acl = acl, a_config = m, a_sync = cs_new, a_events = [],
                   a_allow_unsafe_targets = allow_unsafe_targets (cfg_security cfg)\<rparr>\<rparr>))))))"

definition half_wired :: "Readiness \<Rightarrow> Db \<Rightarrow> ConfigManager \<Rightarrow> AclSnapshot \<Rightarrow> RouteTable \<Rightarrow> HostTable \<Rightarrow> object list" where
  "half_wired rd db m acl rt ht =
     [OReady rd, ODb db, ONodes [], OEvents [], OConns [], OSync cs_new, OConfig m, OAcl acl, OLimiter Map.empty, ORoutes rt,
      OHosts ht]"

definition started_as :: "(RunError, 'k server) result \<Rightarrow> (RunError, 'k wiring) result \<times> object list \<Rightarrow> bool" where
  "started_as spec out \<longleftrightarrow>
     (case out of (Inl e, h) \<Rightarrow> spec = Err e
      | (Inr w, h) \<Rightarrow> spec = Ok (server_view h w) \<and> shares w \<and> distinct (arcs w) \<and> set (arcs w) \<subseteq> {..<length h}
          \<and> obj_conns (h ! qs_conns (w_quic w)) = [] \<and> obj_limiter (h ! tx_limiter (w_tcp w)) = Map.empty)"

lemma started_as_Err: "started_as (Err e) (Err e, h)"
  by (simp add: started_as_def)

lemma started_as_attempt:
  "(\<And>e. r = Err e \<Longrightarrow> spec = Err e) \<Longrightarrow> (\<And>x. r = Ok x \<Longrightarrow> started_as spec (run_state (f x) h))
     \<Longrightarrow> started_as spec (run_state (attempt r f) h)"
  by (cases r) (simp_all add: started_as_def)

lemma tp_bind_routes: "tp_bind os_bind rt = Ok tp \<Longrightarrow> tp_routes tp = rt"
  by (auto simp: tp_bind_def)

lemma udp_bind_refs: "bind_with_limits os_bind rt conns cs idle limits = Ok up \<Longrightarrow> up_routes up = rt \<and> up_conns up = conns \<and> up_sync up = cs"
  by (auto simp: bind_with_limits_def)

lemma wire_entries_spec:
  "started_as (start_entries io cfg rd db m acl rt ht) (run_state (wire_entries io cfg 1 0 3 6 7 8 9 10
      \<lparr>qs_db = 1, qs_sessions = 2, qs_conns = 4, qs_sync = 5, qs_events = 3, qs_heartbeat_timeout = n, qs_udp = None\<rparr>)
      (half_wired rd db m acl rt ht))"
  unfolding wire_entries_def half_wired_def start_entries_def
  by (cases "tp_bind (su_tcp_bind io) rt";
      cases "bind_with_limits (su_udp_bind io) rt [] cs_new UDP_IDLE_TIMEOUT default_rate_limits";
      cases "bind_entry ''http'' (http_bind (cfg_http cfg)) (su_http_bind io)";
      cases "cert_from_rows (su_pem io) (list_certificates db)";
      cases "bind_entry ''https'' (https_bind (cfg_https cfg)) (su_https_bind io)";
      cases "bind_entry ''internal'' (internal_bind (cfg_internal cfg)) (su_internal_bind io)";
      simp add: entry_constructors started_as_def)
    (auto simp: server_view_def tcp_view_def udp_view_def app_view_def shares_def arcs_def dest!: tp_bind_routes udp_bind_refs)

lemma wire_prepared:
  assumes "load_server_config io = Ok cfg" "su_register_metrics io" "open_database io cfg = Ok db" "bind_quic io cfg = Ok addr"
  shows "started_as (server_run io) (run_state (wire io) [])"
proof -
  let ?X = "su_ext io" and ?rd = "mark_config (mark_quic (mark_db readiness_new))"
  obtain r m where m: "cm_reload (x_parse_uuid ?X) (x_parse_limits ?X) (Ok (list_routes db)) new_config_manager = (r, m)" by force
  let ?acl = "acl_reload (x_parse_uuid ?X) (Ok (list_acl_rules db)) empty_snapshot"
  note simps = wire_def server_run_def assms m quic_bind_with_events_def quic_bind_full_def reload_config_arc_def Let_def
  show ?thesis
  proof (cases r)
    case (Inl e)
    then show ?thesis by (simp add: simps started_as_def)
  next
    case (Inr u)
    show ?thesis
    proof (cases "build_tables (cm_snapshot m) [] []")
      case (Inl e)
      then show ?thesis using Inr by (simp add: simps reload_acl_arc_def fill_tables_def started_as_def)
    next
      case tables: (Inr tables)
      obtain rt ht where [simp]: "tables = (rt, ht)" by force
      have "server_run io = start_entries io cfg ?rd db m ?acl rt ht"
        using Inr tables by (simp add: simps start_entries_def)
      moreover have "run_state (wire io) [] = run_state (wire_entries io cfg 1 0 3 6 7 8 9 10
          \<lparr>qs_db = 1, qs_sessions = 2, qs_conns = 4, qs_sync = 5, qs_events = 3, qs_heartbeat_timeout = DEFAULT_HEARTBEAT_TIMEOUT,
           qs_udp = None\<rparr>) (half_wired ?rd db m ?acl rt ht)"
        using Inr tables by (simp add: simps reload_acl_arc_def fill_tables_def half_wired_def eval_nat_numeral)
      ultimately show ?thesis using wire_entries_spec by simp
    qed
  qed
qed

lemma wire_started: "started_as (server_run io) (run_state (wire io) [])"
proof (cases "load_server_config io")
  case load: (Inr cfg)
  show ?thesis
  proof (cases "open_database io cfg")
    case db: (Inr db)
    show ?thesis
    proof (cases "bind_quic io cfg")
      case (Inr addr)
      show ?thesis
      proof (cases "su_register_metrics io")
        case True
        then show ?thesis using wire_prepared load db Inr by blast
      qed (use load in \<open>simp add: wire_def server_run_def started_as_def\<close>)
    qed (use load db in \<open>simp add: wire_def server_run_def quic_bind_with_events_def quic_bind_full_def started_as_def\<close>)
  qed (use load in \<open>simp add: wire_def server_run_def started_as_def\<close>)
qed (simp add: wire_def server_run_def started_as_def)

text \<open>C20. The wiring of the server.  With its objects shared by reference, the start-up of \<open>main.rs\<close> ends exactly as the start-up on
  values does, with the same error or in the same state as seen through the references of each component; and then all three entry
  points consult the ACL that the management interface changes, count connections on one limiter, and find agents in the
  registry that the control side fills; configuration pushes and events of the interface go to the channels
  the control side serves; and no two objects that are meant to be apart are one.  No agent is registered yet, and no connection counted.\<close>

theorem production_wiring:
  "case run_state (wire io) [] of
     (Inl e, h) \<Rightarrow> server_run io = Err e
   | (Inr w, h) \<Rightarrow> server_run io = Ok (server_view h w) \<and> shares w \<and> distinct (arcs w) \<and> set (arcs w) \<subseteq> {..<length h}
       \<and> obj_conns (h ! qs_conns (w_quic w)) = [] \<and> obj_limiter (h ! tx_limiter (w_tcp w)) = Map.empty"
  using wire_started [of io] by (simp add: started_as_def)

section \<open>Components on their own\<close>

text \<open>The shorter constructors allocate what they are not given.  Components built that way do not see each other: what
  the interface pushes or publishes never reaches the control side, and proxies know no agent and admit everyone.\<close>

lemma private_components:
  assumes "run_state (app_state_new db) h = (a, h1)" "run_state (quic_bind bound db nodes) h1 = (Ok q, h2)"
  shows "as_sync a \<noteq> qs_sync q \<and> as_events a \<noteq> qs_events q"
  using assms unfolding app_state_new_def app_state_with_events_def app_state_with_acl_def quic_bind_def quic_bind_with_events_def
    quic_bind_full_def
  by (cases bound) (auto simp: entry_constructors)

lemma private_proxies:
  "run_state (tcp_bind os_bind routes) h = (Ok t, h1) \<Longrightarrow>
     obj_conns (h1 ! tx_conns t) = [] \<and> obj_acl (h1 ! tx_acl t) = empty_snapshot \<and> obj_limiter (h1 ! tx_limiter t) = Map.empty"
  "run_state (http_bind_alone bound hosts conns) h = (Ok p, h1) \<Longrightarrow>
     hx_conns p = conns \<and> obj_acl (h1 ! hx_acl p) = empty_snapshot \<and> obj_limiter (h1 ! hx_limiter p) = Map.empty"
  "run_state (https_bind_alone bound hosts conns certs) h = (Ok sp, h1) \<Longrightarrow>
     sx_conns sp = conns \<and> obj_acl (h1 ! sx_acl sp) = empty_snapshot \<and> obj_limiter (h1 ! sx_limiter sp) = Map.empty"
proof -
  show "run_state (tcp_bind os_bind routes) h = (Ok t, h1) \<Longrightarrow>
     obj_conns (h1 ! tx_conns t) = [] \<and> obj_acl (h1 ! tx_acl t) = empty_snapshot \<and> obj_limiter (h1 ! tx_limiter t) = Map.empty"
    unfolding tcp_bind_def tcp_bind_with_conns_def tcp_bind_with_acl_def
    by (auto simp: entry_constructors nth_append attempt_def split: sum.splits)
  show "run_state (http_bind_alone bound hosts conns) h = (Ok p, h1) \<Longrightarrow>
     hx_conns p = conns \<and> obj_acl (h1 ! hx_acl p) = empty_snapshot \<and> obj_limiter (h1 ! hx_limiter p) = Map.empty"
    unfolding http_bind_alone_def http_bind_with_acl_def
    by (cases bound) (auto simp: entry_constructors nth_append)
  show "run_state (https_bind_alone bound hosts conns certs) h = (Ok sp, h1) \<Longrightarrow>
     sx_conns sp = conns \<and> obj_acl (h1 ! sx_acl sp) = empty_snapshot \<and> obj_limiter (h1 ! sx_limiter sp) = Map.empty"
    unfolding https_bind_alone_def https_bind_with_acl_def
    by (cases bound) (auto simp: entry_constructors nth_append)
qed

end
