(* ===== verification/Guards.thy ===== *)
theory Guards
  imports HttpProxy "HOL-Library.Multiset"
begin

text \<open>
  The connection guards of the three entry points: which connections hold a place of their route after the handler
  has admitted them, and that the shared limiter counts exactly these.  \<open>held\<close> is the multiset of the routes of the connections
  that hold a guard.
\<close>

definition guards_counted :: "ConnLimiter \<Rightarrow> Uuid multiset \<Rightarrow> bool" where
  "guards_counted lim held \<longleftrightarrow> (\<forall>rid. conn_active rid lim = of_nat (count held rid))"

locale guarded_entry = data_plane_entry +
  fixes after :: "data_plane \<Rightarrow> ConnLimiter \<Rightarrow> SocketAddr \<Rightarrow> 'a \<Rightarrow> ConnLimiter"
    and holds :: "data_plane \<Rightarrow> ConnLimiter \<Rightarrow> SocketAddr \<Rightarrow> 'a \<Rightarrow> bool"
  assumes holds_admitted: "holds dp lim peer req \<Longrightarrow>
      \<exists>route. select req = Some route \<and> admits dp lim route peer \<and> route_limit route \<noteq> None"
    and after_active: "conn_active rid (after dp lim peer req)
      = conn_active rid lim + (if holds dp lim peer req \<and> sr_id (the (select req)) = rid then 1 else 0)"
begin

lemma counted_after:
  "guards_counted lim held \<Longrightarrow>
     guards_counted (after dp lim peer req) (if holds dp lim peer req then add_mset (sr_id (the (select req))) held else held)"
  by (auto simp: guards_counted_def after_active)

text \<open>An admitted connection is within the limit of its route, counting all that hold a guard.\<close>

lemma within_limit:
  assumes "guards_counted lim held" "holds dp lim peer req" "size held < 2 ^ 64"
  shows "\<exists>route limit. select req = Some route \<and> route_limit route = Some limit
    \<and> count (add_mset (sr_id route) held) (sr_id route) \<le> unat limit"
proof -
  obtain route limit where r: "select req = Some route" "admits dp lim route peer" "route_limit route = Some limit"
    using holds_admitted [OF assms(2)] by blast
  have small: "count held (sr_id route) < 2 ^ LENGTH(64)"
    using assms(3) count_le_size [of held "sr_id route"] by simp
  have "conn_active (sr_id route) lim < limit" using r(2,3) by (simp add: admits_def)
  then have "unat (of_nat (count held (sr_id route)) :: u64) < unat limit"
    using assms(1) by (simp add: guards_counted_def word_less_nat_alt)
  then have "count held (sr_id route) < unat limit"
    using small by (simp add: unat_of_nat take_bit_nat_eq_self)
  then show ?thesis using r(1,3) by auto
qed

end

section \<open>The entry points\<close>

definition tcp_after :: "data_plane \<Rightarrow> ConnLimiter \<Rightarrow> SocketAddr
    \<Rightarrow> serde_json \<times> (nat \<Rightarrow> agent_link) \<times> SocketAddr \<times> TcpProxy \<Rightarrow> ConnLimiter" where
  "tcp_after dp lim peer = (\<lambda>(J, links, addr, tp). snd (snd (accept_tcp J links dp addr peer (tp, lim))))"

definition tcp_holds :: "data_plane \<Rightarrow> ConnLimiter \<Rightarrow> SocketAddr
    \<Rightarrow> serde_json \<times> (nat \<Rightarrow> agent_link) \<times> SocketAddr \<times> TcpProxy \<Rightarrow> bool" where
  "tcp_holds dp lim peer = (\<lambda>(J, links, addr, tp).
     case rt_lookup addr (tp_routes tp) of Some route \<Rightarrow> admits dp lim route peer \<and> route_limit route \<noteq> None | None \<Rightarrow> False)"

text \<open>A forwarding task of the TCP entry point holds its guard until it ends.\<close>

interpretation tcp_guard: guarded_entry tcp_opens "\<lambda>(J, links, addr, tp). rt_lookup addr (tp_routes tp)" tcp_after tcp_holds
proof (unfold_locales, goal_cases)
  case (1 dp lim peer req)
  then show ?case by (cases req) (auto simp: tcp_holds_def split: option.splits)
next
  case (2 rid dp lim peer req)
  obtain J links addr tp where req: "req = (J, links, addr, tp)" by (cases req)
  show ?case
  proof (cases "rt_lookup addr (tp_routes tp)")
    case None
    then show ?thesis by (simp add: req tcp_after_def tcp_holds_def accept_tcp_def)
  next
    case (Some route)
    obtain g lim1 where g: "take_guard route lim = (g, lim1)" by (cases "take_guard route lim")
    show ?thesis
      using Some g take_guard_iff [of route lim] conn_active_guard(2) [of route lim lim1 rid] take_guard_refused [of route lim lim1 rid]
      by (cases g) (auto simp: req tcp_after_def tcp_holds_def accept_tcp_def admits_def Let_def split: option.splits if_splits)
  qed
qed

definition http_after :: "data_plane \<Rightarrow> ConnLimiter \<Rightarrow> SocketAddr
    \<Rightarrow> serde_json \<times> (bytes \<Rightarrow> http_request option) \<times> (nat \<Rightarrow> agent_link) \<times> HostTable \<times> reads \<times> string \<Rightarrow> ConnLimiter" where
  "http_after dp lim peer = (\<lambda>(J, parse, links, table, rs, proto). snd (handle_http J parse links dp table rs peer proto lim))"

definition http_holds :: "data_plane \<Rightarrow> ConnLimiter \<Rightarrow> SocketAddr
    \<Rightarrow> serde_json \<times> (bytes \<Rightarrow> http_request option) \<times> (nat \<Rightarrow> agent_link) \<times> HostTable \<times> reads \<times> string \<Rightarrow> bool" where
  "http_holds dp lim peer = (\<lambda>(J, parse, links, table, rs, proto).
     relays (fst (handle_http J parse links dp table rs peer proto lim))
     \<and> (case http_select parse table rs of Some route \<Rightarrow> route_limit route \<noteq> None | None \<Rightarrow> False))"

lemma relays_simps [simp]: "\<not> relays []" "\<not> relays [Respond st]"
  by (simp_all add: relays_def)

text \<open>A connection of the HTTP entry point keeps its guard exactly if it is relayed.\<close>

lemma serve_http_guard:
  fixes J links dp route peer lim head body
  defines "out \<equiv> serve_http J links dp route peer lim head body"
  shows "conn_active rid (snd out) = conn_active rid lim
      + (if relays (fst out) \<and> route_limit route \<noteq> None \<and> sr_id route = rid then 1 else 0)"
    and "relays (fst out) \<Longrightarrow> admits dp lim route peer"
proof -
  obtain acts lim' where o: "serve_http J links dp route peer lim head body = (acts, lim')" by force
  have "conn_active rid lim' = conn_active rid lim + (if relays acts \<and> route_limit route \<noteq> None \<and> sr_id route = rid then 1 else 0)
      \<and> (relays acts \<longrightarrow> admits dp lim route peer)"
    using o
  proof (cases rule: serve_http_relays)
    case (tried conn lim1 relaying)
    then show ?thesis
      using relay_http_outcome(1) [OF tried(4)] conn_active_guard [OF tried(3), of rid] by auto
  qed simp
  then show "conn_active rid (snd out) = conn_active rid lim
      + (if relays (fst out) \<and> route_limit route \<noteq> None \<and> sr_id route = rid then 1 else 0)"
    "relays (fst out) \<Longrightarrow> admits dp lim route peer"
    by (simp_all add: out_def o)
qed

interpretation http_guard: guarded_entry http_opens "\<lambda>(J, parse, links, table, rs, proto). http_select parse table rs"
  http_after http_holds
proof (unfold_locales, goal_cases)
  case (1 dp lim peer req)
  obtain J parse links table rs proto where req: "req = (J, parse, links, table, rs, proto)" by (cases req)
  from 1 show ?case
    by (cases rule: handle_http_cases [of parse table rs J links dp peer proto lim])
      (auto simp: req http_holds_def dest: serve_http_guard(2))
next
  case (2 rid dp lim peer req)
  obtain J parse links table rs proto where req: "req = (J, parse, links, table, rs, proto)" by (cases req)
  show ?case
    by (cases rule: handle_http_cases [of parse table rs J links dp peer proto lim])
      (auto simp: req http_after_def http_holds_def serve_http_guard(1))
qed

definition https_after :: "data_plane \<Rightarrow> ConnLimiter \<Rightarrow> SocketAddr
    \<Rightarrow> serde_json \<times> (bytes \<Rightarrow> http_request option) \<times> (Prefixed \<Rightarrow> reads option) \<times> (nat \<Rightarrow> agent_link) \<times> HostTable \<times> reads
    \<Rightarrow> ConnLimiter" where
  "https_after dp lim peer = (\<lambda>(J, parse, tls, links, table, rs).
     case handle_https J parse tls links dp table rs peer lim of Some (_, lim') \<Rightarrow> lim' | None \<Rightarrow> lim)"

definition https_holds :: "data_plane \<Rightarrow> ConnLimiter \<Rightarrow> SocketAddr
    \<Rightarrow> serde_json \<times> (bytes \<Rightarrow> http_request option) \<times> (Prefixed \<Rightarrow> reads option) \<times> (nat \<Rightarrow> agent_link) \<times> HostTable \<times> reads
    \<Rightarrow> bool" where
  "https_holds dp lim peer = (\<lambda>(J, parse, tls, links, table, rs).
     (case handle_https J parse tls links dp table rs peer lim of Some (acts, _) \<Rightarrow> relays acts | None \<Rightarrow> False)
     \<and> (case https_select parse tls table rs of Some route \<Rightarrow> route_limit route \<noteq> None | None \<Rightarrow> False))"

lemma passthrough_guard:
  fixes J links dp route peer lim
  defines "out \<equiv> https_passthrough J links dp route peer lim"
  shows "conn_active rid (snd out) = conn_active rid lim
      + (if relays (fst out) \<and> route_limit route \<noteq> None \<and> sr_id route = rid then 1 else 0)"
    and "relays (fst out) \<Longrightarrow> admits dp lim route peer"
proof -
  obtain g lim1 where g: "take_guard route lim = (g, lim1)" by (cases "take_guard route lim")
  have relays_map: "relays (map Agent acts) \<longleftrightarrow> CopyDuplex \<in> set acts" for acts
    by (auto simp: relays_def)
  note facts = g take_guard_iff [of route lim] conn_active_guard [of route lim lim1 rid] take_guard_refused [of route lim lim1 rid]
  show "conn_active rid (snd out) = conn_active rid lim
      + (if relays (fst out) \<and> route_limit route \<noteq> None \<and> sr_id route = rid then 1 else 0)"
    "relays (fst out) \<Longrightarrow> admits dp lim route peer"
    using facts
    by (cases g; auto simp: out_def https_passthrough_def relays_map admits_def Let_def split: option.splits if_splits)+
qed

text \<open>What the HTTPS entry point does with a connection: nothing, pass it through, or answer it as the HTTP entry point.\<close>

lemma handle_https_cases:
  fixes J parse tls links dp table rs peer lim
  obtains (stuck) "handle_https J parse tls links dp table rs peer lim = None"
  | (dropped) "https_select parse tls table rs = None" "handle_https J parse tls links dp table rs peer lim = Some ([], lim)"
  | (passed) route where "https_select parse tls table rs = Some route"
      "handle_https J parse tls links dp table rs peer lim = Some (https_passthrough J links dp route peer lim)"
  | (plain) decoded where "https_select parse tls table rs = http_select parse table decoded"
      "handle_https J parse tls links dp table rs peer lim = Some (handle_http J parse links dp table decoded peer ''https'' lim)"
proof (cases "peek_sni rs")
  case (Pair out rest)
  show ?thesis
  proof (cases "\<exists>sni prefix. out = Some (Ok (sni, prefix))")
    case False
    with Pair show ?thesis
      by (cases out) (auto simp: handle_https_def https_select_def split: sum.splits intro: stuck dropped)
  next
    case True
    then obtain sni prefix where p: "peek_sni rs = (Some (Ok (sni, prefix)), rest)" using Pair by blast
    let ?pass = "Option.bind (Option.bind sni (\<lambda>s. ht_lookup s table)) (\<lambda>r. if tls_passthrough r then Some r else None)"
    show ?thesis
    proof (cases ?pass)
      case (Some route)
      with p show ?thesis by (intro passed [of route]) (simp_all add: handle_https_def https_select_def)
    next
      case None
      with p show ?thesis
        by (cases "tls \<lparr>px_prefix = prefix, px_inner = rest\<rparr>")
          (auto simp: handle_https_def https_select_def intro: dropped plain)
    qed
  qed
qed

interpretation https_guard: guarded_entry https_opens "\<lambda>(J, parse, tls, links, table, rs). https_select parse tls table rs"
  https_after https_holds
proof (unfold_locales, goal_cases)
  case (1 dp lim peer req)
  obtain J parse tls links table rs where req: "req = (J, parse, tls, links, table, rs)" by (cases req)
  show ?case
  proof (cases rule: handle_https_cases [of J parse tls links dp table rs peer lim])
    case (passed route)
    then show ?thesis
      using 1 passthrough_guard(2) [of J links dp route peer lim]
      by (cases "https_passthrough J links dp route peer lim") (auto simp: req https_holds_def)
  next
    case (plain decoded)
    let ?q = "(J, parse, links, table, decoded, ''https'')"
    have "http_holds dp lim peer ?q"
      using 1 plain by (cases "handle_http J parse links dp table decoded peer ''https'' lim") (simp add: req https_holds_def http_holds_def)
    from http_guard.holds_admitted [OF this] show ?thesis using plain by (simp add: req)
  qed (use 1 in \<open>simp_all add: req https_holds_def\<close>)
next
  case (2 rid dp lim peer req)
  obtain J parse tls links table rs where req: "req = (J, parse, tls, links, table, rs)" by (cases req)
  show ?case
  proof (cases rule: handle_https_cases [of J parse tls links dp table rs peer lim])
    case (passed route)
    then show ?thesis
      using passthrough_guard(1) [where J = J and links = links and dp = dp and route = route and peer = peer and lim = lim and rid = rid]
      by (cases "https_passthrough J links dp route peer lim") (auto simp: req https_after_def https_holds_def)
  next
    case (plain decoded)
    then show ?thesis
      using http_guard.after_active [of rid dp lim peer "(J, parse, links, table, decoded, ''https'')"]
      by (cases "handle_http J parse links dp table decoded peer ''https'' lim")
        (simp add: req https_after_def https_holds_def http_after_def http_holds_def)
  qed (simp_all add: req https_after_def https_holds_def)
qed

end
