(* ===== verification/System.thy ===== *)
theory System
  imports Frames Wiring Guards
begin

text \<open>
  The running server: the components of \<open>Wiring\<close> at work on the objects they share.  A step is a request to the management
  interface, a connection at one of the three entry points, the end of a relayed connection, a change of the agent
  registry, a statement of the control side, or a turn of the task that follows the configuration.  The properties
  span the components: a stored access rule is enforced at every entry point, and the connection limits of routes hold
  over all of them together.
\<close>

section \<open>The system at work\<close>

definition plane :: "arc \<Rightarrow> arc \<Rightarrow> object list \<Rightarrow> data_plane" where
  "plane conns acl h = \<lparr>dp_conns = obj_conns (h ! conns), dp_acl = obj_acl (h ! acl)\<rparr>"

text \<open>A handler of the interface works on the objects its references lead to.\<close>

definition app_write :: "AppState \<Rightarrow> app \<Rightarrow> object list \<Rightarrow> object list" where
  "app_write a s h = h[as_db a := ODb (a_db s), as_sessions a := OStore (a_sessions s), as_login a := OLogin (a_limiter s),
     as_acl a := OAcl (a_acl s), as_config a := OConfig (a_config s), as_sync a := OSync (a_sync s), as_events a := OEvents (a_events s)]"

text \<open>A connection at one of the entry points, with what its sockets, its parser and the agents do.\<close>

datatype entry_call =
    TcpCall serde_json "nat \<Rightarrow> agent_link" SocketAddr SocketAddr
  | HttpCall serde_json "bytes \<Rightarrow> http_request option" "nat \<Rightarrow> agent_link" reads SocketAddr
  | HttpsCall serde_json "bytes \<Rightarrow> http_request option" "Prefixed \<Rightarrow> reads option" "nat \<Rightarrow> agent_link" reads SocketAddr

text \<open>What comes of it: the route it is for, the messages sent to agents, whether the connection goes on to hold a guard.\<close>

record turn =
  tn_peer :: SocketAddr
  tn_route :: "ServerRoute option"
  tn_messages :: "Message list"
  tn_holds :: bool
  tn_objects :: "object list"

fun entry_turn :: "'k wiring \<Rightarrow> object list \<Rightarrow> entry_call \<Rightarrow> turn" where
  "entry_turn w h (TcpCall J links addr peer) =
     (let t = w_tcp w; dp = plane (tx_conns t) (tx_acl t) h; lim = obj_limiter (h ! tx_limiter t); tp = tcp_view h t;
          q = (J, links, addr, tp) in
      \<lparr>tn_peer = peer, tn_route = rt_lookup addr (tp_routes tp), tn_messages = tcp_opens dp lim peer q, tn_holds = tcp_holds dp lim peer q,
       tn_objects = h[tx_own t := OTcp (fst (snd (accept_tcp J links dp addr peer (tp, lim)))), tx_limiter t := OLimiter (tcp_after dp lim peer q)]\<rparr>)"
| "entry_turn w h (HttpCall J parse links rs peer) =
     (let p = w_http w; dp = plane (hx_conns p) (hx_acl p) h; lim = obj_limiter (h ! hx_limiter p); table = obj_hosts (h ! hx_hosts p);
          q = (J, parse, links, table, rs, ''http'') in
      \<lparr>tn_peer = peer, tn_route = http_select parse table rs, tn_messages = http_opens dp lim peer q, tn_holds = http_holds dp lim peer q,
       tn_objects = h[hx_limiter p := OLimiter (http_after dp lim peer q)]\<rparr>)"
| "entry_turn w h (HttpsCall J parse tls links rs peer) =
     (let p = w_https w; dp = plane (sx_conns p) (sx_acl p) h; lim = obj_limiter (h ! sx_limiter p); table = obj_hosts (h ! sx_hosts p);
          q = (J, parse, tls, links, table, rs) in
      \<lparr>tn_peer = peer, tn_route = https_select parse tls table rs, tn_messages = https_opens dp lim peer q, tn_holds = https_holds dp lim peer q,
       tn_objects = h[sx_limiter p := OLimiter (https_after dp lim peer q)]\<rparr>)"

text \<open>A round of the task that follows the configuration.\<close>

definition follow_objects :: "'k wiring \<Rightarrow> (SocketAddr \<Rightarrow> SocketAddr option) \<Rightarrow> (SocketAddr list \<Rightarrow> SocketAddr list) \<Rightarrow> object list \<Rightarrow> object list" where
  "follow_objects w os_bind order h =
     (let routes = cm_snapshot (obj_config (h ! as_config (w_app w))); tp = snd (tp_reconcile os_bind order routes (tcp_view h (w_tcp w))) in
      h[hx_hosts (w_http w) := OHosts (ht_reconcile routes (obj_hosts (h ! hx_hosts (w_http w)))),
        tx_routes (w_tcp w) := ORoutes (tp_routes tp), tx_own (w_tcp w) := OTcp tp])"

datatype sys_label = Called world http_call | Turned turn | Quiet

text \<open>The state is the store and the routes of the connections that hold a guard.\<close>

inductive sys_step :: "'k wiring \<Rightarrow> object list \<times> Uuid multiset \<Rightarrow> sys_label \<Rightarrow> object list \<times> Uuid multiset \<Rightarrow> bool" for w where
  sys_request: "serve W q (app_view h (w_app w)) = (r, s) \<Longrightarrow>
     sys_step w (h, held) (Called W q) (app_write (w_app w) s h, held)"
| sys_entry: "entry_turn w h c = t \<Longrightarrow>
     sys_step w (h, held) (Turned t) (tn_objects t, if tn_holds t then add_mset (sr_id (the (tn_route t))) held else held)"
| sys_ended: "rid \<in># held \<Longrightarrow>
     sys_step w (h, held) Quiet (h[tx_limiter (w_tcp w) := OLimiter (guard_drop rid (obj_limiter (h ! tx_limiter (w_tcp w))))], held - {#rid#})"
| sys_agent_up: "sys_step w (h, held) Quiet
     (h[qs_conns (w_quic w) := OConns (cr_register nid conn (obj_conns (h ! qs_conns (w_quic w)))),
        qs_sync (w_quic w) := OSync (snd (cs_register nid (obj_sync (h ! qs_sync (w_quic w)))))], held)"
| sys_agent_down: "sys_step w (h, held) Quiet
     (h[qs_conns (w_quic w) := OConns (cr_unregister nid (obj_conns (h ! qs_conns (w_quic w)))),
        qs_sync (w_quic w) := OSync (cs_unregister nid (obj_sync (h ! qs_sync (w_quic w))))], held)"
| sys_statement: "db_step (obj_db (h ! qs_db (w_quic w))) db \<Longrightarrow>
     sys_step w (h, held) Quiet (h[qs_db (w_quic w) := ODb db], held)"
| sys_follow: "sys_step w (h, held) Quiet (follow_objects w os_bind order h, held)"

inductive sys_run :: "'k wiring \<Rightarrow> object list \<times> Uuid multiset \<Rightarrow> sys_label list \<Rightarrow> object list \<times> Uuid multiset \<Rightarrow> bool" for w where
  run_none: "sys_run w c [] c"
| run_more: "sys_run w c ls c1 \<Longrightarrow> sys_step w c1 l c2 \<Longrightarrow> sys_run w c (ls @ [l]) c2"

definition wired :: "'k wiring \<Rightarrow> object list \<Rightarrow> bool" where
  "wired w h \<longleftrightarrow> shares w \<and> distinct (arcs w) \<and> set (arcs w) \<subseteq> {..<length h}"

text \<open>Steps never change the size of the store, so what is wired stays wired.\<close>

lemma length_follow [simp]: "length (follow_objects w os_bind order h) = length h"
  by (simp add: follow_objects_def Let_def)

lemma length_turn [simp]: "length (tn_objects (entry_turn w h c)) = length h"
  by (cases c) (simp_all add: Let_def)

lemma length_step: "sys_step w (h, held) l (h', held') \<Longrightarrow> length h' = length h"
  by (auto simp: app_write_def elim!: sys_step.cases)

lemma wired_step: "sys_step w (h, held) l (h', held') \<Longrightarrow> wired w h \<Longrightarrow> wired w h'"
  using length_step by (fastforce simp: wired_def)

lemma wired_refs:
  assumes "wired w h"
  shows "tx_acl (w_tcp w) = as_acl (w_app w)" "hx_acl (w_http w) = as_acl (w_app w)" "sx_acl (w_https w) = as_acl (w_app w)"
    "hx_limiter (w_http w) = tx_limiter (w_tcp w)" "sx_limiter (w_https w) = tx_limiter (w_tcp w)"
    "tx_conns (w_tcp w) = qs_conns (w_quic w)" "as_sync (w_app w) = qs_sync (w_quic w)" "qs_db (w_quic w) = as_db (w_app w)"
    "as_events (w_app w) = qs_events (w_quic w)"
  using assms by (simp_all add: wired_def shares_def)

lemma wired_bounds: "wired w h \<Longrightarrow> as_acl (w_app w) < length h" "wired w h \<Longrightarrow> tx_limiter (w_tcp w) < length h"
  by (simp_all add: wired_def arcs_def)

lemma wired_distinct:
  assumes "wired w h"
  shows "distinct [as_db (w_app w), as_sessions (w_app w), qs_events (w_quic w), as_acl (w_app w), as_login (w_app w),
      qs_sync (w_quic w), as_config (w_app w), qs_conns (w_quic w), tx_routes (w_tcp w), tx_limiter (w_tcp w),
      tx_own (w_tcp w), hx_hosts (w_http w)]"
proof -
  have "distinct (arcs w)" using assms by (simp only: wired_def)
  then show ?thesis by (simp add: arcs_def wired_refs [OF assms])
qed

text \<open>The cells that other steps write are not those of the access rules and of the limiter.\<close>

lemma acl_apart:
  assumes "wired w h"
  shows "as_db (w_app w) \<noteq> as_acl (w_app w)" "as_sessions (w_app w) \<noteq> as_acl (w_app w)" "qs_events (w_quic w) \<noteq> as_acl (w_app w)"
    "as_login (w_app w) \<noteq> as_acl (w_app w)" "qs_sync (w_quic w) \<noteq> as_acl (w_app w)" "as_config (w_app w) \<noteq> as_acl (w_app w)"
    "qs_conns (w_quic w) \<noteq> as_acl (w_app w)" "tx_routes (w_tcp w) \<noteq> as_acl (w_app w)" "tx_limiter (w_tcp w) \<noteq> as_acl (w_app w)"
    "tx_own (w_tcp w) \<noteq> as_acl (w_app w)" "hx_hosts (w_http w) \<noteq> as_acl (w_app w)"
  using wired_distinct [OF assms] by (simp_all add: eq_commute [of _ "as_acl (w_app w)"])

lemma limiter_apart:
  assumes "wired w h"
  shows "as_db (w_app w) \<noteq> tx_limiter (w_tcp w)" "as_sessions (w_app w) \<noteq> tx_limiter (w_tcp w)"
    "qs_events (w_quic w) \<noteq> tx_limiter (w_tcp w)" "as_login (w_app w) \<noteq> tx_limiter (w_tcp w)" "qs_sync (w_quic w) \<noteq> tx_limiter (w_tcp w)"
    "as_config (w_app w) \<noteq> tx_limiter (w_tcp w)" "qs_conns (w_quic w) \<noteq> tx_limiter (w_tcp w)" "tx_routes (w_tcp w) \<noteq> tx_limiter (w_tcp w)"
    "as_acl (w_app w) \<noteq> tx_limiter (w_tcp w)" "tx_own (w_tcp w) \<noteq> tx_limiter (w_tcp w)" "hx_hosts (w_http w) \<noteq> tx_limiter (w_tcp w)"
  using wired_distinct [OF assms] by (simp_all add: eq_commute [of _ "tx_limiter (w_tcp w)"])

section \<open>Access rules are enforced everywhere\<close>

definition acl_in_force :: "'k wiring \<Rightarrow> object list \<Rightarrow> AclSnapshot" where
  "acl_in_force w h = obj_acl (h ! as_acl (w_app w))"

lemma acl_step:
  assumes "sys_step w (h, held) l (h', held')" "wired w h" "\<And>W q. l = Called W q \<Longrightarrow> \<not> acl_call W q"
  shows "acl_in_force w h' = acl_in_force w h"
  using assms(1)
proof (cases rule: sys_step.cases)
  case (sys_request W q r s)
  have "keeps a_acl (serve W q)" using assms(3) sys_request(1) by (intro serve_frame(1)) simp
  then have "a_acl s = obj_acl (h ! as_acl (w_app w))"
    using keepsD [of a_acl "serve W q" "app_view h (w_app w)"] sys_request by (simp add: app_view_def)
  then show ?thesis using sys_request wired_bounds [OF assms(2)]
    by (simp add: acl_in_force_def app_write_def wired_refs [OF assms(2)] acl_apart [OF assms(2)])
next
  case (sys_entry c t)
  then show ?thesis
    by (cases c) (auto simp: acl_in_force_def Let_def wired_refs [OF assms(2)] acl_apart [OF assms(2)])
qed (simp_all add: acl_in_force_def follow_objects_def Let_def wired_refs [OF assms(2)] acl_apart [OF assms(2)])

text \<open>Whoever an entry point lets through is admitted by the rules in force.\<close>

lemma turn_admitted:
  assumes "wired w h" "m \<in> set (tn_messages (entry_turn w h c))"
  shows "\<exists>route. tn_route (entry_turn w h c) = Some route
    \<and> acl_allows (acl_in_force w h) (sr_id route) (tn_peer (entry_turn w h c)) (sr_target_host route) (sr_target_port route)"
proof (cases c)
  case (TcpCall J links addr peer)
  then show ?thesis
    using assms(2) wired_refs [OF assms(1)]
    by (auto simp: Let_def admits_def acl_admits_def plane_def acl_in_force_def dest!: tcp_entry.only_admitted)
next
  case (HttpCall J parse links rs peer)
  then show ?thesis
    using assms(2) wired_refs [OF assms(1)]
    by (auto simp: Let_def admits_def acl_admits_def plane_def acl_in_force_def dest!: http_entry.only_admitted)
next
  case (HttpsCall J parse tls links rs peer)
  then show ?thesis
    using assms(2) wired_refs [OF assms(1)]
    by (auto simp: Let_def admits_def acl_admits_def plane_def acl_in_force_def dest!: https_entry.only_admitted)
qed

lemma run_admitted:
  assumes "sys_run w c ls c'" "wired w (fst c)" "\<forall>W q. Called W q \<in> set ls \<longrightarrow> \<not> acl_call W q"
  shows "wired w (fst c') \<and> acl_in_force w (fst c') = acl_in_force w (fst c)
    \<and> (\<forall>t m. Turned t \<in> set ls \<longrightarrow> m \<in> set (tn_messages t) \<longrightarrow> (\<exists>route. tn_route t = Some route
        \<and> acl_allows (acl_in_force w (fst c)) (sr_id route) (tn_peer t) (sr_target_host route) (sr_target_port route)))"
  using assms
proof (induction rule: sys_run.induct)
  case (run_more c ls c1 l c2)
  obtain h1 held1 where c1: "c1 = (h1, held1)" by force
  obtain h2 held2 where c2: "c2 = (h2, held2)" by force
  have IH: "wired w h1" "acl_in_force w h1 = acl_in_force w (fst c)"
    "\<And>t m. Turned t \<in> set ls \<Longrightarrow> m \<in> set (tn_messages t) \<Longrightarrow> \<exists>route. tn_route t = Some route
        \<and> acl_allows (acl_in_force w (fst c)) (sr_id route) (tn_peer t) (sr_target_host route) (sr_target_port route)"
    using run_more by (auto simp: c1)
  have step: "sys_step w (h1, held1) l (h2, held2)" using run_more.hyps(2) by (simp add: c1 c2)
  have "\<exists>route. tn_route t = Some route
      \<and> acl_allows (acl_in_force w (fst c)) (sr_id route) (tn_peer t) (sr_target_host route) (sr_target_port route)"
    if "l = Turned t" "m \<in> set (tn_messages t)" for t m
    using step that turn_admitted [OF IH(1)] IH(2) by (auto elim!: sys_step.cases)
  then show ?case
    using wired_step [OF step IH(1)] acl_step [OF step IH(1)] IH run_more.prems(2) by (auto simp: c2)
qed simp

text \<open>A successful write of access rules puts the rules of the database in force.\<close>

lemma acl_written:
  assumes "api_dispatch (wd_framework W) (hc_method q) (hc_path q) = Run op ps" "op = CreateAclRule \<or> op = DeleteAclRule"
    and "serve W q s0 = (Ok y, s)"
  shows "\<exists>u b aid v s1. api_create_acl_rule (wd_api W) (hc_env q) u b s1 = (Ok v, s)
    \<or> api_delete_acl_rule (wd_api W) (hc_env q) u aid s1 = (Ok (), s)"
  using assms
  by (auto simp: serve_def with_user_def json_def extracted_def replying_def hbind_Ok) blast+

text \<open>C16. Access rules are enforced at once and everywhere.  After an access rule was created or deleted through the management
  interface, whatever then happens to the server short of the next such change - requests, connections, agents
  that come and go, configuration changes - each message that the TCP, HTTP or HTTPS entry point sends to an agent is for
  a client that the rules in the database as of that change admit: no rule concerns the route, or one
  that matches allows it and none that matches denies it.\<close>

theorem access_rules_enforced:
  assumes "wired w h" "serve W q (app_view h (w_app w)) = (Ok y, s)"
    and "api_dispatch (wd_framework W) (hc_method q) (hc_path q) = Run op ps" "op = CreateAclRule \<or> op = DeleteAclRule"
    and "sys_run w (app_write (w_app w) s h, held) ls c" "\<forall>W q. Called W q \<in> set ls \<longrightarrow> \<not> acl_call W q"
    and "Turned t \<in> set ls" "m \<in> set (tn_messages t)"
  defines "in_force \<equiv> rule_in_force (x_parse_uuid (y_ext (wd_api W))) (t_acl_rules (a_db s))"
    and "hits \<equiv> \<lambda>r route. rule_matches r (sa_ip (tn_peer t)) (sa_port (tn_peer t)) (sr_target_host route) (sr_target_port route)"
  shows "\<exists>route. tn_route t = Some route
    \<and> ((\<forall>r. \<not> in_force (sr_id route) r)
       \<or> (\<exists>r. in_force (sr_id route) r \<and> hits r route) \<and> \<not> (\<exists>r. in_force (sr_id route) r \<and> hits r route \<and> acl_action r = Deny))"
proof -
  let ?h = "app_write (w_app w) s h"
  have "wired w ?h" using assms(1) by (simp add: wired_def app_write_def)
  then obtain route where r: "tn_route t = Some route"
      "acl_allows (acl_in_force w ?h) (sr_id route) (tn_peer t) (sr_target_host route) (sr_target_port route)"
    using run_admitted [OF assms(5) _ assms(6)] assms(7,8) by auto
  have "acl_in_force w ?h = a_acl s"
    using wired_bounds [OF assms(1)] by (simp add: acl_in_force_def app_write_def wired_refs [OF assms(1)] acl_apart [OF assms(1)])
  moreover obtain u b aid v s1 where "api_create_acl_rule (wd_api W) (hc_env q) u b s1 = (Ok v, s)
      \<or> api_delete_acl_rule (wd_api W) (hc_env q) u aid s1 = (Ok (), s)"
    using acl_written [OF assms(3,4,2)] by blast
  ultimately show ?thesis
    using acl_write_takes_effect [of "wd_api W" "hc_env q" u b s1 v s aid] r by (auto simp: in_force_def hits_def)
qed

section \<open>Limits hold over all entry points\<close>

lemma guard_drop_active: "conn_active i (guard_drop rid lm) = (if i = rid then conn_active i lm - 1 else conn_active i lm)"
  by (auto simp: guard_drop_def fetch_sub_def conn_active_def)

lemma counted_drop:
  assumes "guards_counted lm held" "rid \<in># held"
  shows "guards_counted (guard_drop rid lm) (held - {#rid#})"
  unfolding guards_counted_def
proof
  fix i
  have "1 \<le> count held rid" using assms(2) by (simp add: Suc_leI)
  then show "conn_active i (guard_drop rid lm) = of_nat (count (held - {#rid#}) i)"
    using assms(1) by (simp add: guards_counted_def guard_drop_active of_nat_diff)
qed

definition limiter_exact :: "'k wiring \<Rightarrow> object list \<times> Uuid multiset \<Rightarrow> bool" where
  "limiter_exact w c \<longleftrightarrow> guards_counted (obj_limiter (fst c ! tx_limiter (w_tcp w))) (snd c)"

lemma turn_guard:
  assumes "wired w h" "guards_counted (obj_limiter (h ! tx_limiter (w_tcp w))) held" "entry_turn w h c = t"
  shows "guards_counted (obj_limiter (tn_objects t ! tx_limiter (w_tcp w)))
      (if tn_holds t then add_mset (sr_id (the (tn_route t))) held else held)"
    and "tn_holds t \<Longrightarrow> size held < 2 ^ 64 \<Longrightarrow> \<exists>route limit. tn_route t = Some route \<and> route_limit route = Some limit
      \<and> count (add_mset (sr_id route) held) (sr_id route) \<le> unat limit"
proof -
  note refs = wired_refs [OF assms(1)] and bound = wired_bounds(2) [OF assms(1)]
  have "guards_counted (obj_limiter (tn_objects t ! tx_limiter (w_tcp w)))
      (if tn_holds t then add_mset (sr_id (the (tn_route t))) held else held)
    \<and> (tn_holds t \<longrightarrow> size held < 2 ^ 64 \<longrightarrow> (\<exists>route limit. tn_route t = Some route \<and> route_limit route = Some limit
      \<and> count (add_mset (sr_id route) held) (sr_id route) \<le> unat limit))"
  proof (cases c)
    case (TcpCall J links addr peer)
    let ?dp = "plane (tx_conns (w_tcp w)) (tx_acl (w_tcp w)) h" and ?q = "(J, links, addr, tcp_view h (w_tcp w))"
    show ?thesis
      using assms(3) bound tcp_guard.counted_after [OF assms(2), of ?dp peer ?q] tcp_guard.within_limit [OF assms(2), of ?dp peer ?q]
      by (auto simp: TcpCall Let_def simp del: count_add_mset)
  next
    case (HttpCall J parse links rs peer)
    let ?dp = "plane (hx_conns (w_http w)) (as_acl (w_app w)) h" and ?q = "(J, parse, links, obj_hosts (h ! hx_hosts (w_http w)), rs, ''http'')"
    show ?thesis
      using assms(3) bound http_guard.counted_after [OF assms(2), of ?dp peer ?q] http_guard.within_limit [OF assms(2), of ?dp peer ?q]
      by (auto simp: HttpCall Let_def refs simp del: count_add_mset)
  next
    case (HttpsCall J parse tls links rs peer)
    let ?dp = "plane (sx_conns (w_https w)) (as_acl (w_app w)) h" and ?q = "(J, parse, tls, links, obj_hosts (h ! sx_hosts (w_https w)), rs)"
    show ?thesis
      using assms(3) bound https_guard.counted_after [OF assms(2), of ?dp peer ?q] https_guard.within_limit [OF assms(2), of ?dp peer ?q]
      by (auto simp: HttpsCall Let_def refs simp del: count_add_mset)
  qed
  then show "guards_counted (obj_limiter (tn_objects t ! tx_limiter (w_tcp w)))
      (if tn_holds t then add_mset (sr_id (the (tn_route t))) held else held)"
    "tn_holds t \<Longrightarrow> size held < 2 ^ 64 \<Longrightarrow> \<exists>route limit. tn_route t = Some route \<and> route_limit route = Some limit
      \<and> count (add_mset (sr_id route) held) (sr_id route) \<le> unat limit" by blast+
qed

lemma limiter_step:
  assumes "sys_step w (h, held) l (h', held')" "wired w h" "limiter_exact w (h, held)"
  shows "limiter_exact w (h', held')"
  using assms(1)
proof (cases rule: sys_step.cases)
  case (sys_entry c t)
  then show ?thesis using turn_guard(1) [OF assms(2) _ sys_entry(4)] assms(3) by (simp add: limiter_exact_def)
next
  case (sys_ended rid)
  then show ?thesis
    using assms(3) wired_bounds(2) [OF assms(2)] counted_drop by (auto simp: limiter_exact_def)
qed (use assms(3) in \<open>simp_all add: limiter_exact_def app_write_def follow_objects_def Let_def wired_refs [OF assms(2)]
    limiter_apart [OF assms(2)]\<close>)

lemma limiter_run:
  assumes "sys_run w c ls c'" "wired w (fst c)" "limiter_exact w c"
  shows "wired w (fst c') \<and> limiter_exact w c'"
  using assms
proof (induction rule: sys_run.induct)
  case (run_more c ls c1 l c2)
  then show ?case using wired_step limiter_step by (metis prod.collapse)
qed simp

text \<open>C18. The connection limit of a route holds over all entry points together.  However requests, TCP, HTTP and HTTPS
  connections, the ends of connections, agents and configuration changes follow on each other after the start: whenever a
  connection is admitted to a route with a limit, the connections of this route that hold a place, through whatever
  entry points they came, are with it at most as many as the limit says.  (The counter has 64 bits.)\<close>

theorem limits_hold_across_entries:
  assumes "wired w h0" "obj_limiter (h0 ! tx_limiter (w_tcp w)) = Map.empty" "sys_run w (h0, {#}) ls (h, held)"
    and "sys_step w (h, held) (Turned t) (h', held')" "tn_holds t" "size held < 2 ^ 64"
  shows "\<exists>route limit. tn_route t = Some route \<and> route_limit route = Some limit \<and> count held' (sr_id route) \<le> unat limit"
proof -
  have "limiter_exact w (h0, {#})" using assms(2) by (simp add: limiter_exact_def guards_counted_def conn_active_def)
  then have inv: "wired w h" "limiter_exact w (h, held)" using limiter_run [OF assms(3)] assms(1) by simp_all
  obtain c where c: "entry_turn w h c = t" "held' = add_mset (sr_id (the (tn_route t))) held"
    using assms(4,5) by (auto elim: sys_step.cases)
  obtain route limit where "tn_route t = Some route" "route_limit route = Some limit"
      "count (add_mset (sr_id route) held) (sr_id route) \<le> unat limit"
    using turn_guard(2) [OF inv(1) _ c(1) assms(5,6)] inv(2) by (auto simp: limiter_exact_def)
  then show ?thesis using c(2) by simp
qed

section \<open>Witnesses\<close>

text \<open>A small server with one TCP route, to which the node 9 is connected.\<close>

definition small_route :: ServerRoute where
  "small_route = sample_route\<lparr>sr_limits := Some (default_limits\<lparr>max_connections := Some 1\<rparr>)\<rparr>"

definition small_addr :: SocketAddr where "small_addr = \<lparr>sa_ip = V4 1, sa_port = 80\<rparr>"

definition small_peer :: SocketAddr where "small_peer = \<lparr>sa_ip = V4 2, sa_port = 9\<rparr>"

definition small_wiring :: "unit wiring" where
  "small_wiring =
     \<lparr>w_config = default_server_config,
      w_quic = \<lparr>qs_db = 0, qs_sessions = 1, qs_conns = 3, qs_sync = 4, qs_events = 2, qs_heartbeat_timeout = 45000,
        qs_udp = Some \<lparr>ux_routes = 8, ux_conns = 3, ux_sync = 4, ux_own = 11\<rparr>\<rparr>,
      w_tcp = \<lparr>tx_routes = 8, tx_conns = 3, tx_acl = 6, tx_limiter = 7, tx_own = 10\<rparr>,
      w_udp = \<lparr>ux_routes = 8, ux_conns = 3, ux_sync = 4, ux_own = 11\<rparr>,
      w_http = \<lparr>hx_hosts = 9, hx_conns = 3, hx_acl = 6, hx_limiter = 7, hx_addr = small_addr\<rparr>,
      w_https = \<lparr>sx_certs = new_cert_store, sx_hosts = 9, sx_conns = 3, sx_acl = 6, sx_limiter = 7, sx_addr = small_addr\<rparr>,
      w_app = \<lparr>as_db = 0, as_sessions = 12, as_events = 2, as_acl = 6, as_login = 13, as_allow_unsafe_targets = False,
        as_readiness = 14, as_web_dir = None, as_sync = 4, as_config = 5\<rparr>\<rparr>"

definition small_udp :: UdpProxy where
  "small_udp = (case bind_with_limits Some [] [] cs_new UDP_IDLE_TIMEOUT default_rate_limits of Inr up \<Rightarrow> up)"

definition small_store :: "object list" where
  "small_store =
     [ODb sample_db, ONodes [], OEvents [], OConns [(9, 0)], OSync cs_new, OConfig new_config_manager, OAcl empty_snapshot,
      OLimiter Map.empty, ORoutes [(small_addr, small_route)], OHosts [],
      OTcp \<lparr>tp_routes = [(small_addr, small_route)], tp_listeners = [], tp_accepted = 0\<rparr>,
      OUdp small_udp, OStore (snd (ss_create 1000 ''sid'' ''tok'' (sample_account ''admin'') new_store)), OLogin ll_default,
      OReady readiness_ready]"

definition mute_link :: agent_link where
  "mute_link = \<lparr>lk_open = True, lk_send_ok = \<lambda>_. False, lk_recv = \<lparr>pending = [], ending = Eof\<rparr>, lk_late = False, lk_write_ok = \<lambda>_. False\<rparr>"

lemma small_wired: "wired small_wiring small_store"
  by (simp add: wired_def shares_def arcs_def small_wiring_def small_store_def)

definition small_turn :: "serde_json \<Rightarrow> object list \<Rightarrow> turn" where
  "small_turn J h = entry_turn small_wiring h (TcpCall J (\<lambda>_. mute_link) small_addr small_peer)"

text \<open>Its entry point admits a client whenever the rules in force do.\<close>

lemma small_turn_admits:
  assumes "acl_allows (acl_in_force small_wiring h) 1 small_peer ''10.0.0.5'' 80" "length h = 15" "h ! 3 = OConns [(9, 0)]"
    "h ! 7 = OLimiter Map.empty" "h ! 8 = ORoutes [(small_addr, small_route)]"
  shows "tn_route (small_turn J h) = Some small_route" "tn_messages (small_turn J h) = [open_tcp small_route (show_socket small_peer)]"
    "tn_holds (small_turn J h)"
proof -
  have r: "rt_lookup small_addr (tp_routes (tcp_view h (w_tcp small_wiring))) = Some small_route"
    using assms(5) by (simp add: small_wiring_def tcp_view_def rt_lookup_def)
  have a: "acl_admits (plane 3 6 h) small_route small_peer"
    using assms(1) by (simp add: acl_admits_def plane_def acl_in_force_def small_wiring_def small_route_def sample_route_def)
  have c: "cr_get (sr_node_id small_route) (dp_conns (plane 3 6 h)) = Some 0" "route_limit small_route = Some 1"
    using assms(3) by (simp_all add: plane_def cr_get_def small_route_def sample_route_def route_limit_def)
  have g: "fst (take_guard small_route Map.empty)"
    by (simp add: take_guard_iff c conn_active_def)
  show "tn_route (small_turn J h) = Some small_route"
    using r by (simp add: small_turn_def Let_def)
  show "tn_messages (small_turn J h) = [open_tcp small_route (show_socket small_peer)]" "tn_holds (small_turn J h)"
    using r a c g assms(4)
    by (auto simp: small_turn_def Let_def small_wiring_def tcp_opens_def tcp_holds_def accept_tcp_def forward_tcp_def mute_link_def
        admits_def conn_active_def split: prod.splits bool.splits)
qed

theorem limits_hold_across_entries_witness:
  "\<forall>J. \<exists>h' held'. sys_step small_wiring (small_store, {#}) (Turned (small_turn J small_store)) (h', held')
     \<and> (\<exists>route limit. tn_route (small_turn J small_store) = Some route \<and> route_limit route = Some limit
          \<and> count held' (sr_id route) \<le> unat limit)"
proof
  fix J
  let ?t = "small_turn J small_store"
  have t: "tn_holds ?t"
    by (rule small_turn_admits(3))
      (simp_all add: small_store_def small_wiring_def acl_in_force_def acl_allows_def empty_snapshot_def)
  obtain h' held' where step: "sys_step small_wiring (small_store, {#}) (Turned ?t) (h', held')"
    using sys_entry [OF small_turn_def [symmetric], where held = "{#}"] by blast
  have "\<exists>route limit. tn_route ?t = Some route \<and> route_limit route = Some limit \<and> count held' (sr_id route) \<le> unat limit"
    by (rule limits_hold_across_entries [OF small_wired _ run_none step t]) (simp_all add: small_store_def small_wiring_def)
  with step show "\<exists>h' held'. sys_step small_wiring (small_store, {#}) (Turned ?t) (h', held')
     \<and> (\<exists>route limit. tn_route ?t = Some route \<and> route_limit route = Some limit \<and> count held' (sr_id route) \<le> unat limit)"
    by blast
qed

definition allow_any :: AclRequest where
  "allow_any = deny_all\<lparr>aq_action := ''Allow''\<rparr>"

text \<open>Any web framework, with a request that it matches to the creation of this rule.\<close>

definition acl_world :: "world \<Rightarrow> world" where
  "acl_world W = W\<lparr>wd_api := sample_api,
     wd_framework := (wd_framework W)\<lparr>fw_match := (\<lambda>ps path. Some (path, [])), fw_acl := (\<lambda>_ _. Ok allow_any)\<rparr>\<rparr>"

definition acl_request :: http_call where
  "acl_request = anonymous_call\<lparr>hc_path := ''/api/v1/acl-rules'', hc_headers := [(''authorization'', ''Bearer tok'')],
     hc_env := sample_env\<rparr>"

lemma acl_request_dispatch:
  "api_dispatch (wd_framework (acl_world W)) (hc_method acl_request) (hc_path acl_request) = Run CreateAclRule []"
  by (simp add: api_dispatch_def acl_world_def acl_request_def anonymous_call_def router_defs)

lemma trim_allow: "trim ''Allow'' = ''Allow''"
  by (rule trim_graphic; simp add: graphic_def code_numeral_simps)

lemma acl_request_served:
  "\<exists>y s. serve (acl_world W) acl_request (app_view small_store (w_app small_wiring)) = (Ok y, s)
     \<and> a_acl s = acl_reload (x_parse_uuid (y_ext sample_api)) (Ok [(sample_acl_row ''allow'' None)\<lparr>aclr_id := ''u'', aclr_tenant_id := ''default''\<rparr>]) empty_snapshot"
proof -
  let ?s = "app_view small_store (w_app small_wiring)"
  have user: "fst (user_by_access_token 1000 ''tok'' (a_sessions ?s)) = Some (sample_account ''admin'')"
    by (simp add: app_view_def small_store_def small_wiring_def store_defs ttl_defs)
  then obtain st where "user_by_access_token 1000 ''tok'' (a_sessions ?s) = (Some (sample_account ''admin''), st)"
    by (metis prod.collapse)
  then have u: "require_user sample_env [(''authorization'', ''Bearer tok'')] ?s = (Ok (sample_account ''admin''), ?s\<lparr>a_sessions := st\<rparr>)"
    by (simp add: require_user_def current_user_def bearer_tok session_now_def sample_env_def)
  have "\<exists>v s. api_create_acl_rule sample_api sample_env (sample_account ''admin'') allow_any (?s\<lparr>a_sessions := st\<rparr>) = (Ok v, s)
     \<and> a_acl s = acl_reload (x_parse_uuid (y_ext sample_api)) (Ok [(sample_acl_row ''allow'' None)\<lparr>aclr_id := ''u'', aclr_tenant_id := ''default''\<rparr>]) empty_snapshot"
    by (auto simp: api_create_acl_rule_def require_permission_def allow_any_def deny_all_def hbind_db write_audit_def insert_audit_log_def
        get_acl_rule_def app_view_def small_store_def small_wiring_def sample_db_eval sample_account_def user_has_permission_def role_has_permission_def
        create_acl_rule_def reload_acl_def audit_row_def trim_allow lowercase_eval sample_env_def sample_acl_row_def Let_def list_acl_rules_def)
  then obtain v s where "api_create_acl_rule sample_api sample_env (sample_account ''admin'') allow_any (?s\<lparr>a_sessions := st\<rparr>) = (Ok v, s)"
    and acl: "a_acl s = acl_reload (x_parse_uuid (y_ext sample_api)) (Ok [(sample_acl_row ''allow'' None)\<lparr>aclr_id := ''u'', aclr_tenant_id := ''default''\<rparr>]) empty_snapshot"
    by blast
  moreover have "serve (acl_world W) acl_request = run_operation (acl_world W) acl_request [] CreateAclRule"
    by (simp add: serve_def acl_request_dispatch)
  ultimately have "serve (acl_world W) acl_request ?s = (Ok (OneAcl v), s)"
    using u by (simp add: with_user_def json_def extracted_def replying_def hbind_def hlift_def acl_world_def acl_request_def anonymous_call_def)
  with acl show ?thesis by blast
qed

lemma small_store_written:
  "length (app_write (w_app small_wiring) s small_store) = 15" "app_write (w_app small_wiring) s small_store ! 3 = OConns [(9, 0)]"
  "app_write (w_app small_wiring) s small_store ! 7 = OLimiter Map.empty"
  "app_write (w_app small_wiring) s small_store ! 8 = ORoutes [(small_addr, small_route)]"
  "acl_in_force small_wiring (app_write (w_app small_wiring) s small_store) = a_acl s"
  by (simp_all add: app_write_def small_wiring_def small_store_def acl_in_force_def)

theorem access_rules_enforced_witness:
  "\<forall>W J. \<exists>y s. serve (acl_world W) acl_request (app_view small_store (w_app small_wiring)) = (Ok y, s)
     \<and> (let t = small_turn J (app_write (w_app small_wiring) s small_store) in
          tn_messages t = [open_tcp small_route (show_socket small_peer)]
          \<and> (\<exists>route. tn_route t = Some route
               \<and> \<not> (\<exists>r. rule_in_force (x_parse_uuid (y_ext sample_api)) (t_acl_rules (a_db s)) (sr_id route) r
                     \<and> rule_matches r (sa_ip small_peer) (sa_port small_peer) (sr_target_host route) (sr_target_port route) \<and> acl_action r = Deny)))"
proof (intro allI)
  fix W J
  let ?row = "(sample_acl_row ''allow'' None)\<lparr>aclr_id := ''u'', aclr_tenant_id := ''default''\<rparr>"
  let ?pu = "x_parse_uuid (y_ext sample_api)"
  obtain y s where s: "serve (acl_world W) acl_request (app_view small_store (w_app small_wiring)) = (Ok y, s)"
    and acl: "a_acl s = acl_reload ?pu (Ok [?row]) empty_snapshot"
    using acl_request_served by blast
  let ?h = "app_write (w_app small_wiring) s small_store"
  define r where "r = \<lparr>acl_action = Allow, acl_source_cidr = None, acl_source_port = None, acl_target_host = None, acl_target_port = None\<rparr>"
  have in_force: "rule_in_force ?pu [?row] 1 r' \<longleftrightarrow> r' = r" for r'
    by (auto simp: rule_in_force_def row_applies_def row_to_rule_def sample_acl_row_def r_def)
  have "acl_allows (acl_in_force small_wiring ?h) 1 small_peer ''10.0.0.5'' 80"
    unfolding small_store_written acl acl_allows_reloaded in_force by (simp add: r_def rule_matches_def)
  then have t: "tn_messages (small_turn J ?h) = [open_tcp small_route (show_socket small_peer)]"
    by (rule small_turn_admits(2)) (rule small_store_written)+
  have run: "sys_run small_wiring (?h, {#}) ([] @ [Turned (small_turn J ?h)]) (tn_objects (small_turn J ?h),
      if tn_holds (small_turn J ?h) then add_mset (sr_id (the (tn_route (small_turn J ?h)))) {#} else {#})"
    by (rule run_more [OF run_none]) (rule sys_entry [OF small_turn_def [symmetric]])
  have peer: "tn_peer (small_turn J ?h) = small_peer" by (simp add: small_turn_def Let_def)
  have route: "tn_route (small_turn J ?h) = Some small_route"
    using \<open>acl_allows _ _ _ _ _\<close> by (rule small_turn_admits(1)) (rule small_store_written)+
  have "\<exists>route. tn_route (small_turn J ?h) = Some route
      \<and> ((\<forall>r. \<not> rule_in_force ?pu (t_acl_rules (a_db s)) (sr_id route) r)
         \<or> (\<exists>r. rule_in_force ?pu (t_acl_rules (a_db s)) (sr_id route) r
              \<and> rule_matches r (sa_ip small_peer) (sa_port small_peer) (sr_target_host route) (sr_target_port route))
            \<and> \<not> (\<exists>r. rule_in_force ?pu (t_acl_rules (a_db s)) (sr_id route) r
              \<and> rule_matches r (sa_ip small_peer) (sa_port small_peer) (sr_target_host route) (sr_target_port route) \<and> acl_action r = Deny))"
    using access_rules_enforced [OF small_wired s acl_request_dispatch _ run, of "small_turn J ?h" "open_tcp small_route (show_socket small_peer)"] t
    by (simp add: peer acl_world_def)
  then show "\<exists>y s. serve (acl_world W) acl_request (app_view small_store (w_app small_wiring)) = (Ok y, s)
     \<and> (let t = small_turn J (app_write (w_app small_wiring) s small_store) in
          tn_messages t = [open_tcp small_route (show_socket small_peer)]
          \<and> (\<exists>route. tn_route t = Some route
               \<and> \<not> (\<exists>r. rule_in_force (x_parse_uuid (y_ext sample_api)) (t_acl_rules (a_db s)) (sr_id route) r
                     \<and> rule_matches r (sa_ip small_peer) (sa_port small_peer) (sr_target_host route) (sr_target_port route) \<and> acl_action r = Deny)))"
    using s t by (intro exI [of _ y] exI [of _ s]) (auto simp: Let_def)
qed

end
