(* ===== verification/Serving.thy ===== *)
theory Serving
  imports System
begin

text \<open>
  From the management interface to the agents: what the HTTP entry point serves after a route was written and the task that
  follows the configuration has had its turn.
\<close>

section \<open>A write of routes reloads the configuration\<close>

lemma list_routes_cong: "t_routes db = t_routes db' \<Longrightarrow> list_routes db = list_routes db'"
  by (simp add: list_routes_def)

definition reloaded :: "api_externals \<Rightarrow> app \<Rightarrow> bool" where
  "reloaded Y s \<longleftrightarrow> (\<exists>m. a_config s = snd (cm_reload (x_parse_uuid (y_ext Y)) (x_parse_limits (y_ext Y)) (Ok (list_routes (a_db s))) m))"

lemma reloaded_reload: "reloaded Y (reload_config Y s)"
  by (auto simp: reloaded_def reload_config_def)

lemma reloaded_cong: "a_config s' = a_config s \<Longrightarrow> t_routes (a_db s') = t_routes (a_db s) \<Longrightarrow> reloaded Y s \<Longrightarrow> reloaded Y s'"
  unfolding reloaded_def by (metis list_routes_cong)

lemma audit_events_frame:
  "write_audit E i uid ac rt rid meta s = (Ok u, s') \<Longrightarrow> a_config s' = a_config s \<and> t_routes (a_db s') = t_routes (a_db s)"
  "route_events k rid nid s = (Ok u, s') \<Longrightarrow> a_config s' = a_config s \<and> t_routes (a_db s') = t_routes (a_db s)"
  by (auto simp: route_events_def publish_def hbind_Ok dest!: write_audit_Ok)

lemma route_write_reloads:
  "api_create_route Y E u r s0 = (Ok v, s) \<Longrightarrow> reloaded Y s" "api_update_route Y E u i p s0 = (Ok v, s) \<Longrightarrow> reloaded Y s"
  "api_delete_route Y E u i s0 = (Ok d, s) \<Longrightarrow> reloaded Y s" "set_enabled Y E uid i en ac s0 = (Ok v, s) \<Longrightarrow> reloaded Y s"
  unfolding api_create_route_def api_update_route_def api_delete_route_def set_enabled_def Let_def fetch_route_def
  by (auto simp: hbind_Ok elim!: reloaded_cong [rotated 2, OF reloaded_reload] dest!: audit_events_frame)

definition route_write :: "operation \<Rightarrow> bool" where
  "route_write op \<longleftrightarrow> op \<in> {CreateTheRoute, UpdateTheRoute, DeleteTheRoute, EnableTheRoute, DisableTheRoute}"

lemma served_write_reloads:
  assumes "api_dispatch (wd_framework W) (hc_method q) (hc_path q) = Run op ps" "route_write op" "serve W q s0 = (Ok y, s)"
  shows "reloaded (wd_api W) s"
  using assms
  by (auto simp: route_write_def serve_def with_user_def json_def extracted_def replying_def hbind_Ok api_enable_route_def
      api_disable_route_def dest: route_write_reloads)

lemma reloaded_snapshot:
  assumes "reloaded Y s" "cm_load (x_parse_uuid (y_ext Y)) (x_parse_limits (y_ext Y)) (Ok (list_routes (a_db s))) = Ok routes"
    "validate_routes routes = Ok ()"
  shows "cm_snapshot (a_config s) = routes"
  using assms by (auto simp: reloaded_def cm_reload_def cm_replace_def)

section \<open>What the HTTP entry point serves\<close>

text \<open>A client asks for a host if a request head with this \<open>Host\<close> can be read from it, up to case and a port.\<close>

definition asks_for :: "(bytes \<Rightarrow> http_request option) \<Rightarrow> reads \<Rightarrow> string \<Rightarrow> bool" where
  "asks_for parse rs host \<longleftrightarrow>
     (case read_head [] rs of
        (Inr (Some n), buf, _) \<Rightarrow>
          (case parse (take n buf) of
             Some req \<Rightarrow> rq_method req \<noteq> None \<and> rq_path req \<noteq> None
               \<and> to_ascii_lowercase (host_for_lookup (host_header (rq_headers req))) = to_ascii_lowercase host
           | None \<Rightarrow> False)
      | _ \<Rightarrow> False)"

lemma asks_for_select: "asks_for parse rs host \<Longrightarrow> http_select parse table rs = ht_lookup host table"
  by (cases "read_head [] rs"; cases "fst (read_head [] rs)")
    (auto simp: asks_for_def http_select_def ht_lookup_def split: option.splits)

lemma select_lookup: "http_select parse table rs = Some r \<Longrightarrow> \<exists>host. ht_lookup host table = Some r"
  by (auto simp: http_select_def bind_eq_Some_conv split: sum.splits option.splits prod.splits if_splits)

lemma admitted_opens:
  assumes "http_select parse table rs = Some route" "admits dp lm route peer" "cr_get (sr_node_id route) (dp_conns dp) = Some conn"
    "lk_open (links conn)"
  shows "http_opens dp lm peer (J, parse, links, table, rs, proto) = [open_tcp route (show_socket peer)]"
proof -
  obtain lim1 where g: "take_guard route lm = (True, lim1)"
    using assms(2) take_guard_iff [of route lm] by (cases "take_guard route lm") (auto simp: admits_def)
  have msgs: "http_messages (fst (serve_http J links dp route peer lm head body)) = [open_tcp route (show_socket peer)]" for head body
    using assms(2-4) g
    by (auto simp: serve_http_def admits_def relay_http_def Let_def split: sum.splits option.splits Message.splits)
  show ?thesis
    using assms(1)
    by (cases rule: handle_http_cases [of parse table rs J links dp peer proto lm]) (auto simp: http_opens_def msgs)
qed

lemma collect_rows_set: "collect_rows f rs = Ok ss \<Longrightarrow> s \<in> set ss \<longleftrightarrow> (\<exists>r\<in>set rs. f r = Ok s)"
proof (induction rs arbitrary: ss)
  case (Cons r rs)
  then obtain y ys where "f r = Ok y" "collect_rows f rs = Ok ys" "ss = y # ys"
    by (cases "f r"; cases "collect_rows f rs") auto
  with Cons.IH [of ys] show ?case by auto
qed auto

section \<open>The configuration and the host table, step by step\<close>

lemma config_apart:
  assumes "wired w h"
  shows "as_db (w_app w) \<noteq> as_config (w_app w)" "as_sessions (w_app w) \<noteq> as_config (w_app w)" "qs_events (w_quic w) \<noteq> as_config (w_app w)"
    "as_login (w_app w) \<noteq> as_config (w_app w)" "qs_sync (w_quic w) \<noteq> as_config (w_app w)" "as_acl (w_app w) \<noteq> as_config (w_app w)"
    "qs_conns (w_quic w) \<noteq> as_config (w_app w)" "tx_routes (w_tcp w) \<noteq> as_config (w_app w)" "tx_limiter (w_tcp w) \<noteq> as_config (w_app w)"
    "tx_own (w_tcp w) \<noteq> as_config (w_app w)" "hx_hosts (w_http w) \<noteq> as_config (w_app w)"
  using wired_distinct [OF assms] by (simp_all add: eq_commute [of _ "as_config (w_app w)"])

lemma hosts_apart:
  assumes "wired w h"
  shows "as_db (w_app w) \<noteq> hx_hosts (w_http w)" "as_sessions (w_app w) \<noteq> hx_hosts (w_http w)" "qs_events (w_quic w) \<noteq> hx_hosts (w_http w)"
    "as_login (w_app w) \<noteq> hx_hosts (w_http w)" "qs_sync (w_quic w) \<noteq> hx_hosts (w_http w)" "as_acl (w_app w) \<noteq> hx_hosts (w_http w)"
    "qs_conns (w_quic w) \<noteq> hx_hosts (w_http w)" "tx_routes (w_tcp w) \<noteq> hx_hosts (w_http w)" "tx_limiter (w_tcp w) \<noteq> hx_hosts (w_http w)"
    "tx_own (w_tcp w) \<noteq> hx_hosts (w_http w)" "as_config (w_app w) \<noteq> hx_hosts (w_http w)"
  using wired_distinct [OF assms] by (simp_all add: eq_commute [of _ "hx_hosts (w_http w)"])

lemma serving_bounds: "wired w h \<Longrightarrow> as_config (w_app w) < length h" "wired w h \<Longrightarrow> hx_hosts (w_http w) < length h"
  by (simp_all add: wired_def arcs_def)

definition config_routes :: "'k wiring \<Rightarrow> object list \<Rightarrow> ServerRoute list" where
  "config_routes w h = cm_snapshot (obj_config (h ! as_config (w_app w)))"

definition hosts_now :: "'k wiring \<Rightarrow> object list \<Rightarrow> HostTable" where
  "hosts_now w h = obj_hosts (h ! hx_hosts (w_http w))"

lemma ht_reconcile_afresh: "ht_reconcile routes t = ht_reconcile routes []"
  by (simp add: ht_reconcile_def)

lemma follow_tables:
  assumes "wired w h"
  shows "config_routes w (follow_objects w os_bind order h) = config_routes w h"
    "hosts_now w (follow_objects w os_bind order h) = ht_reconcile (config_routes w h) []"
  using serving_bounds [OF assms]
  by (simp_all add: config_routes_def hosts_now_def follow_objects_def Let_def config_apart [OF assms] hosts_apart [OF assms]
      ht_reconcile_afresh [of _ "obj_hosts (h ! hx_hosts (w_http w))"])

lemma written_config:
  assumes "wired w h"
  shows "config_routes w (app_write (w_app w) s h) = cm_snapshot (a_config s)" "hosts_now w (app_write (w_app w) s h) = hosts_now w h"
  using serving_bounds [OF assms]
  by (simp_all add: config_routes_def hosts_now_def app_write_def wired_refs [OF assms] config_apart [OF assms] hosts_apart [OF assms])

lemma serving_step:
  assumes "sys_step w (h, held) l (h', held')" "wired w h" "\<And>W q. l = Called W q \<Longrightarrow> \<not> route_call W q"
  shows "config_routes w h' = config_routes w h
    \<and> (hosts_now w h' = hosts_now w h \<or> hosts_now w h' = ht_reconcile (config_routes w h) [])"
  using assms(1)
proof (cases rule: sys_step.cases)
  case (sys_request W q r s)
  have "keeps a_config (serve W q)" using assms(3) sys_request(1) by (intro serve_frame(2)) simp
  then have "a_config s = obj_config (h ! as_config (w_app w))"
    using keepsD [of a_config "serve W q" "app_view h (w_app w)"] sys_request by (simp add: app_view_def)
  then show ?thesis using sys_request written_config [OF assms(2)] by (simp add: config_routes_def)
next
  case (sys_entry c t)
  then show ?thesis
    by (cases c) (auto simp: config_routes_def hosts_now_def Let_def wired_refs [OF assms(2)] config_apart [OF assms(2)] hosts_apart [OF assms(2)])
next
  case (sys_follow os_bind order)
  then show ?thesis by (simp add: follow_tables [OF assms(2)])
qed (simp_all add: config_routes_def hosts_now_def wired_refs [OF assms(2)] config_apart [OF assms(2)] hosts_apart [OF assms(2)])

lemma serving_run:
  assumes "sys_run w c ls c'" "wired w (fst c)" "\<forall>W q. Called W q \<in> set ls \<longrightarrow> \<not> route_call W q"
  shows "wired w (fst c') \<and> config_routes w (fst c') = config_routes w (fst c)
    \<and> (hosts_now w (fst c) = ht_reconcile (config_routes w (fst c)) [] \<longrightarrow> hosts_now w (fst c') = ht_reconcile (config_routes w (fst c)) [])"
  using assms
proof (induction rule: sys_run.induct)
  case (run_more c ls c1 l c2)
  obtain h1 held1 h2 held2 where c: "c1 = (h1, held1)" "c2 = (h2, held2)" by force
  have step: "sys_step w (h1, held1) l (h2, held2)" using run_more.hyps(2) by (simp add: c)
  have IH: "wired w h1" "config_routes w h1 = config_routes w (fst c)"
    "hosts_now w (fst c) = ht_reconcile (config_routes w (fst c)) [] \<Longrightarrow> hosts_now w h1 = ht_reconcile (config_routes w (fst c)) []"
    using run_more by (auto simp: c)
  have "config_routes w h2 = config_routes w h1 \<and> (hosts_now w h2 = hosts_now w h1 \<or> hosts_now w h2 = ht_reconcile (config_routes w h1) [])"
    using run_more.prems(2) by (intro serving_step [OF step IH(1)]) simp
  then show ?case using wired_step [OF step IH(1)] IH by (auto simp: c)
qed simp

text \<open>C17. A stored route is served, and only stored routes are.  After a route was created, changed, enabled, disabled or deleted
  through the management interface, let the task that follows the configuration have its turn at some moment, and let anything
  else happen to the server before and after it, short of the next such change: requests, connections, agents that
  come and go, restores.  If the rows of the database as of the change can be reloaded, then a client that asks the HTTP
  entry point for the host name of an enabled route in these rows gets exactly this route, and if it is admitted and the
  agent accepts the stream, the agent is sent its OPEN_TCP and nothing else; and whatever route any client is given, it
  is an enabled one of these rows, so a route that was deleted or disabled gets no traffic.\<close>

theorem written_routes_served:
  assumes "wired w h" "serve W q (app_view h (w_app w)) = (Ok y, s)"
    and "api_dispatch (wd_framework W) (hc_method q) (hc_path q) = Run op ps" "route_write op"
    and "is_ok (fst (cm_reload (x_parse_uuid (y_ext (wd_api W))) (x_parse_limits (y_ext (wd_api W))) (Ok (list_routes (a_db s))) m))"
    and "sys_run w (app_write (w_app w) s h, held) ls (h1, held1)" "\<forall>W q. Called W q \<in> set ls \<longrightarrow> \<not> route_call W q"
    and "sys_run w (follow_objects w os_bind order h1, held1) ls' (h2, held2)" "\<forall>W q. Called W q \<in> set ls' \<longrightarrow> \<not> route_call W q"
  defines "stored \<equiv> \<lambda>route. \<exists>row\<in>set (list_routes (a_db s)).
      try_from_row (x_parse_uuid (y_ext (wd_api W))) (x_parse_limits (y_ext (wd_api W))) row = Ok route"
    and "got \<equiv> \<lambda>J parse links rs peer. entry_turn w h2 (HttpCall J parse links rs peer)"
    and "conns \<equiv> obj_conns (h2 ! hx_conns (w_http w))"
  shows "(stored route \<and> sr_enabled route \<and> host_key route = Some (to_ascii_lowercase host) \<and> asks_for parse rs host
      \<longrightarrow> tn_route (got J parse links rs peer) = Some route
        \<and> (admits (plane (hx_conns (w_http w)) (hx_acl (w_http w)) h2) (obj_limiter (h2 ! hx_limiter (w_http w))) route peer
             \<and> cr_get (sr_node_id route) conns = Some conn \<and> lk_open (links conn)
           \<longrightarrow> tn_messages (got J parse links rs peer) = [open_tcp route (show_socket peer)]))
   \<and> (tn_route (got J parse links rs peer) = Some route \<longrightarrow> stored route \<and> sr_enabled route)"
proof -
  let ?pu = "x_parse_uuid (y_ext (wd_api W))" and ?pl = "x_parse_limits (y_ext (wd_api W))" and ?h = "app_write (w_app w) s h"
  obtain routes where load: "cm_load ?pu ?pl (Ok (list_routes (a_db s))) = Ok routes" and valid: "validate_routes routes = Ok ()"
    using assms(5) by (auto simp: cm_reload_def split: sum.splits)
  have wh: "wired w ?h" using assms(1) by (simp add: wired_def app_write_def)
  have "cm_snapshot (a_config s) = routes"
    by (rule reloaded_snapshot [OF served_write_reloads [OF assms(3,4,2)] load valid])
  then have first: "wired w h1" "config_routes w h1 = routes"
    using serving_run [OF assms(6) _ assms(7)] wh written_config(1) [OF assms(1), of s] by auto
  have "wired w (follow_objects w os_bind order h1)" using first(1) by (simp add: wired_def)
  then have table: "hosts_now w h2 = ht_reconcile routes []"
    using serving_run [OF assms(8) _ assms(9)] follow_tables [OF first(1)] first(2) by auto
  have lookup: "ht_lookup k (hosts_now w h2) = Some r \<longleftrightarrow> r \<in> set routes \<and> sr_enabled r \<and> host_key r = Some (to_ascii_lowercase k)" for k r
    unfolding table by (rule ht_lookup_reconcile) (use valid in \<open>simp add: validate_routes_iff\<close>)
  have stored: "stored r \<longleftrightarrow> r \<in> set routes" for r
    using load collect_rows_set [of "try_from_row ?pu ?pl" "list_routes (a_db s)" routes r]
    by (auto simp: stored_def cm_load_def split: sum.splits)
  have turn: "tn_route (got J parse links rs peer) = http_select parse (hosts_now w h2) rs"
    "tn_messages (got J parse links rs peer) = http_opens (plane (hx_conns (w_http w)) (hx_acl (w_http w)) h2) (obj_limiter (h2 ! hx_limiter (w_http w))) peer
       (J, parse, links, hosts_now w h2, rs, ''http'')"
    by (simp_all add: got_def Let_def hosts_now_def)
  show ?thesis
  proof (intro conjI impI)
    assume *: "stored route \<and> sr_enabled route \<and> host_key route = Some (to_ascii_lowercase host) \<and> asks_for parse rs host"
    then show select: "tn_route (got J parse links rs peer) = Some route"
      using turn(1) asks_for_select lookup stored by metis
    assume "admits (plane (hx_conns (w_http w)) (hx_acl (w_http w)) h2) (obj_limiter (h2 ! hx_limiter (w_http w))) route peer
        \<and> cr_get (sr_node_id route) conns = Some conn \<and> lk_open (links conn)"
    then show "tn_messages (got J parse links rs peer) = [open_tcp route (show_socket peer)]"
      using select turn by (auto simp: conns_def plane_def intro!: admitted_opens)
  next
    assume "tn_route (got J parse links rs peer) = Some route"
    then show "stored route" "sr_enabled route"
      using turn(1) select_lookup lookup stored by metis+
  qed
qed

section \<open>Witness\<close>

text \<open>The small server, with the agent of the node of the new route connected, any web framework with a request that it matches
  to the creation of a route for \<open>a.io\<close>, and a browser that asks for this host.\<close>

definition route_store :: "object list" where
  "route_store = small_store[3 := OConns [(1, 0)]]"

definition route_world :: "world \<Rightarrow> world" where
  "route_world W = W\<lparr>wd_api := any_uuid_api,
     wd_framework := (wd_framework W)\<lparr>fw_match := (\<lambda>ps path. Some (path, [])), fw_route := (\<lambda>_ _. Ok (RouteApi.sample_request ''web'' ''a.io''))\<rparr>\<rparr>"

definition route_request :: http_call where
  "route_request = anonymous_call\<lparr>hc_path := ''/api/v1/routes'', hc_headers := [(''authorization'', ''Bearer tok'')],
     hc_env := sample_env\<rparr>"

definition browser :: http_request where
  "browser = HttpProxy.sample_request\<lparr>rq_headers := [(''Host'', [97, 46, 105, 111])]\<rparr>"

lemma browser_host: "from_utf8_lossy [97, 46, 105, 111] = ''a.io''"
  by (simp add: from_utf8_lossy_def utf8_first_def chr_def char_of_def bit_simps)

lemma browser_asks: "asks_for (\<lambda>_. Some browser) [Inr [71, 13, 10, 13, 10]] ''a.io''"
  by (simp add: asks_for_def read_head.simps find_header_end_def CRLF_def MAX_HEAD_BYTES_def browser_def HttpProxy.sample_request_def
      host_header_def eq_ignore_ascii_case_def lowercase_eval browser_host host_for_lookup_def rsplit_once_def split_once_def)

lemma route_store_wired: "wired small_wiring route_store"
  using small_wired by (simp add: wired_def route_store_def)

lemma route_request_dispatch:
  "api_dispatch (wd_framework (route_world W)) (hc_method route_request) (hc_path route_request) = Run CreateTheRoute []"
  by (simp add: api_dispatch_def route_world_def route_request_def anonymous_call_def router_defs)

definition new_row :: RouteRow where
  "new_row = (case create_route (e_uuid sample_env 0) (route_columns (sample_input ''web'' ''a.io'') None) (e_ts sample_env) sample_db of
     Inr db \<Rightarrow> hd (list_routes db))"

lemma route_request_served:
  "\<exists>y s. serve (route_world W) route_request (app_view route_store (w_app small_wiring)) = (Ok y, s)
     \<and> list_routes (a_db s) = [new_row] \<and> a_acl s = empty_snapshot"
proof -
  let ?s = "app_view route_store (w_app small_wiring)"
  have user: "fst (user_by_access_token 1000 ''tok'' (a_sessions ?s)) = Some (sample_account ''admin'')"
    by (simp add: app_view_def route_store_def small_store_def small_wiring_def store_defs ttl_defs)
  then obtain st where "user_by_access_token 1000 ''tok'' (a_sessions ?s) = (Some (sample_account ''admin''), st)"
    by (metis prod.collapse)
  then have u: "require_user sample_env [(''authorization'', ''Bearer tok'')] ?s = (Ok (sample_account ''admin''), ?s\<lparr>a_sessions := st\<rparr>)"
    by (simp add: require_user_def current_user_def bearer_tok session_now_def sample_env_def)
  obtain db where db: "create_route (e_uuid sample_env 0) (route_columns (sample_input ''web'' ''a.io'') None) (e_ts sample_env) sample_db = Ok db"
    by (simp add: create_route_def sample_input_def route_columns_def sample_db_eval)
  have app: "a_db ?s = sample_db" "a_allow_unsafe_targets ?s = False" "a_acl ?s = empty_snapshot"
    by (simp_all add: app_view_def route_store_def small_store_def small_wiring_def)
  obtain v s where c: "api_create_route any_uuid_api sample_env (sample_account ''admin'') (RouteApi.sample_request ''web'' ''a.io'')
      (?s\<lparr>a_sessions := st\<rparr>) = (Ok v, s)" and rows: "t_routes (a_db s) = t_routes db"
    using api_create_route_succeeds [OF _ normalize_sample, of "sample_account ''admin''" "?s\<lparr>a_sessions := st\<rparr>" any_uuid_api None sample_env db]
      accepted_sample db app
    by (auto simp: sample_account_def user_has_permission_def role_has_permission_def limits_json_def sample_input_def sample_db_eval)
  have "list_routes db = [new_row]"
    using db by (auto simp: new_row_def list_routes_def create_route_def sample_db_eval split: if_splits)
  then have "list_routes (a_db s) = [new_row]" using list_routes_cong [OF rows] by simp
  moreover have "a_acl s = empty_snapshot"
    using keepsD [OF rules_in_force.frame_routes(1), of any_uuid_api sample_env "sample_account ''admin''"
        "RouteApi.sample_request ''web'' ''a.io''" "?s\<lparr>a_sessions := st\<rparr>"] c app by simp
  moreover have "serve (route_world W) route_request = run_operation (route_world W) route_request [] CreateTheRoute"
    by (simp add: serve_def route_request_dispatch)
  then have "serve (route_world W) route_request ?s = (Ok (OneRoute v), s)"
    using u c by (simp add: with_user_def json_def extracted_def replying_def hbind_def hlift_def route_world_def route_request_def anonymous_call_def)
  ultimately show ?thesis by blast
qed

lemma new_row_parses:
  "\<exists>route. try_from_row (\<lambda>_. Some 1) (x_parse_limits (y_ext any_uuid_api)) new_row = Ok route \<and> sr_enabled route
     \<and> host_key route = Some (to_ascii_lowercase ''a.io'') \<and> sr_node_id route = 1 \<and> sr_limits route = None
     \<and> is_ok (fst (cm_reload (\<lambda>_. Some 1) (x_parse_limits (y_ext any_uuid_api)) (Ok [new_row]) new_config_manager))"
  by (simp add: new_row_def list_routes_def create_route_def sample_input_def route_columns_def sample_db_eval route_row_def
      try_from_row_def route_type_from_str_def u16_try_from_def host_key_def lowercase_eval cm_reload_def cm_load_def validate_routes_def)

theorem written_routes_served_witness:
  "\<forall>W J. \<exists>y s route. serve (route_world W) route_request (app_view route_store (w_app small_wiring)) = (Ok y, s)
     \<and> tn_messages (entry_turn small_wiring (follow_objects small_wiring (\<lambda>_. None) id (app_write (w_app small_wiring) s route_store))
          (HttpCall J (\<lambda>_. Some browser) (\<lambda>_. mute_link) [Inr [71, 13, 10, 13, 10]] small_peer))
        = [open_tcp route (show_socket small_peer)] \<and> host_key route = Some ''a.io''"
proof (intro allI)
  fix W J
  obtain y s where s: "serve (route_world W) route_request (app_view route_store (w_app small_wiring)) = (Ok y, s)"
    and rows: "list_routes (a_db s) = [new_row]" and acl: "a_acl s = empty_snapshot"
    using route_request_served by blast
  obtain route where route: "try_from_row (\<lambda>_. Some 1) (x_parse_limits (y_ext any_uuid_api)) new_row = Ok route" "sr_enabled route"
      "host_key route = Some (to_ascii_lowercase ''a.io'')" "sr_node_id route = 1" "sr_limits route = None"
    and loads: "is_ok (fst (cm_reload (\<lambda>_. Some 1) (x_parse_limits (y_ext any_uuid_api)) (Ok [new_row]) new_config_manager))"
    using new_row_parses by blast
  let ?h = "app_write (w_app small_wiring) s route_store"
  let ?f = "follow_objects small_wiring (\<lambda>_. None) id ?h"
  have cells: "?f ! 3 = OConns [(1, 0)]" "?f ! 6 = OAcl empty_snapshot" "?f ! 7 = OLimiter Map.empty"
    by (simp_all add: follow_objects_def Let_def app_write_def small_wiring_def route_store_def small_store_def acl)
  have "admits (plane (hx_conns (w_http small_wiring)) (hx_acl (w_http small_wiring)) ?f) (obj_limiter (?f ! hx_limiter (w_http small_wiring)))
      route small_peer \<and> cr_get (sr_node_id route) (obj_conns (?f ! hx_conns (w_http small_wiring))) = Some 0 \<and> lk_open mute_link"
    using route(4,5) cells
    by (simp add: small_wiring_def plane_def admits_def acl_admits_def acl_allows_def empty_snapshot_def cr_get_def route_limit_def mute_link_def)
  then have "tn_messages (entry_turn small_wiring ?f (HttpCall J (\<lambda>_. Some browser) (\<lambda>_. mute_link) [Inr [71, 13, 10, 13, 10]] small_peer))
      = [open_tcp route (show_socket small_peer)]"
    using written_routes_served [OF route_store_wired s route_request_dispatch _ _ run_none _ run_none, where m = new_config_manager
        and os_bind = "\<lambda>_. None" and order = id and route = route and host = "''a.io''"
        and parse = "\<lambda>_. Some browser" and rs = "[Inr [71, 13, 10, 13, 10]]" and J = J and links = "\<lambda>_. mute_link" and peer = small_peer
        and conn = 0] route(1-3) loads rows browser_asks
    by (simp add: route_write_def route_world_def any_uuid_api_def)
  then show "\<exists>y s route. serve (route_world W) route_request (app_view route_store (w_app small_wiring)) = (Ok y, s)
     \<and> tn_messages (entry_turn small_wiring (follow_objects small_wiring (\<lambda>_. None) id (app_write (w_app small_wiring) s route_store))
          (HttpCall J (\<lambda>_. Some browser) (\<lambda>_. mute_link) [Inr [71, 13, 10, 13, 10]] small_peer))
        = [open_tcp route (show_socket small_peer)] \<and> host_key route = Some ''a.io''"
    using s route(3) by (auto simp: lowercase_eval)
qed

end
