(* ===== verification/Spec2Isabelle.thy ===== *)
theory Spec2Isabelle
  imports Relay Tokens UdpTasks Connection Bench Serving
begin

text \<open>
  Verification of RSTunnel, a self-hosted tunnel.  A server with a public address accepts TCP, UDP, HTTP and HTTPS
  traffic and hands it over QUIC to agents (nodes) in private networks, which connect to the targets.  Routes say which
  traffic goes to which node and target; they live in a SQLite database, are managed through a REST API, and are
  distributed to the agents by versioned snapshots and deltas.

  \<^bold>\<open>The parts and how they interact.\<close>  \<open>crates/tunnel-protocol\<close> defines frames and messages; an agent
  (\<open>agent/src\<close>) opens a QUIC connection, says HELLO and AUTH on a control stream, receives its configuration and then
  answers data streams that the server opens.  The server (\<open>server/src\<close>) has the control side (\<open>quic.rs\<close>,
  \<open>config_sync.rs\<close>, \<open>session.rs\<close>), the data plane (\<open>tcp_proxy.rs\<close>, \<open>http_proxy.rs\<close>, \<open>https_proxy.rs\<close>,
  \<open>tls_passthrough.rs\<close>, \<open>udp_proxy.rs\<close>), the tables both use (\<open>route.rs\<close>, \<open>config.rs\<close>, \<open>acl_store.rs\<close>,
  \<open>conn_limiter.rs\<close>, \<open>conn_registry.rs\<close>), and the management API (\<open>api/\<close>, \<open>snapshot.rs\<close>) over the database layer
  (\<open>crates/tunnel-db\<close>).  A write of the API changes rows, reloads the configuration, pushes a snapshot to the connected
  agent and broadcasts; a task then updates the tables of the data plane.

  \<^bold>\<open>Theories and sources.\<close>  In the order of their dependence; each keeps the names of the code, with a prefix
  where two parts share one.

  \<^item> \<open>Prelude\<close>: machine integers as words, the result type (\<open>Ok\<close>, \<open>Err\<close>, \<open>and_then\<close> for the question mark
    operator), string functions of the standard library on ASCII, shared lemmas and the collections \<open>wire_simps\<close>,
    \<open>policy_simps\<close> and \<open>table_simps\<close>.
  \<^item> \<open>Wire\<close>, \<open>Messages\<close>: \<open>crates/tunnel-protocol\<close> and \<open>frame_io.rs\<close>: frames, datagrams, streams, payloads.
  \<^item> \<open>Net\<close>: \<open>cidr.rs\<close> and \<open>target.rs\<close> of \<open>crates/tunnel-common\<close>, with the address parser of the standard library.
  \<^item> \<open>Rows\<close>, \<open>Database\<close>: \<open>crates/tunnel-db\<close>.  The state is a record of tables, each a list of rows; a statement is a function on
    it that fails where a constraint of the migrations is violated.
  \<^item> \<open>Policy\<close>: ACL (\<open>tunnel-core/acl.rs\<close>, \<open>acl_store.rs\<close>), target policy and data streams of the agent.
  \<^item> \<open>Routes\<close>: \<open>route.rs\<close>, \<open>config.rs\<close>: rows to routes, the listen and host tables, validation and reload.
  \<^item> \<open>ConfigSync\<close>: \<open>config_sync.rs\<close> of core, server and agent: deltas, push channels, the configuration of an agent.
  \<^item> \<open>Limiters\<close>: \<open>login_limiter.rs\<close>, and \<open>conn_limiter.rs\<close> with the interleavings of its atomic operations.
  \<^item> \<open>WebSession\<close>, \<open>Api\<close>, \<open>RouteApi\<close>, \<open>NodeApi\<close>: \<open>server/src/session.rs\<close> and \<open>api/\<close>.  A handler is a function on the
    application state that returns a response or an error and the new state, composed by \<open>hbind\<close> in the order of the code.
    \<open>RouteReload\<close> connects the rows these handlers store with the reload of the configuration.  \<open>Router\<close> has the tables of
    paths, the extractors and the dispatch of a request to its handler; \<open>ApiSafety\<close> what holds for every request.
  \<^item> \<open>NodeAuth\<close>, \<open>Control\<close>: \<open>tunnel-core/auth.rs\<close>, \<open>tunnel-core/session.rs\<close>, \<open>quic.rs\<close>, \<open>conn_registry.rs\<close>: handshake, control
    loop, registries.  \<open>Connection\<close>: \<open>handle_connection\<close> as a whole.
  \<^item> \<open>TlsSni\<close>, \<open>TcpProxy\<close>, \<open>HttpProxy\<close>, \<open>Udp\<close>: the entry points.  A handler returns the list of its externally visible actions.
    \<open>UdpTasks\<close> has the loops around the UDP handlers, turn by turn.
  \<^item> \<open>Relay\<close>: \<open>copy_duplex\<close> of both ends, once a stream is open.
  \<^item> \<open>Agent\<close>: \<open>session.rs\<close>, \<open>reconnect.rs\<close>: the life of an agent; with \<open>NodeAuth\<close>, both sides of the handshake together.
  \<^item> \<open>Backup\<close>: \<open>snapshot.rs\<close>, \<open>api/admin.rs\<close>.  \<open>Certs\<close>: \<open>certificate.rs\<close>, \<open>tls.rs\<close> of server and agent.
    \<open>Tokens\<close>: \<open>crates/tunnel-auth\<close>.
  \<^item> \<open>Startup\<close>: \<open>crates/tunnel-config\<close>, \<open>main.rs\<close> of both programs, \<open>readiness.rs\<close>.  \<open>Events\<close>: \<open>event.rs\<close>, \<open>api/ws.rs\<close>, the
    task that follows the configuration.
  \<^item> \<open>Metrics\<close>: \<open>crates/tunnel-metrics\<close>, \<open>api/metrics.rs\<close> and what the entry points report.  \<open>Bench\<close>: \<open>bench/src/main.rs\<close>.
  \<^item> \<open>Wiring\<close>: the constructors of the components and \<open>run\<close> of \<open>server/src/main.rs\<close> with shared objects in an explicit store.
    \<open>Guards\<close>: the places that connections of all entry points take in the limiter.  \<open>Frames\<close>: what requests leave alone.
    \<open>System\<close>: the running server, a step relation (\<open>sys_step\<close>) over the store with requests, connections, agents and the
    task that follows the configuration; \<open>Serving\<close>: from a write of routes to the traffic of agents.
  \<^item> \<open>Spec2Isabelle\<close> (this theory): the property of the entry points on values.

  \<^bold>\<open>Interfaces.\<close>  Where several parts keep one contract, it is a locale, interpreted on the definitions of the model:
  \<open>framing\<close> (a codec whose frames can be cut from a stream; \<open>frames\<close>), \<open>deny_overrides\<close> (a rule evaluation; \<open>acl\<close>),
  \<open>keyed_table\<close> (insert, lookup, remove; the listen table and the host table), \<open>data_plane_entry\<close> (an entry
  point that opens agent streams only for admitted clients; TCP, HTTP, HTTPS), \<open>route_table_invariant\<close> (an invariant that
  the statements of the route endpoints keep; safe targets, unique slots, typed rows), \<open>restore_table\<close> (the restore of one
  table; the six tables of a backup), \<open>db_property\<close> with \<open>whole_database\<close> and \<open>stored_routes\<close> (a property of the
  database that every operation of the interface keeps; the integrity of the keys, the routes, the revoked
  secrets), \<open>guarded_entry\<close> (an entry
  point that extends \<open>data_plane_entry\<close> and takes a place in the limiter exactly for the connections that go on; TCP, HTTP,
  HTTPS), and \<open>untouched_field\<close> with its two extensions (a component of the application state and the operations that do not
  notice it; the access rules in force, the configuration).

  \<^bold>\<open>What the lemmas show.\<close>  Codecs are inverse and reject what is malformed; lookups find exactly what was inserted;
  invariants of the database, the registries, the UDP sessions and the stored routes survive every operation, in the steps of
  \<open>db_step\<close>, \<open>hub_step\<close>, \<open>udp_reach\<close>, \<open>conn_step\<close> and \<open>sys_step\<close>; guards hold on every path that reaches an effect (admission, authentication,
  permissions, target checks); the agent's configuration is at any time a configuration the server had (\<open>ConfigSync\<close>), and its
  control loop applies and answers configuration messages as an abstract reading of them says (\<open>Agent\<close>); the login limiter refines a log of failures; loops end.  Over the whole server: the wiring refines the
  start-up on values and shares what it should, every request runs only with the permission it needs, access rules hold at all entry
  points, limits hold over all of them, and stored routes, only those, are served.  Some theorems state defects of the code, as it is:
  \<open>reconnect_loses_registration\<close>, \<open>host_case_variant_blocks_reload\<close>, \<open>export_of_tls_domain_rejected\<close>,
  \<open>truncation_looks_complete\<close>, \<open>udp_listener_dies\<close>, \<open>head_end_depends_on_reads\<close>, \<open>https_failures_uncounted\<close>,
  \<open>restore_stores_unchecked_routes\<close>, \<open>restore_not_distributed\<close>, \<open>older_backup_brings_secret_back\<close>, \<open>port_out_of_range_admits\<close>, \<open>undocumented\<close>, and the second part of \<open>data_plane_follows_config\<close>.

  \<^bold>\<open>Parameters.\<close>  Libraries outside the repository are arguments of the definitions: the JSON, YAML and TOML codecs, the HTTP
  parser, PEM, X.509 and TLS, SHA-256 and password hashing, UUID and time parsing and printing, \<open>tokio::io::copy\<close>, broadcast
  channels, name resolution, sockets and files (as functions that say how a call ends), random bytes, clocks, the order in
  which a hash map is traversed, and the rounding of floating-point operations.  Properties that need something of them say so in
  hypotheses (inverse codecs, injective identifiers, reliable transport), and the witnesses instantiate these.

  \<^bold>\<open>Bounds and fuel.\<close>  Integers have their width.  \<open>show_digits\<close> prints with 5 digits for 16 bits and 20 for 64 bits, enough in
  base ten; \<open>read_until_close\<close> has more fuel than there are frames, and a lemma shows that more fuel than bytes is always
  enough.  \<open>drain_poll\<close> and \<open>reconnect_loop\<close> may run forever and are partial functions; theorems give the conditions under which they
  return.  The identifiers of UDP sessions do not repeat below \<open>2 ^ 64\<close> packets, which the property assumes.

  \<^bold>\<open>Not modelled.\<close>  Logging; the counter of UDP packets, the round-trip gauge and the reconnect counter, and the text
  format of the metrics library; the QUIC library and the spawning of tasks (each handler is a function of the state it finds, and a
  step of \<open>sys_step\<close> is a whole handler; where handlers can interleave and it matters, as in the connection limiter and the
  registries, the smaller steps are explicit); argument parsing, the texts of the OpenAPI document and static files; time-outs of single
  socket operations, which are outcomes of the parameters; the bodies of error texts that use the debug formatter; fuzz targets,
  tests, deployment and the web front end.
\<close>

section \<open>Properties across components\<close>

text \<open>C19. Only admitted traffic reaches an agent.  Whatever a client sends to the TCP, the HTTP or the HTTPS entry
  point, and however parser, TLS acceptor, sockets and agents behave: each message an entry point sends to an
  agent is the OPEN_TCP of the one route selected for this request, with the true address of the client, and
  at that moment the ACL admitted the client, the node of the route was connected and the route was below
  its connection limit.\<close>

theorem data_plane_only_admitted:
  "(m \<in> set (agent_messages (fst (accept_tcp J links dp addr peer (tp, limiter)))) \<longrightarrow>
      (\<exists>route. rt_lookup addr (tp_routes tp) = Some route \<and> admits dp limiter route peer \<and> m = open_tcp route (show_socket peer)))
   \<and> (m \<in> set (http_messages (fst (handle_http J parse links dp table rs peer proto limiter))) \<longrightarrow>
      (\<exists>route. http_select parse table rs = Some route \<and> admits dp limiter route peer \<and> m = open_tcp route (show_socket peer)))
   \<and> (handle_https J parse tls links dp table rs peer limiter = Some (acts, limiter') \<and> m \<in> set (http_messages acts) \<longrightarrow>
      (\<exists>route. https_select parse tls table rs = Some route \<and> admits dp limiter route peer \<and> m = open_tcp route (show_socket peer)))"
  using tcp_entry.only_admitted [of m dp limiter peer "(J, links, addr, tp)"]
    http_entry.only_admitted [of m dp limiter peer "(J, parse, links, table, rs, proto)"]
    https_entry.only_admitted [of m dp limiter peer "(J, parse, tls, links, table, rs)"]
  by (auto simp: tcp_opens_def http_opens_def https_opens_def)

definition busy_link :: agent_link where
  "busy_link = \<lparr>lk_open = True, lk_send_ok = \<lambda>_. False, lk_recv = \<lparr>pending = [], ending = Eof\<rparr>, lk_late = False, lk_write_ok = \<lambda>_. False\<rparr>"

theorem data_plane_only_admitted_witness:
  "\<forall>J. open_tcp sample_route (show_socket \<lparr>sa_ip = V4 1, sa_port = 9\<rparr>) \<in> set (http_messages (fst (handle_http J
      (\<lambda>_. Some sample_request) (\<lambda>_. busy_link) \<lparr>dp_conns = [(9, 0)], dp_acl = empty_snapshot\<rparr>
      [(''ab'', sample_route)] [Inr [71, 13, 10, 13, 10]] \<lparr>sa_ip = V4 1, sa_port = 9\<rparr> ''http'' Map.empty)))
   \<and> admits \<lparr>dp_conns = [(9, 0)], dp_acl = empty_snapshot\<rparr> Map.empty sample_route \<lparr>sa_ip = V4 1, sa_port = 9\<rparr>"
proof (intro allI conjI)
  fix J
  let ?peer = "\<lparr>sa_ip = V4 1, sa_port = 9\<rparr>" and ?dp = "\<lparr>dp_conns = [(9, 0)], dp_acl = empty_snapshot\<rparr>"
  let ?m = "open_tcp sample_route (show_socket ?peer)" and ?rs = "[Inr [71, 13, 10, 13, 10]] :: reads"
  let ?h = "handle_http J (\<lambda>_. Some sample_request) (\<lambda>_. busy_link) ?dp [(''ab'', sample_route)] ?rs ?peer ''http'' Map.empty"
  have served: "fst (serve_http J (\<lambda>_. busy_link) ?dp sample_route ?peer Map.empty head body) = [Agent (SendMessage ?m 0)]" for head body
    by (simp add: serve_http_def acl_admits_def acl_allows_def empty_snapshot_def take_guard_def route_limit_def
        sample_route_def cr_get_def relay_http_def busy_link_def Let_def)
  show sent: "?m \<in> set (http_messages (fst ?h))"
    using sample_select
    by (cases rule: handle_http_cases [of "\<lambda>_. Some sample_request" "[(''ab'', sample_route)]" ?rs J "\<lambda>_. busy_link" ?dp ?peer "''http''" Map.empty])
      (auto simp: served)
  show "admits ?dp Map.empty sample_route ?peer"
    using sent sample_select
      data_plane_only_admitted [where m = ?m and J = J and links = "\<lambda>_. busy_link" and dp = ?dp and peer = ?peer and limiter = Map.empty
        and parse = "\<lambda>_. Some sample_request" and table = "[(''ab'', sample_route)]" and rs = ?rs and proto = "''http''"]
    by simp
qed

end
